(* ===== verification/Prelude.thy ===== *)
theory Prelude
  imports Complex_Main "HOL-Library.AList" "HOL-Library.Sublist" "HOL-Library.Multiset"
begin

text \<open>
  Shared vocabulary of the development: the value domain of JSON-like Python data, the
  part of Python's standard library that the modelled code calls (string methods, rounding,
  truth values, ordered dictionaries), backward searches over lists, and the lemma
  collections the component theories use.

  A Python \<open>dict\<close> is an association list with distinct keys in insertion order:
  \<open>AList.update\<close> assigns in place or appends, \<open>AList.delete\<close> removes, \<open>map_of\<close> looks up.
  A \<open>float\<close> is an exact rational: rounding errors of IEEE arithmetic are outside the
  model, \<open>round(x, n)\<close> is inside it; infinities and NaN are the values \<open>PInf\<close> (negative or not) and
  \<open>PNan\<close>. A character is one Latin-1 code point.
\<close>

named_theorems last_simps \<open>backward searches\<close>
named_theorems dict_simps \<open>ordered dictionaries\<close>
named_theorems str_simps \<open>Python string methods\<close>

section \<open>Values\<close>

datatype pyval =
    PNone
  | PBool bool
  | PInt int
  | PFloat rat
  | PInf bool
  | PNan
  | PStr string
  | PList "pyval list"
  | PDict "(string \<times> pyval) list"

type_synonym pydict = "(string \<times> pyval) list"

text \<open>\<open>d.get(k)\<close> is \<open>PNone\<close> when the key is absent.\<close>

definition dict_get :: "pydict \<Rightarrow> string \<Rightarrow> pyval" where
  "dict_get d k = (case map_of d k of Some v \<Rightarrow> v | None \<Rightarrow> PNone)"

definition dict_merge :: "('k \<times> 'v) list \<Rightarrow> ('k \<times> 'v) list \<Rightarrow> ('k \<times> 'v) list" where
  "dict_merge d e = foldl (\<lambda>acc (k, v). AList.update k v acc) d e"

text \<open>Truth values, as \<open>bool(x)\<close>.\<close>

fun truthy :: "pyval \<Rightarrow> bool" where
  "truthy PNone = False"
| "truthy (PBool b) = b"
| "truthy (PInt n) = (n \<noteq> 0)"
| "truthy (PFloat r) = (r \<noteq> 0)"
| "truthy (PInf neg) = True"
| "truthy PNan = True"
| "truthy (PStr s) = (s \<noteq> [])"
| "truthy (PList xs) = (xs \<noteq> [])"
| "truthy (PDict d) = (d \<noteq> [])"

text \<open>\<open>==\<close>: booleans and integers and floats are compared as numbers, dicts as maps.\<close>

fun py_number :: "pyval \<Rightarrow> rat option" where
  "py_number (PBool b) = Some (if b then 1 else 0)"
| "py_number (PInt n) = Some (of_int n)"
| "py_number (PFloat r) = Some r"
| "py_number v = None"

fun py_eq :: "pyval \<Rightarrow> pyval \<Rightarrow> bool"
  and py_eq_list :: "pyval list \<Rightarrow> pyval list \<Rightarrow> bool"
  and py_eq_dict :: "pydict \<Rightarrow> pydict \<Rightarrow> bool" where
  "py_eq PNone w = (w = PNone)"
| "py_eq (PStr s) w = (w = PStr s)"
| "py_eq (PList xs) w = (case w of PList ys \<Rightarrow> py_eq_list xs ys | _ \<Rightarrow> False)"
| "py_eq (PDict d) w = (case w of PDict e \<Rightarrow> length d = length e \<and> py_eq_dict d e | _ \<Rightarrow> False)"
| "py_eq (PInf neg) w = (w = PInf neg)"
| "py_eq PNan w = False"
| "py_eq v w = (py_number w \<noteq> None \<and> py_number v = py_number w)"
| "py_eq_list [] ys = (ys = [])"
| "py_eq_list (x # xs) ys = (case ys of [] \<Rightarrow> False | y # ys' \<Rightarrow> py_eq x y \<and> py_eq_list xs ys')"
| "py_eq_dict [] e = True"
| "py_eq_dict ((k, v) # d) e =
     ((case map_of e k of None \<Rightarrow> False | Some w \<Rightarrow> py_eq v w) \<and> py_eq_dict d e)"

lemma py_eq_str [simp]: "py_eq v (PStr s) = (v = PStr s)"
  by (cases v) auto

lemma py_eq_none [simp]: "py_eq v PNone = (v = PNone)"
  by (cases v) auto

definition truthy_str :: "string option \<Rightarrow> bool" where
  "truthy_str x = (case x of None \<Rightarrow> False | Some s \<Rightarrow> s \<noteq> [])"

definition or_empty :: "string option \<Rightarrow> string" where
  "or_empty x = (case x of None \<Rightarrow> [] | Some s \<Rightarrow> s)"

lemma or_empty_simps [simp]: "or_empty None = []" "or_empty (Some s) = s"
  by (simp_all add: or_empty_def)

lemma truthy_str_simps [simp]: "truthy_str None = False" "truthy_str (Some s) = (s \<noteq> [])"
  by (simp_all add: truthy_str_def)

text \<open>The exceptions the modelled code can raise, as the left values of a sum.\<close>

datatype py_error =
    AttributeError
  | TypeError
  | ValueError
  | IndexError
  | KeyError string

section \<open>Rounding\<close>

text \<open>\<open>round\<close> of Python: to the nearest, ties to even.\<close>

definition round_half_even :: "rat \<Rightarrow> int" where
  "round_half_even x =
     (let f = \<lfloor>x\<rfloor>; d = x - of_int f
      in if d < 1 / 2 then f else if d > 1 / 2 then f + 1 else if even f then f else f + 1)"

definition py_round :: "nat \<Rightarrow> rat \<Rightarrow> rat" where
  "py_round n x = of_int (round_half_even (x * 10 ^ n)) / 10 ^ n"

lemma round_half_even_of_int [simp]: "round_half_even (of_int k) = k"
  by (simp add: round_half_even_def)

lemma round_half_even_le:
  assumes "x \<le> of_int k"
  shows "round_half_even x \<le> k"
proof (cases "x = of_int k")
  case True
  then show ?thesis by simp
next
  case False
  with assms have "x < of_int k" by simp
  then have "\<lfloor>x\<rfloor> < k" by (simp add: floor_less_iff)
  then show ?thesis by (auto simp: round_half_even_def Let_def)
qed

lemma round_half_even_ge:
  assumes "of_int k \<le> x"
  shows "k \<le> round_half_even x"
proof -
  from assms have "k \<le> \<lfloor>x\<rfloor>" by (simp add: le_floor_iff)
  then show ?thesis by (auto simp: round_half_even_def Let_def)
qed

lemma round_half_even_mono:
  assumes "x \<le> y"
  shows "round_half_even x \<le> round_half_even y"
proof (cases "\<lfloor>x\<rfloor> = \<lfloor>y\<rfloor>")
  case True
  with assms show ?thesis by (auto simp: round_half_even_def Let_def)
next
  case False
  with assms floor_mono have "\<lfloor>x\<rfloor> + 1 \<le> \<lfloor>y\<rfloor>" by (metis order_le_less zless_imp_add1_zle)
  moreover have "round_half_even x \<le> \<lfloor>x\<rfloor> + 1" by (auto simp: round_half_even_def Let_def)
  moreover have "\<lfloor>y\<rfloor> \<le> round_half_even y" by (auto simp: round_half_even_def Let_def)
  ultimately show ?thesis by linarith
qed

lemma py_round_mono: "x \<le> y \<Longrightarrow> py_round n x \<le> py_round n y"
  by (simp add: py_round_def divide_right_mono round_half_even_mono mult_right_mono)

lemma py_round_of_nat: "py_round n (of_int k) = of_int k"
proof -
  have "round_half_even (of_int k * 10 ^ n) = k * 10 ^ n"
    using round_half_even_of_int [of "k * 10 ^ n"] by simp
  then show ?thesis by (simp add: py_round_def)
qed

lemma py_round_bounds:
  assumes "of_int a \<le> x" and "x \<le> of_int b"
  shows "of_int a \<le> py_round n x \<and> py_round n x \<le> of_int b"
  using py_round_mono [OF assms(1), of n] py_round_mono [OF assms(2), of n]
  by (simp add: py_round_of_nat)

section \<open>String methods\<close>

definition py_isspace :: "char \<Rightarrow> bool" where
  "py_isspace c = (let n = of_char c :: nat in
     n = 32 \<or> (9 \<le> n \<and> n \<le> 13) \<or> (28 \<le> n \<and> n \<le> 31) \<or> n = 133 \<or> n = 160)"

definition py_lstrip :: "string \<Rightarrow> string" where
  "py_lstrip s = dropWhile py_isspace s"

definition py_rstrip :: "string \<Rightarrow> string" where
  "py_rstrip s = rev (dropWhile py_isspace (rev s))"

definition py_strip :: "string \<Rightarrow> string" where
  "py_strip s = py_rstrip (py_lstrip s)"

definition py_lower_char :: "char \<Rightarrow> char" where
  "py_lower_char c = (let n = of_char c :: nat in
     if (65 \<le> n \<and> n \<le> 90) \<or> (192 \<le> n \<and> n \<le> 222 \<and> n \<noteq> 215) then char_of (n + 32) else c)"

definition py_lower :: "string \<Rightarrow> string" where
  "py_lower s = map py_lower_char s"

definition py_upper_char :: "char \<Rightarrow> char" where
  "py_upper_char c = (let n = of_char c :: nat in
     if (97 \<le> n \<and> n \<le> 122) \<or> (224 \<le> n \<and> n \<le> 254 \<and> n \<noteq> 247) then char_of (n - 32) else c)"

definition py_upper :: "string \<Rightarrow> string" where
  "py_upper s = map py_upper_char s"

text \<open>\<open>s.find(pat)\<close>: the first position, \<open>None\<close> for the code's \<open>-1\<close>.\<close>

fun py_find :: "string \<Rightarrow> string \<Rightarrow> nat option" where
  "py_find pat [] = (if pat = [] then Some 0 else None)"
| "py_find pat (c # s) = (if prefix pat (c # s) then Some 0 else map_option Suc (py_find pat s))"

definition py_contains :: "string \<Rightarrow> string \<Rightarrow> bool" where
  "py_contains pat s = (py_find pat s \<noteq> None)"

text \<open>\<open>s.split(c)\<close> keeps empty pieces, \<open>s.split()\<close> drops them.\<close>

fun py_split_on :: "char \<Rightarrow> string \<Rightarrow> string list" where
  "py_split_on c [] = [[]]"
| "py_split_on c (x # xs) =
     (if x = c then [] # py_split_on c xs
      else case py_split_on c xs of [] \<Rightarrow> [[x]] | w # ws \<Rightarrow> (x # w) # ws)"

fun py_words :: "string \<Rightarrow> string \<Rightarrow> string list" where
  "py_words acc [] = (if acc = [] then [] else [rev acc])"
| "py_words acc (x # xs) =
     (if py_isspace x then (if acc = [] then py_words [] xs else rev acc # py_words [] xs)
      else py_words (x # acc) xs)"

definition py_split_ws :: "string \<Rightarrow> string list" where
  "py_split_ws s = py_words [] s"

fun py_join :: "string \<Rightarrow> string list \<Rightarrow> string" where
  "py_join sep [] = []"
| "py_join sep [w] = w"
| "py_join sep (w # ws) = w @ sep @ py_join sep ws"

lemma prefix_py_rstrip [str_simps]: "prefix (py_rstrip s) s"
proof -
  have "rev s = takeWhile py_isspace (rev s) @ dropWhile py_isspace (rev s)" by simp
  then have "s = rev (dropWhile py_isspace (rev s)) @ rev (takeWhile py_isspace (rev s))"
    by (metis rev_append rev_rev_ident)
  then show ?thesis unfolding py_rstrip_def by (metis prefixI)
qed

lemma py_strip_Nil [simp]: "py_strip [] = []"
  by (simp add: py_strip_def py_lstrip_def py_rstrip_def)

lemma dropWhile_py_rstrip: "dropWhile py_isspace (py_lstrip s) = py_lstrip s"
  by (simp add: py_lstrip_def)

lemma py_strip_hd: "py_strip s \<noteq> [] \<Longrightarrow> \<not> py_isspace (hd (py_strip s))"
proof -
  assume ne: "py_strip s \<noteq> []"
  have pre: "prefix (py_strip s) (py_lstrip s)"
    by (simp add: py_strip_def prefix_py_rstrip)
  with ne have "hd (py_strip s) = hd (py_lstrip s)" and "py_lstrip s \<noteq> []"
    by (auto simp: prefix_def hd_append)
  then show ?thesis
    by (metis hd_dropWhile py_lstrip_def)
qed

lemma py_lstrip_strip: "py_lstrip (py_strip s) = py_strip s"
  by (cases "py_strip s") (use py_strip_hd [of s] in \<open>auto simp: py_lstrip_def\<close>)

lemma py_rstrip_idem: "py_rstrip (py_rstrip s) = py_rstrip s"
  by (simp add: py_rstrip_def)

lemma py_strip_idem [simp]: "py_strip (py_strip s) = py_strip s"
  by (metis py_lstrip_strip py_rstrip_idem py_strip_def)

lemma py_find_Some:
  "py_find pat s = Some i \<Longrightarrow> i + length pat \<le> length s \<and> take (length pat) (drop i s) = pat"
proof (induction pat s arbitrary: i rule: py_find.induct)
  case (2 pat c s)
  show ?case
  proof (cases "prefix pat (c # s)")
    case True
    with "2.prems" have i: "i = 0" by simp
    from True obtain zs where zs: "c # s = pat @ zs" by (auto simp: prefix_def)
    show ?thesis unfolding i zs by simp
  next
    case False
    with 2 show ?thesis by auto
  qed
qed (auto split: if_splits)

lemma py_find_least:
  "py_find pat s = Some i \<Longrightarrow> j < i \<Longrightarrow> \<not> prefix pat (drop j s)"
proof (induction pat s arbitrary: i j rule: py_find.induct)
  case (2 pat c s)
  then show ?case by (cases j) (auto split: if_splits)
qed (simp split: if_splits)

lemma py_find_None: "py_find pat s = None \<longleftrightarrow> \<not> sublist pat s"
  by (induction pat s rule: py_find.induct) (auto simp: sublist_Cons_right)

lemma py_split_on_ne [simp]: "py_split_on c s \<noteq> []"
  by (induction c s rule: py_split_on.induct) (auto split: list.splits)

lemma py_join_cases:
  obtains "ws = []" | w where "ws = [w]" | w v us where "ws = w # v # us"
  by (cases ws; cases "tl ws") auto

text \<open>Joining the pieces of a split restores the string.\<close>

lemma py_join_split: "py_join [c] (py_split_on c s) = s"
proof (induction c s rule: py_split_on.induct)
  case (2 c x xs)
  then show ?case
    by (cases "py_split_on c xs" rule: py_join_cases) auto
qed simp

section \<open>Backward searches\<close>

text \<open>
  \<open>for i in range(len(xs) - 1, -1, -1): if P(xs[i]): ...; return\<close> acts on the last position
  where \<open>P\<close> holds.
\<close>

fun find_last :: "('a \<Rightarrow> bool) \<Rightarrow> 'a list \<Rightarrow> nat option" where
  "find_last P [] = None"
| "find_last P (x # xs) =
     (case find_last P xs of Some i \<Rightarrow> Some (Suc i) | None \<Rightarrow> if P x then Some 0 else None)"

lemma find_last_None [last_simps]: "find_last P xs = None \<longleftrightarrow> (\<forall>x \<in> set xs. \<not> P x)"
  by (induction xs) (auto split: option.splits)

lemma find_last_Some:
  "find_last P xs = Some i \<Longrightarrow>
     i < length xs \<and> P (xs ! i) \<and> (\<forall>j. i < j \<longrightarrow> j < length xs \<longrightarrow> \<not> P (xs ! j))"
proof (induction xs arbitrary: i)
  case (Cons x xs)
  show ?case
  proof (cases "find_last P xs")
    case None
    with Cons.prems have i: "i = 0" and px: "P x" by (auto split: if_splits)
    have no: "\<not> P (xs ! k)" if "k < length xs" for k
      using None that by (simp add: find_last_None)
    have "\<not> P ((x # xs) ! j)" if "0 < j" "j < length (x # xs)" for j
      using that no [of "j - 1"] by (cases j) auto
    with i px show ?thesis by simp
  next
    case (Some k)
    with Cons.prems Cons.IH [OF Some] show ?thesis
      by (auto simp: nth_Cons split: nat.splits)
  qed
qed simp

lemma find_last_snoc [last_simps]:
  "find_last P (xs @ [x]) = (if P x then Some (length xs) else find_last P xs)"
  by (induction xs) (auto split: option.splits)

definition update_nth :: "nat \<Rightarrow> ('a \<Rightarrow> 'a) \<Rightarrow> 'a list \<Rightarrow> 'a list" where
  "update_nth i f xs = (if i < length xs then xs[i := f (xs ! i)] else xs)"

lemma length_update_nth [simp]: "length (update_nth i f xs) = length xs"
  by (simp add: update_nth_def)

lemma map_update_nth:
  "(\<And>x. g (f x) = g x) \<Longrightarrow> map g (update_nth i f xs) = map g xs"
  by (auto simp: update_nth_def intro!: nth_equalityI simp: nth_list_update)

lemma update_nth_split:
  "i < length xs \<Longrightarrow> update_nth i f xs = take i xs @ f (xs ! i) # drop (Suc i) xs"
  by (simp add: update_nth_def upd_conv_take_nth_drop)

lemma filter_split_nth:
  "i < length xs \<Longrightarrow> filter P xs =
     filter P (take i xs) @ (if P (xs ! i) then [xs ! i] else []) @ filter P (drop (Suc i) xs)"
  by (subst id_take_nth_drop, assumption) simp

lemma filter_update_nth_same:
  "i < length xs \<Longrightarrow> \<not> P (xs ! i) \<Longrightarrow> \<not> P (f (xs ! i)) \<Longrightarrow> filter P (update_nth i f xs) = filter P xs"
  by (simp add: update_nth_split filter_split_nth)

lemma dropWhile_stops [last_simps]: "dropWhile P xs = [] \<or> \<not> P (hd (dropWhile P xs))"
  by (induction xs) auto

lemma takeWhile_all: "list_all P (takeWhile P xs)"
  by (induction xs) auto

section \<open>Ordered dictionaries\<close>

lemma map_of_dict_update [dict_simps]:
  "map_of (AList.update k v d) = (map_of d)(k \<mapsto> v)"
  by (rule update_conv')

lemma map_of_dict_delete [dict_simps]: "map_of (AList.delete k d) = (map_of d)(k := None)"
  by (rule delete_conv')

lemma distinct_keys_update [dict_simps]:
  "distinct (map fst d) \<Longrightarrow> distinct (map fst (AList.update k v d))"
  by (rule distinct_update)

lemma distinct_keys_delete [dict_simps]:
  "distinct (map fst d) \<Longrightarrow> distinct (map fst (AList.delete k d))"
  by (rule distinct_delete)


end
