(* ===== verification/History.thy ===== *)
theory History
  imports Prelude
begin

text \<open>
  The conversation history of a call, from \<open>voiceai/helpers/conversation_history.py\<close>: the
  committed messages and the interim copy, every operation of the class
  \<open>ConversationHistory\<close>, and the repair of tool-call pairs (\<open>_sanitize_tool_messages\<close>)
  against the contract the LLM provider imposes (\<open>provider_contract\<close>).

  A message \<open>dict\<close> is a record; an absent key and a key that holds \<open>None\<close> are both
  \<open>None\<close>. The two lists share no message object (the interim list is always a deep copy),
  so they are two list values.
\<close>

section \<open>State\<close>

datatype chat_role = SYSTEM | USER | ASSISTANT | TOOL

record tool_call =
  tc_id :: "string option"
  tc_name :: string
  tc_arguments :: string

record message =
  msg_role :: chat_role
  msg_content :: "string option"
  msg_tool_calls :: "tool_call list option"
  msg_tool_call_id :: "string option"
  msg_turn_id :: "int option"
  msg_response_uid :: "string option"
  msg_asr_turn_id :: "int option"
  msg_category :: "string option"
  msg_exclude_from_llm :: bool

record conversation =
  messages :: "message list"
  interim :: "message list"

definition new_message :: "chat_role \<Rightarrow> string option \<Rightarrow> message" where
  "new_message r c =
     \<lparr>msg_role = r, msg_content = c, msg_tool_calls = None, msg_tool_call_id = None,
      msg_turn_id = None, msg_response_uid = None, msg_asr_turn_id = None,
      msg_category = None, msg_exclude_from_llm = False\<rparr>"

definition has_tool_calls :: "message \<Rightarrow> bool" where
  "has_tool_calls m = (case msg_tool_calls m of None \<Rightarrow> False | Some tcs \<Rightarrow> tcs \<noteq> [])"

definition unheard_role :: "message \<Rightarrow> bool" where
  "unheard_role m = (msg_role m \<in> {ASSISTANT, TOOL})"

section \<open>Construction and user turns\<close>

definition conversation_init :: "message list option \<Rightarrow> conversation" where
  "conversation_init h =
     (let ms = (case h of None \<Rightarrow> [] | Some ms \<Rightarrow> ms) in \<lparr>messages = ms, interim = ms\<rparr>)"

definition setup_system_prompt :: "message \<Rightarrow> conversation \<Rightarrow> conversation" where
  "setup_system_prompt p c =
     (let ms = (if truthy_str (msg_content p)
                then (if messages c = [] then [p] else [p] @ messages c)
                else messages c)
      in c\<lparr>messages := ms, interim := ms\<rparr>)"

definition append_welcome_message :: "string \<Rightarrow> conversation \<Rightarrow> conversation" where
  "append_welcome_message content c =
     (let ms = (if content \<noteq> [] then messages c @ [new_message ASSISTANT (Some content)]
                else messages c)
      in c\<lparr>messages := ms, interim := ms\<rparr>)"

definition append_user :: "string \<Rightarrow> int option \<Rightarrow> conversation \<Rightarrow> conversation" where
  "append_user content asr c =
     c\<lparr>messages := messages c @ [(new_message USER (Some content))\<lparr>msg_asr_turn_id := asr\<rparr>]\<rparr>"

definition replace_last_user_if_prefix ::
  "string option \<Rightarrow> int option \<Rightarrow> conversation \<Rightarrow> bool \<times> conversation" where
  "replace_last_user_if_prefix new_content asr c =
     (let new = py_strip (or_empty new_content) in
      if new = [] \<or> messages c = [] then (False, c)
      else let lst = last (messages c) in
        if msg_role lst \<noteq> USER then (False, c)
        else if asr \<noteq> None \<and> msg_asr_turn_id lst \<noteq> asr then (False, c)
        else let prev = py_strip (or_empty (msg_content lst)) in
          if prev \<noteq> [] \<and> prefix prev new \<and> new \<noteq> prev
          then (True, c\<lparr>messages := butlast (messages c) @ [lst\<lparr>msg_content := Some new\<rparr>]\<rparr>)
          else (False, c))"

text \<open>
  \<open>replace_last_user\<close> calls \<open>.strip()\<close> on the stored content: a user row whose content is
  \<open>None\<close> raises.
\<close>

definition replace_last_user ::
  "string option \<Rightarrow> string \<Rightarrow> conversation \<Rightarrow> py_error + (bool \<times> conversation)" where
  "replace_last_user expected new_content c =
     (case find_last (\<lambda>m. msg_role m = USER) (messages c) of
        None \<Rightarrow> Inr (False, c)
      | Some i \<Rightarrow>
          (case msg_content (messages c ! i) of
             None \<Rightarrow> Inl AttributeError
           | Some s \<Rightarrow>
               if py_strip s = py_strip (or_empty expected)
               then Inr (True, c\<lparr>messages := update_nth i (\<lambda>m. m\<lparr>msg_content := Some new_content\<rparr>)
                                               (messages c)\<rparr>)
               else Inr (False, c)))"

section \<open>Assistant turns and tool calls\<close>

text \<open>
  \<open>append_assistant(content, tool_calls, **kwargs)\<close>: the keyword arguments the callers pass
  are \<open>turn_id\<close>, \<open>response_uid\<close>, \<open>message_category\<close> and \<open>exclude_from_llm\<close>.
\<close>

definition append_assistant ::
  "string option \<Rightarrow> tool_call list option \<Rightarrow> int option \<Rightarrow> string option \<Rightarrow> string option \<Rightarrow> bool
     \<Rightarrow> conversation \<Rightarrow> conversation" where
  "append_assistant content tcs turn uid category exclude c =
     (if messages c \<noteq> [] \<and>
         msg_role (last (messages c)) = ASSISTANT \<and>
         msg_content (last (messages c)) = content \<and>
         msg_turn_id (last (messages c)) = turn \<and>
         msg_response_uid (last (messages c)) = uid
      then (case tcs of
              None \<Rightarrow> c
            | Some _ \<Rightarrow> c\<lparr>messages := butlast (messages c) @
                            [(last (messages c))\<lparr>msg_tool_calls := tcs\<rparr>]\<rparr>)
      else c\<lparr>messages := messages c @
               [(new_message ASSISTANT content)
                  \<lparr>msg_turn_id := turn, msg_response_uid := uid, msg_category := category,
                   msg_exclude_from_llm := exclude, msg_tool_calls := tcs\<rparr>]\<rparr>)"

text \<open>The list an upsert works on: \<open>_interim\<close> when asked for, else \<open>_messages\<close>.\<close>

definition on_msgs ::
  "bool \<Rightarrow> (message list \<Rightarrow> message list) \<Rightarrow> conversation \<Rightarrow> conversation" where
  "on_msgs use_interim f c =
     (if use_interim then c\<lparr>interim := f (interim c)\<rparr> else c\<lparr>messages := f (messages c)\<rparr>)"

definition upsert_turn_row :: "int option \<Rightarrow> string \<Rightarrow> message list \<Rightarrow> message list" where
  "upsert_turn_row turn content msgs =
     (case (if turn = None then None
            else find_last (\<lambda>m. msg_role m = ASSISTANT \<and> msg_turn_id m = turn) msgs) of
        Some i \<Rightarrow> update_nth i (\<lambda>m. m\<lparr>msg_content := Some content\<rparr>) msgs
      | None \<Rightarrow> msgs @ [(new_message ASSISTANT (Some content))\<lparr>msg_turn_id := turn\<rparr>])"

definition upsert_assistant_for_turn ::
  "int option \<Rightarrow> string \<Rightarrow> bool \<Rightarrow> conversation \<Rightarrow> conversation" where
  "upsert_assistant_for_turn turn content use_interim =
     on_msgs use_interim (upsert_turn_row turn content)"

definition upsert_response_row ::
  "string option \<Rightarrow> string \<Rightarrow> int option \<Rightarrow> message list \<Rightarrow> message list" where
  "upsert_response_row uid content turn msgs =
     (case (if uid = None then None
            else find_last (\<lambda>m. msg_role m = ASSISTANT \<and> msg_response_uid m = uid) msgs) of
        Some i \<Rightarrow>
          update_nth i (\<lambda>m. m\<lparr>msg_content := Some content,
                             msg_turn_id := (if turn \<noteq> None \<and> msg_turn_id m = None then turn
                                             else msg_turn_id m)\<rparr>) msgs
      | None \<Rightarrow>
          (case (if turn = None then None
                 else find_last (\<lambda>m. msg_role m = ASSISTANT \<and> msg_turn_id m = turn \<and>
                                    msg_response_uid m = None) msgs) of
             Some i \<Rightarrow> update_nth i (\<lambda>m. m\<lparr>msg_content := Some content, msg_response_uid := uid\<rparr>) msgs
           | None \<Rightarrow> msgs @ [(new_message ASSISTANT (Some content))
                               \<lparr>msg_turn_id := turn, msg_response_uid := uid\<rparr>]))"

definition upsert_assistant_for_response ::
  "string option \<Rightarrow> string \<Rightarrow> bool \<Rightarrow> int option \<Rightarrow> conversation \<Rightarrow> conversation" where
  "upsert_assistant_for_response uid content use_interim turn =
     on_msgs use_interim (upsert_response_row uid content turn)"

definition append_tool_result :: "string \<Rightarrow> string \<Rightarrow> conversation \<Rightarrow> conversation" where
  "append_tool_result tcid content c =
     c\<lparr>messages := messages c @ [(new_message TOOL (Some content))\<lparr>msg_tool_call_id := Some tcid\<rparr>]\<rparr>"

definition attach_tool_calls_to_last_response ::
  "tool_call list \<Rightarrow> conversation \<Rightarrow> conversation" where
  "attach_tool_calls_to_last_response tcs c =
     (if messages c \<noteq> [] \<and> msg_role (last (messages c)) = ASSISTANT
      then c\<lparr>messages := butlast (messages c) @
                          [(last (messages c))\<lparr>msg_tool_calls := Some tcs\<rparr>]\<rparr>
      else append_assistant None (Some tcs) None None None False c)"

definition attach_tool_calls_to_turn ::
  "int option \<Rightarrow> tool_call list \<Rightarrow> conversation \<Rightarrow> conversation" where
  "attach_tool_calls_to_turn turn tcs c =
     (case turn of
        None \<Rightarrow> attach_tool_calls_to_last_response tcs c
      | Some _ \<Rightarrow>
          (case find_last (\<lambda>m. msg_role m = ASSISTANT \<and> msg_turn_id m = turn) (messages c) of
             Some i \<Rightarrow> c\<lparr>messages := update_nth i (\<lambda>m. m\<lparr>msg_tool_calls := Some tcs\<rparr>) (messages c)\<rparr>
           | None \<Rightarrow> append_assistant None (Some tcs) turn None None False c))"

definition update_system_prompt :: "string \<Rightarrow> conversation \<Rightarrow> conversation" where
  "update_system_prompt content c =
     (if messages c \<noteq> [] \<and> msg_role (messages c ! 0) = SYSTEM
      then c\<lparr>messages := update_nth 0 (\<lambda>m. m\<lparr>msg_content := Some content\<rparr>) (messages c)\<rparr> else c)"

definition update_welcome_message :: "string \<Rightarrow> conversation \<Rightarrow> conversation" where
  "update_welcome_message content c =
     (if 2 \<le> length (messages c) \<and> msg_role (messages c ! 1) = ASSISTANT
      then c\<lparr>messages := update_nth 1 (\<lambda>m. m\<lparr>msg_content := Some content\<rparr>) (messages c)\<rparr> else c)"

definition pop_unheard_responses :: "conversation \<Rightarrow> message list \<times> conversation" where
  "pop_unheard_responses c =
     (takeWhile unheard_role (rev (messages c)),
      c\<lparr>messages := rev (dropWhile unheard_role (rev (messages c)))\<rparr>)"

definition pop_and_merge_user :: "string \<Rightarrow> conversation \<Rightarrow> py_error + (string \<times> conversation)" where
  "pop_and_merge_user new_content c =
     (if messages c \<noteq> [] \<and> msg_role (last (messages c)) = USER
      then (case msg_content (last (messages c)) of
              None \<Rightarrow> Inl TypeError
            | Some s \<Rightarrow> Inr (s @ '' '' @ new_content, c\<lparr>messages := butlast (messages c)\<rparr>))
      else Inr (new_content, c))"

section \<open>Trimming after an interruption\<close>

text \<open>
  \<open>update_fn\<close> is the caller's function from the original content and the heard text to the
  text to keep; the session passes \<open>update_transcript_for_interruption\<close>.
\<close>

type_synonym update_fn = "string \<Rightarrow> string option \<Rightarrow> string option"

definition is_tool :: "message \<Rightarrow> bool" where
  "is_tool m = (msg_role m = TOOL)"

definition blank :: "string option \<Rightarrow> bool" where
  "blank x = (py_strip (or_empty x) = [])"

definition trim_assistant_at_index ::
  "nat \<Rightarrow> string option \<Rightarrow> update_fn \<Rightarrow> message list \<Rightarrow> message list" where
  "trim_assistant_at_index i heard upd msgs =
     (case msg_content (msgs ! i) of
        None \<Rightarrow> msgs
      | Some original \<Rightarrow>
          (let updated = upd original heard in
           if \<not> truthy_str updated \<or> blank updated
           then take i msgs @
                dropWhile (if has_tool_calls (msgs ! i) then is_tool else unheard_role)
                          (drop (Suc i) msgs)
           else update_nth i (\<lambda>m. m\<lparr>msg_content := updated\<rparr>) msgs))"

definition trim_found ::
  "nat option \<Rightarrow> string option \<Rightarrow> update_fn \<Rightarrow> message list \<Rightarrow> message list" where
  "trim_found pos heard upd msgs =
     (case pos of None \<Rightarrow> msgs | Some i \<Rightarrow> trim_assistant_at_index i heard upd msgs)"

definition trim_last_assistant ::
  "string option \<Rightarrow> update_fn \<Rightarrow> message list \<Rightarrow> message list" where
  "trim_last_assistant heard upd msgs =
     trim_found (find_last (\<lambda>m. msg_role m = ASSISTANT) msgs) heard upd msgs"

definition trim_assistant_for_turn ::
  "int option \<Rightarrow> string option \<Rightarrow> update_fn \<Rightarrow> message list \<Rightarrow> message list" where
  "trim_assistant_for_turn turn heard upd msgs =
     (if turn = None then msgs
      else trim_found (find_last (\<lambda>m. msg_role m = ASSISTANT \<and> msg_turn_id m = turn) msgs)
             heard upd msgs)"

definition trim_assistant_for_response ::
  "string option \<Rightarrow> string option \<Rightarrow> update_fn \<Rightarrow> message list \<Rightarrow> message list" where
  "trim_assistant_for_response uid heard upd msgs =
     (if uid = None then msgs
      else trim_found (find_last (\<lambda>m. msg_role m = ASSISTANT \<and> msg_response_uid m = uid) msgs)
             heard upd msgs)"

definition sync_after_interruption :: "string option \<Rightarrow> update_fn \<Rightarrow> conversation \<Rightarrow> conversation" where
  "sync_after_interruption heard upd = on_msgs False (trim_last_assistant heard upd)"

definition sync_interim_after_interruption ::
  "string option \<Rightarrow> update_fn \<Rightarrow> conversation \<Rightarrow> conversation" where
  "sync_interim_after_interruption heard upd = on_msgs True (trim_last_assistant heard upd)"

definition sync_turn_after_interruption ::
  "int option \<Rightarrow> string option \<Rightarrow> update_fn \<Rightarrow> conversation \<Rightarrow> conversation" where
  "sync_turn_after_interruption turn heard upd = on_msgs False (trim_assistant_for_turn turn heard upd)"

definition sync_interim_turn_after_interruption ::
  "int option \<Rightarrow> string option \<Rightarrow> update_fn \<Rightarrow> conversation \<Rightarrow> conversation" where
  "sync_interim_turn_after_interruption turn heard upd =
     on_msgs True (trim_assistant_for_turn turn heard upd)"

definition sync_response_after_interruption ::
  "string option \<Rightarrow> string option \<Rightarrow> update_fn \<Rightarrow> conversation \<Rightarrow> conversation" where
  "sync_response_after_interruption uid heard upd =
     on_msgs False (trim_assistant_for_response uid heard upd)"

definition sync_interim_response_after_interruption ::
  "string option \<Rightarrow> string option \<Rightarrow> update_fn \<Rightarrow> conversation \<Rightarrow> conversation" where
  "sync_interim_response_after_interruption uid heard upd =
     on_msgs True (trim_assistant_for_response uid heard upd)"

section \<open>Queries\<close>

definition last_role :: "conversation \<Rightarrow> chat_role option" where
  "last_role c = (if messages c = [] then None else Some (msg_role (last (messages c))))"

definition last_content :: "conversation \<Rightarrow> string option" where
  "last_content c = (if messages c = [] then None else msg_content (last (messages c)))"

definition last_assistant_content :: "conversation \<Rightarrow> string option" where
  "last_assistant_content c =
     (case find_last (\<lambda>m. msg_role m = ASSISTANT \<and> truthy_str (msg_content m)) (messages c) of
        None \<Rightarrow> None | Some i \<Rightarrow> msg_content (messages c ! i))"

definition user_turn_signature :: "conversation \<Rightarrow> nat \<times> string option" where
  "user_turn_signature c =
     (let users = filter (\<lambda>m. msg_role m = USER) (messages c)
      in (length users, if users = [] then None else msg_content (last users)))"

definition is_duplicate_user :: "string \<Rightarrow> conversation \<Rightarrow> py_error + bool" where
  "is_duplicate_user content c =
     (if messages c = [] then Inr False
      else if msg_role (last (messages c)) \<noteq> USER then Inr False
      else case msg_content (last (messages c)) of
             None \<Rightarrow> Inl AttributeError
           | Some s \<Rightarrow> Inr (py_strip s = py_strip content))"

definition sync_interim :: "message list option \<Rightarrow> conversation \<Rightarrow> conversation" where
  "sync_interim ms c = c\<lparr>interim := (case ms of None \<Rightarrow> messages c | Some ms \<Rightarrow> ms)\<rparr>"

section \<open>Repair of tool-call pairs\<close>

definition calls_tools :: "message \<Rightarrow> bool" where
  "calls_tools m = (msg_role m = ASSISTANT \<and> has_tool_calls m)"

definition expected_ids :: "message \<Rightarrow> string list" where
  "expected_ids m =
     (case msg_tool_calls m of None \<Rightarrow> []
      | Some tcs \<Rightarrow> map (or_empty \<circ> tc_id) (filter (truthy_str \<circ> tc_id) tcs))"

definition reply_id :: "message \<Rightarrow> string" where
  "reply_id m = or_empty (msg_tool_call_id m)"

text \<open>The loop that collects the replies: each expected id once, the first reply wins.\<close>

fun match_tools :: "string list \<Rightarrow> string list \<Rightarrow> message list \<Rightarrow> message list" where
  "match_tools expected matched [] = []"
| "match_tools expected matched (t # ts) =
     (if reply_id t \<in> set expected \<and> reply_id t \<notin> set matched
      then t # match_tools expected (reply_id t # matched) ts
      else match_tools expected matched ts)"

function sanitize_tool_messages :: "message list \<Rightarrow> message list" where
  "sanitize_tool_messages [] = []"
| "sanitize_tool_messages (m # ms) =
     (if calls_tools m then
        (let following = takeWhile is_tool ms;
             rest = dropWhile is_tool ms;
             matched = match_tools (expected_ids m) [] following
         in if expected_ids m \<noteq> [] \<and> set (expected_ids m) \<subseteq> set (map reply_id matched)
            then m # matched @ sanitize_tool_messages rest
            else if truthy_str (msg_content m) \<and> \<not> blank (msg_content m)
            then m\<lparr>msg_tool_calls := None\<rparr> # sanitize_tool_messages rest
            else sanitize_tool_messages rest)
      else if is_tool m then sanitize_tool_messages ms
      else m # sanitize_tool_messages ms)"
  by pat_completeness auto
termination
  by (relation "measure length") (auto simp: less_Suc_eq_le length_dropWhile_le)

definition get_copy :: "conversation \<Rightarrow> message list \<times> conversation" where
  "get_copy c =
     (let ms = sanitize_tool_messages (messages c)
      in (filter (\<lambda>m. \<not> msg_exclude_from_llm m) ms, c\<lparr>messages := ms\<rparr>))"

declare sanitize_tool_messages.simps(2) [simp del]

section \<open>The provider's contract\<close>

text \<open>
  What the chat API demands of a message list: every tool message answers a call of the
  assistant message its run of tool messages follows, and every call of an assistant
  message is answered exactly once by the run right after it.
\<close>

definition answers_calls :: "message \<Rightarrow> message list \<Rightarrow> bool" where
  "answers_calls a replies =
     (expected_ids a \<noteq> [] \<and> distinct (map reply_id replies) \<and>
      set (map reply_id replies) = set (expected_ids a))"

definition provider_contract :: "message list \<Rightarrow> bool" where
  "provider_contract ms \<longleftrightarrow>
     (\<forall>pre m post. ms = pre @ m # post \<longrightarrow>
        (calls_tools m \<longrightarrow> answers_calls m (takeWhile is_tool post)) \<and>
        (is_tool m \<longrightarrow> (\<exists>pre' a run. pre = pre' @ a # run \<and> calls_tools a \<and> list_all is_tool run)))"

text \<open>The same contract as a recursive check, convenient for induction.\<close>

function tool_wf :: "message list \<Rightarrow> bool" where
  "tool_wf [] = True"
| "tool_wf (m # ms) =
     (if calls_tools m
      then answers_calls m (takeWhile is_tool ms) \<and> tool_wf (dropWhile is_tool ms)
      else \<not> is_tool m \<and> tool_wf ms)"
  by pat_completeness auto
termination
  by (relation "measure length") (auto simp: less_Suc_eq_le length_dropWhile_le)

declare tool_wf.simps(2) [simp del]

lemma calls_not_tool [simp]: "calls_tools m \<Longrightarrow> \<not> is_tool m"
  by (simp add: calls_tools_def is_tool_def)

lemma content_update_simps [simp]:
  "calls_tools (m\<lparr>msg_content := x\<rparr>) = calls_tools m"
  "is_tool (m\<lparr>msg_content := x\<rparr>) = is_tool m"
  "answers_calls (m\<lparr>msg_content := x\<rparr>) r = answers_calls m r"
  by (simp_all add: calls_tools_def has_tool_calls_def is_tool_def answers_calls_def expected_ids_def)

lemma tool_wf_content [simp]: "tool_wf (m\<lparr>msg_content := x\<rparr> # ms) = tool_wf (m # ms)"
  by (simp add: tool_wf.simps(2))

lemma tool_wf_hd: "tool_wf ms \<Longrightarrow> ms = [] \<or> \<not> is_tool (hd ms)"
  by (cases ms) (auto simp: tool_wf.simps(2) split: if_splits)

lemma tool_wf_notool: "\<not> is_tool m \<Longrightarrow> \<not> calls_tools m \<Longrightarrow> tool_wf (m # ms) = tool_wf ms"
  by (simp add: tool_wf.simps)

lemma match_tools_sub: "set (match_tools e d ts) \<subseteq> set ts"
  by (induction e d ts rule: match_tools.induct) auto

lemma match_tools_ids:
  "distinct (map reply_id (match_tools e d ts)) \<and>
   set (map reply_id (match_tools e d ts)) \<subseteq> set e - set d"
  by (induction e d ts rule: match_tools.induct) auto

lemma match_tools_id:
  "distinct (map reply_id ts) \<Longrightarrow> set (map reply_id ts) \<subseteq> set e - set d \<Longrightarrow> match_tools e d ts = ts"
  by (induction e d ts rule: match_tools.induct) auto

lemma is_tool_drop_calls [simp]: "is_tool (m\<lparr>msg_tool_calls := x\<rparr>) = is_tool m"
  by (simp add: is_tool_def)

lemma sanitize_hd_not_tool:
  "sanitize_tool_messages ms = [] \<or> \<not> is_tool (hd (sanitize_tool_messages ms))"
proof (induction ms rule: sanitize_tool_messages.induct)
  case (2 m ms)
  then show ?case
    by (simp add: sanitize_tool_messages.simps(2) Let_def)
qed simp

lemma takeWhile_tools_append:
  assumes "list_all is_tool run" and "rest = [] \<or> \<not> is_tool (hd rest)"
  shows "takeWhile is_tool (run @ rest) = run" "dropWhile is_tool (run @ rest) = rest"
  using assms by (cases rest; induction run; simp)+

lemma match_tools_all_tool: "list_all is_tool (match_tools e d (takeWhile is_tool ms))"
  using match_tools_sub [of e d "takeWhile is_tool ms"] set_takeWhileD
  by (fastforce simp: list_all_iff)

lemma tool_wf_sanitize: "tool_wf (sanitize_tool_messages ms)"
proof (induction ms rule: sanitize_tool_messages.induct)
  case (2 m ms)
  let ?rest = "sanitize_tool_messages (dropWhile is_tool ms)"
  let ?run = "match_tools (expected_ids m) [] (takeWhile is_tool ms)"
  have run: "takeWhile is_tool (?run @ ?rest) = ?run" "dropWhile is_tool (?run @ ?rest) = ?rest"
    by (rule takeWhile_tools_append [OF match_tools_all_tool sanitize_hd_not_tool])+
  have ans: "answers_calls m ?run"
    if "expected_ids m \<noteq> []" "set (expected_ids m) \<subseteq> set (map reply_id ?run)"
    using that match_tools_ids [of "expected_ids m" "[]" "takeWhile is_tool ms"]
    by (auto simp: answers_calls_def)
  have strip: "tool_wf (m\<lparr>msg_tool_calls := None\<rparr> # ?rest) = tool_wf ?rest" if "calls_tools m"
    by (rule tool_wf_notool) (use that in \<open>auto simp: calls_tools_def is_tool_def has_tool_calls_def\<close>)
  show ?case
    using 2 run ans strip
    by (auto simp: sanitize_tool_messages.simps(2) tool_wf.simps(2) Let_def)
qed simp

lemma sanitize_wf_id: "tool_wf ms \<Longrightarrow> sanitize_tool_messages ms = ms"
proof (induction ms rule: tool_wf.induct)
  case (2 m ms)
  show ?case
  proof (cases "calls_tools m")
    case True
    with "2.prems" have ans: "answers_calls m (takeWhile is_tool ms)" and "tool_wf (dropWhile is_tool ms)"
      by (auto simp: tool_wf.simps(2))
    then have "match_tools (expected_ids m) [] (takeWhile is_tool ms) = takeWhile is_tool ms"
      by (intro match_tools_id) (auto simp: answers_calls_def)
    with True 2 ans show ?thesis
      by (simp add: sanitize_tool_messages.simps(2) tool_wf.simps(2) Let_def answers_calls_def)
  next
    case False
    with 2 show ?thesis by (simp add: sanitize_tool_messages.simps(2) tool_wf.simps(2))
  qed
qed simp

lemma tool_wf_split:
  assumes "\<not> is_tool m"
  shows "tool_wf (xs @ m # ys) = (tool_wf xs \<and> tool_wf (m # ys))"
proof (induction xs rule: tool_wf.induct)
  case (2 x xs)
  from assms have "takeWhile is_tool (xs @ m # ys) = takeWhile is_tool xs"
    "dropWhile is_tool (xs @ m # ys) = dropWhile is_tool xs @ m # ys"
    by (induction xs) auto
  with 2 show ?case by (auto simp: tool_wf.simps(2) [of x])
qed simp

lemma tool_wf_append:
  assumes "tool_wf xs" and "tool_wf ys"
  shows "tool_wf (xs @ ys)"
proof (cases ys)
  case (Cons y ys')
  with assms(2) have "\<not> is_tool y" by (auto simp: tool_wf.simps(2) split: if_splits)
  with assms Cons show ?thesis by (simp add: tool_wf_split)
qed (use assms in simp)

lemma tool_wf_after:
  "tool_wf (m # ys) \<Longrightarrow> calls_tools m \<Longrightarrow> tool_wf (dropWhile is_tool ys)"
  by (simp add: tool_wf.simps(2))

lemma tool_wf_drop_unheard: "tool_wf ys \<Longrightarrow> tool_wf (dropWhile unheard_role ys)"
proof (cases "dropWhile unheard_role ys")
  case (Cons z zs)
  assume wf: "tool_wf ys"
  from Cons have "\<not> unheard_role z" by (metis hd_dropWhile list.discI list.sel(1))
  then have "\<not> is_tool z" by (auto simp: unheard_role_def is_tool_def)
  moreover have "ys = takeWhile unheard_role ys @ z # zs" by (simp flip: Cons)
  ultimately show ?thesis using wf Cons tool_wf_split by metis
next
  case Nil
  show ?thesis unfolding Nil by simp
qed

lemma contract_Cons:
  assumes "\<not> calls_tools m" "\<not> is_tool m" "provider_contract ms"
  shows "provider_contract (m # ms)"
  unfolding provider_contract_def
proof (intro allI impI)
  fix pre x post
  assume eq: "m # ms = pre @ x # post"
  show "(calls_tools x \<longrightarrow> answers_calls x (takeWhile is_tool post)) \<and>
        (is_tool x \<longrightarrow> (\<exists>pre' a run. pre = pre' @ a # run \<and> calls_tools a \<and> list_all is_tool run))"
  proof (cases pre)
    case Nil
    with eq assms show ?thesis by simp
  next
    case (Cons p pre2)
    with eq have "ms = pre2 @ x # post" "p = m" by auto
    with assms(3) Cons show ?thesis unfolding provider_contract_def
      by (metis append_Cons)
  qed
qed

lemma contract_run:
  assumes "calls_tools m" "list_all is_tool run" "answers_calls m run" "provider_contract rest"
    and hd: "rest = [] \<or> \<not> is_tool (hd rest)"
  shows "provider_contract (m # run @ rest)"
  unfolding provider_contract_def
proof (intro allI impI)
  fix pre x post
  assume eq: "m # run @ rest = pre @ x # post"
  show "(calls_tools x \<longrightarrow> answers_calls x (takeWhile is_tool post)) \<and>
        (is_tool x \<longrightarrow> (\<exists>pre' a run. pre = pre' @ a # run \<and> calls_tools a \<and> list_all is_tool run))"
  proof (cases pre)
    case Nil
    with eq have "x = m" "post = run @ rest" by auto
    with assms show ?thesis by (simp add: takeWhile_tools_append)
  next
    case (Cons p pre2)
    with eq have p: "p = m" and eq2: "run @ rest = pre2 @ x # post" by auto
    then consider (inrun) us where "run = pre2 @ x # us"
      | (inrest) us where "pre2 = run @ us" "rest = us @ x # post"
      by (auto simp: append_eq_append_conv2 append_eq_Cons_conv)
    then show ?thesis
    proof cases
      case inrun
      with assms(2) have "is_tool x" "list_all is_tool pre2" by auto
      with p Cons assms(1) show ?thesis
        by (metis append_Nil calls_not_tool)
    next
      case inrest
      with assms(4) have "(calls_tools x \<longrightarrow> answers_calls x (takeWhile is_tool post)) \<and>
        (is_tool x \<longrightarrow> (\<exists>pre' a run. us = pre' @ a # run \<and> calls_tools a \<and> list_all is_tool run))"
        unfolding provider_contract_def by blast
      with Cons p inrest show ?thesis by (metis append_Cons append_assoc)
    qed
  qed
qed

lemma tool_wf_contract: "tool_wf ms \<Longrightarrow> provider_contract ms"
proof (induction ms rule: tool_wf.induct)
  case 1
  then show ?case by (simp add: provider_contract_def)
next
  case (2 m ms)
  show ?case
  proof (cases "calls_tools m")
    case True
    have "provider_contract (m # takeWhile is_tool ms @ dropWhile is_tool ms)"
      using True 2
      by (intro contract_run takeWhile_all dropWhile_stops) (simp_all add: tool_wf.simps(2))
    then show ?thesis by simp
  next
    case False
    with 2 show ?thesis by (intro contract_Cons) (auto simp: tool_wf.simps(2))
  qed
qed

lemma tool_wf_filter:
  assumes "tool_wf ms" and "\<forall>m \<in> set ms. \<not> P m \<longrightarrow> \<not> is_tool m \<and> \<not> calls_tools m"
  shows "tool_wf (filter P ms)"
  using assms
proof (induction ms rule: tool_wf.induct)
  case (2 m ms)
  show ?case
  proof (cases "calls_tools m")
    case True
    let ?run = "takeWhile is_tool ms" and ?rest = "dropWhile is_tool ms"
    have keep: "filter P ?run = ?run"
      using "2.prems"(2) by (auto simp: filter_id_conv dest: set_takeWhileD)
    from "2.prems" True have Pm: "P m" by auto
    from "2.prems"(1) True have ans: "answers_calls m ?run" and "tool_wf ?rest"
      by (simp_all add: tool_wf.simps(2))
    moreover have "\<forall>x \<in> set ?rest. \<not> P x \<longrightarrow> \<not> is_tool x \<and> \<not> calls_tools x"
      using "2.prems"(2) set_dropWhileD by fastforce
    ultimately have wf: "tool_wf (filter P ?rest)" using "2.IH"(1) True by blast
    have "filter P ms = ?run @ filter P ?rest"
      by (metis keep filter_append takeWhile_dropWhile_id)
    with Pm have "filter P (m # ms) = m # ?run @ filter P ?rest" by simp
    moreover have "tool_wf (m # ?run @ filter P ?rest)"
      using True ans wf
      by (simp add: tool_wf.simps(2) takeWhile_tools_append [OF takeWhile_all tool_wf_hd])
    ultimately show ?thesis by simp
  next
    case False
    with "2.prems"(1) have "\<not> is_tool m" "tool_wf ms" by (simp_all add: tool_wf.simps(2))
    moreover from this(2) have "tool_wf (filter P ms)" using "2.IH"(2) False "2.prems"(2) by simp
    ultimately show ?thesis using False by (simp add: tool_wf_notool)
  qed
qed simp

lemma trim_at_wf:
  assumes "tool_wf msgs" "i < length msgs" "msg_role (msgs ! i) = ASSISTANT"
  shows "tool_wf (trim_assistant_at_index i heard upd msgs)"
proof -
  let ?m = "msgs ! i"
  have nt: "\<not> is_tool ?m" using assms(3) by (simp add: is_tool_def)
  have parts: "msgs = take i msgs @ ?m # drop (Suc i) msgs"
    using assms(2) by (rule id_take_nth_drop)
  with assms(1) nt have pre: "tool_wf (take i msgs)" and tl: "tool_wf (?m # drop (Suc i) msgs)"
    by (metis tool_wf_split)+
  have "calls_tools ?m = has_tool_calls ?m" using assms(3) by (simp add: calls_tools_def)
  with tl nt have cut: "tool_wf (dropWhile (if has_tool_calls ?m then is_tool else unheard_role) (drop (Suc i) msgs))"
    by (auto intro: tool_wf_after tool_wf_drop_unheard simp: tool_wf_notool)
  have upd': "tool_wf (update_nth i (\<lambda>m. m\<lparr>msg_content := x\<rparr>) msgs)" for x
  proof -
    have "update_nth i (\<lambda>m. m\<lparr>msg_content := x\<rparr>) msgs
        = take i msgs @ ?m\<lparr>msg_content := x\<rparr> # drop (Suc i) msgs"
      using assms(2) by (simp add: update_nth_def upd_conv_take_nth_drop)
    then show ?thesis using pre tl nt by (simp add: tool_wf_split)
  qed
  show ?thesis
    using assms(1) upd' tool_wf_append [OF pre cut]
    by (auto simp: trim_assistant_at_index_def Let_def split: option.splits)
qed

lemma trim_found_wf:
  assumes "tool_wf msgs" "\<And>m. P m \<Longrightarrow> msg_role m = ASSISTANT"
  shows "tool_wf (trim_found (find_last P msgs) heard upd msgs)"
  using assms by (auto simp: trim_found_def split: option.splits
      dest!: find_last_Some intro!: trim_at_wf)


lemma contractD_calls:
  "provider_contract ms \<Longrightarrow> ms = pre @ m # post \<Longrightarrow> calls_tools m \<Longrightarrow>
     answers_calls m (takeWhile is_tool post)"
  unfolding provider_contract_def by blast

lemma contractD_tool:
  assumes "provider_contract ms" "ms = pre @ m # post" "is_tool m"
  obtains pre' a run where "pre = pre' @ a # run" "calls_tools a" "list_all is_tool run"
  using assms unfolding provider_contract_def by blast

lemma contract_tail:
  assumes c: "provider_contract (p @ rest)" and hd: "rest = [] \<or> \<not> is_tool (hd rest)"
  shows "provider_contract rest"
  unfolding provider_contract_def
proof (intro allI impI conjI)
  fix pre x post
  assume eq: "rest = pre @ x # post"
  then have full: "p @ rest = (p @ pre) @ x # post" by simp
  show "answers_calls x (takeWhile is_tool post)" if "calls_tools x"
    using contractD_calls [OF c full that] .
  show "\<exists>pre' a run. pre = pre' @ a # run \<and> calls_tools a \<and> list_all is_tool run" if tool: "is_tool x"
  proof -
    obtain pre' a run where par: "p @ pre = pre' @ a # run" "calls_tools a" "list_all is_tool run"
      by (rule contractD_tool [OF c full tool])
    from eq hd tool obtain y ys where pre: "pre = y # ys" "\<not> is_tool y" by (cases pre) auto
    from par(1) pre(1) consider (inpre) us where "pre = us @ a # run"
      | (inrun) us where "run = us @ y # ys"
      by (auto simp: append_eq_append_conv2 append_eq_Cons_conv Cons_eq_append_conv)
    then show ?thesis
    proof cases
      case inpre
      with par show ?thesis by blast
    next
      case inrun
      with par(3) pre(2) show ?thesis by simp
    qed
  qed
qed

lemma contract_tool_wf: "provider_contract ms \<Longrightarrow> tool_wf ms"
proof (induction ms rule: tool_wf.induct)
  case (2 m ms)
  have calls: "calls_tools m \<Longrightarrow> answers_calls m (takeWhile is_tool ms)"
    by (rule contractD_calls [OF "2.prems", of "[]"]) simp_all
  have nt: "\<not> is_tool m"
  proof
    assume "is_tool m"
    moreover have "m # ms = [] @ m # ms" by simp
    ultimately show False using contractD_tool [OF "2.prems"] by blast
  qed
  show ?case
  proof (cases "calls_tools m")
    case True
    have "provider_contract ((m # takeWhile is_tool ms) @ dropWhile is_tool ms)"
      using "2.prems" by simp
    then have "provider_contract (dropWhile is_tool ms)"
      by (rule contract_tail) (rule dropWhile_stops)
    with True 2 calls show ?thesis by (simp add: tool_wf.simps(2))
  next
    case False
    have "ms = [] \<or> \<not> is_tool (hd ms)"
    proof (rule ccontr)
      assume "\<not> ?thesis"
      then obtain x xs where x: "m # ms = [m] @ x # xs" "is_tool x" by (cases ms) auto
      then obtain pre' a run where "[m] = pre' @ a # run" "calls_tools a"
        by (rule contractD_tool [OF "2.prems"])
      with False show False by (auto simp: Cons_eq_append_conv)
    qed
    moreover have "provider_contract ([m] @ ms)" using "2.prems" by simp
    ultimately have "provider_contract ms" by (rule contract_tail [rotated])
    with False nt 2 show ?thesis by (simp add: tool_wf.simps(2))
  qed
qed simp

lemma contract_iff: "provider_contract ms \<longleftrightarrow> tool_wf ms"
  by (blast intro: contract_tool_wf tool_wf_contract)

section \<open>Properties\<close>

text \<open>
  C1: \<open>get_copy\<close> always leaves the stored history, and hands to the model a
  message list, in which every tool message answers a call of the assistant message it
  follows and every call is answered exactly once, whatever interruptions left behind;
  the only condition is that rows marked \<open>exclude_from_llm\<close> are not part of a tool exchange.
\<close>

theorem get_copy_contract:
  assumes "\<forall>m \<in> set (sanitize_tool_messages (messages c)).
             msg_exclude_from_llm m \<longrightarrow> \<not> is_tool m \<and> \<not> calls_tools m"
  shows "provider_contract (messages (snd (get_copy c))) \<and> provider_contract (fst (get_copy c))"
proof -
  have "tool_wf (filter (\<lambda>m. \<not> msg_exclude_from_llm m) (sanitize_tool_messages (messages c)))"
    by (rule tool_wf_filter [OF tool_wf_sanitize]) (use assms in blast)
  then show ?thesis by (simp add: get_copy_def Let_def contract_iff tool_wf_sanitize)
qed

text \<open>
  C2: the repair is the identity exactly on the histories that satisfy
  the contract already, so it never rewrites a good history, and running it twice is
  running it once.
\<close>

theorem sanitize_iff_contract:
  "(sanitize_tool_messages ms = ms \<longleftrightarrow> provider_contract ms) \<and>
   sanitize_tool_messages (sanitize_tool_messages ms) = sanitize_tool_messages ms"
  by (metis contract_iff sanitize_wf_id tool_wf_sanitize)

definition speech_row :: "message \<Rightarrow> bool" where
  "speech_row m = (msg_role m = USER \<or> msg_role m = SYSTEM)"

lemma speech_not_tool [simp]: "speech_row m \<Longrightarrow> \<not> is_tool m" "speech_row m \<Longrightarrow> \<not> calls_tools m"
    "speech_row m \<Longrightarrow> \<not> unheard_role m"
  by (auto simp: speech_row_def is_tool_def calls_tools_def unheard_role_def)

lemma filter_dropWhile_disjoint:
  assumes "\<And>x. P x \<Longrightarrow> \<not> Q x"
  shows "filter P (dropWhile Q xs) = filter P xs"
  using assms by (induction xs) auto

text \<open>
  the repair loses no user or system row and does not reorder them.
\<close>

theorem sanitize_keeps_speech:
  "filter speech_row (sanitize_tool_messages ms) = filter speech_row ms"
proof (induction ms rule: sanitize_tool_messages.induct)
  case (2 m ms)
  have drop: "filter speech_row (dropWhile is_tool ms) = filter speech_row ms"
    by (rule filter_dropWhile_disjoint) simp
  have run: "filter speech_row (match_tools e d (takeWhile is_tool ms)) = []" for e d
    using match_tools_all_tool [of e d ms] by (auto simp: filter_empty_conv list_all_iff)
  show ?case
  proof (cases "calls_tools m")
    case True
    then have "\<not> speech_row m" "\<not> speech_row (m\<lparr>msg_tool_calls := None\<rparr>)"
      by (auto simp: speech_row_def calls_tools_def)
    with True 2(1,2,3) drop run show ?thesis
      by (simp add: sanitize_tool_messages.simps(2) Let_def)
  next
    case False
    then show ?thesis using 2(4,5) speech_not_tool(1) [of m]
      by (auto simp: sanitize_tool_messages.simps(2))
  qed
qed simp

lemma trim_at_keeps_speech:
  assumes "i < length msgs" "msg_role (msgs ! i) = ASSISTANT"
  shows "filter speech_row (trim_assistant_at_index i heard upd msgs) = filter speech_row msgs"
proof -
  have no: "\<not> speech_row (msgs ! i)" using assms(2) by (simp add: speech_row_def)
  have cut: "filter speech_row (dropWhile is_tool xs) = filter speech_row xs"
    "filter speech_row (dropWhile unheard_role xs) = filter speech_row xs" for xs
    by (rule filter_dropWhile_disjoint, simp)+
  have "\<not> speech_row ((msgs ! i)\<lparr>msg_content := x\<rparr>)" for x
    using no by (simp add: speech_row_def)
  then show ?thesis
    using assms(1) no cut
    by (auto simp: trim_assistant_at_index_def Let_def filter_update_nth_same
        filter_split_nth [OF assms(1)] split: option.splits)
qed

lemma trim_found_keeps_speech:
  assumes "\<And>m. P m \<Longrightarrow> msg_role m = ASSISTANT"
  shows "filter speech_row (trim_found (find_last P msgs) heard upd msgs) = filter speech_row msgs"
  using assms by (auto simp: trim_found_def split: option.splits
      dest!: find_last_Some intro!: trim_at_keeps_speech)

text \<open>
  C3: trimming the history to what the caller heard, by response, by turn or
  at the last assistant row, keeps the provider's contract and every user and system row,
  whatever text the update function keeps: a removed tool-calling row takes exactly its
  replies with it.
\<close>

theorem trim_keeps_contract:
  assumes "provider_contract msgs"
  shows "provider_contract (trim_assistant_for_response uid heard upd msgs)
       \<and> provider_contract (trim_assistant_for_turn turn heard upd msgs)
       \<and> provider_contract (trim_last_assistant heard upd msgs)
       \<and> filter speech_row (trim_assistant_for_response uid heard upd msgs) = filter speech_row msgs
       \<and> filter speech_row (trim_assistant_for_turn turn heard upd msgs) = filter speech_row msgs
       \<and> filter speech_row (trim_last_assistant heard upd msgs) = filter speech_row msgs"
  using assms
  by (auto simp: trim_assistant_for_response_def trim_assistant_for_turn_def trim_last_assistant_def
      contract_iff intro!: trim_found_wf trim_found_keeps_speech)

definition sample_call :: tool_call where
  "sample_call = \<lparr>tc_id = Some ''call_1'', tc_name = ''book'', tc_arguments = ''{}''\<rparr>"

definition sample_history :: "message list" where
  "sample_history =
     [new_message SYSTEM (Some ''prompt''),
      new_message USER (Some ''book it''),
      (new_message ASSISTANT (Some ''one moment''))
        \<lparr>msg_response_uid := Some ''r1'', msg_tool_calls := Some [sample_call]\<rparr>,
      (new_message TOOL (Some ''done''))\<lparr>msg_tool_call_id := Some ''call_1''\<rparr>,
      (new_message ASSISTANT (Some ''it is booked''))\<lparr>msg_response_uid := Some ''r2''\<rparr>]"

lemmas history_eval = sample_history_def sample_call_def new_message_def calls_tools_def
  has_tool_calls_def is_tool_def answers_calls_def expected_ids_def reply_id_def

lemma sample_history_contract: "provider_contract sample_history"
  by (simp add: contract_iff tool_wf.simps(2) history_eval)

theorem trim_keeps_contract_witness:
  "provider_contract sample_history \<and>
   trim_assistant_for_response (Some ''r1'') None (\<lambda>_ _. Some []) sample_history \<noteq> sample_history \<and>
   provider_contract (trim_assistant_for_response (Some ''r1'') None (\<lambda>_ _. Some []) sample_history)"
proof -
  have "trim_assistant_for_response (Some ''r1'') None (\<lambda>_ _. Some []) sample_history \<noteq> sample_history"
    by (simp add: trim_assistant_for_response_def trim_found_def trim_assistant_at_index_def history_eval)
  with trim_keeps_contract [OF sample_history_contract, of "Some ''r1''" None "\<lambda>_ _. Some []"]
  show ?thesis using sample_history_contract by blast
qed

theorem get_copy_contract_witness:
  "provider_contract (fst (get_copy \<lparr>messages = sample_history, interim = []\<rparr>))"
proof -
  have wf: "sanitize_tool_messages sample_history = sample_history"
    using sample_history_contract by (simp add: contract_iff sanitize_wf_id)
  have "\<forall>m \<in> set (sanitize_tool_messages sample_history).
      msg_exclude_from_llm m \<longrightarrow> \<not> is_tool m \<and> \<not> calls_tools m"
    unfolding wf by (simp add: history_eval)
  then show ?thesis
    using get_copy_contract [of "\<lparr>messages = sample_history, interim = []\<rparr>"] by simp
qed

definition response_row :: "string \<Rightarrow> message \<Rightarrow> bool" where
  "response_row u m = (msg_role m = ASSISTANT \<and> msg_response_uid m = Some u)"

lemma filter_one:
  assumes "length (filter P xs) \<le> 1" "i < length xs" "P (xs ! i)"
  shows "filter P (take i xs) = [] \<and> filter P (drop (Suc i) xs) = []"
  using assms by (simp add: filter_split_nth [OF assms(2)])

text \<open>
  materialising a response keeps one row per response: afterwards
  exactly one assistant row carries the response's id, with the new content, and the rows of
  every other response are untouched, also when a placeholder of the same turn is adopted.
\<close>

theorem upsert_response_unique:
  assumes "length (filter (response_row u) msgs) \<le> 1"
  shows "map msg_content (filter (response_row u) (upsert_response_row (Some u) content turn msgs))
           = [Some content] \<and>
         (v \<noteq> u \<longrightarrow> filter (response_row v) (upsert_response_row (Some u) content turn msgs)
           = filter (response_row v) msgs)"
proof (cases "find_last (\<lambda>m. msg_role m = ASSISTANT \<and> msg_response_uid m = Some u) msgs")
  case (Some i)
  then have i: "i < length msgs" "response_row u (msgs ! i)"
    by (auto dest: find_last_Some simp: response_row_def)
  with filter_one [OF assms i] Some show ?thesis
    by (auto simp: upsert_response_row_def update_nth_split filter_split_nth [OF i(1), of "response_row v"])
       (auto simp: response_row_def)
next
  case None
  then have none: "filter (response_row u) msgs = []"
    by (auto simp: find_last_None filter_empty_conv response_row_def)
  let ?adopt = "if turn = None then None else find_last (\<lambda>m. msg_role m = ASSISTANT \<and>
      msg_turn_id m = turn \<and> msg_response_uid m = None) msgs"
  show ?thesis
  proof (cases ?adopt)
    case (Some i)
    then have i: "i < length msgs" "msg_role (msgs ! i) = ASSISTANT" "msg_response_uid (msgs ! i) = None"
      by (auto dest!: find_last_Some split: if_splits)
    from none i(1) have "filter (response_row u) (take i msgs) = []"
      "filter (response_row u) (drop (Suc i) msgs) = []"
      by (auto simp: filter_split_nth [OF i(1)] split: if_splits)
    with None Some i show ?thesis
      by (auto simp: upsert_response_row_def update_nth_split filter_split_nth [OF i(1), of "response_row v"])
         (auto simp: response_row_def)
  next
    case None': None
    with None none show ?thesis
      by (auto simp: upsert_response_row_def response_row_def new_message_def)
  qed
qed

theorem upsert_response_unique_witness:
  "length (filter (response_row ''r2'') sample_history) \<le> 1 \<and>
   map msg_content (filter (response_row ''r2'')
     (upsert_response_row (Some ''r2'') ''it is'' None sample_history)) = [Some ''it is'']"
proof -
  have "length (filter (response_row ''r2'') sample_history) \<le> 1"
    by (simp add: response_row_def history_eval)
  with upsert_response_unique [OF this, of "''it is''" None] show ?thesis by blast
qed

end
