(* ===== verification/Interruption.thy ===== *)
theory Interruption
  imports Prelude
begin

text \<open>
  Turn-taking state of a call: the class \<open>InterruptionManager\<close> of
  \<open>voiceai/modules/voice/session/interruption.py\<close>. The state is one record, each method one
  definition; a method that reads \<open>time.time()\<close> takes the clock reading \<open>now\<close> (seconds) as
  its first argument, and all reads of one call see the same value. \<open>-1\<close> is the code's own
  sentinel for an unset time. The open event, which the code shares by reference with the
  event list, is the index of that event.
\<close>

section \<open>State\<close>

datatype event_type = User_Interrupted_Agent | Agent_Interrupted_User

record interruption_event =
  ev_type :: event_type
  ev_turn_id :: int
  ev_asr_turn_id :: "int option"
  ev_user_start_s :: "rat option"
  ev_user_end_s :: "rat option"
  ev_recovery_completed :: bool

record latency_entry =
  le_sequence_id :: int
  le_user_start_s :: "rat option"
  le_user_first_start_s :: "rat option"
  le_user_end_s :: "rat option"
  le_agent_start_s :: rat
  le_latency_ms :: "rat option"
  le_agent_end_s :: "rat option"

record interruption_manager =
  callee_speaking :: bool
  callee_speaking_start_time :: rat
  curr_sequence_id :: int
  sequence_ids :: "int set"
  im_turn_id :: int
  let_remaining_audio_pass_through :: bool
  time_since_first_interim_result :: rat
  required_delay_before_speaking :: rat
  incremental_delay :: rat
  utterance_end_time :: rat
  last_interim_ts :: rat
  number_of_words_for_interruption :: int
  accidental_interruption_phrases :: "string set"
  minimum_wait_duration :: rat
  interruption_backoff_period :: rat
  last_interruption_ts_ms :: "rat option"
  user_interrupted_agent_count :: nat
  agent_interrupted_user_count :: nat
  barge_in_recovery_count :: nat
  awaiting_recovery :: bool
  interruption_events :: "interruption_event list"
  open_event :: "nat option"
  interrupted_transcriber_turn_ids :: "int set"
  total_user_speaking_ms :: rat
  total_agent_speaking_ms :: rat
  agent_speaking_start_time :: rat
  last_sent_sequence_id :: "int option"
  longest_agent_monologue_ms :: rat
  adjusted_user_stop_ts :: "rat option"
  last_user_start_ts :: rat
  pending_user_start_ts :: rat
  user_bot_latencies :: "latency_entry list"

definition im_init :: "int \<Rightarrow> string list \<Rightarrow> rat \<Rightarrow> rat \<Rightarrow> rat \<Rightarrow> interruption_manager" where
  "im_init words phrases delay min_wait backoff =
     \<lparr>callee_speaking = False, callee_speaking_start_time = -1,
      curr_sequence_id = 0, sequence_ids = {-1}, im_turn_id = 0,
      let_remaining_audio_pass_through = False, time_since_first_interim_result = -1,
      required_delay_before_speaking = 0, incremental_delay = delay,
      utterance_end_time = -1, last_interim_ts = -1,
      number_of_words_for_interruption = words,
      accidental_interruption_phrases = set phrases,
      minimum_wait_duration = min_wait, interruption_backoff_period = backoff,
      last_interruption_ts_ms = None,
      user_interrupted_agent_count = 0, agent_interrupted_user_count = 0,
      barge_in_recovery_count = 0, awaiting_recovery = False,
      interruption_events = [], open_event = None, interrupted_transcriber_turn_ids = {},
      total_user_speaking_ms = 0, total_agent_speaking_ms = 0, agent_speaking_start_time = -1,
      last_sent_sequence_id = None, longest_agent_monologue_ms = 0,
      adjusted_user_stop_ts = None, last_user_start_ts = -1, pending_user_start_ts = -1,
      user_bot_latencies = []\<rparr>"

text \<open>A stored start time, or \<open>None\<close> when it is unset: \<open>t if t > 0 else None\<close>.\<close>

definition positive_ts :: "rat \<Rightarrow> rat option" where
  "positive_ts t = (if 0 < t then Some t else None)"

section \<open>State queries\<close>

definition is_user_speaking :: "interruption_manager \<Rightarrow> bool" where
  "is_user_speaking s = callee_speaking s"

definition is_valid_sequence :: "int \<Rightarrow> interruption_manager \<Rightarrow> bool" where
  "is_valid_sequence sid s = (sid \<in> sequence_ids s)"

definition get_turn_id :: "interruption_manager \<Rightarrow> int" where
  "get_turn_id s = im_turn_id s"

definition user_speech_staleness_s :: "rat \<Rightarrow> interruption_manager \<Rightarrow> rat" where
  "user_speech_staleness_s now s =
     (if \<not> callee_speaking s then -1
      else let anchor = max (last_interim_ts s) (callee_speaking_start_time s)
           in if 0 < anchor then now - anchor else -1)"

definition get_user_speaking_duration :: "rat \<Rightarrow> interruption_manager \<Rightarrow> rat" where
  "get_user_speaking_duration now s =
     (if \<not> callee_speaking s \<or> callee_speaking_start_time s < 0 then 0
      else now - callee_speaking_start_time s)"

definition get_time_since_utterance_end :: "rat \<Rightarrow> interruption_manager \<Rightarrow> rat" where
  "get_time_since_utterance_end now s =
     (if utterance_end_time s = -1 then -1 else now * 1000 - utterance_end_time s)"

definition has_pending_responses :: "interruption_manager \<Rightarrow> bool" where
  "has_pending_responses s = (1 < card (sequence_ids s))"

definition has_pending_responses_excluding :: "int option \<Rightarrow> interruption_manager \<Rightarrow> bool" where
  "has_pending_responses_excluding sid s =
     (let active = sequence_ids s - {-1};
          active' = (case sid of None \<Rightarrow> active | Some i \<Rightarrow> active - {i})
      in 0 < card active')"

section \<open>Audio gate and interruption gate\<close>

datatype send_status = SEND | BLOCK | WAIT

definition get_audio_send_status :: "rat \<Rightarrow> int \<Rightarrow> nat \<Rightarrow> interruption_manager \<Rightarrow> send_status" where
  "get_audio_send_status now sid history_length s =
     (if sid \<notin> sequence_ids s then BLOCK
      else if callee_speaking s then WAIT
      else if 0 < interruption_backoff_period s \<and>
              (case last_interruption_ts_ms s of None \<Rightarrow> False
               | Some ts \<Rightarrow> now * 1000 - ts < interruption_backoff_period s) then WAIT
      else if 2 < history_length \<and>
              get_time_since_utterance_end now s \<noteq> -1 \<and>
              get_time_since_utterance_end now s < incremental_delay s then WAIT
      else SEND)"

definition should_trigger_interruption ::
  "int \<Rightarrow> string \<Rightarrow> bool \<Rightarrow> bool \<Rightarrow> interruption_manager \<Rightarrow> bool" where
  "should_trigger_interruption word_count transcript is_audio_playing welcome_played s =
     (if \<not> is_audio_playing then False
      else if number_of_words_for_interruption s = 0 then False
      else number_of_words_for_interruption s < word_count \<or>
           py_strip transcript \<in> accidental_interruption_phrases s)"

definition is_false_interruption ::
  "int \<Rightarrow> string \<Rightarrow> bool \<Rightarrow> bool \<Rightarrow> interruption_manager \<Rightarrow> bool" where
  "is_false_interruption word_count transcript is_audio_playing welcome_played s =
     (if \<not> is_audio_playing then False
      else word_count \<le> number_of_words_for_interruption s \<and>
           py_strip transcript \<notin> accidental_interruption_phrases s)"

section \<open>Speech lifecycle\<close>

definition on_user_speech_started :: "rat \<Rightarrow> interruption_manager \<Rightarrow> interruption_manager" where
  "on_user_speech_started now s =
     (if callee_speaking s then s
      else s\<lparr>callee_speaking := True, callee_speaking_start_time := now, last_user_start_ts := now\<rparr>)"

definition on_interim_transcript_received :: "rat \<Rightarrow> interruption_manager \<Rightarrow> interruption_manager" where
  "on_interim_transcript_received now s =
     (let s = s\<lparr>let_remaining_audio_pass_through := False\<rparr>
      in if time_since_first_interim_result s = -1
         then s\<lparr>time_since_first_interim_result := now * 1000\<rparr> else s)"

definition on_user_speech_ended ::
  "rat \<Rightarrow> bool \<Rightarrow> rat \<Rightarrow> rat option \<Rightarrow> interruption_manager \<Rightarrow> interruption_manager" where
  "on_user_speech_ended now update_utterance_time stop_offset_ms user_stop_ts_wall s =
     (let s1 = s\<lparr>callee_speaking := False, let_remaining_audio_pass_through := True,
                 time_since_first_interim_result := -1, last_interim_ts := -1\<rparr>;
          s2 = (if update_utterance_time
                then s1\<lparr>utterance_end_time := now * 1000,
                        adjusted_user_stop_ts :=
                          Some (case user_stop_ts_wall of Some w \<Rightarrow> w
                                | None \<Rightarrow> now - stop_offset_ms / 1000),
                        pending_user_start_ts := last_user_start_ts s1\<rparr>
                else s1);
          s3 = (if 0 < callee_speaking_start_time s2
                then s2\<lparr>total_user_speaking_ms := total_user_speaking_ms s2 +
                          (now - callee_speaking_start_time s2) * 1000,
                        callee_speaking_start_time := -1\<rparr>
                else s2)
      in case open_event s3 of
           None \<Rightarrow> s3
         | Some k \<Rightarrow>
             (if ev_user_end_s (interruption_events s3 ! k) = None
              then s3\<lparr>interruption_events := update_nth k (\<lambda>e. e\<lparr>ev_user_end_s := Some now\<rparr>)
                                                       (interruption_events s3),
                      open_event := None\<rparr>
              else s3))"

section \<open>Sequence management\<close>

definition invalidate_pending_responses :: "interruption_manager \<Rightarrow> interruption_manager" where
  "invalidate_pending_responses s = s\<lparr>sequence_ids := {-1}\<rparr>"

definition revalidate_sequence_id :: "int \<Rightarrow> interruption_manager \<Rightarrow> interruption_manager" where
  "revalidate_sequence_id sid s = s\<lparr>sequence_ids := insert sid (sequence_ids s)\<rparr>"

definition get_next_sequence_id :: "interruption_manager \<Rightarrow> int \<times> interruption_manager" where
  "get_next_sequence_id s =
     (let n = curr_sequence_id s + 1
      in (n, s\<lparr>curr_sequence_id := n, sequence_ids := insert n (sequence_ids s)\<rparr>))"

definition retire_sequence_id :: "int option \<Rightarrow> interruption_manager \<Rightarrow> interruption_manager" where
  "retire_sequence_id sid s =
     (case sid of None \<Rightarrow> s
      | Some i \<Rightarrow> if i = -1 then s else s\<lparr>sequence_ids := sequence_ids s - {i}\<rparr>)"

section \<open>Agent speaking lifecycle\<close>

definition finalize_agent_speaking_session :: "rat \<Rightarrow> interruption_manager \<Rightarrow> interruption_manager" where
  "finalize_agent_speaking_session now s =
     (if agent_speaking_start_time s \<le> 0 then s
      else let d = (now - agent_speaking_start_time s) * 1000
           in s\<lparr>total_agent_speaking_ms := total_agent_speaking_ms s + d,
                longest_agent_monologue_ms :=
                  (if longest_agent_monologue_ms s < d then d else longest_agent_monologue_ms s),
                agent_speaking_start_time := -1\<rparr>)"

definition on_agent_speech_started :: "rat \<Rightarrow> int \<Rightarrow> interruption_manager \<Rightarrow> interruption_manager" where
  "on_agent_speech_started now sid s =
     (if last_sent_sequence_id s = Some sid then s
      else let s1 = s\<lparr>last_sent_sequence_id := Some sid, agent_speaking_start_time := now\<rparr>
        in case adjusted_user_stop_ts s1 of
             Some stop \<Rightarrow>
               s1\<lparr>user_bot_latencies := user_bot_latencies s1 @
                    [\<lparr>le_sequence_id = sid,
                      le_user_start_s = positive_ts (last_user_start_ts s1),
                      le_user_first_start_s = positive_ts (pending_user_start_ts s1),
                      le_user_end_s = Some stop, le_agent_start_s = now,
                      le_latency_ms = Some (py_round 2 ((now - stop) * 1000)),
                      le_agent_end_s = None\<rparr>],
                  adjusted_user_stop_ts := None, pending_user_start_ts := -1\<rparr>
           | None \<Rightarrow>
               s1\<lparr>user_bot_latencies := user_bot_latencies s1 @
                    [\<lparr>le_sequence_id = sid, le_user_start_s = None, le_user_first_start_s = None,
                      le_user_end_s = None, le_agent_start_s = now, le_latency_ms = None,
                      le_agent_end_s = None\<rparr>]\<rparr>)"

definition on_agent_speech_ended :: "rat \<Rightarrow> interruption_manager \<Rightarrow> interruption_manager" where
  "on_agent_speech_ended now s = finalize_agent_speaking_session now s"

definition on_agent_audio_fully_played ::
  "int \<Rightarrow> rat \<Rightarrow> interruption_manager \<Rightarrow> interruption_manager" where
  "on_agent_audio_fully_played sid ts s =
     (case find_last (\<lambda>e. le_sequence_id e = sid) (user_bot_latencies s) of
        None \<Rightarrow> s
      | Some i \<Rightarrow> s\<lparr>user_bot_latencies :=
                     update_nth i (\<lambda>e. e\<lparr>le_agent_end_s := Some ts\<rparr>) (user_bot_latencies s)\<rparr>)"

section \<open>Interruption events\<close>

definition new_event ::
  "event_type \<Rightarrow> int option \<Rightarrow> interruption_manager \<Rightarrow> interruption_event" where
  "new_event ty asr s =
     \<lparr>ev_type = ty, ev_turn_id = im_turn_id s, ev_asr_turn_id = asr,
      ev_user_start_s = positive_ts (callee_speaking_start_time s),
      ev_user_end_s = None, ev_recovery_completed = False\<rparr>"

text \<open>\<open>events.append(event); _open_event = event\<close>: the open event is the new last one.\<close>

definition push_event :: "interruption_event \<Rightarrow> interruption_manager \<Rightarrow> interruption_manager" where
  "push_event e s =
     s\<lparr>interruption_events := interruption_events s @ [e],
       open_event := Some (length (interruption_events s))\<rparr>"

definition on_interruption_triggered ::
  "rat \<Rightarrow> int option \<Rightarrow> interruption_manager \<Rightarrow> interruption_manager" where
  "on_interruption_triggered now asr s =
     (let s1 = s\<lparr>im_turn_id := im_turn_id s + 1,
                 user_interrupted_agent_count := user_interrupted_agent_count s + 1,
                 awaiting_recovery := True,
                 last_interruption_ts_ms := Some (now * 1000)\<rparr>;
          s2 = invalidate_pending_responses (finalize_agent_speaking_session now s1)
      in push_event (new_event User_Interrupted_Agent asr s2) s2)"

definition on_agent_interrupted_user ::
  "int option \<Rightarrow> interruption_manager \<Rightarrow> interruption_manager" where
  "on_agent_interrupted_user asr s =
     (let s1 = s\<lparr>agent_interrupted_user_count := agent_interrupted_user_count s + 1\<rparr>
      in push_event (new_event Agent_Interrupted_User asr s1) s1)"

definition record_interrupted_transcriber_turn ::
  "int option \<Rightarrow> interruption_manager \<Rightarrow> interruption_manager" where
  "record_interrupted_transcriber_turn turn s =
     (case turn of None \<Rightarrow> s
      | Some t \<Rightarrow> s\<lparr>interrupted_transcriber_turn_ids :=
                     insert t (interrupted_transcriber_turn_ids s)\<rparr>)"

definition on_successful_response_delivered ::
  "int option \<Rightarrow> interruption_manager \<Rightarrow> interruption_manager" where
  "on_successful_response_delivered sid s =
     (let s1 = (if sid \<noteq> None then retire_sequence_id sid s else s)
      in if \<not> awaiting_recovery s1 then s1
         else let s2 = s1\<lparr>barge_in_recovery_count := barge_in_recovery_count s1 + 1,
                          awaiting_recovery := False\<rparr>
           in case find_last (\<lambda>e. \<not> ev_recovery_completed e) (interruption_events s2) of
                None \<Rightarrow> s2
              | Some i \<Rightarrow> s2\<lparr>interruption_events :=
                              update_nth i (\<lambda>e. e\<lparr>ev_recovery_completed := True\<rparr>)
                                (interruption_events s2)\<rparr>)"

section \<open>Delay logic\<close>

definition check_delay :: "rat \<Rightarrow> interruption_manager \<Rightarrow> bool \<times> rat" where
  "check_delay now s =
     (if time_since_first_interim_result s = -1 then (False, 0)
      else if now * 1000 - time_since_first_interim_result s < required_delay_before_speaking s
      then (True, 1 / 10) else (False, 0))"

definition should_delay_output :: "rat \<Rightarrow> bool \<Rightarrow> interruption_manager \<Rightarrow> bool \<times> rat" where
  "should_delay_output now welcome_message_played s =
     (if \<not> welcome_message_played then (False, 0) else check_delay now s)"

definition update_required_delay :: "nat \<Rightarrow> interruption_manager \<Rightarrow> interruption_manager" where
  "update_required_delay history_length s =
     s\<lparr>required_delay_before_speaking := (if 2 < history_length then incremental_delay s else 0)\<rparr>"

definition reset_delay_for_speech_final :: "nat \<Rightarrow> interruption_manager \<Rightarrow> interruption_manager" where
  "reset_delay_for_speech_final history_length s =
     s\<lparr>time_since_first_interim_result := -1,
       required_delay_before_speaking :=
         (if 2 < history_length then max (minimum_wait_duration s - incremental_delay s) 0 else 0)\<rparr>"

definition note_user_liveness :: "rat \<Rightarrow> interruption_manager \<Rightarrow> interruption_manager" where
  "note_user_liveness now s = s\<lparr>last_interim_ts := now\<rparr>"

definition reset_utterance_end_time :: "interruption_manager \<Rightarrow> interruption_manager" where
  "reset_utterance_end_time s = s\<lparr>utterance_end_time := -1\<rparr>"

definition set_first_interim_for_immediate_response ::
  "rat \<Rightarrow> interruption_manager \<Rightarrow> interruption_manager" where
  "set_first_interim_for_immediate_response now s =
     s\<lparr>time_since_first_interim_result := now * 1000 - 1000\<rparr>"

section \<open>Statistics\<close>

record event_stats =
  es_type :: event_type
  es_recovery_completed :: bool
  es_asr_turn_id :: "int option"
  es_user_start_ms :: "rat option"
  es_user_end_ms :: "rat option"
  es_user_duration_ms :: "rat option"

record interruption_stats =
  st_user_interrupted_agent_count :: nat
  st_agent_interrupted_user_count :: nat
  st_total_interruptions :: nat
  st_barge_in_recovery_count :: nat
  st_barge_in_recovery_rate :: "rat option"
  st_interruption_events :: "event_stats list"
  st_agent_speaking_ms :: int
  st_user_speaking_ms :: int
  st_talk_to_listen_ratio :: "rat option"
  st_longest_agent_monologue_ms :: int

definition event_entry :: "rat \<Rightarrow> interruption_event \<Rightarrow> event_stats" where
  "event_entry call_start_ms e =
     (let ms = map_option (\<lambda>t. py_round 2 (t * 1000 - call_start_ms));
          start = ms (ev_user_start_s e); end' = ms (ev_user_end_s e)
      in \<lparr>es_type = ev_type e, es_recovery_completed = ev_recovery_completed e,
          es_asr_turn_id = ev_asr_turn_id e, es_user_start_ms = start, es_user_end_ms = end',
          es_user_duration_ms =
            (case (start, end') of (Some a, Some b) \<Rightarrow> Some (py_round 2 (b - a)) | _ \<Rightarrow> None)\<rparr>)"

definition agent_ms_now :: "rat \<Rightarrow> interruption_manager \<Rightarrow> rat" where
  "agent_ms_now now s =
     total_agent_speaking_ms s +
     (if 0 < agent_speaking_start_time s then (now - agent_speaking_start_time s) * 1000 else 0)"

definition user_ms_now :: "rat \<Rightarrow> interruption_manager \<Rightarrow> rat" where
  "user_ms_now now s =
     total_user_speaking_ms s +
     (if callee_speaking s \<and> 0 < callee_speaking_start_time s
      then (now - callee_speaking_start_time s) * 1000 else 0)"

definition get_interruption_stats :: "rat \<Rightarrow> rat \<Rightarrow> interruption_manager \<Rightarrow> interruption_stats" where
  "get_interruption_stats now call_start_ms s =
     \<lparr>st_user_interrupted_agent_count = user_interrupted_agent_count s,
      st_agent_interrupted_user_count = agent_interrupted_user_count s,
      st_total_interruptions = user_interrupted_agent_count s + agent_interrupted_user_count s,
      st_barge_in_recovery_count = barge_in_recovery_count s,
      st_barge_in_recovery_rate =
        (if 0 < user_interrupted_agent_count s
         then Some (py_round 1 (of_nat (barge_in_recovery_count s)
                                 / of_nat (user_interrupted_agent_count s) * 100))
         else None),
      st_interruption_events = map (event_entry call_start_ms) (interruption_events s),
      st_agent_speaking_ms = round_half_even (agent_ms_now now s),
      st_user_speaking_ms = round_half_even (user_ms_now now s),
      st_talk_to_listen_ratio =
        (let total = agent_ms_now now s + user_ms_now now s
         in if 0 < total then Some (py_round 1 (agent_ms_now now s / total * 100)) else None),
      st_longest_agent_monologue_ms = round_half_even (longest_agent_monologue_ms s)\<rparr>"

section \<open>Runs\<close>

text \<open>
  A run of the manager: any sequence of method calls at nondecreasing positive clock
  readings. \<open>revalidate_sequence_id\<close> is called with an id that was allocated before.
\<close>

datatype im_call =
    User_Speech_Started
  | Interim_Received
  | User_Speech_Ended bool rat "rat option"
  | Interruption_Triggered "int option"
  | Agent_Interrupted "int option"
  | Record_Turn "int option"
  | Agent_Speech_Started int
  | Agent_Speech_Ended
  | Audio_Fully_Played int rat
  | Response_Delivered "int option"
  | Invalidate_Pending
  | Revalidate int
  | Next_Sequence
  | Retire "int option"
  | Update_Delay nat
  | Reset_Delay nat
  | Note_Liveness
  | Reset_Utterance_End
  | Set_First_Interim

fun im_step :: "rat \<Rightarrow> im_call \<Rightarrow> interruption_manager \<Rightarrow> interruption_manager" where
  "im_step now User_Speech_Started s = on_user_speech_started now s"
| "im_step now Interim_Received s = on_interim_transcript_received now s"
| "im_step now (User_Speech_Ended b off w) s = on_user_speech_ended now b off w s"
| "im_step now (Interruption_Triggered a) s = on_interruption_triggered now a s"
| "im_step now (Agent_Interrupted a) s = on_agent_interrupted_user a s"
| "im_step now (Record_Turn t) s = record_interrupted_transcriber_turn t s"
| "im_step now (Agent_Speech_Started i) s = on_agent_speech_started now i s"
| "im_step now Agent_Speech_Ended s = on_agent_speech_ended now s"
| "im_step now (Audio_Fully_Played i ts) s = on_agent_audio_fully_played i ts s"
| "im_step now (Response_Delivered i) s = on_successful_response_delivered i s"
| "im_step now Invalidate_Pending s = invalidate_pending_responses s"
| "im_step now (Revalidate i) s = revalidate_sequence_id i s"
| "im_step now Next_Sequence s = snd (get_next_sequence_id s)"
| "im_step now (Retire i) s = retire_sequence_id i s"
| "im_step now (Update_Delay n) s = update_required_delay n s"
| "im_step now (Reset_Delay n) s = reset_delay_for_speech_final n s"
| "im_step now Note_Liveness s = note_user_liveness now s"
| "im_step now Reset_Utterance_End s = reset_utterance_end_time s"
| "im_step now Set_First_Interim s = set_first_interim_for_immediate_response now s"

definition allocated :: "interruption_manager \<Rightarrow> im_call \<Rightarrow> bool" where
  "allocated s c = (case c of Revalidate i \<Rightarrow> 1 \<le> i \<and> i \<le> curr_sequence_id s | _ \<Rightarrow> True)"

inductive im_run :: "interruption_manager \<Rightarrow> rat \<Rightarrow> interruption_manager \<Rightarrow> rat \<Rightarrow> bool"
  for s0 t0 where
  start: "im_run s0 t0 s0 t0"
| call: "im_run s0 t0 s t \<Longrightarrow> t \<le> now \<Longrightarrow> allocated s c \<Longrightarrow> im_run s0 t0 (im_step now c s) now"

inductive_cases im_run_cases: "im_run s0 t0 s t"

text \<open>Reachable: a run from a fresh manager, created at a positive clock reading.\<close>

definition im_reachable :: "interruption_manager \<Rightarrow> rat \<Rightarrow> bool" where
  "im_reachable s t =
     (\<exists>w ph d mw b t0. 0 < t0 \<and> im_run (im_init w ph d mw b) t0 s t)"

lemmas im_defs = on_user_speech_started_def on_interim_transcript_received_def
  on_user_speech_ended_def on_interruption_triggered_def on_agent_interrupted_user_def
  record_interrupted_transcriber_turn_def on_agent_speech_started_def on_agent_speech_ended_def
  on_agent_audio_fully_played_def on_successful_response_delivered_def
  invalidate_pending_responses_def revalidate_sequence_id_def get_next_sequence_id_def
  retire_sequence_id_def update_required_delay_def reset_delay_for_speech_final_def
  note_user_liveness_def reset_utterance_end_time_def set_first_interim_for_immediate_response_def
  finalize_agent_speaking_session_def push_event_def new_event_def

section \<open>Invariants\<close>

text \<open>Sequence ids: the background id is always live, no live id lies in the future.\<close>

definition seq_inv :: "interruption_manager \<Rightarrow> bool" where
  "seq_inv s \<longleftrightarrow> -1 \<in> sequence_ids s \<and> finite (sequence_ids s) \<and> 0 \<le> curr_sequence_id s \<and>
     (\<forall>i \<in> sequence_ids s. i = -1 \<or> 1 \<le> i \<and> i \<le> curr_sequence_id s)"

definition is_barge_in :: "interruption_event \<Rightarrow> bool" where
  "is_barge_in e = (ev_type e = User_Interrupted_Agent)"

text \<open>Counters agree with the event log, recoveries never outnumber barge-ins.\<close>

definition count_inv :: "interruption_manager \<Rightarrow> bool" where
  "count_inv s \<longleftrightarrow>
     user_interrupted_agent_count s = length (filter is_barge_in (interruption_events s)) \<and>
     agent_interrupted_user_count s =
       length (filter (\<lambda>e. \<not> is_barge_in e) (interruption_events s)) \<and>
     barge_in_recovery_count s + (if awaiting_recovery s then 1 else 0)
       \<le> user_interrupted_agent_count s \<and>
     (case open_event s of None \<Rightarrow> True
      | Some k \<Rightarrow> k < length (interruption_events s) \<and> ev_user_end_s (interruption_events s ! k) = None)"

text \<open>Speaking times, for a state last touched at \<open>t\<close>.\<close>

definition time_inv :: "rat \<Rightarrow> interruption_manager \<Rightarrow> bool" where
  "time_inv t s \<longleftrightarrow> 0 < t \<and>
     callee_speaking_start_time s \<le> t \<and> agent_speaking_start_time s \<le> t \<and>
     (callee_speaking s \<longleftrightarrow> 0 < callee_speaking_start_time s) \<and>
     0 \<le> total_user_speaking_ms s \<and> 0 \<le> total_agent_speaking_ms s \<and>
     0 \<le> longest_agent_monologue_ms s \<and>
     longest_agent_monologue_ms s \<le> total_agent_speaking_ms s"

lemma seq_inv_step:
  assumes "seq_inv s" "allocated s c"
  shows "seq_inv (im_step now c s)"
  using assms
  by (cases c) (auto simp: seq_inv_def im_defs Let_def allocated_def split: option.splits)

lemma is_barge_in_simps [simp]:
  "is_barge_in (e\<lparr>ev_user_end_s := x\<rparr>) = is_barge_in e"
  "is_barge_in (e\<lparr>ev_recovery_completed := b\<rparr>) = is_barge_in e"
  by (simp_all add: is_barge_in_def)

lemma length_filter_update_nth:
  assumes "\<And>x. P (f x) = P x"
  shows "length (filter P (update_nth k f xs)) = length (filter P xs)"
proof (cases "k < length xs")
  case True
  then show ?thesis using assms by (simp add: update_nth_split filter_split_nth [OF True, of P])
qed (simp add: update_nth_def)

named_theorems count_inv_ops \<open>every operation keeps the counter invariant\<close>

lemma count_inv_frame:
  assumes "interruption_events s' = interruption_events s" "open_event s' = open_event s"
    "user_interrupted_agent_count s' = user_interrupted_agent_count s"
    "agent_interrupted_user_count s' = agent_interrupted_user_count s"
    "barge_in_recovery_count s' = barge_in_recovery_count s"
    "awaiting_recovery s' = awaiting_recovery s"
  shows "count_inv s' = count_inv s"
  by (simp only: count_inv_def assms)

lemma count_inv_simple [count_inv_ops]:
  "count_inv (on_user_speech_started now s) = count_inv s"
  "count_inv (on_interim_transcript_received now s) = count_inv s"
  "count_inv (record_interrupted_transcriber_turn t s) = count_inv s"
  "count_inv (on_agent_speech_started now i s) = count_inv s"
  "count_inv (on_agent_speech_ended now s) = count_inv s"
  "count_inv (on_agent_audio_fully_played i ts s) = count_inv s"
  "count_inv (invalidate_pending_responses s) = count_inv s"
  "count_inv (revalidate_sequence_id i s) = count_inv s"
  "count_inv (snd (get_next_sequence_id s)) = count_inv s"
  "count_inv (retire_sequence_id j s) = count_inv s"
  "count_inv (update_required_delay n s) = count_inv s"
  "count_inv (reset_delay_for_speech_final n s) = count_inv s"
  "count_inv (note_user_liveness now s) = count_inv s"
  "count_inv (reset_utterance_end_time s) = count_inv s"
  "count_inv (set_first_interim_for_immediate_response now s) = count_inv s"
  by (rule count_inv_frame; simp add: im_defs Let_def split: option.split)+

lemma finalize_fields [simp]:
  "interruption_events (finalize_agent_speaking_session now s) = interruption_events s"
  "open_event (finalize_agent_speaking_session now s) = open_event s"
  "user_interrupted_agent_count (finalize_agent_speaking_session now s) = user_interrupted_agent_count s"
  "agent_interrupted_user_count (finalize_agent_speaking_session now s) = agent_interrupted_user_count s"
  "barge_in_recovery_count (finalize_agent_speaking_session now s) = barge_in_recovery_count s"
  "awaiting_recovery (finalize_agent_speaking_session now s) = awaiting_recovery s"
  "sequence_ids (finalize_agent_speaking_session now s) = sequence_ids s"
  "curr_sequence_id (finalize_agent_speaking_session now s) = curr_sequence_id s"
  "callee_speaking (finalize_agent_speaking_session now s) = callee_speaking s"
  "callee_speaking_start_time (finalize_agent_speaking_session now s) = callee_speaking_start_time s"
  by (simp_all add: finalize_agent_speaking_session_def Let_def)

lemma count_inv_triggered [count_inv_ops]:
  "count_inv s \<Longrightarrow> count_inv (on_interruption_triggered now a s)"
  by (simp add: count_inv_def on_interruption_triggered_def Let_def invalidate_pending_responses_def
      push_event_def new_event_def is_barge_in_def split: if_splits)

lemma count_inv_agent [count_inv_ops]:
  "count_inv s \<Longrightarrow> count_inv (on_agent_interrupted_user a s)"
  by (simp add: count_inv_def on_agent_interrupted_user_def Let_def
      push_event_def new_event_def is_barge_in_def split: if_splits)

lemma count_inv_close:
  "count_inv s \<Longrightarrow>
   count_inv (s\<lparr>interruption_events := update_nth k (\<lambda>e. e\<lparr>ev_user_end_s := Some now\<rparr>)
                                     (interruption_events s), open_event := None\<rparr>)"
  by (simp add: count_inv_def length_filter_update_nth)

lemma count_inv_ended [count_inv_ops]:
  assumes "count_inv s"
  shows "count_inv (on_user_speech_ended now b off w s)"
proof -
  obtain s3 where "count_inv s3" and eq: "on_user_speech_ended now b off w s = (case open_event s3 of
           None \<Rightarrow> s3
         | Some k \<Rightarrow>
             (if ev_user_end_s (interruption_events s3 ! k) = None
              then s3\<lparr>interruption_events := update_nth k (\<lambda>e. e\<lparr>ev_user_end_s := Some now\<rparr>)
                                                       (interruption_events s3),
                      open_event := None\<rparr>
              else s3))"
  proof (rule that)
    show "count_inv (let s1 = s\<lparr>callee_speaking := False, let_remaining_audio_pass_through := True,
                 time_since_first_interim_result := -1, last_interim_ts := -1\<rparr>;
          s2 = (if b
                then s1\<lparr>utterance_end_time := now * 1000,
                        adjusted_user_stop_ts :=
                          Some (case w of Some w \<Rightarrow> w | None \<Rightarrow> now - off / 1000),
                        pending_user_start_ts := last_user_start_ts s1\<rparr>
                else s1)
          in (if 0 < callee_speaking_start_time s2
                then s2\<lparr>total_user_speaking_ms := total_user_speaking_ms s2 +
                          (now - callee_speaking_start_time s2) * 1000,
                        callee_speaking_start_time := -1\<rparr>
                else s2))"
      using assms by (subst count_inv_frame [where s = s]) (simp_all add: Let_def)
  qed (simp only: on_user_speech_ended_def Let_def)
  then show ?thesis using count_inv_close [of s3] by (auto split: option.splits)
qed

lemma count_inv_delivered [count_inv_ops]:
  assumes "count_inv s"
  shows "count_inv (on_successful_response_delivered j s)"
proof -
  define s1 where "s1 = (if j \<noteq> None then retire_sequence_id j s else s)"
  have s1: "count_inv s1" using assms by (simp add: s1_def count_inv_simple)
  have mark: "ev_user_end_s (update_nth i (\<lambda>e. e\<lparr>ev_recovery_completed := True\<rparr>) xs ! k) = ev_user_end_s (xs ! k)"
    if "k < length xs" for i k and xs :: "interruption_event list"
    using that by (auto simp: update_nth_def nth_list_update)
  show ?thesis
    using s1 unfolding on_successful_response_delivered_def s1_def [symmetric] Let_def
    by (auto simp: count_inv_def length_filter_update_nth mark split: option.splits)
qed

lemma count_inv_step: "count_inv s \<Longrightarrow> count_inv (im_step now c s)"
  by (cases c) (simp_all add: count_inv_ops)

text \<open>The times: every operation at a later clock reading keeps them.\<close>

lemma time_inv_later: "time_inv t s \<Longrightarrow> t \<le> now \<Longrightarrow> time_inv now s"
  by (auto simp: time_inv_def)

lemma time_inv_frame:
  assumes "callee_speaking_start_time s' = callee_speaking_start_time s"
    "agent_speaking_start_time s' = agent_speaking_start_time s"
    "callee_speaking s' = callee_speaking s"
    "total_user_speaking_ms s' = total_user_speaking_ms s"
    "total_agent_speaking_ms s' = total_agent_speaking_ms s"
    "longest_agent_monologue_ms s' = longest_agent_monologue_ms s"
  shows "time_inv t s' = time_inv t s"
  by (simp only: time_inv_def assms)

named_theorems time_inv_ops \<open>every operation keeps the time invariant\<close>

lemma time_inv_simple [time_inv_ops]:
  "time_inv t (on_interim_transcript_received now s) = time_inv t s"
  "time_inv t (record_interrupted_transcriber_turn j s) = time_inv t s"
  "time_inv t (on_agent_audio_fully_played i ts s) = time_inv t s"
  "time_inv t (invalidate_pending_responses s) = time_inv t s"
  "time_inv t (revalidate_sequence_id i s) = time_inv t s"
  "time_inv t (snd (get_next_sequence_id s)) = time_inv t s"
  "time_inv t (retire_sequence_id j s) = time_inv t s"
  "time_inv t (update_required_delay n s) = time_inv t s"
  "time_inv t (reset_delay_for_speech_final n s) = time_inv t s"
  "time_inv t (note_user_liveness now s) = time_inv t s"
  "time_inv t (reset_utterance_end_time s) = time_inv t s"
  "time_inv t (set_first_interim_for_immediate_response now s) = time_inv t s"
  "time_inv t (on_agent_interrupted_user j s) = time_inv t s"
  "time_inv t (push_event e s) = time_inv t s"
  by (rule time_inv_frame; simp add: im_defs Let_def split: option.split)+

lemma time_inv_delivered [time_inv_ops]:
  "time_inv t (on_successful_response_delivered j s) = time_inv t s"
  by (rule time_inv_frame)
     (auto simp: on_successful_response_delivered_def retire_sequence_id_def Let_def split: option.split)

lemma time_inv_started [time_inv_ops]:
  "time_inv now s \<Longrightarrow> time_inv now (on_user_speech_started now s)"
  by (auto simp: time_inv_def on_user_speech_started_def)

lemma time_inv_agent_started [time_inv_ops]:
  "time_inv now s \<Longrightarrow> time_inv now (on_agent_speech_started now i s)"
  by (auto simp: time_inv_def on_agent_speech_started_def Let_def split: option.splits)

lemma time_inv_finalize [time_inv_ops]:
  "time_inv now s \<Longrightarrow> time_inv now (finalize_agent_speaking_session now s)"
  by (auto simp: time_inv_def finalize_agent_speaking_session_def Let_def)

lemma time_inv_triggered [time_inv_ops]:
  assumes "time_inv now s"
  shows "time_inv now (on_interruption_triggered now j s)"
proof -
  have "time_inv now (s\<lparr>im_turn_id := a, user_interrupted_agent_count := b,
      awaiting_recovery := True, last_interruption_ts_ms := c\<rparr>)" for a b c
    using assms by (simp add: time_inv_def)
  then show ?thesis
    by (simp add: on_interruption_triggered_def Let_def time_inv_simple time_inv_finalize)
qed

lemma time_inv_ended [time_inv_ops]:
  assumes "time_inv now s"
  shows "time_inv now (on_user_speech_ended now b off w s)"
  using assms
  by (cases "callee_speaking s"; cases b)
     (simp_all add: time_inv_def on_user_speech_ended_def Let_def split: option.split)

lemma time_inv_step:
  assumes "time_inv t s" "t \<le> now"
  shows "time_inv now (im_step now c s)"
  using time_inv_later [OF assms]
  by (cases c) (simp_all add: time_inv_ops on_agent_speech_ended_def)

lemma im_init_inv:
  "seq_inv (im_init w ph d mw b)" "count_inv (im_init w ph d mw b)"
  "0 < t \<Longrightarrow> time_inv t (im_init w ph d mw b)"
  by (simp_all add: im_init_def seq_inv_def count_inv_def time_inv_def)

lemma im_run_inv:
  assumes "im_run s0 t0 s t" "seq_inv s0" "count_inv s0" "time_inv t0 s0"
  shows "seq_inv s \<and> count_inv s \<and> time_inv t s"
  using assms
  by (induction rule: im_run.induct) (auto intro: seq_inv_step count_inv_step time_inv_step)

section \<open>Properties\<close>

text \<open>
  C5: in every reachable state the background sequence id \<open>-1\<close> is live
  and no live id lies beyond the last allocated one; the counters equal the numbers of logged
  events of each type; the confirmed and the awaited recovery together never outnumber the
  barge-ins; the open event exists and has no end; speaking times are nonnegative and the
  longest monologue is part of the agent's total.
\<close>

theorem interruption_invariants:
  assumes "im_reachable s t"
  shows "seq_inv s \<and> count_inv s \<and> time_inv t s"
proof -
  from assms obtain w ph d mw b t0 where "0 < t0" "im_run (im_init w ph d mw b) t0 s t"
    unfolding im_reachable_def by blast
  then show ?thesis using im_run_inv im_init_inv by blast
qed

definition sample_im :: interruption_manager where
  "sample_im = im_step 12 (Interruption_Triggered None) (im_step 11 User_Speech_Started
     (im_step 10 (Agent_Speech_Started 1) (im_step 10 Next_Sequence (im_init 3 [] 900 0 0))))"

lemma sample_im_reachable: "im_reachable sample_im 12"
proof -
  let ?s = "im_init 3 [] 900 0 0"
  have ok: "allocated s Next_Sequence" "allocated s (Agent_Speech_Started 1)"
    "allocated s User_Speech_Started" "allocated s (Interruption_Triggered None)" for s
    by (simp_all add: allocated_def)
  have "im_run ?s 10 (im_step 10 Next_Sequence ?s) 10"
    by (rule im_run.call [OF im_run.start]) (simp_all add: ok)
  then have "im_run ?s 10 (im_step 10 (Agent_Speech_Started 1) (im_step 10 Next_Sequence ?s)) 10"
    by (rule im_run.call) (simp_all add: ok)
  then have "im_run ?s 10 (im_step 11 User_Speech_Started
      (im_step 10 (Agent_Speech_Started 1) (im_step 10 Next_Sequence ?s))) 11"
    by (rule im_run.call) (simp_all add: ok)
  then have "im_run ?s 10 sample_im 12"
    unfolding sample_im_def by (rule im_run.call) (simp_all add: ok)
  then show ?thesis unfolding im_reachable_def by (metis zero_less_numeral)
qed

lemmas im_eval = sample_im_def im_init_def im_defs Let_def positive_ts_def update_nth_def

theorem interruption_invariants_witness:
  "im_reachable sample_im 12 \<and> user_interrupted_agent_count sample_im = 1 \<and>
   count_inv sample_im \<and> total_agent_speaking_ms sample_im = 2000"
  using sample_im_reachable interruption_invariants [OF sample_im_reachable]
  by (simp add: im_eval)

definition revalidates :: "int \<Rightarrow> im_call \<Rightarrow> bool" where
  "revalidates i c = (c = Revalidate i)"

fun im_calls :: "(rat \<times> im_call) list \<Rightarrow> interruption_manager \<Rightarrow> interruption_manager" where
  "im_calls [] s = s"
| "im_calls ((now, c) # cs) s = im_calls cs (im_step now c s)"

lemma dead_id_step:
  assumes "i \<notin> sequence_ids s" "i \<le> curr_sequence_id s" "i \<noteq> -1" "\<not> revalidates i c"
  shows "i \<notin> sequence_ids (im_step now c s) \<and> i \<le> curr_sequence_id (im_step now c s)"
  using assms by (cases c) (auto simp: im_defs Let_def revalidates_def split: option.splits)

lemma dead_id_calls:
  assumes "i \<notin> sequence_ids s" "i \<le> curr_sequence_id s" "i \<noteq> -1"
    "\<forall>(t, c) \<in> set cs. \<not> revalidates i c"
  shows "i \<notin> sequence_ids (im_calls cs s)"
  using assms
proof (induction cs arbitrary: s)
  case (Cons tc cs)
  obtain t c where tc: "tc = (t, c)" by (cases tc)
  with Cons.prems have "i \<notin> sequence_ids (im_step t c s)" "i \<le> curr_sequence_id (im_step t c s)"
    using dead_id_step by auto
  with Cons tc show ?case by auto
qed simp



text \<open>
  the gate releases audio exactly when the sequence is live, the user is
  silent, the post-barge-in window has passed and, from the third message on, the grace period
  after the last utterance has passed; it discards exactly the sequences that are not live.
\<close>

theorem gate_send_iff:
  "(get_audio_send_status now i n s = BLOCK \<longleftrightarrow> \<not> is_valid_sequence i s) \<and>
   (get_audio_send_status now i n s = SEND \<longleftrightarrow>
      is_valid_sequence i s \<and> \<not> is_user_speaking s \<and>
      (interruption_backoff_period s \<le> 0 \<or> last_interruption_ts_ms s = None \<or>
       the (last_interruption_ts_ms s) + interruption_backoff_period s \<le> now * 1000) \<and>
      (n \<le> 2 \<or> utterance_end_time s = -1 \<or> now * 1000 - utterance_end_time s = -1 \<or>
       utterance_end_time s + incremental_delay s \<le> now * 1000))"
  by (auto simp: get_audio_send_status_def is_valid_sequence_def is_user_speaking_def
      get_time_since_utterance_end_def split: option.splits)

text \<open>
  while agent audio plays, a transcript either interrupts or is ignored as
  a false interruption, never both and never neither, unless interruptions are switched off
  (a threshold of 0 words).
\<close>

theorem gates_complementary:
  "number_of_words_for_interruption s = 0 \<or> \<not> playing \<or>
   should_trigger_interruption n tr playing wp s = (\<not> is_false_interruption n tr playing wp s)"
  by (auto simp: should_trigger_interruption_def is_false_interruption_def)

text \<open>
  in every reachable state the reported recovery rate and the talk-to-listen
  ratio are percentages between 0 and 100, the total equals the number of logged events, and
  the reported monologue does not exceed the reported agent speaking time.
\<close>

theorem stats_bounds:
  assumes "im_reachable s t" "t \<le> now"
  shows "(case st_barge_in_recovery_rate (get_interruption_stats now cs s) of None \<Rightarrow> True
          | Some r \<Rightarrow> 0 \<le> r \<and> r \<le> 100) \<and>
         (case st_talk_to_listen_ratio (get_interruption_stats now cs s) of None \<Rightarrow> True
          | Some r \<Rightarrow> 0 \<le> r \<and> r \<le> 100) \<and>
         st_total_interruptions (get_interruption_stats now cs s)
           = length (st_interruption_events (get_interruption_stats now cs s)) \<and>
         st_longest_agent_monologue_ms (get_interruption_stats now cs s)
           \<le> st_agent_speaking_ms (get_interruption_stats now cs s)"
proof -
  from interruption_invariants [OF assms(1)] have cnt: "count_inv s" and "time_inv t s" by auto
  with assms(2) have tm: "time_inv now s" by (blast intro: time_inv_later)
  have pct: "0 \<le> py_round 1 (a / b * 100) \<and> py_round 1 (a / b * 100) \<le> 100"
    if "0 \<le> a" "a \<le> b" "0 < b" for a b :: rat
  proof -
    from that have "of_int 0 \<le> a / b * 100" "a / b * 100 \<le> of_int 100"
      by (simp_all add: field_simps)
    then show ?thesis using py_round_bounds [of 0 "a / b * 100" 100 1] by simp
  qed
  from tm have agent: "0 \<le> agent_ms_now now s" "longest_agent_monologue_ms s \<le> agent_ms_now now s"
    and user: "0 \<le> user_ms_now now s"
    by (auto simp: time_inv_def agent_ms_now_def user_ms_now_def add_increasing2)
  from cnt have rec: "barge_in_recovery_count s \<le> user_interrupted_agent_count s"
    by (auto simp: count_inv_def split: if_splits)
  have len: "length (interruption_events s) =
      user_interrupted_agent_count s + agent_interrupted_user_count s"
    using cnt sum_length_filter_compl [of is_barge_in "interruption_events s"]
    by (simp add: count_inv_def)
  show ?thesis
    using pct agent user rec len
    by (auto simp: get_interruption_stats_def Let_def intro: round_half_even_mono)
qed

theorem stats_bounds_witness:
  "im_reachable sample_im 12 \<and>
   st_total_interruptions (get_interruption_stats 12 0 sample_im)
     = length (st_interruption_events (get_interruption_stats 12 0 sample_im))"
  using sample_im_reachable stats_bounds [OF sample_im_reachable, of 12 0] by simp

text \<open>
  a confirmed recovery is written on the newest unrecovered event,
  whatever its type. After a barge-in and a later agent-side interruption the barge-in is
  counted as recovered, but its own record stays unrecovered and the agent-side record, for
  which no recovery is tracked, is the one that is marked.
\<close>

theorem recovery_marks_latest_event:
  "let s' = on_successful_response_delivered None
              (on_agent_interrupted_user b (on_interruption_triggered now a s))
   in barge_in_recovery_count s' = barge_in_recovery_count s + 1 \<and>
      interruption_events s' = interruption_events s @
        [new_event User_Interrupted_Agent a (s\<lparr>im_turn_id := im_turn_id s + 1\<rparr>),
         (new_event Agent_Interrupted_User b (s\<lparr>im_turn_id := im_turn_id s + 1\<rparr>))
           \<lparr>ev_recovery_completed := True\<rparr>]"
proof -
  have last: "find_last P (xs @ [x, y]) = Some (Suc (length xs))" if "P y"
    for P and xs :: "interruption_event list" and x y
    using that find_last_snoc [of P "xs @ [x]" y] by simp
  have turn: "im_turn_id (finalize_agent_speaking_session now s) = im_turn_id s" for s
    by (simp add: finalize_agent_speaking_session_def Let_def)
  show ?thesis
    by (simp add: on_successful_response_delivered_def on_agent_interrupted_user_def
        on_interruption_triggered_def invalidate_pending_responses_def push_event_def
        new_event_def Let_def last turn update_nth_def list_update_append nth_append)
qed
end
