(* ===== verification/Marks.thy ===== *)
theory Marks
  imports Prelude
begin

text \<open>
  The ledger of audio marks of a call, from \<open>voiceai/helpers/mark_event_meta_data.py\<close>: which
  chunks of agent audio were sent, which were acknowledged by the carrier, what the caller
  heard, and the statistics of the call.

  The code keeps one \<open>dict\<close> object per mark and shares it between the live ledger and the mark
  history, so an acknowledgement written through one is seen through the other. The model
  makes the sharing explicit: marks live in a store (\<open>ledger_heap\<close>, addressed by position),
  the live ledger and the history hold addresses, and the snapshot taken at an interruption
  (\<open>copy.deepcopy\<close>) holds values. Each call of \<open>update_data\<close> brings a fresh object. A default
  a key would have when absent (\<open>acked\<close>, \<open>is_final_chunk\<close>, ...) is the value of the field.
\<close>

section \<open>State\<close>

record mark =
  mk_type :: "string option"
  mk_sequence_id :: "int option"
  mk_turn_id :: "int option"
  mk_response_uid :: "string option"
  mk_text_synthesized :: string
  mk_duration :: "rat option"
  mk_sent_ts :: "rat option"
  mk_is_first_chunk :: bool
  mk_is_final_chunk :: bool
  mk_counter :: int
  mk_acked :: bool
  mk_ack_ts :: "rat option"
  mk_cleared :: bool
  mk_cleared_on_interrupt :: bool

record sequence_stats =
  sq_sent :: nat
  sq_acked :: nat
  sq_delays :: "rat list"
  sq_interrupted :: bool
  sq_first_sent_ts :: "rat option"
  sq_last_sent_ts :: "rat option"
  sq_total_audio_duration :: rat
  sq_turn_id :: "int option"

record mark_stats =
  ms_total_sent :: nat
  ms_total_acked :: nat
  ms_delays :: "rat list"
  ms_per_sequence :: "(int \<times> sequence_stats) list"

record mark_ledger =
  ledger_heap :: "mark list"
  ledger_live :: "(string \<times> nat) list"
  ledger_previous :: "(string \<times> mark) list"
  ledger_history :: "(string \<times> nat) list"
  ledger_counter :: int
  ledger_stats :: mark_stats
  heard_text_by_turn :: "(int \<times> string) list"
  heard_text_by_response :: "(string \<times> string) list"
  last_heard_turn_id :: "int option"
  last_heard_response_uid :: "string option"
  audio_playing_until :: rat

definition PRE_MARK_MESSAGE :: string where
  "PRE_MARK_MESSAGE = ''pre_mark_message''"

definition IS_USER_ONLINE_MESSAGE :: string where
  "IS_USER_ONLINE_MESSAGE = ''is_user_online_message''"

definition is_pre_mark :: "mark \<Rightarrow> bool" where
  "is_pre_mark m = (mk_type m = Some PRE_MARK_MESSAGE)"

definition new_sequence_stats :: sequence_stats where
  "new_sequence_stats =
     \<lparr>sq_sent = 0, sq_acked = 0, sq_delays = [], sq_interrupted = False,
      sq_first_sent_ts = None, sq_last_sent_ts = None, sq_total_audio_duration = 0,
      sq_turn_id = None\<rparr>"

definition ledger_init :: mark_ledger where
  "ledger_init =
     \<lparr>ledger_heap = [], ledger_live = [], ledger_previous = [], ledger_history = [],
      ledger_counter = 0,
      ledger_stats = \<lparr>ms_total_sent = 0, ms_total_acked = 0, ms_delays = [], ms_per_sequence = []\<rparr>,
      heard_text_by_turn = [], heard_text_by_response = [],
      last_heard_turn_id = None, last_heard_response_uid = None, audio_playing_until = 0\<rparr>"

definition or_zero :: "rat option \<Rightarrow> rat" where
  "or_zero x = (case x of None \<Rightarrow> 0 | Some d \<Rightarrow> d)"

text \<open>\<open>ensure_sequence\<close> followed by an update of the entry.\<close>

definition ensure_sequence :: "int \<Rightarrow> mark_stats \<Rightarrow> mark_stats" where
  "ensure_sequence seq st =
     (case map_of (ms_per_sequence st) seq of
        None \<Rightarrow> st\<lparr>ms_per_sequence := ms_per_sequence st @ [(seq, new_sequence_stats)]\<rparr>
      | Some _ \<Rightarrow> st)"

definition with_sequence ::
  "int \<Rightarrow> (sequence_stats \<Rightarrow> sequence_stats) \<Rightarrow> mark_stats \<Rightarrow> mark_stats" where
  "with_sequence seq f st =
     (let st1 = ensure_sequence seq st
      in case map_of (ms_per_sequence st1) seq of
           None \<Rightarrow> st1
         | Some e \<Rightarrow> st1\<lparr>ms_per_sequence := AList.update seq (f e) (ms_per_sequence st1)\<rparr>)"

section \<open>Playout estimate\<close>

definition note_audio_queued :: "rat \<Rightarrow> mark \<Rightarrow> rat \<Rightarrow> mark_ledger \<Rightarrow> mark_ledger" where
  "note_audio_queued now v d s =
     (if d \<le> 0 \<or> mk_type v = Some IS_USER_ONLINE_MESSAGE then s
      else s\<lparr>audio_playing_until := max (audio_playing_until s) now + d\<rparr>)"

definition get_audio_playing_until :: "mark_ledger \<Rightarrow> rat" where
  "get_audio_playing_until s = audio_playing_until s"

definition drop_playout_estimate :: "mark_ledger \<Rightarrow> mark_ledger" where
  "drop_playout_estimate s = s\<lparr>audio_playing_until := 0\<rparr>"

section \<open>Sending, acknowledging, dropping\<close>

definition note_sent :: "rat \<Rightarrow> mark \<Rightarrow> rat \<Rightarrow> sequence_stats \<Rightarrow> sequence_stats" where
  "note_sent now v d e =
     e\<lparr>sq_sent := sq_sent e + 1,
       sq_first_sent_ts := (if sq_first_sent_ts e = None then Some now else sq_first_sent_ts e),
       sq_last_sent_ts := Some now,
       sq_total_audio_duration :=
         (if 0 < d then sq_total_audio_duration e + d else sq_total_audio_duration e),
       sq_turn_id := (if mk_turn_id v \<noteq> None \<and> sq_turn_id e = None then mk_turn_id v
                      else sq_turn_id e)\<rparr>"

definition update_data :: "rat \<Rightarrow> string \<Rightarrow> mark \<Rightarrow> mark_ledger \<Rightarrow> mark_ledger" where
  "update_data now mark_id value s =
     (let v = value\<lparr>mk_counter := ledger_counter s\<rparr>;
          r = length (ledger_heap s);
          s1 = s\<lparr>ledger_heap := ledger_heap s @ [v],
                 ledger_counter := ledger_counter s + 1,
                 ledger_live := AList.update mark_id r (ledger_live s)\<rparr>;
          d = or_zero (mk_duration v)
      in if is_pre_mark v then s1
         else let s2 = s1\<lparr>ledger_history := AList.update mark_id r (ledger_history s1)\<rparr>;
                  s3 = note_audio_queued now v d s2;
                  st = (ledger_stats s3)\<lparr>ms_total_sent := ms_total_sent (ledger_stats s3) + 1\<rparr>
              in s3\<lparr>ledger_stats :=
                   (case mk_sequence_id v of
                      None \<Rightarrow> st
                    | Some seq \<Rightarrow> with_sequence seq (note_sent now v d) st)\<rparr>)"

definition record_ack :: "rat \<Rightarrow> int option \<Rightarrow> mark_ledger \<Rightarrow> mark_ledger" where
  "record_ack delay seq s =
     (let st = ledger_stats s;
          st1 = st\<lparr>ms_total_acked := ms_total_acked st + 1,
                   ms_delays := (if 0 \<le> delay then ms_delays st @ [delay] else ms_delays st)\<rparr>
      in s\<lparr>ledger_stats :=
           (case seq of
              None \<Rightarrow> st1
            | Some q \<Rightarrow> with_sequence q
                (\<lambda>e. e\<lparr>sq_acked := sq_acked e + 1,
                       sq_delays := (if 0 \<le> delay then sq_delays e @ [delay] else sq_delays e)\<rparr>)
                st1)\<rparr>)"

definition add_heard :: "'k \<Rightarrow> string \<Rightarrow> ('k \<times> string) list \<Rightarrow> ('k \<times> string) list" where
  "add_heard k text d = AList.update k (or_empty (map_of d k) @ text) d"

definition record_heard_text :: "mark \<Rightarrow> string \<Rightarrow> mark_ledger \<Rightarrow> mark_ledger" where
  "record_heard_text m heard s =
     (if heard = [] then s
      else let s1 = (case mk_turn_id m of
                       None \<Rightarrow> s
                     | Some t \<Rightarrow> s\<lparr>last_heard_turn_id := Some t,
                                   heard_text_by_turn := add_heard t heard (heard_text_by_turn s)\<rparr>)
        in case mk_response_uid m of
             None \<Rightarrow> s1
           | Some u \<Rightarrow> s1\<lparr>last_heard_response_uid := Some u,
                          heard_text_by_response := add_heard u heard (heard_text_by_response s1)\<rparr>)"

definition get_heard_text_for_turn :: "int option \<Rightarrow> mark_ledger \<Rightarrow> string" where
  "get_heard_text_for_turn turn s =
     (case (if turn = None then last_heard_turn_id s else turn) of
        None \<Rightarrow> []
      | Some t \<Rightarrow> py_strip (or_empty (map_of (heard_text_by_turn s) t)))"

definition get_heard_text_for_response :: "string option \<Rightarrow> mark_ledger \<Rightarrow> string" where
  "get_heard_text_for_response uid s =
     (case (if uid = None then last_heard_response_uid s else uid) of
        None \<Rightarrow> []
      | Some u \<Rightarrow> py_strip (or_empty (map_of (heard_text_by_response s) u)))"

definition set_mark :: "nat \<Rightarrow> (mark \<Rightarrow> mark) \<Rightarrow> mark_ledger \<Rightarrow> mark_ledger" where
  "set_mark r f s = s\<lparr>ledger_heap := update_nth r f (ledger_heap s)\<rparr>"

text \<open>\<open>drop_data\<close> and \<open>fetch_data\<close> return the removed mark, \<open>None\<close> for the empty dict.\<close>

definition drop_data :: "string \<Rightarrow> mark_ledger \<Rightarrow> mark option \<times> mark_ledger" where
  "drop_data mark_id s =
     (case map_of (ledger_live s) mark_id of
        None \<Rightarrow> (None, s)
      | Some r \<Rightarrow>
          (let s1 = set_mark r (\<lambda>m. m\<lparr>mk_cleared := True\<rparr>)
                      (s\<lparr>ledger_live := AList.delete mark_id (ledger_live s)\<rparr>)
           in (Some (ledger_heap s1 ! r), s1)))"

definition fetch_data :: "rat \<Rightarrow> string \<Rightarrow> mark_ledger \<Rightarrow> mark option \<times> mark_ledger" where
  "fetch_data now mark_id s =
     (case map_of (ledger_live s) mark_id of
        None \<Rightarrow> (None, s)
      | Some r \<Rightarrow>
          (let s1 = (if \<not> is_pre_mark (ledger_heap s ! r)
                     then set_mark r (\<lambda>m. m\<lparr>mk_acked := True, mk_ack_ts := Some now\<rparr>) s else s);
               s2 = s1\<lparr>ledger_live := AList.delete mark_id (ledger_live s1)\<rparr>
           in (Some (ledger_heap s2 ! r), s2)))"

text \<open>The loop of \<open>clear_data\<close> over the live marks.\<close>

definition interrupt_sequence :: "int option \<Rightarrow> mark_stats \<Rightarrow> mark_stats" where
  "interrupt_sequence seq st =
     (case seq of
        None \<Rightarrow> st
      | Some q \<Rightarrow>
          (case map_of (ms_per_sequence st) q of
             None \<Rightarrow> st
           | Some e \<Rightarrow> st\<lparr>ms_per_sequence :=
                            AList.update q (e\<lparr>sq_interrupted := True\<rparr>) (ms_per_sequence st)\<rparr>))"

fun clear_marks :: "(string \<times> nat) list \<Rightarrow> mark_ledger \<Rightarrow> mark_ledger" where
  "clear_marks [] s = s"
| "clear_marks ((mark_id, r) # rest) s =
     (if is_pre_mark (ledger_heap s ! r) then clear_marks rest s
      else let s1 = set_mark r (\<lambda>m. m\<lparr>mk_cleared_on_interrupt := True\<rparr>) s;
               s2 = s1\<lparr>ledger_stats := interrupt_sequence (mk_sequence_id (ledger_heap s1 ! r))
                                         (ledger_stats s1)\<rparr>
           in clear_marks rest s2)"

definition clear_data :: "mark_ledger \<Rightarrow> mark_ledger" where
  "clear_data s =
     (let s1 = drop_playout_estimate (s\<lparr>ledger_counter := 0\<rparr>);
          s2 = clear_marks (ledger_live s1) s1
      in s2\<lparr>ledger_previous := map (\<lambda>(k, r). (k, ledger_heap s2 ! r)) (ledger_live s2),
            ledger_live := []\<rparr>)"

definition fetch_cleared_mark_event_data :: "mark_ledger \<Rightarrow> (string \<times> mark) list" where
  "fetch_cleared_mark_event_data s = ledger_previous s"

section \<open>Readouts\<close>

definition get_last_ack_ts_for_turn :: "int option \<Rightarrow> mark_ledger \<Rightarrow> rat option" where
  "get_last_ack_ts_for_turn turn s =
     (if turn = None then None
      else let ack_times = map (\<lambda>m. or_zero (mk_ack_ts m))
                 (filter (\<lambda>m. mk_acked m \<and> mk_turn_id m = turn \<and> or_zero (mk_ack_ts m) \<noteq> 0)
                    (map (\<lambda>(k, r). ledger_heap s ! r) (ledger_history s)))
           in if ack_times = [] then None else Some (Max (set ack_times)))"

record chunk_mark =
  cm_mark_id :: string
  cm_mark :: mark

definition get_chunk_marks :: "mark_ledger \<Rightarrow> chunk_mark list" where
  "get_chunk_marks s =
     sort_key (\<lambda>c. or_zero (mk_sent_ts (cm_mark c)))
       (map (\<lambda>(k, r). \<lparr>cm_mark_id = k, cm_mark = ledger_heap s ! r\<rparr>)
         (filter (\<lambda>(k, r). \<not> is_pre_mark (ledger_heap s ! r)) (ledger_history s)))"

record sequence_summary =
  su_seq :: int
  su_sent :: nat
  su_acked :: nat
  su_max_delay :: rat
  su_avg_delay :: rat
  su_interrupted :: bool
  su_chunk_delays :: "rat list"
  su_tts_speed_ratio :: "rat option"
  su_audio_duration_s :: rat

record mark_tracking_summary =
  mt_total_sent :: nat
  mt_total_acked :: nat
  mt_total_missed :: int
  mt_max_delay_s :: rat
  mt_avg_delay_s :: rat
  mt_high_delay_count :: nat
  mt_per_sequence :: "sequence_summary list"

definition HIGH_DELAY_THRESHOLD :: rat where
  "HIGH_DELAY_THRESHOLD = 2"

definition max_delay :: "rat list \<Rightarrow> rat" where
  "max_delay ds = (if ds = [] then 0 else py_round 3 (Max (set ds)))"

definition avg_delay :: "rat list \<Rightarrow> rat" where
  "avg_delay ds = (if ds = [] then 0 else py_round 3 (sum_list ds / of_nat (length ds)))"

definition summarise_sequence :: "int \<Rightarrow> sequence_stats \<Rightarrow> sequence_summary" where
  "summarise_sequence seq_id e =
     (let wall_clock = (if or_zero (sq_first_sent_ts e) \<noteq> 0 \<and> or_zero (sq_last_sent_ts e) \<noteq> 0
                        then or_zero (sq_last_sent_ts e) - or_zero (sq_first_sent_ts e) else 0)
      in \<lparr>su_seq = seq_id, su_sent = sq_sent e, su_acked = sq_acked e,
          su_max_delay = max_delay (sq_delays e), su_avg_delay = avg_delay (sq_delays e),
          su_interrupted = sq_interrupted e, su_chunk_delays = map (py_round 3) (sq_delays e),
          su_tts_speed_ratio =
            (if 0 < wall_clock then Some (py_round 2 (sq_total_audio_duration e / wall_clock)) else None),
          su_audio_duration_s = py_round 3 (sq_total_audio_duration e)\<rparr>)"

definition get_mark_tracking_summary :: "mark_ledger \<Rightarrow> mark_tracking_summary" where
  "get_mark_tracking_summary s =
     (let st = ledger_stats s; ds = ms_delays st
      in \<lparr>mt_total_sent = ms_total_sent st, mt_total_acked = ms_total_acked st,
          mt_total_missed = int (ms_total_sent st) - int (ms_total_acked st),
          mt_max_delay_s = max_delay ds, mt_avg_delay_s = avg_delay ds,
          mt_high_delay_count = length (filter (\<lambda>d. HIGH_DELAY_THRESHOLD < d) ds),
          mt_per_sequence = map (\<lambda>(q, e). summarise_sequence q e)
                              (sort_key fst (ms_per_sequence st))\<rparr>)"

section \<open>Reachable ledgers\<close>

inductive ledger_step :: "mark_ledger \<Rightarrow> mark_ledger \<Rightarrow> bool" where
  send: "ledger_step s (update_data now k v s)"
| ack: "ledger_step s (record_ack delay q s)"
| heard: "ledger_step s (record_heard_text m text s)"
| fetch: "ledger_step s (snd (fetch_data now k s))"
| discard: "ledger_step s (snd (drop_data k s))"
| clear: "ledger_step s (clear_data s)"
| silence: "ledger_step s (drop_playout_estimate s)"

inductive_cases ledger_step_cases [elim!]: "ledger_step s t"

definition ledger_reachable :: "mark_ledger \<Rightarrow> bool" where
  "ledger_reachable s = ledger_step\<^sup>*\<^sup>* ledger_init s"

lemma ledger_reachable_init: "ledger_reachable ledger_init"
  by (simp add: ledger_reachable_def)

lemma ledger_reachable_step: "ledger_reachable s \<Longrightarrow> ledger_step s t \<Longrightarrow> ledger_reachable t"
  unfolding ledger_reachable_def by (rule rtranclp.rtrancl_into_rtrancl)

lemma ledger_reachable_invariant:
  assumes "ledger_reachable s" and "P ledger_init" and "\<And>s t. P s \<Longrightarrow> ledger_step s t \<Longrightarrow> P t"
  shows "P s"
  using assms(1) unfolding ledger_reachable_def
  by (induction rule: rtranclp_induct) (use assms(2,3) in auto)

section \<open>Accounting\<close>

definition sum_seq :: "(sequence_stats \<Rightarrow> nat) \<Rightarrow> mark_stats \<Rightarrow> nat" where
  "sum_seq f st = sum_list (map (\<lambda>(q, e). f e) (ms_per_sequence st))"

text \<open>\<open>stats_inv a b\<close>: \<open>a\<close> sends and \<open>b\<close> acknowledgements of the totals are not yet booked on a
  sequence.\<close>

definition stats_inv :: "nat \<Rightarrow> nat \<Rightarrow> mark_stats \<Rightarrow> bool" where
  "stats_inv a b st \<longleftrightarrow>
     distinct (map fst (ms_per_sequence st)) \<and>
     sum_seq sq_sent st + a \<le> ms_total_sent st \<and>
     sum_seq sq_acked st + b \<le> ms_total_acked st \<and>
     length (ms_delays st) \<le> ms_total_acked st \<and>
     (\<forall>d \<in> set (ms_delays st). 0 \<le> d) \<and>
     (\<forall>(q, e) \<in> set (ms_per_sequence st).
        length (sq_delays e) \<le> sq_acked e \<and> set (sq_delays e) \<subseteq> set (ms_delays st) \<and>
        0 \<le> sq_total_audio_duration e)"

lemma sum_list_update:
  assumes "distinct (map fst d)" and "map_of d k = Some e"
  shows "sum_list (map (\<lambda>(q, e). f e) (AList.update k e' d)) + (f e :: nat) =
         sum_list (map (\<lambda>(q, e). f e) d) + f e'"
  using assms
proof (induction d)
  case (Cons a d)
  obtain q x where a: "a = (q, x)" by (cases a)
  have "map_of d k = None" if "q = k"
    using Cons.prems(1) that a by (force simp: map_of_eq_None_iff)
  then show ?case using Cons a by (auto split: if_splits)
qed simp

lemma ensure_sequence_inv:
  assumes "stats_inv a b st"
  shows "stats_inv a b (ensure_sequence q st)"
  using assms
  by (auto simp: stats_inv_def ensure_sequence_def sum_seq_def new_sequence_stats_def
      map_of_eq_None_iff image_iff split: option.splits)

lemma ensure_sequence_frame [simp]:
  "ms_total_sent (ensure_sequence q st) = ms_total_sent st"
  "ms_total_acked (ensure_sequence q st) = ms_total_acked st"
  "ms_delays (ensure_sequence q st) = ms_delays st"
  by (simp_all add: ensure_sequence_def split: option.splits)

lemma ensure_sequence_present: "\<exists>e. map_of (ms_per_sequence (ensure_sequence q st)) q = Some e"
  by (auto simp: ensure_sequence_def map_add_def split: option.splits)

lemma set_AList_update:
  "x \<in> set (AList.update k v d) \<Longrightarrow> x = (k, v) \<or> x \<in> set d"
  by (induction d) (auto split: if_splits)

lemma with_sequence_inv:
  assumes inv: "stats_inv a b st"
    and f: "\<And>e. sq_sent (f e) \<le> sq_sent e + a" "\<And>e. sq_acked (f e) \<le> sq_acked e + b"
    and d: "\<And>e. length (sq_delays e) \<le> sq_acked e \<Longrightarrow> length (sq_delays (f e)) \<le> sq_acked (f e)"
    and sub: "\<And>e. set (sq_delays e) \<subseteq> set (ms_delays st) \<Longrightarrow>
                set (sq_delays (f e)) \<subseteq> set (ms_delays st)"
    and pos: "\<And>e. 0 \<le> sq_total_audio_duration e \<Longrightarrow> 0 \<le> sq_total_audio_duration (f e)"
  shows "stats_inv 0 0 (with_sequence q f st)"
proof -
  let ?st = "ensure_sequence q st"
  from ensure_sequence_inv [OF inv] have i: "stats_inv a b ?st" .
  obtain e where e: "map_of (ms_per_sequence ?st) q = Some e"
    using ensure_sequence_present by blast
  from i have dist: "distinct (map fst (ms_per_sequence ?st))" by (simp add: stats_inv_def)
  note s1 = sum_list_update [OF dist e, of sq_sent "f e"]
  note s2 = sum_list_update [OF dist e, of sq_acked "f e"]
  have mem: "(q, e) \<in> set (ms_per_sequence ?st)" using e by (rule map_of_SomeD)
  with i have old: "length (sq_delays e) \<le> sq_acked e" "set (sq_delays e) \<subseteq> set (ms_delays st)"
    "0 \<le> sq_total_audio_duration e" by (auto simp: stats_inv_def)
  have new: "length (sq_delays (f e)) \<le> sq_acked (f e) \<and> set (sq_delays (f e)) \<subseteq> set (ms_delays st) \<and>
    0 \<le> sq_total_audio_duration (f e)"
    using d [OF old(1)] sub [OF old(2)] pos [OF old(3)] by blast
  have each: "length (sq_delays x) \<le> sq_acked x \<and> set (sq_delays x) \<subseteq> set (ms_delays st) \<and>
    0 \<le> sq_total_audio_duration x"
    if "(p, x) \<in> set (AList.update q (f e) (ms_per_sequence ?st))" for p x
    using set_AList_update [OF that] new i by (auto simp: stats_inv_def)
  have w: "with_sequence q f st = ?st\<lparr>ms_per_sequence := AList.update q (f e) (ms_per_sequence ?st)\<rparr>"
    by (simp add: with_sequence_def Let_def e)
  have sums: "sum_seq sq_sent (with_sequence q f st) \<le> ms_total_sent st"
    "sum_seq sq_acked (with_sequence q f st) \<le> ms_total_acked st"
    using i s1 s2 f [of e] by (simp_all add: w stats_inv_def sum_seq_def)
  have all: "\<forall>(p, x) \<in> set (AList.update q (f e) (ms_per_sequence ?st)).
    length (sq_delays x) \<le> sq_acked x \<and> set (sq_delays x) \<subseteq> set (ms_delays st) \<and>
    0 \<le> sq_total_audio_duration x"
    using each by blast
  show ?thesis
    using i sums all distinct_keys_update [OF dist, of q "f e"]
    by (simp add: stats_inv_def w)
qed

lemma interrupt_sequence_inv:
  assumes inv: "stats_inv 0 0 st"
  shows "stats_inv 0 0 (interrupt_sequence seq st)"
proof (cases "\<exists>q e. seq = Some q \<and> map_of (ms_per_sequence st) q = Some e")
  case True
  then obtain q e where seq: "seq = Some q" and e: "map_of (ms_per_sequence st) q = Some e" by blast
  have "interrupt_sequence seq st = with_sequence q (\<lambda>e. e\<lparr>sq_interrupted := True\<rparr>) st"
    by (simp add: seq e interrupt_sequence_def with_sequence_def ensure_sequence_def)
  then show ?thesis by (simp add: with_sequence_inv [OF inv])
next
  case False
  then show ?thesis by (cases seq) (auto simp: interrupt_sequence_def inv split: option.splits)
qed

definition accounted :: "mark_ledger \<Rightarrow> bool" where
  "accounted s = stats_inv 0 0 (ledger_stats s)"

named_theorems accounted_ops \<open>every operation keeps the accounts\<close>

lemma accounted_frame:
  "ledger_stats t = ledger_stats s \<Longrightarrow> accounted s \<Longrightarrow> accounted t"
  by (simp add: accounted_def)

lemma set_mark_frame [simp]:
  "ledger_stats (set_mark r f s) = ledger_stats s"
  "ledger_live (set_mark r f s) = ledger_live s"
  "ledger_history (set_mark r f s) = ledger_history s"
  "length (ledger_heap (set_mark r f s)) = length (ledger_heap s)"
  by (simp_all add: set_mark_def)

lemma note_audio_queued_frame [simp]:
  "ledger_stats (note_audio_queued now v d s) = ledger_stats s"
  "ledger_live (note_audio_queued now v d s) = ledger_live s"
  "ledger_history (note_audio_queued now v d s) = ledger_history s"
  "ledger_heap (note_audio_queued now v d s) = ledger_heap s"
  by (simp_all add: note_audio_queued_def)

lemma accounted_simple [accounted_ops]:
  assumes "accounted s"
  shows "accounted (record_heard_text m text s)" "accounted (snd (fetch_data now k s))"
    "accounted (snd (drop_data k s))" "accounted (drop_playout_estimate s)"
  using assms
  by (auto intro!: accounted_frame [where s = s] split: option.splits
      simp: record_heard_text_def fetch_data_def drop_data_def drop_playout_estimate_def Let_def)

lemma accounted_send [accounted_ops]:
  assumes "accounted s"
  shows "accounted (update_data now k v s)"
proof -
  let ?st = "ledger_stats s\<lparr>ms_total_sent := ms_total_sent (ledger_stats s) + 1\<rparr>"
  have st: "stats_inv 1 0 ?st" "stats_inv 0 0 ?st"
    using assms by (auto simp: accounted_def stats_inv_def sum_seq_def)
  have "stats_inv 0 0 (with_sequence q (note_sent now w d) ?st)" for q w d
    by (rule with_sequence_inv [OF st(1)]) (auto simp: note_sent_def)
  with st show ?thesis using assms
    by (auto simp: update_data_def accounted_def Let_def split: option.splits)
qed

lemma accounted_ack [accounted_ops]:
  assumes "accounted s"
  shows "accounted (record_ack delay q s)"
proof -
  let ?st = "(ledger_stats s)\<lparr>ms_total_acked := ms_total_acked (ledger_stats s) + 1,
     ms_delays := (if 0 \<le> delay then ms_delays (ledger_stats s) @ [delay]
                   else ms_delays (ledger_stats s))\<rparr>"
  have st: "stats_inv 0 1 ?st" "stats_inv 0 0 ?st"
    using assms by (auto simp: accounted_def stats_inv_def sum_seq_def)
  have "stats_inv 0 0 (with_sequence p (\<lambda>e. e\<lparr>sq_acked := sq_acked e + 1,
     sq_delays := (if 0 \<le> delay then sq_delays e @ [delay] else sq_delays e)\<rparr>) ?st)" for p
    by (rule with_sequence_inv [OF st(1)]) auto
  with st show ?thesis
    by (auto simp: record_ack_def accounted_def Let_def split: option.splits)
qed

lemma accounted_clear_marks: "accounted s \<Longrightarrow> accounted (clear_marks ms s)"
  by (induction ms s rule: clear_marks.induct)
     (auto simp: Let_def accounted_def interrupt_sequence_inv)

lemma accounted_clear [accounted_ops]: "accounted s \<Longrightarrow> accounted (clear_data s)"
proof -
  assume "accounted s"
  then have "accounted (drop_playout_estimate (s\<lparr>ledger_counter := 0\<rparr>))"
    by (rule accounted_frame [rotated]) (simp add: drop_playout_estimate_def)
  then show ?thesis
    by (auto simp: clear_data_def Let_def intro: accounted_frame [rotated] dest: accounted_clear_marks)
qed

lemma ledger_accounted: "ledger_reachable s \<Longrightarrow> accounted s"
  by (rule ledger_reachable_invariant)
     (auto simp: accounted_ops, simp add: accounted_def ledger_init_def stats_inv_def sum_seq_def)

section \<open>Sharing between the live ledger and the history\<close>

definition bound_to :: "(string \<times> nat) list \<Rightarrow> string \<Rightarrow> nat \<Rightarrow> bool" where
  "bound_to d k r = (map_of d k = Some r)"

lemma bound_to_simps [simp]:
  "bound_to (AList.update k r d) k' r' = (if k' = k then r' = r else bound_to d k' r')"
  "bound_to (AList.delete k d) k' r' = (k' \<noteq> k \<and> bound_to d k' r')"
  "\<not> bound_to [] k r"
  by (auto simp: bound_to_def dict_simps)

definition shared :: "mark_ledger \<Rightarrow> bool" where
  "shared s \<longleftrightarrow>
     (\<forall>k r. bound_to (ledger_live s) k r \<longrightarrow> r < length (ledger_heap s) \<and>
        (is_pre_mark (ledger_heap s ! r) \<or> bound_to (ledger_history s) k r)) \<and>
     (\<forall>k r. bound_to (ledger_history s) k r \<longrightarrow>
        r < length (ledger_heap s) \<and> \<not> is_pre_mark (ledger_heap s ! r))"

named_theorems shared_ops \<open>every operation keeps the sharing\<close>

lemma shared_frame:
  assumes "shared s" and "ledger_live t = ledger_live s" and "ledger_history t = ledger_history s"
    and "ledger_heap t = ledger_heap s"
  shows "shared t"
  using assms(1) by (simp only: shared_def assms)

lemma nth_set_mark:
  "ledger_heap (set_mark r f s) ! i =
     (if i = r \<and> r < length (ledger_heap s) then f (ledger_heap s ! r) else ledger_heap s ! i)"
  by (auto simp: set_mark_def update_nth_def nth_list_update)

lemma shared_set_mark:
  assumes "shared s" and "\<And>m. is_pre_mark (f m) = is_pre_mark m"
  shows "shared (set_mark r f s)"
  using assms by (auto simp: shared_def nth_set_mark)

lemma shared_delete:
  assumes "shared s"
  shows "shared (s\<lparr>ledger_live := AList.delete k (ledger_live s)\<rparr>)"
  using assms unfolding shared_def by auto

lemma shared_simple [shared_ops]:
  assumes "shared s"
  shows "shared (record_heard_text m text s)" "shared (record_ack delay q s)"
    "shared (drop_playout_estimate s)"
  by (rule shared_frame [OF assms];
      simp add: record_heard_text_def record_ack_def drop_playout_estimate_def Let_def
        split: option.splits)+

lemma shared_drop [shared_ops]: "shared s \<Longrightarrow> shared (snd (drop_data k s))"
  by (auto simp: drop_data_def Let_def is_pre_mark_def split: option.splits
      intro!: shared_set_mark shared_delete)

lemma shared_fetch [shared_ops]: "shared s \<Longrightarrow> shared (snd (fetch_data now k s))"
proof -
  assume sh: "shared s"
  have "shared (set_mark r (\<lambda>m. m\<lparr>mk_acked := True, mk_ack_ts := Some now\<rparr>) s)" for r :: nat
    by (rule shared_set_mark [OF sh]) (simp add: is_pre_mark_def)
  from shared_delete [OF this, where k = k] this sh shared_delete [OF sh, where k = k] show ?thesis
    by (auto simp: fetch_data_def Let_def split: option.splits)
qed

lemma shared_send [shared_ops]:
  assumes "shared s"
  shows "shared (update_data now k v s)"
proof -
  let ?v = "v\<lparr>mk_counter := ledger_counter s\<rparr>" and ?r = "length (ledger_heap s)"
  have heap: "ledger_heap (update_data now k v s) = ledger_heap s @ [?v]"
    and live: "ledger_live (update_data now k v s) = AList.update k ?r (ledger_live s)"
    and hist: "ledger_history (update_data now k v s) =
      (if is_pre_mark v then ledger_history s else AList.update k ?r (ledger_history s))"
    by (simp_all add: update_data_def Let_def is_pre_mark_def)
  show ?thesis
    using assms unfolding shared_def heap live hist
    by (auto simp: nth_append is_pre_mark_def less_Suc_eq)
qed

lemma shared_clear_marks: "shared s \<Longrightarrow> shared (clear_marks ms s)"
proof (induction ms s rule: clear_marks.induct)
  case (2 k r rest s)
  show ?case
  proof (cases "is_pre_mark (ledger_heap s ! r)")
    case True
    with 2 show ?thesis by simp
  next
    case False
    let ?s1 = "set_mark r (\<lambda>m. m\<lparr>mk_cleared_on_interrupt := True\<rparr>) s"
    let ?s2 = "?s1\<lparr>ledger_stats := interrupt_sequence (mk_sequence_id (ledger_heap ?s1 ! r))
       (ledger_stats ?s1)\<rparr>"
    have "shared ?s1" by (rule shared_set_mark [OF 2(3)]) (simp add: is_pre_mark_def)
    then have "shared ?s2" by (rule shared_frame) simp_all
    then show ?thesis using 2(2) [OF False refl refl] False by (simp add: Let_def)
  qed
qed simp

lemma shared_clear [shared_ops]: "shared s \<Longrightarrow> shared (clear_data s)"
proof -
  assume "shared s"
  then have "shared (drop_playout_estimate (s\<lparr>ledger_counter := 0\<rparr>))"
    by (rule shared_frame) (simp_all add: drop_playout_estimate_def)
  from shared_clear_marks [OF this] show ?thesis
    by (simp add: clear_data_def Let_def shared_def)
qed

lemma ledger_shared: "ledger_reachable s \<Longrightarrow> shared s"
  by (rule ledger_reachable_invariant)
     (auto simp: shared_ops, simp add: shared_def ledger_init_def)

lemma history_address:
  assumes "shared s" and "map_of (ledger_live s) k = Some r" and "\<not> is_pre_mark (ledger_heap s ! r)"
  shows "(k, r) \<in> set (ledger_history s)" "r < length (ledger_heap s)"
  using assms by (auto simp: shared_def bound_to_def [symmetric]) (auto simp: bound_to_def intro: map_of_SomeD)

lemma in_chunk_marks:
  "\<lparr>cm_mark_id = k, cm_mark = m\<rparr> \<in> set (get_chunk_marks s) \<longleftrightarrow>
     (\<exists>r. (k, r) \<in> set (ledger_history s) \<and> m = ledger_heap s ! r \<and> \<not> is_pre_mark m)"
  by (auto simp: get_chunk_marks_def image_iff)

section \<open>What an interruption clears\<close>

lemma clear_marks_frame [simp]:
  "ledger_live (clear_marks ms s) = ledger_live s"
  "ledger_history (clear_marks ms s) = ledger_history s"
  "length (ledger_heap (clear_marks ms s)) = length (ledger_heap s)"
  by (induction ms s rule: clear_marks.induct) (simp_all add: Let_def)

lemma nth_clear_marks:
  "r < length (ledger_heap s) \<Longrightarrow>
   ledger_heap (clear_marks ms s) ! r =
     (if r \<in> snd ` set ms \<and> \<not> is_pre_mark (ledger_heap s ! r)
      then (ledger_heap s ! r)\<lparr>mk_cleared_on_interrupt := True\<rparr> else ledger_heap s ! r)"
  by (induction ms s rule: clear_marks.induct) (auto simp: Let_def nth_set_mark is_pre_mark_def)

definition pending_on :: "(string \<times> nat) list \<Rightarrow> mark list \<Rightarrow> int \<Rightarrow> bool" where
  "pending_on ms h q \<longleftrightarrow>
     (\<exists>(k, r) \<in> set ms. \<not> is_pre_mark (h ! r) \<and> mk_sequence_id (h ! r) = Some q)"

lemma map_of_interrupt_sequence:
  "map_of (ms_per_sequence (interrupt_sequence seq st)) q =
     map_option (\<lambda>e. e\<lparr>sq_interrupted := sq_interrupted e \<or> seq = Some q\<rparr>) (map_of (ms_per_sequence st) q)"
proof (cases seq)
  case None
  then show ?thesis by (simp add: interrupt_sequence_def option.map_ident)
next
  case (Some a)
  then show ?thesis
    by (cases "a = q"; cases "map_of (ms_per_sequence st) q")
       (auto simp: interrupt_sequence_def dict_simps split: option.splits)
qed

lemma clear_marks_interrupts:
  "map_of (ms_per_sequence (ledger_stats (clear_marks ms s))) q =
     map_option (\<lambda>e. e\<lparr>sq_interrupted := sq_interrupted e \<or> pending_on ms (ledger_heap s) q\<rparr>)
       (map_of (ms_per_sequence (ledger_stats s)) q)"
proof (induction ms s rule: clear_marks.induct)
  case (2 k r rest s)
  let ?s1 = "set_mark r (\<lambda>m. m\<lparr>mk_cleared_on_interrupt := True\<rparr>) s"
  have same: "mk_sequence_id (ledger_heap ?s1 ! i) = mk_sequence_id (ledger_heap s ! i)"
    "is_pre_mark (ledger_heap ?s1 ! i) = is_pre_mark (ledger_heap s ! i)" for i
    by (auto simp: nth_set_mark is_pre_mark_def)
  have p: "pending_on rest (ledger_heap ?s1) q = pending_on rest (ledger_heap s) q"
    by (simp add: pending_on_def same)
  have cons: "pending_on ((k, r) # rest) (ledger_heap s) q \<longleftrightarrow>
    (\<not> is_pre_mark (ledger_heap s ! r) \<and> mk_sequence_id (ledger_heap s ! r) = Some q)
    \<or> pending_on rest (ledger_heap s) q"
    by (simp add: pending_on_def)
  show ?case
    using 2 p by (auto simp: Let_def cons map_of_interrupt_sequence same option.map_comp o_def
        intro!: option.map_cong)
qed (simp add: pending_on_def option.map_ident)

section \<open>Properties\<close>

lemma sum_list_sort_key: "sum_list (map f (sort_key g xs)) = sum_list (map (f :: _ \<Rightarrow> nat) xs)"
proof -
  have "mset (map f (sort_key g xs)) = mset (map f xs)" by simp
  then show ?thesis by (metis sum_mset_sum_list)
qed

lemma max_delay_mono:
  assumes "set ds \<subseteq> set es" and "\<forall>d \<in> set es. 0 \<le> d"
  shows "max_delay ds \<le> max_delay es"
proof (cases "ds = []")
  case True
  have "0 \<le> Max (set es)" if "es \<noteq> []"
    using that assms(2) by (meson List.finite_set Max_in set_empty)
  then have "0 \<le> py_round 3 (Max (set es))" if "es \<noteq> []"
    using py_round_mono [of 0 "Max (set es)" 3] py_round_of_nat [of 3 0] that by simp
  then show ?thesis using True by (simp add: max_delay_def)
next
  case False
  with assms(1) have "es \<noteq> []" by auto
  moreover have "Max (set ds) \<le> Max (set es)"
    by (rule Max_mono) (use assms(1) False in auto)
  ultimately show ?thesis
    using False by (simp add: max_delay_def py_round_mono)
qed

lemma avg_delay_bounds:
  assumes "\<forall>d \<in> set ds. 0 \<le> d"
  shows "0 \<le> avg_delay ds \<and> avg_delay ds \<le> max_delay ds"
proof (cases "ds = []")
  case True
  then show ?thesis by (simp add: avg_delay_def max_delay_def)
next
  case False
  have "sum_list ds \<le> of_nat (length ds) * Max (set ds)"
    using sum_list_mono [of ds id "\<lambda>_. Max (set ds)"] by (simp add: sum_list_triv)
  with False have "sum_list ds / of_nat (length ds) \<le> Max (set ds)"
    by (simp add: divide_le_eq mult.commute)
  then have "py_round 3 (sum_list ds / of_nat (length ds)) \<le> py_round 3 (Max (set ds))"
    by (rule py_round_mono)
  moreover have "0 \<le> sum_list ds / of_nat (length ds)"
    using assms by (simp add: sum_list_nonneg)
  then have "py_round 3 0 \<le> py_round 3 (sum_list ds / of_nat (length ds))" by (rule py_round_mono)
  ultimately show ?thesis
    using False py_round_of_nat [of 3 0] by (simp add: avg_delay_def max_delay_def)
qed

lemma summary_per_sequence:
  "mt_per_sequence (get_mark_tracking_summary s) =
     map (\<lambda>(q, e). summarise_sequence q e) (sort_key fst (ms_per_sequence (ledger_stats s)))"
  by (simp add: get_mark_tracking_summary_def Let_def)

lemma stats_entry:
  assumes "ledger_reachable s" "(q, e) \<in> set (ms_per_sequence (ledger_stats s))"
  shows "length (sq_delays e) \<le> sq_acked e" "max_delay (sq_delays e) \<le> max_delay (ms_delays (ledger_stats s))"
    "0 \<le> avg_delay (sq_delays e) \<and> avg_delay (sq_delays e) \<le> max_delay (sq_delays e)"
proof -
  from ledger_accounted [OF assms(1)] have inv: "stats_inv 0 0 (ledger_stats s)"
    by (simp add: accounted_def)
  with assms(2) have e: "length (sq_delays e) \<le> sq_acked e"
      "set (sq_delays e) \<subseteq> set (ms_delays (ledger_stats s))"
    and pos: "\<forall>d \<in> set (ms_delays (ledger_stats s)). 0 \<le> d"
    by (auto simp: stats_inv_def)
  then show "length (sq_delays e) \<le> sq_acked e"
    "max_delay (sq_delays e) \<le> max_delay (ms_delays (ledger_stats s))"
    "0 \<le> avg_delay (sq_delays e) \<and> avg_delay (sq_delays e) \<le> max_delay (sq_delays e)"
    by (auto intro!: max_delay_mono avg_delay_bounds)
qed

text \<open>
  For every ledger the call can reach, the tracking summary is consistent:
  its sequences are listed once each in increasing order, the sends and acknowledgements booked
  on sequences never exceed the totals, no sequence has more delays than acknowledgements, every
  average delay lies between 0 and the largest one, and no sequence reports a larger delay than
  the call.
\<close>

theorem mark_accounting:
  assumes "ledger_reachable s"
  shows "let S = get_mark_tracking_summary s in
      sorted_wrt (<) (map su_seq (mt_per_sequence S)) \<and>
      sum_list (map su_sent (mt_per_sequence S)) \<le> mt_total_sent S \<and>
      sum_list (map su_acked (mt_per_sequence S)) \<le> mt_total_acked S \<and>
      (\<forall>x \<in> set (mt_per_sequence S). length (su_chunk_delays x) \<le> su_acked x \<and>
         0 \<le> su_avg_delay x \<and> su_avg_delay x \<le> su_max_delay x \<and> su_max_delay x \<le> mt_max_delay_s S)"
proof -
  let ?S = "get_mark_tracking_summary s" and ?st = "ledger_stats s"
  let ?ps = "ms_per_sequence ?st"
  from ledger_accounted [OF assms] have inv: "stats_inv 0 0 ?st" by (simp add: accounted_def)
  have ids: "map su_seq (mt_per_sequence ?S) = map fst (sort_key fst ?ps)"
    and sent: "map su_sent (mt_per_sequence ?S) = map (\<lambda>(q, e). sq_sent e) (sort_key fst ?ps)"
    and acked: "map su_acked (mt_per_sequence ?S) = map (\<lambda>(q, e). sq_acked e) (sort_key fst ?ps)"
    by (auto simp: summary_per_sequence summarise_sequence_def Let_def)
  have "distinct (map fst (sort_key fst ?ps))"
    using inv by (simp add: stats_inv_def distinct_map)
  then have A: "sorted_wrt (<) (map su_seq (mt_per_sequence ?S))"
    unfolding ids strict_sorted_iff by simp
  have B: "sum_list (map su_sent (mt_per_sequence ?S)) \<le> mt_total_sent ?S"
      "sum_list (map su_acked (mt_per_sequence ?S)) \<le> mt_total_acked ?S"
    using inv unfolding sent acked sum_list_sort_key
    by (simp_all add: stats_inv_def sum_seq_def get_mark_tracking_summary_def Let_def)
  have C: "\<forall>x \<in> set (mt_per_sequence ?S). length (su_chunk_delays x) \<le> su_acked x \<and>
      0 \<le> su_avg_delay x \<and> su_avg_delay x \<le> su_max_delay x \<and> su_max_delay x \<le> mt_max_delay_s ?S"
  proof
    fix x assume "x \<in> set (mt_per_sequence ?S)"
    then obtain q e where e: "(q, e) \<in> set ?ps" and x: "x = summarise_sequence q e"
      by (auto simp: summary_per_sequence)
    show "length (su_chunk_delays x) \<le> su_acked x \<and> 0 \<le> su_avg_delay x \<and>
      su_avg_delay x \<le> su_max_delay x \<and> su_max_delay x \<le> mt_max_delay_s ?S"
      using stats_entry [OF assms e]
      by (simp add: x summarise_sequence_def get_mark_tracking_summary_def Let_def)
  qed
  show ?thesis unfolding Let_def using A B C by blast
qed

definition sample_chunk :: mark where
  "sample_chunk = \<lparr>mk_type = None, mk_sequence_id = Some 1, mk_turn_id = Some 1,
     mk_response_uid = None, mk_text_synthesized = ''hello'', mk_duration = Some 2,
     mk_sent_ts = Some 10, mk_is_first_chunk = True, mk_is_final_chunk = False, mk_counter = 0,
     mk_acked = False, mk_ack_ts = None, mk_cleared = False, mk_cleared_on_interrupt = False\<rparr>"

definition sample_ledger :: mark_ledger where
  "sample_ledger = record_ack 1 (Some 1) (update_data 10 ''m1'' sample_chunk ledger_init)"

lemma sample_ledger_reachable: "ledger_reachable sample_ledger"
  unfolding sample_ledger_def
  by (rule ledger_reachable_step [OF ledger_reachable_step [OF ledger_reachable_init send] ack])

lemmas ledger_eval = sample_ledger_def sample_chunk_def ledger_init_def update_data_def record_ack_def
  with_sequence_def ensure_sequence_def new_sequence_stats_def note_sent_def note_audio_queued_def
  is_pre_mark_def PRE_MARK_MESSAGE_def IS_USER_ONLINE_MESSAGE_def or_zero_def Let_def

theorem mark_accounting_witness:
  "map su_sent (mt_per_sequence (get_mark_tracking_summary sample_ledger)) = [1] \<and>
   sum_list (map su_sent (mt_per_sequence (get_mark_tracking_summary sample_ledger)))
     \<le> mt_total_sent (get_mark_tracking_summary sample_ledger)"
  using mark_accounting [OF sample_ledger_reachable]
  by (auto simp: Let_def summary_per_sequence summarise_sequence_def)
     (simp add: ledger_eval)

text \<open>
  Acknowledging a pending audio chunk removes it from the live ledger, hands the
  stamped mark to the caller, and the stamp is seen through the mark history: the chunk report
  carries it and the last acknowledgement of the chunk's turn is at least the current time.
\<close>

theorem ack_credits_turn:
  assumes "ledger_reachable s" and "map_of (ledger_live s) k = Some r"
    and "\<not> is_pre_mark (ledger_heap s ! r)" and "mk_turn_id (ledger_heap s ! r) = Some t" and "now \<noteq> 0"
  shows "let (res, s') = fetch_data now k s;
             m = (ledger_heap s ! r)\<lparr>mk_acked := True, mk_ack_ts := Some now\<rparr> in
         res = Some m \<and> map_of (ledger_live s') k = None \<and>
         \<lparr>cm_mark_id = k, cm_mark = m\<rparr> \<in> set (get_chunk_marks s') \<and>
         (\<exists>x. get_last_ack_ts_for_turn (Some t) s' = Some x \<and> now \<le> x)"
proof -
  let ?m = "(ledger_heap s ! r)\<lparr>mk_acked := True, mk_ack_ts := Some now\<rparr>"
  from history_address [OF ledger_shared [OF assms(1)] assms(2,3)]
  have hist: "(k, r) \<in> set (ledger_history s)" and r: "r < length (ledger_heap s)" by simp_all
  define s' where "s' = snd (fetch_data now k s)"
  have res: "fetch_data now k s = (Some ?m, s')"
    and heap: "ledger_heap s' ! r = ?m" and live: "map_of (ledger_live s') k = None"
    and hist': "(k, r) \<in> set (ledger_history s')"
    using assms(2,3) r hist
    by (simp_all add: s'_def fetch_data_def Let_def nth_set_mark dict_simps)
  have chunk: "\<lparr>cm_mark_id = k, cm_mark = ?m\<rparr> \<in> set (get_chunk_marks s')"
    using hist' heap assms(3) by (auto simp: in_chunk_marks is_pre_mark_def intro!: exI [of _ r])
  let ?ts = "map (\<lambda>m. or_zero (mk_ack_ts m))
     (filter (\<lambda>m. mk_acked m \<and> mk_turn_id m = Some t \<and> or_zero (mk_ack_ts m) \<noteq> 0)
        (map (\<lambda>(k, r). ledger_heap s' ! r) (ledger_history s')))"
  have mem: "now \<in> set ?ts"
    using hist' heap assms(4,5) by (force simp: or_zero_def image_iff)
  then have "now \<le> Max (set ?ts)" by (rule Max_ge [OF List.finite_set])
  moreover have "?ts \<noteq> []" using mem by (metis empty_iff list.set(1))
  ultimately have "\<exists>x. get_last_ack_ts_for_turn (Some t) s' = Some x \<and> now \<le> x"
    unfolding get_last_ack_ts_for_turn_def Let_def by simp
  with res live chunk show ?thesis by (simp add: Let_def)
qed

theorem ack_credits_turn_witness:
  "\<exists>x. get_last_ack_ts_for_turn (Some 1) (snd (fetch_data 12 ''m1'' sample_ledger)) = Some x \<and> 12 \<le> x"
proof -
  have "map_of (ledger_live sample_ledger) ''m1'' = Some 0"
    "\<not> is_pre_mark (ledger_heap sample_ledger ! 0)"
    "mk_turn_id (ledger_heap sample_ledger ! 0) = Some 1"
    by (simp_all add: ledger_eval)
  from ack_credits_turn [OF sample_ledger_reachable this, of 12] show ?thesis
    by (simp add: Let_def split_beta)
qed

definition mark_credit :: "mark \<Rightarrow> bool \<times> int option \<times> rat option" where
  "mark_credit m = (mk_acked m, mk_turn_id m, mk_ack_ts m)"

lemma nth_beyond: "\<not> n < length xs \<Longrightarrow> xs ! n = [] ! (n - length xs)"
proof (induction xs arbitrary: n)
  case (Cons x xs)
  then show ?case by (cases n) auto
qed simp

lemma map_eq_nth: "map g xs = map g ys \<Longrightarrow> g (xs ! n) = g (ys ! n)"
proof -
  assume eq: "map g xs = map g ys"
  then have len: "length xs = length ys" by (rule map_eq_imp_length_eq)
  show ?thesis
  proof (cases "n < length xs")
    case True
    with len eq show ?thesis by (metis nth_map)
  next
    case False
    with len show ?thesis using nth_beyond [of n xs] nth_beyond [of n ys] by simp
  qed
qed

lemma get_last_ack_cong:
  assumes "map mark_credit (ledger_heap s) = map mark_credit (ledger_heap t)"
    and "ledger_history s = ledger_history t"
  shows "get_last_ack_ts_for_turn q s = get_last_ack_ts_for_turn q t"
proof -
  have c: "mk_acked (ledger_heap s ! r) = mk_acked (ledger_heap t ! r)"
    "mk_turn_id (ledger_heap s ! r) = mk_turn_id (ledger_heap t ! r)"
    "mk_ack_ts (ledger_heap s ! r) = mk_ack_ts (ledger_heap t ! r)" for r
    using map_eq_nth [OF assms(1), of r] by (simp_all add: mark_credit_def)
  then show ?thesis
    by (simp add: get_last_ack_ts_for_turn_def assms(2) filter_map o_def split_beta)
qed

lemma credit_flags [simp]:
  "mark_credit (m\<lparr>mk_cleared_on_interrupt := b\<rparr>) = mark_credit m"
  "mark_credit (m\<lparr>mk_cleared := b\<rparr>) = mark_credit m"
  by (simp_all add: mark_credit_def)

lemma credit_set_mark:
  assumes "\<And>m. mark_credit (f m) = mark_credit m"
  shows "map mark_credit (ledger_heap (set_mark r f s)) = map mark_credit (ledger_heap s)"
  using assms by (simp add: set_mark_def map_update_nth)

lemma credit_clear_marks:
  "map mark_credit (ledger_heap (clear_marks ms s)) = map mark_credit (ledger_heap s)"
  by (induction ms s rule: clear_marks.induct)
     (simp_all add: Let_def credit_set_mark)

lemma heard_clear_marks [simp]:
  "heard_text_by_turn (clear_marks ms s) = heard_text_by_turn s"
  "heard_text_by_response (clear_marks ms s) = heard_text_by_response s"
  "last_heard_turn_id (clear_marks ms s) = last_heard_turn_id s"
  "last_heard_response_uid (clear_marks ms s) = last_heard_response_uid s"
  "audio_playing_until (clear_marks ms s) = audio_playing_until s"
  by (induction ms s rule: clear_marks.induct) (simp_all add: Let_def set_mark_def)

lemmas heard_defs = get_heard_text_for_turn_def get_heard_text_for_response_def

text \<open>
  Dropping a mark that was never played and clearing the pending marks at
  an interruption credit nobody: the last acknowledgement of every turn and the heard text of
  every turn and response are unchanged.
\<close>

theorem unplayed_never_credited:
  "get_last_ack_ts_for_turn q (snd (drop_data k s)) = get_last_ack_ts_for_turn q s \<and>
   get_last_ack_ts_for_turn q (clear_data s) = get_last_ack_ts_for_turn q s \<and>
   get_heard_text_for_turn q (snd (drop_data k s)) = get_heard_text_for_turn q s \<and>
   get_heard_text_for_turn q (clear_data s) = get_heard_text_for_turn q s \<and>
   get_heard_text_for_response u (snd (drop_data k s)) = get_heard_text_for_response u s \<and>
   get_heard_text_for_response u (clear_data s) = get_heard_text_for_response u s"
proof -
  have d: "map mark_credit (ledger_heap (snd (drop_data k s))) = map mark_credit (ledger_heap s)"
    "ledger_history (snd (drop_data k s)) = ledger_history s"
    by (simp_all add: drop_data_def Let_def credit_set_mark split: option.splits)
  have c: "map mark_credit (ledger_heap (clear_data s)) = map mark_credit (ledger_heap s)"
    "ledger_history (clear_data s) = ledger_history s"
    by (simp_all add: clear_data_def Let_def credit_clear_marks drop_playout_estimate_def)
  have h: "get_heard_text_for_turn q (snd (drop_data k s)) = get_heard_text_for_turn q s"
    "get_heard_text_for_response u (snd (drop_data k s)) = get_heard_text_for_response u s"
    by (simp_all add: heard_defs drop_data_def Let_def set_mark_def split: option.splits)
  have h': "get_heard_text_for_turn q (clear_data s) = get_heard_text_for_turn q s"
    "get_heard_text_for_response u (clear_data s) = get_heard_text_for_response u s"
    by (simp_all add: heard_defs clear_data_def Let_def drop_playout_estimate_def
        cong: option.case_cong if_cong)
  show ?thesis
    using get_last_ack_cong [OF d] get_last_ack_cong [OF c] h h' by blast
qed

text \<open>
  An interruption empties the live ledger and the playout estimate, moves
  every pending mark, in order, to the snapshot, flags each pending audio chunk as cleared both
  in the snapshot and in the chunk report, and flags exactly the sequences that had a pending
  chunk (or were already flagged) as interrupted.
\<close>

theorem interruption_snapshot:
  assumes "ledger_reachable s"
  shows "let s' = clear_data s in
     ledger_live s' = [] \<and> get_audio_playing_until s' = 0 \<and>
     map fst (fetch_cleared_mark_event_data s') = map fst (ledger_live s) \<and>
     (\<forall>k r. map_of (ledger_live s) k = Some r \<longrightarrow> \<not> is_pre_mark (ledger_heap s ! r) \<longrightarrow>
        (let m = (ledger_heap s ! r)\<lparr>mk_cleared_on_interrupt := True\<rparr> in
         (k, m) \<in> set (fetch_cleared_mark_event_data s') \<and>
         \<lparr>cm_mark_id = k, cm_mark = m\<rparr> \<in> set (get_chunk_marks s'))) \<and>
     (\<forall>q. map_of (ms_per_sequence (ledger_stats s')) q =
        map_option (\<lambda>e. e\<lparr>sq_interrupted := sq_interrupted e \<or>
            pending_on (ledger_live s) (ledger_heap s) q\<rparr>) (map_of (ms_per_sequence (ledger_stats s)) q))"
proof -
  let ?t = "drop_playout_estimate (s\<lparr>ledger_counter := 0\<rparr>)"
  let ?c = "clear_marks (ledger_live s) ?t"
  have t: "ledger_live ?t = ledger_live s" "ledger_heap ?t = ledger_heap s"
    "ledger_history ?t = ledger_history s" "ledger_stats ?t = ledger_stats s" "audio_playing_until ?t = 0"
    by (simp_all add: drop_playout_estimate_def)
  have s': "clear_data s = ?c\<lparr>ledger_previous := map (\<lambda>(k, r). (k, ledger_heap ?c ! r)) (ledger_live s),
      ledger_live := []\<rparr>"
    by (simp add: clear_data_def Let_def t)
  have pending: "(k, m) \<in> set (fetch_cleared_mark_event_data (clear_data s)) \<and>
      \<lparr>cm_mark_id = k, cm_mark = m\<rparr> \<in> set (get_chunk_marks (clear_data s))"
    if "map_of (ledger_live s) k = Some r" "\<not> is_pre_mark (ledger_heap s ! r)"
      "m = (ledger_heap s ! r)\<lparr>mk_cleared_on_interrupt := True\<rparr>" for k r m
  proof -
    from history_address [OF ledger_shared [OF assms] that(1,2)]
    have hist: "(k, r) \<in> set (ledger_history s)" and r: "r < length (ledger_heap s)" by simp_all
    have live: "(k, r) \<in> set (ledger_live s)" using that(1) by (rule map_of_SomeD)
    then have "r \<in> snd ` set (ledger_live s)" by force
    with r that have m: "ledger_heap ?c ! r = m" by (simp add: nth_clear_marks t)
    have "\<not> is_pre_mark m" using that by (simp add: is_pre_mark_def)
    with m hist live show ?thesis
      by (auto simp: s' fetch_cleared_mark_event_data_def in_chunk_marks t image_iff
          intro!: bexI [of _ "(k, r)"])
  qed
  have "map_of (ms_per_sequence (ledger_stats (clear_data s))) q =
        map_option (\<lambda>e. e\<lparr>sq_interrupted := sq_interrupted e \<or>
            pending_on (ledger_live s) (ledger_heap s) q\<rparr>) (map_of (ms_per_sequence (ledger_stats s)) q)" for q
    using clear_marks_interrupts [of "ledger_live s" ?t q] by (simp add: s' t)
  moreover have "ledger_live (clear_data s) = []" "get_audio_playing_until (clear_data s) = 0"
    "map fst (fetch_cleared_mark_event_data (clear_data s)) = map fst (ledger_live s)"
    by (simp_all add: s' get_audio_playing_until_def t fetch_cleared_mark_event_data_def split_beta o_def)
  ultimately show ?thesis using pending unfolding Let_def by blast
qed

theorem interruption_snapshot_witness:
  "ledger_live (clear_data sample_ledger) = [] \<and>
   map fst (fetch_cleared_mark_event_data (clear_data sample_ledger)) = [''m1'']"
  using interruption_snapshot [OF sample_ledger_reachable]
  by (simp add: Let_def) (simp add: ledger_eval)

lemma update_data_playing:
  "audio_playing_until (update_data now k v s) =
     (if is_pre_mark v \<or> or_zero (mk_duration v) \<le> 0 \<or> mk_type v = Some IS_USER_ONLINE_MESSAGE
      then audio_playing_until s
      else max (audio_playing_until s) now + or_zero (mk_duration v))"
  by (simp add: update_data_def Let_def is_pre_mark_def note_audio_queued_def split: option.splits)

text \<open>
  Audio handed over faster than real time accumulates: after queueing chunks of
  positive length at one instant, the estimated end of playback is the later of now and the
  previous estimate plus the sum of their durations.
\<close>

theorem playout_backlog:
  assumes "chunks \<noteq> []"
    and "\<forall>(k, v) \<in> set chunks. \<not> is_pre_mark v \<and> mk_type v \<noteq> Some IS_USER_ONLINE_MESSAGE \<and>
           0 < or_zero (mk_duration v)"
  shows "get_audio_playing_until (foldl (\<lambda>s (k, v). update_data now k v s) s chunks) =
         max (get_audio_playing_until s) now + (\<Sum>(k, v)\<leftarrow>chunks. or_zero (mk_duration v))"
  using assms
proof (induction chunks arbitrary: s)
  case (Cons c cs)
  obtain k v where c: "c = (k, v)" by (cases c)
  have pos: "0 < or_zero (mk_duration v)" using Cons.prems(2) c by auto
  have step: "audio_playing_until (update_data now k v s) =
      max (audio_playing_until s) now + or_zero (mk_duration v)"
    using Cons.prems(2) c by (auto simp: update_data_playing)
  show ?case
  proof (cases "cs = []")
    case True
    with step c show ?thesis by (simp add: get_audio_playing_until_def)
  next
    case False
    have "now \<le> audio_playing_until (update_data now k v s)"
      unfolding step using pos by (simp add: max_def)
    then have "max (audio_playing_until (update_data now k v s)) now =
        max (audio_playing_until s) now + or_zero (mk_duration v)"
      by (simp only: max_absorb1 step)
    with Cons.IH [OF False, of "update_data now k v s"] Cons.prems(2) c show ?thesis
      by (simp add: get_audio_playing_until_def)
  qed
qed simp

theorem playout_backlog_witness:
  "get_audio_playing_until (foldl (\<lambda>s (k, v). update_data 10 k v s) ledger_init
     [(''a'', sample_chunk), (''b'', sample_chunk)]) = 14"
  using playout_backlog [of "[(''a'', sample_chunk), (''b'', sample_chunk)]" 10 ledger_init]
  by (simp add: get_audio_playing_until_def ledger_eval)

end
