(* ===== verification/Playback.thy ===== *)
theory Playback
  imports Marks
begin

text \<open>
  What the caller heard: the input handler of a browser leg
  (\<open>voiceai/modules/voice/io/input/default.py\<close>). It receives the acknowledgements of audio
  marks, takes each mark out of the ledger of theory \<open>Marks\<close>, and accumulates the heard text by
  call, by turn and by response, the carrier latency and the end of each answer.

  The handler and the ledger are two records; the method that writes both returns both. The
  websocket and the queues it forwards audio to are not modelled. The observables are the values
  the engine subscribes to, \<open>None\<close> when they are not registered; a lookup that raises is the
  error of the result. \<open>time.time()\<close> is the argument \<open>now\<close>. A mark without a send time or a
  duration counts as 0, as \<open>get(key, 0)\<close> has it.
\<close>

section \<open>State\<close>

record input_handler =
  in_playing :: bool
  in_update_start_ts :: rat
  in_response_heard :: string
  in_heard_by_turn :: "(int \<times> string) list"
  in_last_heard_turn :: "int option"
  in_heard_by_response :: "(string \<times> string) list"
  in_last_heard_response :: "string option"
  in_chunks_received :: nat
  in_latency_samples :: "rat list"
  in_latency :: rat
  in_last_final_sequence :: "int option"
  in_last_final_ts :: "rat option"
  in_welcome_played :: bool
  in_welcome_played_ts :: "rat option"
  in_welcome_pre_mark :: "string option"
  in_final_chunk_observable :: "bool option"
  in_hangup_observable :: "bool option"

definition input_init :: "rat \<Rightarrow> bool \<Rightarrow> bool option \<Rightarrow> bool option \<Rightarrow> input_handler" where
  "input_init now welcome final_obs hangup_obs =
     \<lparr>in_playing = False, in_update_start_ts = now, in_response_heard = [],
      in_heard_by_turn = [], in_last_heard_turn = None,
      in_heard_by_response = [], in_last_heard_response = None,
      in_chunks_received = 0, in_latency_samples = [], in_latency = 1 / 4,
      in_last_final_sequence = None, in_last_final_ts = None,
      in_welcome_played = welcome, in_welcome_played_ts = None, in_welcome_pre_mark = None,
      in_final_chunk_observable = final_obs, in_hangup_observable = hangup_obs\<rparr>"

definition MAX_LATENCY_SAMPLES :: nat where
  "MAX_LATENCY_SAMPLES = 10"

section \<open>Operations\<close>

definition calculate_and_update_latency :: "rat \<Rightarrow> mark \<Rightarrow> input_handler \<Rightarrow> input_handler" where
  "calculate_and_update_latency now m h =
     (let sent = or_zero (mk_sent_ts m); latency = now - sent - or_zero (mk_duration m)
      in if sent \<le> 0 then h
         else if latency < 0 \<or> 2 < latency then h
         else let appended = in_latency_samples h @ [latency];
                  samples = (if MAX_LATENCY_SAMPLES < length appended then tl appended else appended)
              in h\<lparr>in_latency_samples := samples,
                    in_latency := sum_list samples / of_nat (length samples)\<rparr>)"

definition get_audio_chunks_received :: "input_handler \<Rightarrow> nat \<times> input_handler" where
  "get_audio_chunks_received h = (in_chunks_received h, h\<lparr>in_chunks_received := 0\<rparr>)"

definition update_is_audio_being_played :: "rat \<Rightarrow> bool \<Rightarrow> input_handler \<Rightarrow> input_handler" where
  "update_is_audio_being_played now v h =
     (if v then h\<lparr>in_update_start_ts := now, in_playing := True\<rparr> else h\<lparr>in_playing := False\<rparr>)"

definition get_response_heard_by_user :: "input_handler \<Rightarrow> string \<times> input_handler" where
  "get_response_heard_by_user h = (py_strip (in_response_heard h), h\<lparr>in_response_heard := []\<rparr>)"

definition reset_response_heard_by_user :: "input_handler \<Rightarrow> input_handler" where
  "reset_response_heard_by_user h =
     h\<lparr>in_response_heard := [], in_heard_by_turn := [], in_last_heard_turn := None,
       in_heard_by_response := [], in_last_heard_response := None\<rparr>"

definition get_response_heard_for_turn :: "int option \<Rightarrow> input_handler \<Rightarrow> string" where
  "get_response_heard_for_turn turn h =
     (case (if turn = None then in_last_heard_turn h else turn) of
        None \<Rightarrow> []
      | Some t \<Rightarrow> py_strip (or_empty (map_of (in_heard_by_turn h) t)))"

definition get_response_heard_for_response :: "string option \<Rightarrow> input_handler \<Rightarrow> string" where
  "get_response_heard_for_response uid h =
     (case (if uid = None then in_last_heard_response h else uid) of
        None \<Rightarrow> []
      | Some u \<Rightarrow> py_strip (or_empty (map_of (in_heard_by_response h) u)))"

definition set_welcome_message_played :: "bool \<Rightarrow> input_handler \<Rightarrow> input_handler" where
  "set_welcome_message_played b h = h\<lparr>in_welcome_played := b\<rparr>"

text \<open>The pieces of \<open>process_mark_message\<close>, in its order.\<close>

definition ack_delay :: "rat \<Rightarrow> mark \<Rightarrow> mark_ledger \<Rightarrow> mark_ledger" where
  "ack_delay now m l =
     (let sent = or_zero (mk_sent_ts m); delay = now - sent - or_zero (mk_duration m)
      in if 0 < sent \<and> 0 \<le> delay then record_ack delay (mk_sequence_id m) l else l)"

definition credit_heard :: "mark \<Rightarrow> input_handler \<Rightarrow> input_handler" where
  "credit_heard m h =
     (let text = mk_text_synthesized m;
          h1 = h\<lparr>in_response_heard := in_response_heard h @ text\<rparr>;
          h2 = (case mk_turn_id m of
                  Some t \<Rightarrow> if text \<noteq> [] then h1\<lparr>in_last_heard_turn := Some t,
                                in_heard_by_turn := add_heard t text (in_heard_by_turn h1)\<rparr> else h1
                | None \<Rightarrow> h1)
      in case mk_response_uid m of
           Some u \<Rightarrow> if text \<noteq> [] then h2\<lparr>in_last_heard_response := Some u,
                         in_heard_by_response := add_heard u text (in_heard_by_response h2)\<rparr> else h2
         | None \<Rightarrow> h2)"

definition final_chunk_played ::
  "rat \<Rightarrow> mark \<Rightarrow> input_handler \<Rightarrow> mark_ledger \<Rightarrow> py_error option \<times> input_handler \<times> mark_ledger" where
  "final_chunk_played now m h l =
     (let h1 = h\<lparr>in_last_final_sequence := mk_sequence_id m, in_last_final_ts := Some now\<rparr>;
          h2 = (if mk_type m \<noteq> Some IS_USER_ONLINE_MESSAGE
                then h1\<lparr>in_final_chunk_observable := map_option Not (in_final_chunk_observable h1)\<rparr>
                else h1);
          h3 = update_is_audio_being_played now False h2
      in if mk_type m = Some ''agent_welcome_message''
         then let h4 = h3\<lparr>in_chunks_received := 0, in_welcome_played := True,
                           in_welcome_played_ts := Some (now * 1000)\<rparr>
              in (None, h4,
                  (case in_welcome_pre_mark h4 of
                     None \<Rightarrow> l
                   | Some k \<Rightarrow> if k \<noteq> [] \<and> map_of (ledger_live l) k \<noteq> None
                               then snd (fetch_data now k l) else l))
         else if mk_type m = Some ''agent_hangup''
         then (case in_hangup_observable h3 of
                 None \<Rightarrow> (Some (KeyError ''agent_hangup_observable''), h3, l)
               | Some _ \<Rightarrow> (None, h3\<lparr>in_hangup_observable := Some True\<rparr>, l))
         else (None, h3, l))"

definition process_mark_message ::
  "rat \<Rightarrow> string \<Rightarrow> input_handler \<Rightarrow> mark_ledger \<Rightarrow> py_error option \<times> input_handler \<times> mark_ledger" where
  "process_mark_message now k h l =
     (case fetch_data now k l of
        (None, l1) \<Rightarrow> (None, h, l1)
      | (Some m, l1) \<Rightarrow>
          (if is_pre_mark m then (None, update_is_audio_being_played now True h, l1)
           else let h1 = calculate_and_update_latency now m
                           (h\<lparr>in_chunks_received := in_chunks_received h + 1\<rparr>);
                    l2 = ack_delay now m l1;
                    (h2, l3) = (if mk_type m \<noteq> Some ''backchanneling''
                                then (credit_heard m h1, record_heard_text m (mk_text_synthesized m) l2)
                                else (h1, l2))
                in if mk_is_final_chunk m then final_chunk_played now m h2 l3 else (None, h2, l3)))"

section \<open>Runs\<close>

inductive playback_step :: "input_handler \<times> mark_ledger \<Rightarrow> input_handler \<times> mark_ledger \<Rightarrow> bool" where
  acked: "process_mark_message now k h l = (err, h', l') \<Longrightarrow> playback_step (h, l) (h', l')"
| sent: "playback_step (h, l) (h, update_data now k v l)"
| cleared: "playback_step (h, l) (h, clear_data l)"
| dropped: "playback_step (h, l) (h, snd (drop_data k l))"
| taken: "playback_step (h, l) (snd (get_response_heard_by_user h), l)"
| reset: "playback_step (h, l) (reset_response_heard_by_user h, l)"
| counted: "playback_step (h, l) (snd (get_audio_chunks_received h), l)"
| welcomed: "playback_step (h, l) (set_welcome_message_played b h, l)"

inductive_cases playback_step_cases: "playback_step (h, l) (h', l')"

definition playback_reachable :: "input_handler \<Rightarrow> mark_ledger \<Rightarrow> bool" where
  "playback_reachable h l =
     (\<exists>now w f g. playback_step\<^sup>*\<^sup>* (input_init now w f g, ledger_init) (h, l))"

lemma playback_invariant:
  assumes "playback_reachable h l"
    and "\<And>now w f g. P (input_init now w f g) ledger_init"
    and "\<And>h l h' l'. P h l \<Longrightarrow> playback_step (h, l) (h', l') \<Longrightarrow> P h' l'"
  shows "P h l"
proof -
  from assms(1) obtain now w f g
    where run: "playback_step\<^sup>*\<^sup>* (input_init now w f g, ledger_init) (h, l)"
    unfolding playback_reachable_def by blast
  have "case (h, l) of (h, l) \<Rightarrow> P h l"
    using run by (induction rule: rtranclp_induct) (use assms(2,3) in auto)
  then show ?thesis by simp
qed

text \<open>What every operation leaves alone.\<close>

lemma heard_frame [simp]:
  "in_heard_by_turn (calculate_and_update_latency now m h) = in_heard_by_turn h"
  "in_heard_by_response (calculate_and_update_latency now m h) = in_heard_by_response h"
  "in_heard_by_turn (update_is_audio_being_played now b h) = in_heard_by_turn h"
  "in_heard_by_response (update_is_audio_being_played now b h) = in_heard_by_response h"
  by (simp_all add: calculate_and_update_latency_def update_is_audio_being_played_def Let_def)

lemma ledger_heard_frame [simp]:
  "heard_text_by_turn (ack_delay now m l) = heard_text_by_turn l"
  "heard_text_by_response (ack_delay now m l) = heard_text_by_response l"
  "heard_text_by_turn (snd (fetch_data now k l)) = heard_text_by_turn l"
  "heard_text_by_response (snd (fetch_data now k l)) = heard_text_by_response l"
  "heard_text_by_turn (snd (drop_data k l)) = heard_text_by_turn l"
  "heard_text_by_response (snd (drop_data k l)) = heard_text_by_response l"
  "heard_text_by_turn (clear_data l) = heard_text_by_turn l"
  "heard_text_by_response (clear_data l) = heard_text_by_response l"
  "heard_text_by_turn (update_data now k v l) = heard_text_by_turn l"
  "heard_text_by_response (update_data now k v l) = heard_text_by_response l"
  by (simp_all add: ack_delay_def record_ack_def fetch_data_def drop_data_def clear_data_def
      update_data_def set_mark_def note_audio_queued_def drop_playout_estimate_def Let_def
      split: option.splits)

lemma live_frame [simp]:
  "ledger_live (ack_delay now m l) = ledger_live l"
  "ledger_live (record_heard_text m text l) = ledger_live l"
  by (simp_all add: ack_delay_def record_ack_def record_heard_text_def Let_def split: option.splits)

lemma fetch_live: "ledger_live (snd (fetch_data now k l)) = AList.delete k (ledger_live l)"
proof (cases "map_of (ledger_live l) k")
  case None
  then have "k \<notin> fst ` set (ledger_live l)" by (simp add: map_of_eq_None_iff)
  then show ?thesis
    using None by (simp add: fetch_data_def delete_id)
qed (simp add: fetch_data_def Let_def)

section \<open>Properties\<close>

lemma final_live:
  "map_of (ledger_live l) k = None \<Longrightarrow> final_chunk_played now m h l = (err, h', l') \<Longrightarrow>
   map_of (ledger_live l') k = None"
  by (auto simp: final_chunk_played_def Let_def fetch_live dict_simps split: if_splits option.splits)

lemma process_live:
  assumes "process_mark_message now k h l = (err, h', l')"
  shows "map_of (ledger_live l') k = None"
proof -
  have none: "map_of (ledger_live (snd (fetch_data now k l))) k = None"
    by (simp add: fetch_live dict_simps)
  show ?thesis
    using assms none
    by (auto simp: process_mark_message_def Let_def split: prod.splits option.splits if_splits)
       (rule final_live [rotated], assumption, simp)+
qed

text \<open>
  An acknowledgement counts once. After \<open>process_mark_message\<close> has handled
  a mark, the carrier's repeated acknowledgement of it, at any later time, changes neither the
  handler nor the ledger and raises nothing.
\<close>

theorem duplicate_ack_ignored:
  "let (err, h', l') = process_mark_message now k h l
   in process_mark_message now' k h' l' = (None, h', l')"
proof -
  obtain err h' l' where p: "process_mark_message now k h l = (err, h', l')"
    by (metis prod_cases3)
  from process_live [OF p] have "fetch_data now' k l' = (None, l')" by (simp add: fetch_data_def)
  with p show ?thesis by (simp add: process_mark_message_def)
qed

definition heard_agree :: "('k \<times> string) list \<Rightarrow> ('k \<times> string) list \<Rightarrow> bool" where
  "heard_agree d e \<longleftrightarrow> (\<forall>k. suffix (or_empty (map_of d k)) (or_empty (map_of e k)))"

lemma heard_agree_add:
  "heard_agree d e \<Longrightarrow> heard_agree (add_heard k text d) (add_heard k text e)"
  by (auto simp: heard_agree_def add_heard_def dict_simps)

lemma heard_agree_Nil [simp]: "heard_agree [] e"
  by (simp add: heard_agree_def)

definition agreement :: "input_handler \<Rightarrow> mark_ledger \<Rightarrow> bool" where
  "agreement h l \<longleftrightarrow> heard_agree (in_heard_by_turn h) (heard_text_by_turn l) \<and>
     heard_agree (in_heard_by_response h) (heard_text_by_response l)"

lemma agreement_frame:
  assumes "agreement h l" and "in_heard_by_turn h' = in_heard_by_turn h"
    and "in_heard_by_response h' = in_heard_by_response h"
    and "heard_text_by_turn l' = heard_text_by_turn l"
    and "heard_text_by_response l' = heard_text_by_response l"
  shows "agreement h' l'"
  using assms(1) by (simp only: agreement_def assms)

lemma agreement_credit:
  "agreement h l \<Longrightarrow> agreement (credit_heard m h) (record_heard_text m (mk_text_synthesized m) l)"
  by (auto simp: agreement_def credit_heard_def record_heard_text_def Let_def heard_agree_add
      split: option.splits)

lemma agreement_final:
  assumes "agreement h l" and "final_chunk_played now m h l = (err, h', l')"
  shows "agreement h' l'"
  using assms(2)
  by (auto simp: final_chunk_played_def Let_def split: if_splits option.splits
      intro!: agreement_frame [OF assms(1)])

lemma agreement_process:
  assumes "agreement h l" and "process_mark_message now k h l = (err, h', l')"
  shows "agreement h' l'"
proof (cases "fst (fetch_data now k l)")
  case None
  with assms show ?thesis by (auto simp: process_mark_message_def fetch_data_def Let_def split: option.splits)
next
  case (Some m)
  then obtain l1 where f: "fetch_data now k l = (Some m, l1)" by (metis prod.collapse)
  let ?h1 = "calculate_and_update_latency now m (h\<lparr>in_chunks_received := in_chunks_received h + 1\<rparr>)"
  have l1: "heard_text_by_turn l1 = heard_text_by_turn l"
    "heard_text_by_response l1 = heard_text_by_response l"
    using ledger_heard_frame(3,4) [of now k l] f by simp_all
  have A: "agreement ?h1 (ack_delay now m l1)"
    by (rule agreement_frame [OF assms(1)]) (simp_all add: l1)
  from agreement_credit [OF A, of m]
  have B: "agreement (credit_heard m ?h1) (record_heard_text m (mk_text_synthesized m) (ack_delay now m l1))" .
  have C: "agreement (update_is_audio_being_played now True h) l1"
    by (rule agreement_frame [OF assms(1)]) (simp_all add: l1)
  show ?thesis
    using assms(2) f A B C
    by (auto simp: process_mark_message_def Let_def split: if_splits intro: agreement_final)
qed

lemma agreement_step:
  assumes "agreement h l" and "playback_step (h, l) (h', l')"
  shows "agreement h' l'"
proof (rule playback_step_cases [OF assms(2)])
  fix now k err
  assume "process_mark_message now k h l = (err, h', l')"
  with assms(1) show ?thesis by (rule agreement_process)
qed (use assms(1) in \<open>simp_all add: agreement_def get_response_heard_by_user_def
       reset_response_heard_by_user_def get_audio_chunks_received_def set_welcome_message_played_def\<close>)

definition latency_ok :: "input_handler \<Rightarrow> bool" where
  "latency_ok h \<longleftrightarrow> length (in_latency_samples h) \<le> MAX_LATENCY_SAMPLES \<and>
     (\<forall>x \<in> set (in_latency_samples h). 0 \<le> x \<and> x \<le> 2) \<and> 0 \<le> in_latency h \<and> in_latency h \<le> 2"

lemma latency_frame:
  "in_latency_samples h' = in_latency_samples h \<Longrightarrow> in_latency h' = in_latency h \<Longrightarrow>
   latency_ok h \<Longrightarrow> latency_ok h'"
  by (simp add: latency_ok_def)

lemma average_bounds:
  assumes "xs \<noteq> []" and "\<forall>x \<in> set xs. 0 \<le> x \<and> x \<le> (b :: rat)"
  shows "0 \<le> sum_list xs / of_nat (length xs) \<and> sum_list xs / of_nat (length xs) \<le> b"
proof -
  have "sum_list xs \<le> of_nat (length xs) * b"
    using sum_list_mono [of xs id "\<lambda>_. b"] assms(2) by (simp add: sum_list_triv)
  moreover have "0 \<le> sum_list xs" using assms(2) by (simp add: sum_list_nonneg)
  ultimately show ?thesis using assms(1) by (simp add: divide_le_eq mult.commute)
qed

lemma latency_update: "latency_ok h \<Longrightarrow> latency_ok (calculate_and_update_latency now m h)"
proof -
  assume ok: "latency_ok h"
  let ?x = "now - or_zero (mk_sent_ts m) - or_zero (mk_duration m)"
  let ?a = "in_latency_samples h @ [?x]"
  let ?s = "if MAX_LATENCY_SAMPLES < length ?a then tl ?a else ?a"
  show ?thesis
  proof (cases "or_zero (mk_sent_ts m) \<le> 0 \<or> ?x < 0 \<or> 2 < ?x")
    case True
    with ok show ?thesis by (auto simp: calculate_and_update_latency_def Let_def)
  next
    case False
    have len: "length ?s \<le> MAX_LATENCY_SAMPLES" "?s \<noteq> []"
      using ok by (auto simp: latency_ok_def MAX_LATENCY_SAMPLES_def) (metis Suc_eq_plus1 length_append_singleton length_tl diff_Suc_1 list.size(3) not_less0)
    have "set ?s \<subseteq> set ?a" by (cases ?a) auto
    with ok False have all: "\<forall>x \<in> set ?s. 0 \<le> x \<and> x \<le> 2" by (auto simp: latency_ok_def)
    from average_bounds [OF len(2) all] len(1) all show ?thesis
      using False by (simp add: calculate_and_update_latency_def Let_def latency_ok_def)
  qed
qed

lemma latency_process:
  assumes ok: "latency_ok h" and "process_mark_message now k h l = (err, h', l')"
  shows "latency_ok h'"
proof -
  have credit: "latency_ok (credit_heard m g)" if "latency_ok g" for m g
    by (rule latency_frame [OF _ _ that]) (simp_all add: credit_heard_def Let_def split: option.splits)
  have playing: "latency_ok (update_is_audio_being_played now b h)" for b
    by (rule latency_frame [OF _ _ ok]) (simp_all add: update_is_audio_being_played_def)
  have final: "latency_ok g'" if "final_chunk_played now m g r = (e, g', r')" "latency_ok g" for m g r e g' r'
    using that(1) by (intro latency_frame [OF _ _ that(2)])
      (auto simp: final_chunk_played_def update_is_audio_being_played_def Let_def split: if_splits option.splits)
  have upd: "latency_ok (calculate_and_update_latency now m (h\<lparr>in_chunks_received := n\<rparr>))" for m n
    by (rule latency_update, rule latency_frame [OF _ _ ok]) simp_all
  show ?thesis
    using assms(2) ok playing
    by (auto simp: process_mark_message_def Let_def upd credit dest!: final
        split: prod.splits option.splits if_splits)
qed

lemma latency_step: "latency_ok h \<Longrightarrow> playback_step (h, l) (h', l') \<Longrightarrow> latency_ok h'"
  by (erule playback_step_cases)
     (auto intro: latency_process latency_frame [of _ h] simp: get_response_heard_by_user_def
       reset_response_heard_by_user_def get_audio_chunks_received_def set_welcome_message_played_def)

text \<open>
  The handler and the ledger never disagree on what was heard: in every
  reachable state the handler's text of a turn or response (which a new turn resets) is a suffix
  of the ledger's, the latency window holds at most ten samples and the smoothed latency is
  between 0 and 2 seconds.
\<close>

theorem playback_agreement:
  assumes "playback_reachable h l"
  shows "(\<forall>t. suffix (or_empty (map_of (in_heard_by_turn h) t))
                      (or_empty (map_of (heard_text_by_turn l) t))) \<and>
    (\<forall>u. suffix (or_empty (map_of (in_heard_by_response h) u))
                 (or_empty (map_of (heard_text_by_response l) u))) \<and>
    length (in_latency_samples h) \<le> MAX_LATENCY_SAMPLES \<and> 0 \<le> in_latency h \<and> in_latency h \<le> 2"
proof -
  have "agreement h l \<and> latency_ok h"
    by (rule playback_invariant [OF assms], simp add: agreement_def latency_ok_def input_init_def,
        use agreement_step latency_step in blast)
  then show ?thesis by (simp add: agreement_def heard_agree_def latency_ok_def)
qed

definition sample_input :: input_handler where
  "sample_input = input_init 9 False None None"

definition sample_acked :: "input_handler \<times> mark_ledger" where
  "sample_acked = snd (process_mark_message 13 ''m1'' sample_input
     (update_data 10 ''m1'' sample_chunk ledger_init))"

lemma sample_acked_reachable: "playback_reachable (fst sample_acked) (snd sample_acked)"
proof -
  have "playback_step (sample_input, ledger_init)
    (sample_input, update_data 10 ''m1'' sample_chunk ledger_init)" by (rule sent)
  moreover have "playback_step (sample_input, update_data 10 ''m1'' sample_chunk ledger_init)
    (fst sample_acked, snd sample_acked)"
    by (rule acked [where err = "fst (process_mark_message 13 ''m1'' sample_input
       (update_data 10 ''m1'' sample_chunk ledger_init))"]) (simp add: sample_acked_def)
  ultimately show ?thesis
    unfolding playback_reachable_def sample_input_def
    by (meson converse_rtranclp_into_rtranclp r_into_rtranclp)
qed

theorem playback_agreement_witness:
  "or_empty (map_of (in_heard_by_turn (fst sample_acked)) 1) = ''hello'' \<and>
   suffix (or_empty (map_of (in_heard_by_turn (fst sample_acked)) 1))
     (or_empty (map_of (heard_text_by_turn (snd sample_acked)) 1))"
proof
  show "or_empty (map_of (in_heard_by_turn (fst sample_acked)) 1) = ''hello''"
    by (simp add: sample_acked_def process_mark_message_def fetch_data_def ledger_eval set_mark_def
        update_nth_def credit_heard_def calculate_and_update_latency_def sample_input_def
        input_init_def add_heard_def)
  show "suffix (or_empty (map_of (in_heard_by_turn (fst sample_acked)) 1))
     (or_empty (map_of (heard_text_by_turn (snd sample_acked)) 1))"
    using playback_agreement [OF sample_acked_reachable] by blast
qed

end
