(* ===== verification/History_Sync.thy ===== *)
theory History_Sync
  imports History Playback
begin

text \<open>
  The commit path of a turn, from \<open>voiceai/modules/voice/session/turn/history_sync.py\<close> (and
  \<open>drop_all_staged_assistant_history\<close> of \<open>transcript_listener/llm.py\<close>): trimming a response to what
  the caller heard, estimating the part of an unacknowledged response that was played, and the
  staging of responses that become history only when their audio is sent.

  The session is the record of what this path reads and writes: the history, the mark ledger and
  the input handler, each modelled in its own theory, and the hint for the language model. The turn
  map of the code holds references to history rows: reading the content of the row of a turn is
  the field \<open>ss_turn_text\<close>, and the row that the path enters into the map is \<open>ss_turn_row\<close>, a turn
  and a position in the message list. The \<open>except\<close> arm of \<open>sync_history\<close> only logs.
\<close>

section \<open>Matching heard text against the response\<close>

text \<open>The search for the longest prefix: lengths \<open>n\<close>, \<open>n - 1\<close>, ..., 1.\<close>

fun longest_heard_prefix :: "nat \<Rightarrow> string \<Rightarrow> string \<Rightarrow> string option" where
  "longest_heard_prefix 0 heard original = None"
| "longest_heard_prefix (Suc n) heard original =
     (let partial = py_strip (take (Suc n) heard)
      in if partial \<noteq> [] \<and> prefix partial original then Some partial
         else longest_heard_prefix n heard original)"

definition update_transcript_for_interruption :: "string option \<Rightarrow> string option \<Rightarrow> string option" where
  "update_transcript_for_interruption original_stream heard_text =
     (case original_stream of
        None \<Rightarrow> if truthy_str heard_text then Some (py_strip (or_empty heard_text)) else None
      | Some original \<Rightarrow>
          if \<not> truthy_str heard_text \<or> py_strip (or_empty heard_text) = [] then Some []
          else let heard = py_strip (or_empty heard_text)
            in case py_find heard original of
                 Some i \<Rightarrow> Some (take (i + length heard) original)
               | None \<Rightarrow>
                   (case (if 3 < length heard \<and> take 3 original = take 3 heard
                          then longest_heard_prefix (length heard) heard original else None) of
                      Some partial \<Rightarrow> Some partial
                    | None \<Rightarrow> Some []))"

definition trim_partial_to_complete_words :: "string option \<Rightarrow> string" where
  "trim_partial_to_complete_words text =
     (let partial = py_strip (or_empty text)
      in if partial = [] then []
         else case find_last (\<lambda>c. c = CHR '' '') partial of
                None \<Rightarrow> []
              | Some i \<Rightarrow> if i = 0 then [] else take i partial)"

definition normalized_transcript_text :: "string option \<Rightarrow> string" where
  "normalized_transcript_text text = py_join '' '' (py_split_ws (py_strip (or_empty text)))"

text \<open>One step of the loop over the messages, on the rows kept so far.\<close>

definition keep_precise :: "message list \<Rightarrow> message \<Rightarrow> message list" where
  "keep_precise cleaned m =
     (if cleaned \<noteq> [] \<and> msg_role m = USER \<and> msg_role (last cleaned) = USER \<and>
         normalized_transcript_text (msg_content m) \<noteq> [] \<and>
         normalized_transcript_text (msg_content (last cleaned)) \<noteq> [] \<and>
         prefix (normalized_transcript_text (msg_content (last cleaned)))
                (normalized_transcript_text (msg_content m))
      then butlast cleaned @ [m] else cleaned @ [m])"

definition prepare_precise_transcript_messages :: "message list \<Rightarrow> message list" where
  "prepare_precise_transcript_messages ms = foldl keep_precise [] ms"

section \<open>Evidence\<close>

definition non_evidence :: "mark \<Rightarrow> bool" where
  "non_evidence m = (mk_type m \<in> {Some ''pre_mark_message'', Some ''backchanneling''})"

text \<open>The loop shared by the two readers, with the latest value and its counter so far.\<close>

definition latest_step :: "(mark \<Rightarrow> 'a option) \<Rightarrow> 'a option \<times> int \<Rightarrow> string \<times> mark \<Rightarrow> 'a option \<times> int" where
  "latest_step f acc km =
     (let (latest, counter) = acc; m = snd km
      in if non_evidence m \<or> f m = None then acc
         else if counter \<le> mk_counter m then (f m, mk_counter m) else acc)"

definition get_latest_turn_id_from_marks :: "(string \<times> mark) list \<Rightarrow> int option" where
  "get_latest_turn_id_from_marks marks = fst (foldl (latest_step mk_turn_id) (None, -1) marks)"

definition get_latest_response_uid_from_marks :: "(string \<times> mark) list \<Rightarrow> string option" where
  "get_latest_response_uid_from_marks marks =
     fst (foldl (latest_step mk_response_uid) (None, -1) marks)"

definition get_latest_assistant_turn_id :: "conversation \<Rightarrow> int option" where
  "get_latest_assistant_turn_id c =
     (case find_last (\<lambda>m. msg_role m = ASSISTANT \<and> msg_turn_id m \<noteq> None) (messages c) of
        None \<Rightarrow> None | Some i \<Rightarrow> msg_turn_id (messages c ! i))"

definition get_latest_assistant_response_uid :: "conversation \<Rightarrow> string option" where
  "get_latest_assistant_response_uid c =
     (case find_last (\<lambda>m. msg_role m = ASSISTANT \<and> msg_response_uid m \<noteq> None) (messages c) of
        None \<Rightarrow> None | Some i \<Rightarrow> msg_response_uid (messages c ! i))"

definition has_interruptible_mark_activity :: "mark_ledger \<Rightarrow> bool" where
  "has_interruptible_mark_activity l =
     list_ex (\<lambda>(k, r). let m = ledger_heap l ! r in
        \<not> is_pre_mark m \<and>
        (mk_turn_id m \<noteq> None \<or> (mk_sequence_id m \<noteq> None \<and> mk_sequence_id m \<noteq> Some (-1))))
       (ledger_live l)"

section \<open>Playback estimate\<close>

text \<open>A chunk is its text and its duration in seconds.\<close>

type_synonym pending_chunk = "string \<times> rat"

definition partial_chunk :: "string \<Rightarrow> rat \<Rightarrow> rat \<Rightarrow> string" where
  "partial_chunk text remaining_time chunk_duration =
     (let proportion = (if 0 < chunk_duration then remaining_time / chunk_duration else 0);
          char_count = nat \<lfloor>of_nat (length text) * proportion\<rfloor>;
          partial = take char_count text
      in if partial \<noteq> [] \<and> char_count < length text
         then trim_partial_to_complete_words (Some partial) else partial)"

fun estimate_loop :: "pending_chunk list \<Rightarrow> rat \<Rightarrow> rat \<Rightarrow> string list" where
  "estimate_loop [] cumulative play_time = []"
| "estimate_loop ((text, d) # chunks) cumulative play_time =
     (if play_time \<le> cumulative then []
      else if cumulative + d \<le> play_time
      then text # estimate_loop chunks (cumulative + d) play_time
      else let partial = partial_chunk text (play_time - cumulative) d
        in (if partial \<noteq> [] then [partial] else []) @ estimate_loop chunks (cumulative + d) play_time)"

definition estimate_played_text_for_time :: "pending_chunk list \<Rightarrow> rat \<Rightarrow> string" where
  "estimate_played_text_for_time chunks play_time = concat (estimate_loop chunks 0 play_time)"

section \<open>Synchronising the history after an interruption\<close>

record sync_session =
  ss_history :: conversation
  ss_ledger :: mark_ledger
  ss_input :: input_handler
  ss_turn_text :: "(int \<times> string) list"
  ss_turn_row :: "(int option \<times> nat) option"
  ss_hint :: "string option"

text \<open>The target turn and response, and whether they come from evidence.\<close>

definition sync_targets :: "sync_session \<Rightarrow> (string \<times> mark) list \<Rightarrow> int option \<times> string option \<times> bool" where
  "sync_targets s marks =
     (let t0 = get_latest_turn_id_from_marks marks;
          u0 = get_latest_response_uid_from_marks marks;
          t1 = (if t0 = None then in_last_heard_turn (ss_input s) else t0);
          u1 = (if u0 = None then in_last_heard_response (ss_input s) else u0);
          evidence = ((t0 \<noteq> None \<or> u0 \<noteq> None) \<or> t1 \<noteq> None \<or> u1 \<noteq> None);
          t2 = (if t1 = None then get_latest_assistant_turn_id (ss_history s) else t1);
          u2 = (if u1 = None then get_latest_assistant_response_uid (ss_history s) else u1)
      in (t2, u2, evidence))"

text \<open>The confirmed text: the first source that has any.\<close>

definition confirmed_text :: "sync_session \<Rightarrow> int option \<Rightarrow> string option \<Rightarrow> string \<times> int option" where
  "confirmed_text s t u =
     (let h1 = get_response_heard_for_response u (ss_input s);
          h2 = (if h1 = [] then get_response_heard_for_turn t (ss_input s) else h1);
          h3 = (if h2 = [] then get_heard_text_for_response u (ss_ledger s) else h2);
          h4 = (if h3 = [] then get_heard_text_for_turn t (ss_ledger s) else h3)
      in if h4 = [] \<and> t = None
         then (in_response_heard (ss_input s), in_last_heard_turn (ss_input s)) else (h4, t))"

definition pending_text_chunks :: "int option \<Rightarrow> (string \<times> mark) list \<Rightarrow> mark list" where
  "pending_text_chunks t marks =
     filter (\<lambda>m. \<not> non_evidence m \<and> mk_text_synthesized m \<noteq> [] \<and> (t = None \<or> mk_turn_id m = t))
       (map snd marks)"

definition chunk_of :: "mark \<Rightarrow> pending_chunk" where
  "chunk_of m = (mk_text_synthesized m, or_zero (mk_duration m))"

definition credit_tail ::
  "sync_session \<Rightarrow> (string \<times> mark) list \<Rightarrow> rat \<Rightarrow> int option \<Rightarrow> string \<Rightarrow> string" where
  "credit_tail s marks processed_at t heard =
     (let tail = pending_text_chunks t marks;
          last_ack = or_zero (get_last_ack_ts_for_turn t (ss_ledger s))
      in if tail \<noteq> [] \<and> last_ack \<noteq> 0
         then let text = estimate_played_text_for_time (map chunk_of tail) (max 0 (processed_at - last_ack))
           in if text \<noteq> []
              then heard @ (if py_isspace (last heard) \<or> py_isspace (hd text) then [] else '' '') @ text
              else heard
         else heard)"

text \<open>Without text on the marks: the pending sequences and duration of each turn.\<close>

type_synonym pending_turns = "(int \<times> int list \<times> rat) list"

definition note_pending :: "pending_turns \<Rightarrow> string \<times> mark \<Rightarrow> pending_turns" where
  "note_pending acc km =
     (let m = snd km in
      if is_pre_mark m then acc
      else case mk_turn_id m of
             None \<Rightarrow> acc
           | Some t \<Rightarrow>
               (let (seqs, dur) = (case map_of acc t of None \<Rightarrow> ([], 0) | Some e \<Rightarrow> e);
                    seqs' = (case mk_sequence_id m of
                               Some q \<Rightarrow> if q \<noteq> -1 then List.insert q seqs else seqs
                             | None \<Rightarrow> seqs)
                in AList.update t (seqs', dur + or_zero (mk_duration m)) acc))"

definition turn_audio_duration :: "int \<Rightarrow> int list \<Rightarrow> mark_stats \<Rightarrow> rat" where
  "turn_audio_duration t seqs st =
     (let total = sum_list (map (\<lambda>(q, e). sq_total_audio_duration e)
                    (filter (\<lambda>(q, e). sq_turn_id e = Some t) (ms_per_sequence st)))
      in if total \<le> 0
         then sum_list (map (\<lambda>q. case map_of (ms_per_sequence st) q of
                                    None \<Rightarrow> 0 | Some e \<Rightarrow> sq_total_audio_duration e) seqs)
         else total)"

definition proportional_text :: "string \<Rightarrow> rat \<Rightarrow> string" where
  "proportional_text full_text proportion =
     (let full = py_strip full_text; n = nat \<lfloor>of_nat (length full) * proportion\<rfloor>
      in if 0 < proportion \<and> full \<noteq> []
         then (if n < length full
               then take (length (trim_partial_to_complete_words (Some (take n full)))) full
               else take n full)
         else [])"

text \<open>An estimate is the heard text and the target turn; \<open>None\<close> leaves the history alone.\<close>

definition estimate_by_duration ::
  "sync_session \<Rightarrow> (string \<times> mark) list \<Rightarrow> int option \<Rightarrow> bool \<Rightarrow> (string \<times> int option) option" where
  "estimate_by_duration s marks t evidence =
     (let pending = foldl note_pending [] marks
      in if pending = []
         then (if t = None \<or> \<not> evidence then None else Some ([], t))
         else let tid = (case t of
                           Some x \<Rightarrow> if map_of pending x \<noteq> None then x else Max (set (map fst pending))
                         | None \<Rightarrow> Max (set (map fst pending)));
                  (seqs, dur) = (case map_of pending tid of None \<Rightarrow> ([], 0) | Some e \<Rightarrow> e);
                  total = turn_audio_duration tid seqs (ledger_stats (ss_ledger s))
              in if total \<le> 0 then Some ([], Some tid)
                 else let proportion = min 1 (max 0 (total - dur) / total)
                   in if 1 \<le> proportion then None
                      else Some (proportional_text (or_empty (map_of (ss_turn_text s) tid)) proportion,
                                 Some tid))"

definition estimate_heard ::
  "sync_session \<Rightarrow> (string \<times> mark) list \<Rightarrow> rat \<Rightarrow> int option \<Rightarrow> bool \<Rightarrow> (string \<times> int option) option" where
  "estimate_heard s marks processed_at t evidence =
     (let chunks = pending_text_chunks t marks
      in if chunks \<noteq> []
         then let first_sent = or_zero (mk_sent_ts (hd chunks));
                  started = (if 0 < first_sent then first_sent else in_update_start_ts (ss_input s))
              in Some (estimate_played_text_for_time (map chunk_of chunks) (max 0 (processed_at - started)), t)
         else estimate_by_duration s marks t evidence)"

definition trim_fn :: update_fn where
  "trim_fn original heard = update_transcript_for_interruption (Some original) heard"

definition materialise :: "string \<Rightarrow> string \<Rightarrow> int option \<Rightarrow> conversation \<Rightarrow> conversation" where
  "materialise u heard t c =
     upsert_assistant_for_response (Some u) heard True t
       (upsert_assistant_for_response (Some u) heard False t c)"

definition apply_heard :: "string \<Rightarrow> int option \<Rightarrow> string option \<Rightarrow> sync_session \<Rightarrow> sync_session" where
  "apply_heard heard t u s =
     (let s1 = (case u of
                  Some uid \<Rightarrow>
                    (if heard = [] then s
                     else let c = materialise uid heard t (ss_history s)
                       in s\<lparr>ss_history := c,
                            ss_turn_row :=
                              (case find_last (\<lambda>m. msg_role m = ASSISTANT \<and>
                                   (msg_response_uid m = Some uid \<or> msg_turn_id m = t)) (messages c) of
                                 None \<Rightarrow> ss_turn_row s | Some i \<Rightarrow> Some (t, i))\<rparr>)
                | None \<Rightarrow> s);
          h = Some heard; c1 = ss_history s1;
          c2 = (case u of
                  Some uid \<Rightarrow> sync_interim_response_after_interruption u h trim_fn
                                (sync_response_after_interruption u h trim_fn c1)
                | None \<Rightarrow> sync_interim_turn_after_interruption t h trim_fn
                            (sync_turn_after_interruption t h trim_fn c1))
      in s1\<lparr>ss_history := c2, ss_hint := Some heard\<rparr>)"

definition sync_history :: "(string \<times> mark) list \<Rightarrow> rat \<Rightarrow> bool \<Rightarrow> sync_session \<Rightarrow> sync_session" where
  "sync_history marks processed_at with_tail s =
     (let (t, u, evidence) = sync_targets s marks;
          (heard0, t1) = confirmed_text s t u;
          heard1 = (if with_tail \<and> heard0 \<noteq> [] then credit_tail s marks processed_at t1 heard0 else heard0)
      in if heard1 \<noteq> [] then apply_heard heard1 t1 u s
         else case estimate_heard s marks processed_at t1 evidence of
                None \<Rightarrow> s
              | Some (heard, t2) \<Rightarrow> apply_heard heard t2 u s)"

section \<open>Staged responses\<close>

record staged =
  stg_content :: string
  stg_turn_id :: "int option"
  stg_response_uid :: "string option"
  stg_category :: "string option"

record staging =
  sg_history :: conversation
  sg_pending :: "(int \<times> staged) list"
  sg_committed :: "int set"
  sg_sent :: "int set"
  sg_blocked :: "int set"
  sg_turn_rows :: "(int \<times> nat) list"

definition commit_staged_assistant_history :: "int option \<Rightarrow> staging \<Rightarrow> staging" where
  "commit_staged_assistant_history seq g =
     (case seq of
        None \<Rightarrow> g
      | Some q \<Rightarrow>
          (if q \<in> sg_committed g then g
           else case map_of (sg_pending g) q of
                  None \<Rightarrow> g
                | Some e \<Rightarrow>
                    (let c = append_assistant (Some (stg_content e)) None (stg_turn_id e)
                               (stg_response_uid e) (stg_category e) False (sg_history g)
                     in g\<lparr>sg_pending := AList.delete q (sg_pending g),
                          sg_committed := insert q (sg_committed g),
                          sg_history := c,
                          sg_turn_rows := (case stg_turn_id e of
                                             None \<Rightarrow> sg_turn_rows g
                                           | Some t \<Rightarrow> AList.update t (length (messages c) - 1)
                                                         (sg_turn_rows g))\<rparr>)))"

definition stage_assistant_history :: "int option \<Rightarrow> staged \<Rightarrow> staging \<Rightarrow> staging" where
  "stage_assistant_history seq e g =
     (case seq of
        None \<Rightarrow> g
      | Some q \<Rightarrow>
          (if stg_content e = [] \<or> py_strip (stg_content e) = [] then g
           else let g1 = g\<lparr>sg_pending := AList.update q e (sg_pending g)\<rparr>
             in if q \<in> sg_sent g1 \<and> q \<notin> sg_blocked g1
                then commit_staged_assistant_history (Some q) g1 else g1))"

definition drop_staged_assistant_history :: "int option \<Rightarrow> staging \<Rightarrow> staging" where
  "drop_staged_assistant_history seq g =
     (case seq of None \<Rightarrow> g | Some q \<Rightarrow> g\<lparr>sg_pending := AList.delete q (sg_pending g)\<rparr>)"

definition drop_all_staged_assistant_history :: "int list \<Rightarrow> staging \<Rightarrow> staging" where
  "drop_all_staged_assistant_history keep g =
     foldl (\<lambda>g q. drop_staged_assistant_history (Some q) g) g
       (filter (\<lambda>q. q \<notin> set keep) (map fst (sg_pending g)))"

section \<open>Lemmas\<close>

lemma prefix_take_rstrip: "prefix (py_rstrip (take n s)) s"
  by (metis prefix_order.trans prefix_py_rstrip take_is_prefix)

text \<open>A stripped text has no leading space, so stripping its prefixes only cuts their ends.\<close>

lemma strip_take_prefix:
  assumes "py_strip s = s"
  shows "prefix (py_strip (take n s)) s"
proof -
  have s: "py_lstrip s = s" using assms by (metis py_lstrip_strip)
  have "s = [] \<or> \<not> py_isspace (hd s)" using py_strip_hd [of s] assms by auto
  then have "py_lstrip (take n s) = take n s"
    by (cases s; cases n) (auto simp: py_lstrip_def)
  then show ?thesis by (simp add: py_strip_def prefix_take_rstrip)
qed

lemma longest_heard_prefix_Some:
  "longest_heard_prefix n heard original = Some p \<Longrightarrow>
     p \<noteq> [] \<and> prefix p original \<and> (\<exists>i. 0 < i \<and> i \<le> n \<and> p = py_strip (take i heard)) \<and>
     (\<forall>j. j \<le> n \<longrightarrow> py_strip (take j heard) \<noteq> [] \<longrightarrow> prefix (py_strip (take j heard)) original \<longrightarrow>
        (\<exists>i\<ge>j. p = py_strip (take i heard)))"
proof (induction n heard original rule: longest_heard_prefix.induct)
  case (2 n heard original)
  let ?p = "py_strip (take (Suc n) heard)"
  show ?case
  proof (cases "?p \<noteq> [] \<and> prefix ?p original")
    case True
    with "2.prems" have "p = ?p" by (auto simp: Let_def split: if_splits)
    with True show ?thesis by auto
  next
    case False
    with "2.prems" have rec: "longest_heard_prefix n heard original = Some p"
      by (auto simp: Let_def split: if_splits)
    from "2.IH" [OF refl False rec] False show ?thesis
      by (metis le_Suc_eq)
  qed
qed simp

lemma longest_heard_prefix_None:
  "longest_heard_prefix n heard original = None \<Longrightarrow> 0 < j \<Longrightarrow> j \<le> n \<Longrightarrow>
     py_strip (take j heard) = [] \<or> \<not> prefix (py_strip (take j heard)) original"
proof (induction n heard original rule: longest_heard_prefix.induct)
  case (2 n heard original)
  then show ?case by (auto simp: Let_def le_Suc_eq split: if_splits)
qed simp

lemma estimate_stops: "play \<le> c \<Longrightarrow> estimate_loop cs c play = []"
  by (cases cs) auto

lemma trim_words_prefix:
  "prefix (trim_partial_to_complete_words t) (py_strip (or_empty t))"
  by (auto simp: trim_partial_to_complete_words_def Let_def take_is_prefix split: option.splits)

lemma strip_take_rstrip:
  assumes "py_strip s = s"
  shows "py_strip (take n s) = py_rstrip (take n s)"
proof -
  have "s = [] \<or> \<not> py_isspace (hd s)" using py_strip_hd [of s] assms by auto
  then have "py_lstrip (take n s) = take n s"
    by (cases s; cases n) (auto simp: py_lstrip_def)
  then show ?thesis by (simp add: py_strip_def)
qed

lemma rstrip_length_mono: "length (py_rstrip a) \<le> length (py_rstrip (a @ z))"
  using length_dropWhile_le [of py_isspace "rev a"]
  by (auto simp: py_rstrip_def dropWhile_append)

lemma strip_take_mono:
  assumes "py_strip s = s" "j \<le> i"
  shows "length (py_strip (take j s)) \<le> length (py_strip (take i s))"
proof -
  have "take i s = take j s @ take (i - j) (drop j s)" using assms(2) by (metis le_add_diff_inverse take_add)
  then have "length (py_rstrip (take j s)) \<le> length (py_rstrip (take i s))"
    using rstrip_length_mono by metis
  then show ?thesis by (simp only: strip_take_rstrip [OF assms(1)])
qed

lemma find_sublist: "py_find h s = Some i \<Longrightarrow> sublist h s"
  using py_find_None [of h s] by auto

lemma find_first:
  assumes f: "py_find h s = Some i"
  defines "r \<equiv> take (i + length h) s"
  shows "suffix h r \<and> (\<forall>r'. strict_prefix r' r \<longrightarrow> \<not> sublist h r')"
proof (intro conjI allI impI notI)
  from py_find_Some [OF f] have i: "i + length h \<le> length s" "take (length h) (drop i s) = h" by auto
  then have "r = take i s @ h" by (simp add: r_def take_add)
  then show "suffix h r" by (simp add: suffix_def)
  fix r' assume "strict_prefix r' r" and "sublist h r'"
  then obtain a b where r': "r' = a @ h @ b" by (auto simp: sublist_def)
  have "length r' < i + length h"
    using prefix_length_less [OF \<open>strict_prefix r' r\<close>] i(1) by (simp add: r_def)
  then have "length a < i" by (simp add: r')
  moreover have "prefix r' s"
    using \<open>strict_prefix r' r\<close> unfolding r_def
    by (meson prefix_order.less_imp_le prefix_order.trans take_is_prefix)
  then have "prefix h (drop (length a) s)" by (auto simp: r' prefix_def)
  ultimately show False using py_find_least [OF f] by blast
qed

text \<open>
  Trimming a response to the heard text never invents text: the result is
  always a prefix of the response. When the (stripped) heard text occurs in it, the result is the
  shortest prefix that ends with it; when it does not but agrees on the first three characters,
  the result is nonempty and is the longest common beginning, up to trailing spaces; in every
  other case, and when nothing was heard, it is empty.
\<close>

theorem heard_trim_correct:
  "\<exists>r. update_transcript_for_interruption (Some original) heard = Some r \<and> prefix r original \<and>
    (let h = py_strip (or_empty heard) in
       if h = [] then r = []
       else if sublist h original then suffix h r \<and> (\<forall>r'. strict_prefix r' r \<longrightarrow> \<not> sublist h r')
       else if 3 < length h \<and> take 3 original = take 3 h
       then r \<noteq> [] \<and> prefix r h \<and>
            (\<forall>p. prefix p h \<and> prefix p original \<longrightarrow> length (py_strip p) \<le> length r)
       else r = [])"
proof -
  let ?h = "py_strip (or_empty heard)"
  have idem: "py_strip ?h = ?h" by simp
  show ?thesis
  proof (cases "?h = []")
    case True
    then show ?thesis by (simp add: update_transcript_for_interruption_def)
  next
    case False
    then have t: "truthy_str heard" by (cases heard) auto
    show ?thesis
    proof (cases "py_find ?h original")
      case (Some i)
      then have "update_transcript_for_interruption (Some original) heard =
          Some (take (i + length ?h) original)"
        using False t by (simp add: update_transcript_for_interruption_def Let_def)
      with False find_first [OF Some] find_sublist [OF Some] show ?thesis
        by (simp add: Let_def take_is_prefix)
    next
      case None
      then have nosub: "\<not> sublist ?h original" by (simp add: py_find_None)
      show ?thesis
      proof (cases "3 < length ?h \<and> take 3 original = take 3 ?h")
        case long: True
        let ?n = "length ?h"
        have hd: "\<not> py_isspace (hd ?h)" by (rule py_strip_hd [OF False])
        have one: "py_strip (take 1 ?h) = take 1 ?h"
          using hd False by (cases ?h) (auto simp: py_strip_def py_lstrip_def py_rstrip_def)
        have "take 1 ?h = take 1 (take 3 ?h)" by simp
        also have "\<dots> = take 1 original" using long by (metis take_take min.absorb1 one_le_numeral)
        finally have "prefix (take 1 ?h) original" by (metis take_is_prefix)
        then have "longest_heard_prefix ?n ?h original \<noteq> None"
          using longest_heard_prefix_None [of ?n ?h original 1] one False by (auto simp: Suc_le_eq)
        then obtain r where r: "longest_heard_prefix ?n ?h original = Some r" by auto
        from longest_heard_prefix_Some [OF r] obtain i where
          ri: "r \<noteq> []" "prefix r original" "r = py_strip (take i ?h)"
          and best: "\<forall>j. j \<le> ?n \<longrightarrow> py_strip (take j ?h) \<noteq> [] \<longrightarrow>
             prefix (py_strip (take j ?h)) original \<longrightarrow> (\<exists>i\<ge>j. r = py_strip (take i ?h))"
          by auto
        have "length (py_strip p) \<le> length r" if "prefix p ?h" "prefix p original" for p
        proof (cases "py_strip p = []")
          case np: False
          from that(1) have p: "p = take (length p) ?h" by (auto simp: prefix_def)
          have "prefix (py_strip p) p"
            using strip_take_rstrip [OF idem, of "length p"] p prefix_py_rstrip [of p] by simp
          then have "prefix (py_strip p) original" using that(2) prefix_order.trans by blast
          with best np p that(1) obtain k where "length p \<le> k" "r = py_strip (take k ?h)"
            by (metis prefix_length_le)
          with strip_take_mono [OF idem this(1)] p show ?thesis by metis
        qed simp
        moreover have "prefix r ?h" unfolding ri(3) by (rule strip_take_prefix [OF idem])
        moreover have "update_transcript_for_interruption (Some original) heard = Some r"
          using False t None long r by (simp add: update_transcript_for_interruption_def Let_def)
        ultimately show ?thesis using False nosub long ri by (simp add: Let_def)
      next
        case False': False
        then have "update_transcript_for_interruption (Some original) heard = Some []"
          using False t None by (auto simp: update_transcript_for_interruption_def Let_def)
        with False False' nosub show ?thesis by (auto simp: Let_def)
      qed
    qed
  qed
qed

lemma partial_chunk_sublist: "sublist (partial_chunk text r d) text"
proof -
  have t: "sublist (take n text) text" for n by (simp add: take_is_prefix prefix_imp_sublist)
  have "sublist (trim_partial_to_complete_words (Some (take n text))) text" for n
  proof -
    have "sublist (py_strip (take n text)) (take n text)"
      unfolding py_strip_def py_lstrip_def
      by (meson prefix_imp_sublist prefix_py_rstrip sublist_order.order.trans suffix_dropWhile suffix_imp_sublist)
    with trim_words_prefix [of "Some (take n text)"] t show ?thesis
      by (metis or_empty_simps(2) prefix_imp_sublist sublist_order.order.trans)
  qed
  with t show ?thesis by (simp add: partial_chunk_def Let_def)
qed

definition played_split :: "pending_chunk list \<Rightarrow> rat \<Rightarrow> nat \<Rightarrow> string \<Rightarrow> rat \<Rightarrow> bool" where
  "played_split cs play n p c \<longleftrightarrow> n \<le> length cs \<and>
     (n = 0 \<or> c + sum_list (map snd (take n cs)) \<le> play) \<and>
     (n = length cs \<or> play < c + sum_list (map snd (take (Suc n) cs)) \<or>
        play \<le> c + sum_list (map snd (take n cs))) \<and>
     (p \<noteq> [] \<longrightarrow> n < length cs \<and> sublist p (fst (cs ! n)) \<and>
        c + sum_list (map snd (take n cs)) < play \<and> play < c + sum_list (map snd (take (Suc n) cs)))"

lemma estimate_loop_split:
  "\<exists>n p. concat (estimate_loop cs c play) = concat (map fst (take n cs)) @ p \<and> played_split cs play n p c"
proof (induction cs c play rule: estimate_loop.induct)
  case (1 c play)
  show ?case by (rule exI [of _ 0]) (simp add: played_split_def)
next
  case (2 w d cs c play)
  consider "play \<le> c" | "c < play" "c + d \<le> play" | "c < play" "play < c + d" by linarith
  then show ?case
  proof cases
    case 1
    then show ?thesis by (intro exI [of _ 0]) (simp add: played_split_def)
  next
    case 2
    with "2.IH"(1) obtain n p where
      "concat (estimate_loop cs (c + d) play) = concat (map fst (take n cs)) @ p"
      "played_split cs play n p (c + d)" by auto
    with 2 show ?thesis
      by (intro exI [of _ "Suc n"] exI [of _ p]) (auto simp: played_split_def algebra_simps)
  next
    case 3
    then show ?thesis
      by (intro exI [of _ 0] exI [of _ "partial_chunk w (play - c) d"])
         (simp add: played_split_def Let_def estimate_stops partial_chunk_sublist)
  qed
qed

theorem heard_trim_correct_witness:
  "\<exists>r. update_transcript_for_interruption (Some ''I can help'') (Some ''can'') = Some r \<and>
     prefix r ''I can help'' \<and> suffix ''can'' r"
proof -
  have h: "py_strip (or_empty (Some ''can'')) = ''can''" by code_simp
  have s: "sublist ''can'' ''I can help''" by (simp add: sublist_Cons_right)
  from heard_trim_correct [of "''I can help''" "Some ''can''"] show ?thesis
    unfolding h Let_def using s by auto
qed

text \<open>
  The estimate of what was played credits whole chunks as long as they fit in
  the play time, in order, then at most one partial piece, taken from inside the next chunk and
  only while that chunk is playing; it never credits a chunk after that.
\<close>

theorem played_text_estimate:
  "\<exists>n p. estimate_played_text_for_time chunks play = concat (map fst (take n chunks)) @ p \<and>
     n \<le> length chunks \<and>
     (n = 0 \<or> sum_list (map snd (take n chunks)) \<le> play) \<and>
     (n = length chunks \<or> play < sum_list (map snd (take (Suc n) chunks)) \<or>
        play = sum_list (map snd (take n chunks)) \<or> play \<le> 0) \<and>
     (p = [] \<or> n < length chunks \<and> sublist p (fst (chunks ! n)) \<and>
        sum_list (map snd (take n chunks)) < play \<and> play < sum_list (map snd (take (Suc n) chunks)))"
proof -
  obtain n p where "concat (estimate_loop chunks 0 play) = concat (map fst (take n chunks)) @ p"
    and s: "played_split chunks play n p 0" using estimate_loop_split by blast
  moreover have "n = length chunks \<or> play < sum_list (map snd (take (Suc n) chunks)) \<or>
        play = sum_list (map snd (take n chunks)) \<or> play \<le> 0"
    using s unfolding played_split_def by (cases "n = 0") auto
  ultimately show ?thesis
    unfolding estimate_played_text_for_time_def played_split_def by (intro exI [of _ n] exI [of _ p]) auto
qed

definition sound :: "message list \<Rightarrow> message list \<Rightarrow> bool" where
  "sound ms ms' \<longleftrightarrow> (tool_wf ms \<longrightarrow> tool_wf ms') \<and> filter speech_row ms' = filter speech_row ms"

lemma sound_refl [simp]: "sound ms ms"
  by (simp add: sound_def)

lemma sound_trans: "sound a b \<Longrightarrow> sound b c \<Longrightarrow> sound a c"
  by (simp add: sound_def)

lemma sound_update:
  assumes "i < length ms" "msg_role (ms ! i) = ASSISTANT"
    and "msg_role (f (ms ! i)) = ASSISTANT" "msg_tool_calls (f (ms ! i)) = msg_tool_calls (ms ! i)"
    and "msg_tool_call_id (f (ms ! i)) = msg_tool_call_id (ms ! i)"
  shows "sound ms (update_nth i f ms)"
proof -
  let ?m = "ms ! i"
  have no: "\<not> is_tool ?m" "\<not> is_tool (f ?m)" "\<not> speech_row ?m" "\<not> speech_row (f ?m)"
    using assms(2,3) by (simp_all add: is_tool_def speech_row_def)
  have "tool_wf (f ?m # drop (Suc i) ms) = tool_wf (?m # drop (Suc i) ms)"
    using assms(2-) by (simp add: tool_wf.simps(2) calls_tools_def has_tool_calls_def is_tool_def
        answers_calls_def expected_ids_def)
  then have "tool_wf (update_nth i f ms) = tool_wf ms"
    using id_take_nth_drop [OF assms(1)] update_nth_split [OF assms(1), of f]
    by (metis no(1,2) tool_wf_split)
  moreover have "filter speech_row (update_nth i f ms) = filter speech_row ms"
    using assms(1) no(3,4) by (rule filter_update_nth_same)
  ultimately show ?thesis by (simp add: sound_def)
qed

lemma sound_append_assistant:
  assumes "msg_role m = ASSISTANT" "msg_tool_calls m = None"
  shows "sound ms (ms @ [m])"
proof -
  have "tool_wf [m]" using assms
    by (simp add: tool_wf.simps calls_tools_def has_tool_calls_def is_tool_def)
  moreover have "\<not> speech_row m" using assms(1) by (simp add: speech_row_def)
  ultimately show ?thesis by (simp add: sound_def tool_wf_append)
qed

lemma sound_upsert: "sound ms (upsert_response_row u content t ms)"
  unfolding upsert_response_row_def
  by (auto split: option.splits if_splits dest!: find_last_Some simp: new_message_def
      intro!: sound_update sound_append_assistant)

lemma sound_trim:
  "sound ms (trim_assistant_for_response u heard upd ms)"
  "sound ms (trim_assistant_for_turn t heard upd ms)"
  by (auto simp: sound_def trim_assistant_for_response_def trim_assistant_for_turn_def
      intro!: trim_found_wf trim_found_keeps_speech)

definition sound_conv :: "conversation \<Rightarrow> conversation \<Rightarrow> bool" where
  "sound_conv c c' \<longleftrightarrow> sound (messages c) (messages c') \<and> sound (interim c) (interim c')"

lemma sound_conv_refl [simp]: "sound_conv c c"
  by (simp add: sound_conv_def)

lemma sound_conv_trans: "sound_conv a b \<Longrightarrow> sound_conv b c \<Longrightarrow> sound_conv a c"
  unfolding sound_conv_def using sound_trans by blast

lemma sound_on_msgs: "(\<And>ms. sound ms (f ms)) \<Longrightarrow> sound_conv c (on_msgs b f c)"
  by (simp add: sound_conv_def on_msgs_def)

lemma sound_materialise: "sound_conv c (materialise u heard t c)"
  unfolding materialise_def upsert_assistant_for_response_def
  by (meson sound_conv_trans sound_on_msgs sound_upsert)

lemma sound_sync_ops:
  "sound_conv c (sync_interim_response_after_interruption u h f (sync_response_after_interruption u h f c))"
  "sound_conv c (sync_interim_turn_after_interruption t h f (sync_turn_after_interruption t h f c))"
  unfolding sync_interim_response_after_interruption_def sync_response_after_interruption_def
    sync_interim_turn_after_interruption_def sync_turn_after_interruption_def
  by (meson sound_conv_trans sound_on_msgs sound_trim)+

lemma sound_apply_heard: "sound_conv (ss_history s) (ss_history (apply_heard heard t u s))"
proof (cases u)
  case None
  then show ?thesis by (simp add: apply_heard_def Let_def sound_sync_ops)
next
  case (Some uid)
  then show ?thesis
    using sound_conv_trans [OF sound_materialise sound_sync_ops(1)]
    by (simp add: apply_heard_def Let_def sound_sync_ops)
qed

lemma sound_sync_history: "sound_conv (ss_history s) (ss_history (sync_history marks now tail s))"
  by (auto simp: sync_history_def Let_def sound_apply_heard split: prod.splits option.splits)

text \<open>
  C37: Synchronising the history after an interruption, from whatever marks, input
  state and clock, keeps the committed and the interim history within the provider's tool-call
  contract, and keeps every user and system row, in order.
\<close>

theorem sync_history_safe:
  assumes "provider_contract (messages (ss_history s))" "provider_contract (interim (ss_history s))"
  shows "let c = ss_history s; c' = ss_history (sync_history marks now tail s) in
    provider_contract (messages c') \<and> provider_contract (interim c') \<and>
    filter speech_row (messages c') = filter speech_row (messages c) \<and>
    filter speech_row (interim c') = filter speech_row (interim c)"
  using assms sound_sync_history [of s marks now tail]
  by (simp add: Let_def sound_conv_def sound_def contract_iff)

definition sample_session :: sync_session where
  "sample_session =
     \<lparr>ss_history = \<lparr>messages = sample_history, interim = sample_history\<rparr>,
      ss_ledger = ledger_init, ss_input = input_init 0 True None None,
      ss_turn_text = [], ss_turn_row = None, ss_hint = None\<rparr>"

definition sample_marks :: "(string \<times> mark) list" where
  "sample_marks = [(''m1'', sample_chunk\<lparr>mk_response_uid := Some ''r2'', mk_turn_id := Some 2,
                              mk_text_synthesized := ''it is booked''\<rparr>)]"

theorem sync_history_safe_witness:
  "ss_hint (sync_history sample_marks 11 False sample_session) = Some ''it'' \<and>
   provider_contract (messages (ss_history (sync_history sample_marks 11 False sample_session)))"
proof
  show "ss_hint (sync_history sample_marks 11 False sample_session) = Some ''it''"
    by code_simp
  show "provider_contract (messages (ss_history (sync_history sample_marks 11 False sample_session)))"
    using sync_history_safe [of sample_session sample_marks 11 False] sample_history_contract
    by (simp add: sample_session_def Let_def)
qed

end
