(* ===== verification/Output_Loop.thy ===== *)
theory Output_Loop
  imports History_Sync Interruption
begin

text \<open>
  Playout, from \<open>voiceai/modules/voice/session/turn/output_loop.py\<close>, and the cleanup after a barge-in,
  \<open>cleanup_downstream_tasks\<close> of \<open>history_sync.py\<close>. The state joins the turn-taking state (theory
  \<open>Interruption\<close>), the staged responses and the history (\<open>History_Sync\<close>), the mark ledger (\<open>Marks\<close>)
  and the input handler (\<open>Playback\<close>) with the flags and ledgers of the loop itself.

  One packet of the output queue is the record \<open>out_message\<close>: the keys of its metadata the loop
  reads, and of its data whether it is audio bytes and whether it is the null end-of-stream byte.
  \<open>cl_handled\<close> is what reached the output handler. One pass of the inner decision loop is
  \<open>output_try\<close>; the loop itself is \<open>output_poll\<close>, over the readings of the clock, the length of the
  turn history and the language gate at each pass. What follows a sent packet (recording, pacing)
  is not modelled. An asyncio task is a flag that says whether it is running.
\<close>

section \<open>State\<close>

record out_message =
  om_sequence :: "int option"
  om_category :: string
  om_end_of_llm_stream :: bool
  om_end_of_synthesizer_stream :: bool
  om_is_bytes :: bool
  om_is_null :: bool

record blocked_event =
  be_sequence :: int
  be_ts_ms :: rat
  be_audio_playing :: bool
  be_response_in_pipeline :: bool

record call_state =
  cl_im :: interruption_manager
  cl_staging :: staging
  cl_ledger :: mark_ledger
  cl_input :: input_handler
  cl_hint :: "string option"
  cl_queue :: "out_message list"
  cl_handled :: "out_message list"
  cl_response_in_pipeline :: bool
  cl_awaiting_first_audio :: bool
  cl_turn_audio_flushed :: bool
  cl_asked_if_still_there :: bool
  cl_agent_end :: "(int \<times> rat) list"
  cl_blocked_events :: "blocked_event list"
  cl_first_response_delivered :: bool
  cl_llm_running :: bool
  cl_eager_running :: bool
  cl_first_message_running :: bool
  cl_synthesizers_running :: bool
  cl_output_running :: bool
  cl_regen_armed :: bool
  cl_last_transmitted :: rat

definition STUCK_AUDIO_GATE_RELEASE_S :: rat where
  "STUCK_AUDIO_GATE_RELEASE_S = 3"

definition NON_NODE_RESPONSE_CATEGORIES :: "string list" where
  "NON_NODE_RESPONSE_CATEGORIES =
     [''is_user_online_message'', ''filler'', ''backchanneling'', ''agent_welcome_message'', ''handoff'']"

section \<open>Observers and queueing\<close>

definition final_chunk_played_observer :: "rat \<Rightarrow> call_state \<Rightarrow> call_state" where
  "final_chunk_played_observer now s =
     (let s1 = s\<lparr>cl_last_transmitted := now\<rparr>
      in case (in_last_final_sequence (cl_input s1), in_last_final_ts (cl_input s1)) of
           (Some q, Some ts) \<Rightarrow> s1\<lparr>cl_im := on_agent_audio_fully_played q ts (cl_im s1)\<rparr>
         | _ \<Rightarrow> s1)"

text \<open>The first and final flags \<open>enqueue_chunk\<close> puts on chunk \<open>i\<close> of \<open>n\<close>.\<close>

definition enqueue_flags :: "nat \<Rightarrow> nat \<Rightarrow> bool \<Rightarrow> int \<Rightarrow> bool \<Rightarrow> string \<Rightarrow> bool \<times> bool" where
  "enqueue_flags i n is_first_chunk sequence end_of_synth category =
     (let first = (i = 0 \<and> is_first_chunk);
          is_last = (i + 1 = n \<and> (sequence = -1 \<or> end_of_synth));
          first' = (first \<and> \<not> is_last)
      in if category \<in> {''agent_welcome_message'', ''handoff''} then (True, True) else (first', is_last))"

text \<open>Whether \<open>synthesize\<close> forwards a text turn, and the flags it leaves.\<close>

definition synthesize_admits :: "bool \<Rightarrow> bool \<Rightarrow> int \<Rightarrow> call_state \<Rightarrow> bool" where
  "synthesize_admits conversation_ended is_first_message sequence s =
     (\<not> conversation_ended \<and> (is_first_message \<or> is_valid_sequence sequence (cl_im s)))"

definition synthesize_flags :: "bool \<Rightarrow> bool \<Rightarrow> int \<Rightarrow> call_state \<Rightarrow> call_state" where
  "synthesize_flags conversation_ended is_first_message sequence s =
     (if synthesize_admits conversation_ended is_first_message sequence s
      then (if sequence \<noteq> -1 then s\<lparr>cl_awaiting_first_audio := True\<rparr> else s)
      else s\<lparr>cl_response_in_pipeline := False, cl_awaiting_first_audio := False\<rparr>)"

section \<open>The decision loop\<close>

definition gate_status :: "rat \<Rightarrow> nat \<Rightarrow> bool \<Rightarrow> out_message \<Rightarrow> interruption_manager \<Rightarrow> send_status" where
  "gate_status now history_length gate_holds m im =
     (let is_hangup = (om_category m = ''agent_hangup'');
          status = (if is_hangup then SEND
                    else case om_sequence m of
                           None \<Rightarrow> BLOCK
                         | Some q \<Rightarrow> get_audio_send_status now q history_length im)
      in if status = SEND \<and> \<not> is_hangup \<and> gate_holds then WAIT else status)"

definition send_message :: "rat \<Rightarrow> out_message \<Rightarrow> call_state \<Rightarrow> call_state" where
  "send_message now m s =
     (let g = (case om_sequence m of
                 None \<Rightarrow> cl_staging s
               | Some q \<Rightarrow> (cl_staging s)\<lparr>sg_sent := insert q (sg_sent (cl_staging s))\<rparr>);
          s1 = s\<lparr>cl_staging := commit_staged_assistant_history (om_sequence m) g,
                 cl_input := update_is_audio_being_played now True (cl_input s),
                 cl_response_in_pipeline := False, cl_awaiting_first_audio := False,
                 cl_handled := cl_handled s @ [m]\<rparr>
      in case om_sequence m of
           None \<Rightarrow> s1
         | Some q \<Rightarrow> if q \<noteq> -1 \<and> om_is_bytes m
                     then s1\<lparr>cl_im := on_agent_speech_started now q (cl_im s1)\<rparr> else s1)"

definition ends_stream :: "out_message \<Rightarrow> bool" where
  "ends_stream m = (om_end_of_llm_stream m \<or> om_end_of_synthesizer_stream m)"

definition block_message :: "rat \<Rightarrow> rat \<Rightarrow> out_message \<Rightarrow> call_state \<Rightarrow> call_state" where
  "block_message now call_start_ms m s =
     (let g = cl_staging s;
          s1 = (case om_sequence m of
                  None \<Rightarrow> s
                | Some q \<Rightarrow>
                    (if q \<in> sg_blocked g then s
                     else s\<lparr>cl_staging := g\<lparr>sg_blocked := insert q (sg_blocked g)\<rparr>,
                            cl_blocked_events := cl_blocked_events s @
                              [\<lparr>be_sequence = q, be_ts_ms = py_round 2 (now * 1000 - call_start_ms),
                                be_audio_playing = in_playing (cl_input s),
                                be_response_in_pipeline = cl_response_in_pipeline s\<rparr>]\<rparr>));
          s2 = s1\<lparr>cl_staging := drop_staged_assistant_history (om_sequence m) (cl_staging s1)\<rparr>;
          s3 = (if om_is_null m then s2\<lparr>cl_handled := cl_handled s2 @ [m]\<rparr> else s2)
      in if ends_stream m
         then s3\<lparr>cl_turn_audio_flushed := True, cl_response_in_pipeline := False,
                 cl_awaiting_first_audio := False\<rparr>
         else s3)"

text \<open>After the inner loop, for a packet that was sent.\<close>

definition after_send :: "rat \<Rightarrow> rat \<Rightarrow> bool \<Rightarrow> out_message \<Rightarrow> call_state \<Rightarrow> call_state" where
  "after_send now call_start_ms is_graph m s =
     (if \<not> ends_stream m then s
      else let s1 = s\<lparr>cl_turn_audio_flushed := True\<rparr>;
               s2 = (if om_end_of_synthesizer_stream m
                     then s1\<lparr>cl_agent_end :=
                               (case om_sequence m of
                                  None \<Rightarrow> cl_agent_end s1
                                | Some q \<Rightarrow> AList.update q (py_round 2 (now * 1000 - call_start_ms))
                                              (cl_agent_end s1)),
                             cl_im := on_agent_speech_ended now
                                        (on_successful_response_delivered (om_sequence m) (cl_im s1)),
                             cl_first_response_delivered :=
                               (cl_first_response_delivered s1 \<or>
                                is_graph \<and> om_category m \<notin> set NON_NODE_RESPONSE_CATEGORIES)\<rparr>
                     else s1)
           in if om_category m \<noteq> ''is_user_online_message''
              then s2\<lparr>cl_asked_if_still_there := False\<rparr> else s2)"

datatype attempt = Sent | Blocked | Held | Released

definition output_try ::
  "rat \<Rightarrow> nat \<Rightarrow> bool \<Rightarrow> rat \<Rightarrow> bool \<Rightarrow> out_message \<Rightarrow> call_state \<Rightarrow> attempt \<times> call_state" where
  "output_try now history_length gate_holds call_start_ms is_graph m s =
     (case gate_status now history_length gate_holds m (cl_im s) of
        SEND \<Rightarrow> (Sent, after_send now call_start_ms is_graph m (send_message now m s))
      | BLOCK \<Rightarrow> (Blocked, block_message now call_start_ms m s)
      | WAIT \<Rightarrow>
          (if STUCK_AUDIO_GATE_RELEASE_S < user_speech_staleness_s now (cl_im s)
           then (Released, s\<lparr>cl_im := on_user_speech_ended now False 0 None (cl_im s)\<rparr>)
           else (Held, s)))"

text \<open>The readings of one pass: clock, length of the turn history, whether the gate holds.\<close>

type_synonym reading = "rat \<times> nat \<times> bool"

fun output_poll ::
  "reading list \<Rightarrow> rat \<Rightarrow> bool \<Rightarrow> out_message \<Rightarrow> call_state \<Rightarrow> attempt \<times> call_state" where
  "output_poll [] cs is_graph m s = (Held, s)"
| "output_poll ((now, len, holds) # rs) cs is_graph m s =
     (case output_try now len holds cs is_graph m s of
        (Sent, s') \<Rightarrow> (Sent, s')
      | (Blocked, s') \<Rightarrow> (Blocked, s')
      | (_, s') \<Rightarrow> output_poll rs cs is_graph m s')"

section \<open>Draining playout\<close>

text \<open>
  One pass of \<open>wait_for_current_message\<close>: \<open>None\<close> when it stops, else how long it may wait for the
  next mark. A type or a text the mark does not carry is \<open>None\<close> and the empty string.
\<close>

definition drain_wait :: "rat \<Rightarrow> rat \<Rightarrow> rat \<Rightarrow> bool \<Rightarrow> mark_ledger \<Rightarrow> rat option" where
  "drain_wait now entry_time mark_timeout conversation_ended l =
     (let ms = map (\<lambda>(k, r). ledger_heap l ! r) (ledger_live l)
      in if conversation_ended \<or> ms = [] then None
         else if length ms = 1 \<and> is_pre_mark (hd ms) then None
         else if length ms = 2 \<and> mk_type (hd ms) = Some ''agent_hangup'' \<and>
                 mk_text_synthesized (hd ms) = [] \<and> is_pre_mark (ms ! 1) then None
         else if mk_text_synthesized (hd ms) \<noteq> [] \<and> mk_is_final_chunk (hd ms) then None
         else let durations = map (\<lambda>m. or_zero (mk_duration m))
                    (filter (\<lambda>m. \<not> is_pre_mark m \<and> or_zero (mk_sent_ts m) \<noteq> 0) ms);
                  remaining = entry_time + sum_list durations + mark_timeout - now
              in if remaining \<le> 0 then None else Some remaining)"

section \<open>Cleanup after a barge-in\<close>

text \<open>
  \<open>clear_ok\<close> says whether the carrier took the clear message: the output handler clears the ledger
  only then. The recreated output loop is \<open>cl_output_running\<close>.
\<close>

definition cleanup_downstream_tasks ::
  "rat \<Rightarrow> bool \<Rightarrow> (int \<times> string) list \<Rightarrow> call_state \<Rightarrow> call_state" where
  "cleanup_downstream_tasks now clear_ok turn_text s =
     (let l = (if clear_ok then clear_data (cl_ledger s) else cl_ledger s);
          i = (if in_welcome_played (cl_input s) then cl_input s
               else set_welcome_message_played True (cl_input s));
          y = sync_history (fetch_cleared_mark_event_data l) now False
                \<lparr>ss_history = sg_history (cl_staging s), ss_ledger = l, ss_input = i,
                 ss_turn_text = turn_text, ss_turn_row = None, ss_hint = cl_hint s\<rparr>;
          g = (cl_staging s)\<lparr>sg_history := ss_history y,
                 sg_turn_rows := (case ss_turn_row y of
                                    Some (Some t, k) \<Rightarrow> AList.update t k (sg_turn_rows (cl_staging s))
                                  | _ \<Rightarrow> sg_turn_rows (cl_staging s))\<rparr>
      in s\<lparr>cl_regen_armed := False,
           cl_ledger := drop_playout_estimate l,
           cl_input := reset_response_heard_by_user i,
           cl_hint := ss_hint y,
           cl_im := invalidate_pending_responses (cl_im s),
           cl_staging := drop_all_staged_assistant_history [] g,
           cl_response_in_pipeline := False, cl_awaiting_first_audio := False,
           cl_llm_running := False, cl_eager_running := False, cl_first_message_running := False,
           cl_synthesizers_running := False, cl_queue := [], cl_turn_audio_flushed := True,
           cl_output_running := True, cl_last_transmitted := now\<rparr>)"

section \<open>Properties\<close>

text \<open>What committing, dropping and the flags of the loop leave alone.\<close>

lemma commit_history:
  "sg_history (commit_staged_assistant_history (Some q) g) =
     (if q \<in> sg_committed g then sg_history g
      else case map_of (sg_pending g) q of
             None \<Rightarrow> sg_history g
           | Some e \<Rightarrow> append_assistant (Some (stg_content e)) None (stg_turn_id e)
                         (stg_response_uid e) (stg_category e) False (sg_history g))"
  by (simp add: commit_staged_assistant_history_def Let_def split: option.splits)

lemma commit_none [simp]: "commit_staged_assistant_history None g = g"
  by (simp add: commit_staged_assistant_history_def)

lemma commit_frame [simp]:
  "sg_sent (commit_staged_assistant_history q g) = sg_sent g"
  "sg_blocked (commit_staged_assistant_history q g) = sg_blocked g"
  by (simp_all add: commit_staged_assistant_history_def Let_def split: option.splits)

lemma drop_frame [simp]:
  "sg_history (drop_staged_assistant_history q g) = sg_history g"
  "sg_committed (drop_staged_assistant_history q g) = sg_committed g"
  "sg_sent (drop_staged_assistant_history q g) = sg_sent g"
  "sg_blocked (drop_staged_assistant_history q g) = sg_blocked g"
  by (simp_all add: drop_staged_assistant_history_def split: option.splits)

lemma drop_fold:
  "sg_history (foldl (\<lambda>g q. drop_staged_assistant_history (Some q) g) g qs) = sg_history g"
  "sg_committed (foldl (\<lambda>g q. drop_staged_assistant_history (Some q) g) g qs) = sg_committed g"
  "sg_sent (foldl (\<lambda>g q. drop_staged_assistant_history (Some q) g) g qs) = sg_sent g"
  "map_of (sg_pending (foldl (\<lambda>g q. drop_staged_assistant_history (Some q) g) g qs)) k =
     (if k \<in> set qs then None else map_of (sg_pending g) k)"
  by (induction qs arbitrary: g) (auto simp: drop_staged_assistant_history_def dict_simps)

lemma drop_all_frame [simp]:
  "sg_history (drop_all_staged_assistant_history keep g) = sg_history g"
  "sg_committed (drop_all_staged_assistant_history keep g) = sg_committed g"
  "sg_sent (drop_all_staged_assistant_history keep g) = sg_sent g"
  by (simp_all add: drop_all_staged_assistant_history_def drop_fold)

lemma drop_all_pending:
  "map_of (sg_pending (drop_all_staged_assistant_history keep g)) k =
     (if k \<in> set keep then map_of (sg_pending g) k else None)"
  by (auto simp: drop_all_staged_assistant_history_def drop_fold map_of_eq_None_iff image_iff)

lemma block_frame [simp]:
  "sg_history (cl_staging (block_message now cs m s)) = sg_history (cl_staging s)"
  "sg_committed (cl_staging (block_message now cs m s)) = sg_committed (cl_staging s)"
  "sg_sent (cl_staging (block_message now cs m s)) = sg_sent (cl_staging s)"
  "cl_im (block_message now cs m s) = cl_im s"
  by (simp_all add: block_message_def Let_def split: option.splits)

lemma after_send_frame [simp]: "cl_staging (after_send now cs g m s) = cl_staging s"
  by (simp add: after_send_def Let_def)

lemma send_staging:
  "cl_staging (send_message now m s) =
     commit_staged_assistant_history (om_sequence m)
       (case om_sequence m of None \<Rightarrow> cl_staging s
        | Some q \<Rightarrow> (cl_staging s)\<lparr>sg_sent := insert q (sg_sent (cl_staging s))\<rparr>)"
  by (simp add: send_message_def Let_def split: option.splits)


section \<open>Runs of a call\<close>

inductive call_step :: "call_state \<Rightarrow> call_state \<Rightarrow> bool" where
  attempted: "output_try now len holds cs is_graph m s = (a, t) \<Longrightarrow> call_step s t"
| staged_response: "call_step s (s\<lparr>cl_staging := stage_assistant_history q e (cl_staging s)\<rparr>)"
| dropped_response: "call_step s (s\<lparr>cl_staging := drop_staged_assistant_history q (cl_staging s)\<rparr>)"
| turn_taking: "call_step s (s\<lparr>cl_im := im_step now c (cl_im s)\<rparr>)"
| cleaned: "call_step s (cleanup_downstream_tasks now ok txts s)"
| synthesized: "call_step s (synthesize_flags ended first_msg q s)"
| observed: "call_step s (final_chunk_played_observer now s)"

inductive_cases call_step_cases: "call_step s t"

definition call_reachable :: "call_state \<Rightarrow> bool" where
  "call_reachable s \<longleftrightarrow>
     (\<exists>s0. call_step\<^sup>*\<^sup>* s0 s \<and> sg_committed (cl_staging s0) = {} \<and> sg_pending (cl_staging s0) = [])"

definition disciplined :: "staging \<Rightarrow> bool" where
  "disciplined g \<longleftrightarrow> sg_committed g \<subseteq> sg_sent g"

lemma disciplined_commit:
  "disciplined g \<Longrightarrow> (\<And>p. q = Some p \<Longrightarrow> p \<in> sg_sent g) \<Longrightarrow>
   disciplined (commit_staged_assistant_history q g)"
  by (auto simp: disciplined_def commit_staged_assistant_history_def Let_def split: option.splits)

lemma disciplined_stage: "disciplined g \<Longrightarrow> disciplined (stage_assistant_history q e g)"
  by (auto simp: stage_assistant_history_def Let_def split: option.splits intro!: disciplined_commit)
     (auto simp: disciplined_def)

lemma disciplined_try:
  "disciplined (cl_staging s) \<Longrightarrow> output_try now len holds cs is_graph m s = (a, t) \<Longrightarrow>
   disciplined (cl_staging t)"
  by (auto simp: output_try_def send_staging split: send_status.splits if_splits option.splits
      intro!: disciplined_commit) (auto simp: disciplined_def)

lemma disciplined_cleanup:
  "disciplined (cl_staging s) \<Longrightarrow> disciplined (cl_staging (cleanup_downstream_tasks now ok txts s))"
  by (simp add: cleanup_downstream_tasks_def Let_def disciplined_def)

lemma disciplined_step:
  assumes "disciplined (cl_staging s)" and "call_step s t"
  shows "disciplined (cl_staging t)"
  using assms(2,1)
proof (induction rule: call_step.induct)
  case (attempted now len holds cs is_graph m s a t)
  then show ?case using disciplined_try by blast
next
  case (observed s now)
  then show ?case by (auto simp: final_chunk_played_observer_def Let_def split: option.splits)
qed (simp_all add: disciplined_stage disciplined_cleanup synthesize_flags_def, simp_all add: disciplined_def)

text \<open>
  C7: In every state a call reaches, each sequence whose response was committed to
  the history had its audio approved and sent; a response staged but blocked or still pending is
  never part of it.
\<close>

theorem committed_was_sent:
  assumes "call_reachable s"
  shows "sg_committed (cl_staging s) \<subseteq> sg_sent (cl_staging s)"
proof -
  from assms obtain s0 where run: "call_step\<^sup>*\<^sup>* s0 s" and "disciplined (cl_staging s0)"
    unfolding call_reachable_def by (auto simp: disciplined_def)
  from run this have "disciplined (cl_staging s)"
    by (induction rule: rtranclp_induct) (auto intro: disciplined_step)
  then show ?thesis by (simp add: disciplined_def)
qed

definition idle_call :: call_state where
  "idle_call =
     \<lparr>cl_im = snd (get_next_sequence_id (im_init 3 [] 900 0 0)),
      cl_staging = \<lparr>sg_history = \<lparr>messages = [], interim = []\<rparr>, sg_pending = [],
                    sg_committed = {}, sg_sent = {}, sg_blocked = {}, sg_turn_rows = []\<rparr>,
      cl_ledger = ledger_init, cl_input = input_init 0 True None None, cl_hint = None,
      cl_queue = [], cl_handled = [], cl_response_in_pipeline = False,
      cl_awaiting_first_audio = False, cl_turn_audio_flushed = False,
      cl_asked_if_still_there = False, cl_agent_end = [], cl_blocked_events = [],
      cl_first_response_delivered = False, cl_llm_running = False, cl_eager_running = False,
      cl_first_message_running = False, cl_synthesizers_running = False, cl_output_running = True,
      cl_regen_armed = False, cl_last_transmitted = 0\<rparr>"

definition sample_staged :: staged where
  "sample_staged = \<lparr>stg_content = ''hello'', stg_turn_id = Some 1, stg_response_uid = Some ''r1'',
                     stg_category = None\<rparr>"

definition sample_packet :: out_message where
  "sample_packet = \<lparr>om_sequence = Some 1, om_category = [], om_end_of_llm_stream = False,
     om_end_of_synthesizer_stream = True, om_is_bytes = True, om_is_null = False\<rparr>"

definition staged_call :: call_state where
  "staged_call = idle_call\<lparr>cl_staging := stage_assistant_history (Some 1) sample_staged (cl_staging idle_call)\<rparr>"

definition sent_call :: call_state where
  "sent_call = snd (output_try 10 0 False 0 False sample_packet staged_call)"

lemma sent_call_reachable: "call_reachable sent_call"
proof -
  have "call_step idle_call staged_call" unfolding staged_call_def by (rule staged_response)
  moreover have "call_step staged_call sent_call" unfolding sent_call_def
    by (rule attempted [of 10 0 False 0 False sample_packet staged_call "fst (output_try 10 0 False 0 False sample_packet staged_call)"]) simp
  ultimately have "call_step\<^sup>*\<^sup>* idle_call sent_call" by simp
  then show ?thesis
    unfolding call_reachable_def by (intro exI [of _ idle_call]) (simp add: idle_call_def)
qed

theorem committed_was_sent_witness:
  "sg_committed (cl_staging sent_call) = {1} \<and> 1 \<in> sg_sent (cl_staging sent_call)"
proof -
  have "sg_committed (cl_staging sent_call) = {1}" by code_simp
  with committed_was_sent [OF sent_call_reachable] show ?thesis by blast
qed


lemma gate_blocks:
  "om_sequence m = Some q \<Longrightarrow> om_category m \<noteq> ''agent_hangup'' \<Longrightarrow> q \<notin> sequence_ids im \<Longrightarrow>
   gate_status now len holds m im = BLOCK"
  by (simp add: gate_status_def get_audio_send_status_def)

lemma blocked_poll:
  assumes "om_sequence m = Some q" "om_category m \<noteq> ''agent_hangup''" "q \<notin> sequence_ids (cl_im s)"
  shows "output_poll ((now, len, holds) # rs) cs is_graph m s = (Blocked, block_message now cs m s)"
  using gate_blocks [OF assms] by (simp add: output_try_def)

lemma cleanup_speech:
  "filter speech_row (messages (sg_history (cl_staging (cleanup_downstream_tasks now ok txts s)))) =
   filter speech_row (messages (sg_history (cl_staging s)))"
proof -
  have "filter speech_row (messages (ss_history (sync_history marks now False y))) =
      filter speech_row (messages (ss_history y))" for marks y
    using sound_sync_history [of y marks now False] by (simp add: sound_conv_def sound_def)
  then show ?thesis by (simp add: cleanup_downstream_tasks_def Let_def)
qed

lemma empty_map_of: "(\<And>k. map_of xs k = None) \<Longrightarrow> xs = []"
  by (cases xs) (auto, metis option.distinct(1))

text \<open>
  After a barge-in (the interruption followed by the cleanup) nothing of the old
  response survives: only the background sequence is live, no response is staged, the queue is
  empty, the playout estimate is zero, nothing is marked in the pipeline, user and system rows of
  the history are kept; and a packet of any older sequence that still arrives, except a goodbye,
  is blocked whenever it is tried, leaving the history as it was.
\<close>

theorem barge_in_discards:
  assumes "om_sequence m = Some q" "q \<noteq> -1" "om_category m \<noteq> ''agent_hangup''"
  shows "let s1 = cleanup_downstream_tasks now ok txts
                    (s\<lparr>cl_im := on_interruption_triggered now asr (cl_im s)\<rparr>);
             (a, s2) = output_poll ((later, len, holds) # rs) cs is_graph m s1 in
     sequence_ids (cl_im s1) = {-1} \<and> sg_pending (cl_staging s1) = [] \<and> cl_queue s1 = [] \<and>
     audio_playing_until (cl_ledger s1) = 0 \<and> \<not> cl_response_in_pipeline s1 \<and>
     filter speech_row (messages (sg_history (cl_staging s1))) =
       filter speech_row (messages (sg_history (cl_staging s))) \<and>
     a = Blocked \<and> sg_history (cl_staging s2) = sg_history (cl_staging s1)"
proof -
  define s1 where "s1 = cleanup_downstream_tasks now ok txts
                    (s\<lparr>cl_im := on_interruption_triggered now asr (cl_im s)\<rparr>)"
  have ids: "sequence_ids (cl_im s1) = {-1}"
    by (simp add: s1_def cleanup_downstream_tasks_def Let_def invalidate_pending_responses_def)
  have "map_of (sg_pending (cl_staging s1)) k = None" for k
    by (simp add: s1_def cleanup_downstream_tasks_def Let_def drop_all_pending)
  then have pending: "sg_pending (cl_staging s1) = []" by (rule empty_map_of)
  have rest: "cl_queue s1 = []" "audio_playing_until (cl_ledger s1) = 0" "\<not> cl_response_in_pipeline s1"
    by (simp_all add: s1_def cleanup_downstream_tasks_def Let_def drop_playout_estimate_def)
  have speech: "filter speech_row (messages (sg_history (cl_staging s1))) =
      filter speech_row (messages (sg_history (cl_staging s)))"
    by (simp add: s1_def cleanup_speech)
  have "q \<notin> sequence_ids (cl_im s1)" using ids assms(2) by simp
  from blocked_poll [OF assms(1,3) this] have
    "output_poll ((later, len, holds) # rs) cs is_graph m s1 = (Blocked, block_message later cs m s1)" .
  with ids pending rest speech show ?thesis
    unfolding s1_def [symmetric] Let_def by simp
qed

theorem barge_in_discards_witness:
  "fst (output_poll [(12, 0, False)] 0 False sample_packet
     (cleanup_downstream_tasks 11 True []
       (staged_call\<lparr>cl_im := on_interruption_triggered 11 None (cl_im staged_call)\<rparr>))) = Blocked"
  using barge_in_discards [where m = sample_packet and q = 1 and now = 11 and ok = True and txts = "[]"
    and s = staged_call and asr = None and later = 12 and len = 0 and holds = False and rs = "[]"
    and cs = 0 and is_graph = False]
  by (simp add: sample_packet_def Let_def split_beta)

text \<open>
  C8: A caller flagged as speaking cannot hold the agent's audio for ever: when the
  flag has gone without an interim transcript for more than three seconds, the next pass releases
  it, and the pass after that sends the packet, provided its sequence is live, the language gate
  is open, the backoff after the last interruption and the grace period after the last utterance
  have passed.
\<close>

theorem stuck_gate_released:
  assumes "om_sequence m = Some q" "om_category m \<noteq> ''agent_hangup''" "q \<in> sequence_ids (cl_im s)"
    and "callee_speaking (cl_im s)" "STUCK_AUDIO_GATE_RELEASE_S < user_speech_staleness_s now (cl_im s)"
    and "\<forall>ts. last_interruption_ts_ms (cl_im s) = Some ts \<longrightarrow>
           interruption_backoff_period (cl_im s) \<le> now' * 1000 - ts"
    and "utterance_end_time (cl_im s) = -1 \<or>
         incremental_delay (cl_im s) \<le> now' * 1000 - utterance_end_time (cl_im s)"
  shows "fst (output_poll [(now, len, holds), (now', len', False)] cs is_graph m s) = Sent"
proof -
  define im' where "im' = on_user_speech_ended now False 0 None (cl_im s)"
  have same: "sequence_ids im' = sequence_ids (cl_im s)" "\<not> callee_speaking im'"
    "last_interruption_ts_ms im' = last_interruption_ts_ms (cl_im s)"
    "interruption_backoff_period im' = interruption_backoff_period (cl_im s)"
    "utterance_end_time im' = utterance_end_time (cl_im s)"
    "incremental_delay im' = incremental_delay (cl_im s)"
    by (simp_all add: im'_def on_user_speech_ended_def Let_def split: option.splits)
  have "gate_status now len holds m (cl_im s) = WAIT"
    using assms(1-4) by (simp add: gate_status_def get_audio_send_status_def)
  then have one: "output_try now len holds cs is_graph m s = (Released, s\<lparr>cl_im := im'\<rparr>)"
    using assms(5) by (simp add: output_try_def im'_def)
  have "get_audio_send_status now' q len' im' = SEND"
    using assms(3,6,7) same
    by (auto simp: get_audio_send_status_def get_time_since_utterance_end_def not_less
        split: option.splits)
  then have "gate_status now' len' False m im' = SEND"
    using assms(1,2) by (simp add: gate_status_def)
  then obtain t where "output_try now' len' False cs is_graph m (s\<lparr>cl_im := im'\<rparr>) = (Sent, t)"
    by (simp add: output_try_def)
  then show ?thesis by (simp add: one)
qed

definition stuck_call :: call_state where
  "stuck_call = staged_call\<lparr>cl_im := on_user_speech_started 10 (cl_im staged_call)\<rparr>"

theorem stuck_gate_released_witness:
  "fst (output_poll [(12, 0, False), (13, 0, False)] 0 False sample_packet stuck_call) = Held \<and>
   fst (output_poll [(14, 0, False), (15, 0, False)] 0 False sample_packet stuck_call) = Sent"
proof
  show "fst (output_poll [(12, 0, False), (13, 0, False)] 0 False sample_packet stuck_call) = Held"
    by code_simp
  have im: "cl_im stuck_call = on_user_speech_started 10 (snd (get_next_sequence_id (im_init 3 [] 900 0 0)))"
    by (simp add: stuck_call_def staged_call_def idle_call_def)
  show "fst (output_poll [(14, 0, False), (15, 0, False)] 0 False sample_packet stuck_call) = Sent"
    by (rule stuck_gate_released [of _ 1])
       (simp_all add: im sample_packet_def im_init_def get_next_sequence_id_def Let_def
         on_user_speech_started_def user_speech_staleness_s_def STUCK_AUDIO_GATE_RELEASE_S_def)
qed

end
