(* ===== verification/Repository.thy ===== *)
theory Repository
  imports Prelude
begin

text \<open>
  Persistence, from \<open>voiceai/database/repository.py\<close>, \<open>database/scoped.py\<close>, \<open>database/base.py\<close> and
  \<open>common/pagination.py\<close>: the repository contract \<open>BaseRepository\<close>, the in-memory backend
  \<open>InMemoryRepository\<close>, the page walker, and the tenant view \<open>TenantScopedRepository\<close>.

  A repository is the record of its operations over a state type, so that the tenant view wraps any
  backend, as in the code. The contract is the locale \<open>repository\<close>: its clients (the page walker,
  idempotent deletes) are proved once inside it. The in-memory backend and the tenant view of any
  backend are its interpretations. The Motor backend is a driver call per operation and is not
  modelled.

  A document is the record of the audit fields of \<open>BaseFields\<close> and the fields of the model type,
  \<open>doc_fields\<close>. Every stored row was written by the repository, so it validates. Reading the clock
  and drawing a fresh id are arguments. Time stamps are not filter fields.
\<close>

section \<open>Documents\<close>

record document =
  doc_id :: "string option"
  doc_tenant_id :: "string option"
  doc_created_at :: rat
  doc_updated_at :: rat
  doc_created_by :: "string option"
  doc_updated_by :: "string option"
  doc_is_active :: bool
  doc_meta :: pydict
  doc_fields :: pydict

definition touch :: "rat \<Rightarrow> string option \<Rightarrow> document \<Rightarrow> document" where
  "touch now user d =
     (let d1 = d\<lparr>doc_updated_at := now\<rparr>
      in case user of None \<Rightarrow> d1 | Some u \<Rightarrow> d1\<lparr>doc_updated_by := Some u\<rparr>)"

definition opt_str :: "string option \<Rightarrow> pyval" where
  "opt_str x = (case x of None \<Rightarrow> PNone | Some s \<Rightarrow> PStr s)"

text \<open>\<open>getattr(model, field, None)\<close>.\<close>

definition doc_attr :: "string \<Rightarrow> document \<Rightarrow> pyval" where
  "doc_attr f d =
     (if f = ''id'' then opt_str (doc_id d)
      else if f = ''tenant_id'' then opt_str (doc_tenant_id d)
      else if f = ''created_by'' then opt_str (doc_created_by d)
      else if f = ''updated_by'' then opt_str (doc_updated_by d)
      else if f = ''is_active'' then PBool (doc_is_active d)
      else if f = ''meta'' then PDict (doc_meta d)
      else dict_get (doc_fields d) f)"

definition doc_matches :: "pydict \<Rightarrow> document \<Rightarrow> bool" where
  "doc_matches filters d = list_all (\<lambda>(f, v). py_eq (doc_attr f d) v) filters"

section \<open>Pagination\<close>

definition MIN_PAGE :: nat where "MIN_PAGE = 1"
definition MAX_PAGE_SIZE :: nat where "MAX_PAGE_SIZE = 100"

record pagination_params =
  pp_page :: nat
  pp_page_size :: nat

record 'a page =
  pg_items :: "'a list"
  pg_total :: nat
  pg_page :: nat
  pg_page_size :: nat

definition skip :: "pagination_params \<Rightarrow> nat" where
  "skip p = (pp_page p - MIN_PAGE) * pp_page_size p"

definition pages :: "'a page \<Rightarrow> nat" where
  "pages p = (if pg_page_size p = 0 then 0
              else nat \<lceil>(of_nat (pg_total p) :: rat) / of_nat (pg_page_size p)\<rceil>)"

definition has_next :: "'a page \<Rightarrow> bool" where
  "has_next p = (pg_page p < pages p)"

definition paginate :: "'a list \<Rightarrow> nat \<Rightarrow> pagination_params \<Rightarrow> 'a page" where
  "paginate items matches p =
     \<lparr>pg_items = items, pg_total = matches, pg_page = pp_page p, pg_page_size = pp_page_size p\<rparr>"

definition window :: "pagination_params \<Rightarrow> 'a list \<Rightarrow> 'a list" where
  "window p xs = take (pp_page_size p) (drop (skip p) xs)"

definition bounded :: "int \<Rightarrow> nat" where
  "bounded limit = nat (max 0 (min limit (int MAX_PAGE_SIZE)))"

section \<open>Operations\<close>

datatype repo_error =
    NotFoundError "string option"
  | TenantNotBoundError

record 's repo_ops =
  op_insert :: "string \<Rightarrow> document \<Rightarrow> 's \<Rightarrow> document \<times> 's"
  op_get :: "string \<Rightarrow> 's \<Rightarrow> document option"
  op_list_where :: "pydict \<Rightarrow> pagination_params \<Rightarrow> 's \<Rightarrow> document page"
  op_update :: "rat \<Rightarrow> document \<Rightarrow> 's \<Rightarrow> repo_error + document \<times> 's"
  op_soft_delete :: "rat \<Rightarrow> string \<Rightarrow> string option \<Rightarrow> 's \<Rightarrow> repo_error + bool \<times> 's"
  op_find_one :: "string \<Rightarrow> pyval \<Rightarrow> 's \<Rightarrow> document option"
  op_find_many :: "string \<Rightarrow> pyval \<Rightarrow> int \<Rightarrow> 's \<Rightarrow> document list"
  op_raw_documents :: "'s \<Rightarrow> document list"

text \<open>The in-memory backend: an insertion-ordered dict from ids to documents.\<close>

type_synonym collection = "(string \<times> document) list"

definition active_models :: "collection \<Rightarrow> document list" where
  "active_models c = filter doc_is_active (map snd c)"

definition mem_insert :: "string \<Rightarrow> document \<Rightarrow> collection \<Rightarrow> document \<times> collection" where
  "mem_insert fresh d c =
     (let stored = (if \<not> truthy_str (doc_id d) then d\<lparr>doc_id := Some fresh\<rparr> else d)
      in (stored, AList.update (or_empty (doc_id stored)) stored c))"

definition mem_get :: "string \<Rightarrow> collection \<Rightarrow> document option" where
  "mem_get i c =
     (case map_of c i of None \<Rightarrow> None | Some d \<Rightarrow> if doc_is_active d then Some d else None)"

definition mem_list_where :: "pydict \<Rightarrow> pagination_params \<Rightarrow> collection \<Rightarrow> document page" where
  "mem_list_where filters p c =
     (let matched = filter (doc_matches filters) (active_models c)
      in paginate (window p matched) (length matched) p)"

definition mem_update :: "rat \<Rightarrow> document \<Rightarrow> collection \<Rightarrow> repo_error + document \<times> collection" where
  "mem_update now d c =
     (case (if truthy_str (doc_id d) then map_of c (or_empty (doc_id d)) else None) of
        None \<Rightarrow> Inl (NotFoundError (doc_id d))
      | Some old \<Rightarrow>
          (if \<not> doc_is_active old then Inl (NotFoundError (doc_id d))
           else let stored = touch now None d
             in Inr (stored, AList.update (or_empty (doc_id d)) stored c)))"

definition mem_soft_delete ::
  "rat \<Rightarrow> string \<Rightarrow> string option \<Rightarrow> collection \<Rightarrow> repo_error + bool \<times> collection" where
  "mem_soft_delete now i user c =
     (case map_of c i of
        None \<Rightarrow> Inr (False, c)
      | Some d \<Rightarrow>
          (if \<not> doc_is_active d then Inr (False, c)
           else Inr (True, AList.update i (touch now user (d\<lparr>doc_is_active := False\<rparr>)) c)))"

definition mem_find_one :: "string \<Rightarrow> pyval \<Rightarrow> collection \<Rightarrow> document option" where
  "mem_find_one f v c = find (doc_matches [(f, v)]) (active_models c)"

definition mem_find_many :: "string \<Rightarrow> pyval \<Rightarrow> int \<Rightarrow> collection \<Rightarrow> document list" where
  "mem_find_many f v limit c = take (bounded limit) (filter (doc_matches [(f, v)]) (active_models c))"

definition mem_raw_documents :: "collection \<Rightarrow> document list" where
  "mem_raw_documents c = filter doc_is_active (map snd c)"

definition mem_ops :: "collection repo_ops" where
  "mem_ops =
     \<lparr>op_insert = mem_insert, op_get = mem_get, op_list_where = mem_list_where,
      op_update = mem_update, op_soft_delete = mem_soft_delete, op_find_one = mem_find_one,
      op_find_many = mem_find_many, op_raw_documents = mem_raw_documents\<rparr>"

text \<open>
  \<open>walk_pages\<close>, over the listing of a fixed filter as a function of the page request. The loop of
  the code has no bound of its own: the model spends one unit of fuel per page.
\<close>

fun walk_pages :: "nat \<Rightarrow> (pagination_params \<Rightarrow> 'a page) \<Rightarrow> nat \<Rightarrow> 'a list option" where
  "walk_pages 0 listing n = None"
| "walk_pages (Suc fuel) listing n =
     (let p = listing \<lparr>pp_page = n, pp_page_size = MAX_PAGE_SIZE\<rparr>
      in if pg_items p = [] \<or> \<not> has_next p then Some (pg_items p)
         else map_option (\<lambda>rest. pg_items p @ rest) (walk_pages fuel listing (n + 1)))"

section \<open>The tenant view\<close>

definition owned :: "string \<Rightarrow> document \<Rightarrow> bool" where
  "owned tenant d = (doc_tenant_id d = Some tenant)"

definition stamped :: "string \<Rightarrow> document \<Rightarrow> document" where
  "stamped tenant d = d\<lparr>doc_tenant_id := Some tenant\<rparr>"

definition require_same_tenant :: "'s repo_ops \<Rightarrow> string \<Rightarrow> string option \<Rightarrow> 's \<Rightarrow> bool" where
  "require_same_tenant inner tenant i s =
     (case op_get inner (or_empty i) s of None \<Rightarrow> False | Some d \<Rightarrow> owned tenant d)"

definition scoped_insert :: "'s repo_ops \<Rightarrow> string \<Rightarrow> string \<Rightarrow> document \<Rightarrow> 's \<Rightarrow> document \<times> 's" where
  "scoped_insert inner tenant fresh d s = op_insert inner fresh (stamped tenant d) s"

definition scoped_get :: "'s repo_ops \<Rightarrow> string \<Rightarrow> string \<Rightarrow> 's \<Rightarrow> document option" where
  "scoped_get inner tenant i s =
     (case op_get inner i s of None \<Rightarrow> None | Some d \<Rightarrow> if owned tenant d then Some d else None)"

definition tenant_clash :: "string \<Rightarrow> pydict \<Rightarrow> bool" where
  "tenant_clash tenant filters =
     (case map_of filters ''tenant_id'' of None \<Rightarrow> False | Some v \<Rightarrow> v \<noteq> PStr tenant)"

definition stamp_filters :: "string \<Rightarrow> pydict \<Rightarrow> pydict" where
  "stamp_filters tenant filters = AList.update ''tenant_id'' (PStr tenant) filters"

definition scoped_list_where ::
  "'s repo_ops \<Rightarrow> string \<Rightarrow> pydict \<Rightarrow> pagination_params \<Rightarrow> 's \<Rightarrow> document page" where
  "scoped_list_where inner tenant filters p s =
     (if tenant_clash tenant filters then paginate [] 0 p
      else let pg = op_list_where inner (stamp_filters tenant filters) p s
        in paginate (filter (\<lambda>d. doc_is_active d \<and> owned tenant d) (pg_items pg)) (pg_total pg) p)"

definition scoped_update ::
  "'s repo_ops \<Rightarrow> string \<Rightarrow> rat \<Rightarrow> document \<Rightarrow> 's \<Rightarrow> repo_error + document \<times> 's" where
  "scoped_update inner tenant now d s =
     (if require_same_tenant inner tenant (doc_id d) s then op_update inner now (stamped tenant d) s
      else Inl (NotFoundError (doc_id d)))"

definition scoped_soft_delete ::
  "'s repo_ops \<Rightarrow> string \<Rightarrow> rat \<Rightarrow> string \<Rightarrow> string option \<Rightarrow> 's \<Rightarrow> repo_error + bool \<times> 's" where
  "scoped_soft_delete inner tenant now i user s =
     (if require_same_tenant inner tenant (Some i) s then op_soft_delete inner now i user s
      else Inl (NotFoundError (Some i)))"

definition scoped_find_one :: "'s repo_ops \<Rightarrow> string \<Rightarrow> string \<Rightarrow> pyval \<Rightarrow> 's \<Rightarrow> document option" where
  "scoped_find_one inner tenant f v s =
     (if f = ''tenant_id'' \<and> v \<noteq> PStr tenant then None
      else if f = ''tenant_id'' then op_find_one inner f v s
      else case op_find_one inner f v s of
             None \<Rightarrow> None
           | Some d \<Rightarrow> if owned tenant d then Some d else None)"

definition scoped_find_many ::
  "'s repo_ops \<Rightarrow> string \<Rightarrow> string \<Rightarrow> pyval \<Rightarrow> int \<Rightarrow> 's \<Rightarrow> document list" where
  "scoped_find_many inner tenant f v limit s =
     (if f = ''tenant_id'' \<and> v \<noteq> PStr tenant then []
      else take (bounded limit)
             (filter (\<lambda>d. doc_is_active d \<and> owned tenant d) (op_find_many inner f v limit s)))"

definition scoped_raw_documents :: "'s repo_ops \<Rightarrow> string \<Rightarrow> 's \<Rightarrow> document list" where
  "scoped_raw_documents inner tenant s =
     filter (\<lambda>d. owned tenant d \<and> doc_is_active d) (op_raw_documents inner s)"

definition scoped_ops :: "'s repo_ops \<Rightarrow> string \<Rightarrow> 's repo_ops" where
  "scoped_ops inner tenant =
     \<lparr>op_insert = scoped_insert inner tenant, op_get = scoped_get inner tenant,
      op_list_where = scoped_list_where inner tenant, op_update = scoped_update inner tenant,
      op_soft_delete = scoped_soft_delete inner tenant, op_find_one = scoped_find_one inner tenant,
      op_find_many = scoped_find_many inner tenant,
      op_raw_documents = scoped_raw_documents inner tenant\<rparr>"

text \<open>Construction: an empty tenant is refused.\<close>

definition tenant_scoped_repository :: "'s repo_ops \<Rightarrow> string \<Rightarrow> repo_error + 's repo_ops" where
  "tenant_scoped_repository inner tenant =
     (if tenant = [] then Inl TenantNotBoundError else Inr (scoped_ops inner tenant))"

section \<open>The contract\<close>

definition with_id :: "string \<Rightarrow> document \<Rightarrow> document" where
  "with_id fresh d = (if \<not> truthy_str (doc_id d) then d\<lparr>doc_id := Some fresh\<rparr> else d)"

definition visible :: "document \<Rightarrow> document option" where
  "visible d = (if doc_is_active d then Some d else None)"

text \<open>
  What a caller may rely on, from the docstrings of \<open>BaseRepository\<close>: \<open>prepare\<close> is what a view does to
  a document before it is stored, \<open>matching\<close> the active documents a filter selects, in the order of
  the listing.
\<close>

locale repository =
  fixes ops :: "'s repo_ops"
    and inv :: "'s \<Rightarrow> bool"
    and matching :: "pydict \<Rightarrow> 's \<Rightarrow> document list"
    and prepare :: "document \<Rightarrow> document"
  assumes prepare_id: "doc_id (prepare d) = doc_id d"
    and insert_stores: "fst (op_insert ops fresh d s) = with_id fresh (prepare d)"
    and insert_inv: "inv s \<Longrightarrow> fresh \<noteq> [] \<Longrightarrow> inv (snd (op_insert ops fresh d s))"
    and insert_get: "inv s \<Longrightarrow> fresh \<noteq> [] \<Longrightarrow>
      op_get ops i (snd (op_insert ops fresh d s)) =
        (if doc_id (with_id fresh d) = Some i then visible (with_id fresh (prepare d)) else op_get ops i s)"
    and get_active: "op_get ops i s = Some d \<Longrightarrow> doc_is_active d"
    and get_id: "inv s \<Longrightarrow> op_get ops i s = Some d \<Longrightarrow> doc_id d = Some i"
    and update_missing: "inv s \<Longrightarrow> op_get ops (or_empty (doc_id d)) s = None \<Longrightarrow>
      op_update ops now d s = Inl (NotFoundError (doc_id d))"
    and update_present: "inv s \<Longrightarrow> doc_id d = Some i \<Longrightarrow> op_get ops i s \<noteq> None \<Longrightarrow>
      \<exists>s'. op_update ops now d s = Inr (touch now None (prepare d), s') \<and> inv s' \<and>
        (\<forall>j. op_get ops j s' =
           (if j = i then visible (touch now None (prepare d)) else op_get ops j s))"
    and delete_present: "inv s \<Longrightarrow> op_get ops i s \<noteq> None \<Longrightarrow>
      \<exists>s'. op_soft_delete ops now i user s = Inr (True, s') \<and> inv s' \<and>
        (\<forall>j. op_get ops j s' = (if j = i then None else op_get ops j s))"
    and delete_missing: "inv s \<Longrightarrow> op_get ops i s = None \<Longrightarrow>
      op_soft_delete ops now i user s \<in> {Inr (False, s), Inl (NotFoundError (Some i))}"
    and matching_iff: "inv s \<Longrightarrow> distinct (map fst f) \<Longrightarrow>
      d \<in> set (matching f s) \<longleftrightarrow> (\<exists>i. op_get ops i s = Some d) \<and> doc_matches f d"
    and matching_distinct: "inv s \<Longrightarrow> distinct (matching f s)"
    and listing: "inv s \<Longrightarrow> distinct (map fst f) \<Longrightarrow>
      op_list_where ops f p s = paginate (window p (matching f s)) (length (matching f s)) p"

text \<open>The arithmetic of pages.\<close>

lemma pages_of_window:
  "pages (paginate items n \<lparr>pp_page = k, pp_page_size = MAX_PAGE_SIZE\<rparr>) = (n + 99) div 100"
proof -
  have "\<lceil>(of_nat n :: rat) / of_nat 100\<rceil> = int ((n + 99) div 100)"
    by (simp add: ceiling_eq_iff) linarith
  then show ?thesis by (simp add: pages_def paginate_def MAX_PAGE_SIZE_def)
qed

lemma walk_window:
  assumes "\<And>p. listing p = paginate (window p xs) (length xs) p" and "1 \<le> n"
    and "length xs < (n - 1 + fuel) * 100" "n = 1 \<or> (n - 1) * 100 < length xs"
  shows "walk_pages fuel listing n = Some (drop ((n - 1) * 100) xs)"
  using assms(2-)
proof (induction fuel arbitrary: n)
  case 0
  then show ?case by auto
next
  case (Suc fuel)
  obtain m where n: "n = Suc m" using Suc.prems(1) by (cases n) auto
  let ?p = "\<lparr>pp_page = n, pp_page_size = MAX_PAGE_SIZE\<rparr>"
  let ?ys = "drop (m * 100) xs"
  have items: "pg_items (listing ?p) = take 100 ?ys"
    by (simp add: assms(1) paginate_def window_def skip_def MIN_PAGE_def MAX_PAGE_SIZE_def n)
  have more: "has_next (listing ?p) \<longleftrightarrow> n * 100 < length xs"
    unfolding has_next_def assms(1) pages_of_window by (simp add: paginate_def) linarith
  show ?case
  proof (cases "n * 100 < length xs")
    case True
    have "walk_pages fuel listing (n + 1) = Some (drop (n * 100) xs)"
      using Suc.IH [of "n + 1"] Suc.prems True by (simp add: n)
    moreover have "take 100 ?ys @ drop (n * 100) xs = ?ys"
      using append_take_drop_id [of 100 ?ys] by (simp add: n add.commute)
    moreover have "take 100 ?ys \<noteq> []" using True by (simp add: n)
    ultimately show ?thesis using True by (simp add: Let_def items more) (simp add: n)
  next
    case False
    then have "length ?ys \<le> 100" by (simp add: n)
    then show ?thesis using False by (simp add: Let_def items more) (simp add: n)
  qed
qed

context repository
begin

lemma walk_complete:
  assumes "inv s" "distinct (map fst f)" "length (matching f s) < fuel"
  shows "walk_pages fuel (\<lambda>p. op_list_where ops f p s) 1 = Some (matching f s)"
  using walk_window [of "\<lambda>p. op_list_where ops f p s" "matching f s" 1 fuel]
    listing [OF assms(1,2)] assms(3) by simp

lemma deleted_absent:
  assumes "inv s" "op_soft_delete ops now i user s = Inr (b, s')"
  shows "inv s' \<and> b = (op_get ops i s \<noteq> None) \<and> op_get ops i s' = None"
proof (cases "op_get ops i s")
  case None
  with delete_missing [OF assms(1) None, of now user] assms show ?thesis by auto
next
  case (Some d)
  then obtain t where "op_soft_delete ops now i user s = Inr (True, t)" "inv t"
    "op_get ops i t = None"
    using delete_present [OF assms(1), of i now user] by auto
  with Some assms(2) show ?thesis by simp
qed

lemma deleted_gone:
  assumes "inv s" "op_soft_delete ops now i user s = Inr (b, s')"
  shows "(distinct (map fst f) \<longrightarrow> (\<forall>d \<in> set (matching f s'). doc_id d \<noteq> Some i)) \<and>
    (doc_id d = Some i \<longrightarrow> op_update ops now' d s' = Inl (NotFoundError (Some i))) \<and>
    op_soft_delete ops now' i user' s' \<in> {Inr (False, s'), Inl (NotFoundError (Some i))}"
proof (intro conjI impI ballI)
  from deleted_absent [OF assms] have inv: "inv s'" and gone: "op_get ops i s' = None" by simp_all
  show "op_soft_delete ops now' i user' s' \<in> {Inr (False, s'), Inl (NotFoundError (Some i))}"
    by (rule delete_missing [OF inv gone])
  show "op_update ops now' d s' = Inl (NotFoundError (Some i))" if "doc_id d = Some i"
    using update_missing [OF inv, of d now'] gone that by simp
  show "doc_id x \<noteq> Some i" if f: "distinct (map fst f)" and x: "x \<in> set (matching f s')" for x
  proof
    assume "doc_id x = Some i"
    from x matching_iff [OF inv f] obtain j where j: "op_get ops j s' = Some x" by blast
    from get_id [OF inv j] \<open>doc_id x = Some i\<close> have "j = i" by simp
    with j gone show False by simp
  qed
qed

lemma insert_reads_back:
  assumes "inv s" "fresh \<noteq> []" "doc_is_active (prepare d)"
  shows "op_get ops (or_empty (doc_id (with_id fresh d))) (snd (op_insert ops fresh d s)) =
    Some (fst (op_insert ops fresh d s))"
  using insert_get [OF assms(1,2), of "or_empty (doc_id (with_id fresh d))" d] assms(2,3)
  by (cases "doc_id d") (auto simp: insert_stores with_id_def visible_def prepare_id)

end

section \<open>The in-memory backend provides it\<close>

definition mem_inv :: "collection \<Rightarrow> bool" where
  "mem_inv c \<longleftrightarrow> distinct (map fst c) \<and> (\<forall>(k, d) \<in> set c. doc_id d = Some k \<and> k \<noteq> [])"

definition mem_matching :: "pydict \<Rightarrow> collection \<Rightarrow> document list" where
  "mem_matching f c = filter (doc_matches f) (active_models c)"

lemma set_dict_update:
  "distinct (map fst c) \<Longrightarrow> (k, v) \<in> set (AList.update i x c) \<longleftrightarrow> (if k = i then v = x else (k, v) \<in> set c)"
  by (induction c) (auto simp: image_iff)

lemma mem_inv_update:
  "mem_inv c \<Longrightarrow> doc_id d = Some i \<Longrightarrow> i \<noteq> [] \<Longrightarrow> mem_inv (AList.update i d c)"
  by (auto simp: mem_inv_def distinct_update set_dict_update split: if_splits)

lemma mem_get_update: "mem_get j (AList.update i d c) = (if j = i then visible d else mem_get j c)"
  by (simp add: mem_get_def dict_simps visible_def)

lemma mem_get_iff: "mem_inv c \<Longrightarrow> mem_get i c = Some d \<longleftrightarrow> (i, d) \<in> set c \<and> doc_is_active d"
proof -
  assume inv: "mem_inv c"
  have "(i, d) \<in> set c \<longleftrightarrow> map_of c i = Some d" using inv by (simp add: mem_inv_def)
  then show ?thesis by (auto simp: mem_get_def split: option.splits)
qed

lemma touch_frame [simp]:
  "doc_id (touch now u d) = doc_id d" "doc_is_active (touch now u d) = doc_is_active d"
  "doc_tenant_id (touch now u d) = doc_tenant_id d"
  by (simp_all add: touch_def Let_def split: option.splits)

lemma or_empty_truthy: "truthy_str x \<longleftrightarrow> or_empty x \<noteq> []"
  by (cases x) auto

lemma mem_no_empty: "mem_inv c \<Longrightarrow> map_of c [] = None"
  by (auto simp: mem_inv_def map_of_eq_None_iff)

lemmas mem_defs = mem_ops_def mem_insert_def mem_update_def mem_soft_delete_def mem_list_where_def

lemma mem_insert_inv: "mem_inv c \<Longrightarrow> fresh \<noteq> [] \<Longrightarrow> mem_inv (snd (mem_insert fresh d c))"
  by (cases "doc_id d") (auto simp: mem_insert_def Let_def intro!: mem_inv_update)

lemma mem_insert_get:
  "fresh \<noteq> [] \<Longrightarrow> mem_get i (snd (mem_insert fresh d c)) =
     (if doc_id (with_id fresh d) = Some i then visible (with_id fresh d) else mem_get i c)"
  by (cases "doc_id d") (auto simp: mem_insert_def Let_def mem_get_update with_id_def)

lemma mem_update_present:
  assumes "mem_inv c" "doc_id d = Some i" "mem_get i c \<noteq> None"
  shows "\<exists>c'. mem_update now d c = Inr (touch now None d, c') \<and> mem_inv c' \<and>
    (\<forall>j. mem_get j c' = (if j = i then visible (touch now None d) else mem_get j c))"
proof -
  from assms(3) obtain old where old: "map_of c i = Some old" "doc_is_active old"
    by (auto simp: mem_get_def split: option.splits if_splits)
  have ne: "i \<noteq> []" using old(1) mem_no_empty [OF assms(1)] by auto
  then have "mem_update now d c = Inr (touch now None d, AList.update i (touch now None d) c)"
    using assms(2) old by (simp add: mem_update_def Let_def)
  with assms(1,2) ne show ?thesis by (simp add: mem_inv_update mem_get_update)
qed

lemma mem_delete_present:
  assumes "mem_inv c" "mem_get i c \<noteq> None"
  shows "\<exists>c'. mem_soft_delete now i user c = Inr (True, c') \<and> mem_inv c' \<and>
    (\<forall>j. mem_get j c' = (if j = i then None else mem_get j c))"
proof -
  from assms(2) obtain d where d: "map_of c i = Some d" "doc_is_active d"
    by (auto simp: mem_get_def split: option.splits if_splits)
  with assms(1) have "doc_id d = Some i" "i \<noteq> []" by (auto simp: mem_inv_def dest: map_of_SomeD)
  with assms(1) d show ?thesis
    by (simp add: mem_soft_delete_def mem_inv_update mem_get_update visible_def)
qed

lemma mem_matching_iff:
  "mem_inv c \<Longrightarrow> d \<in> set (mem_matching f c) \<longleftrightarrow> (\<exists>i. mem_get i c = Some d) \<and> doc_matches f d"
  by (force simp: mem_matching_def active_models_def mem_get_iff)

lemma mem_matching_distinct: "mem_inv c \<Longrightarrow> distinct (mem_matching f c)"
proof -
  assume inv: "mem_inv c"
  have "map (or_empty \<circ> doc_id) (map snd c) = map fst c"
    using inv by (auto simp: mem_inv_def)
  with inv have "distinct (map snd c)" by (metis distinct_map mem_inv_def)
  then show ?thesis by (simp add: mem_matching_def active_models_def)
qed

lemma mem_ops_simps [simp]:
  "op_insert mem_ops = mem_insert" "op_get mem_ops = mem_get" "op_list_where mem_ops = mem_list_where"
  "op_update mem_ops = mem_update" "op_soft_delete mem_ops = mem_soft_delete"
  "op_find_one mem_ops = mem_find_one" "op_find_many mem_ops = mem_find_many"
  "op_raw_documents mem_ops = mem_raw_documents"
  by (simp_all add: mem_ops_def)

interpretation mem: repository mem_ops mem_inv mem_matching "\<lambda>d. d"
proof (unfold_locales, goal_cases)
  case (2 fresh d s)
  then show ?case by (simp add: mem_defs with_id_def Let_def)
next
  case (3 s fresh d)
  then show ?case by (simp add: mem_ops_def mem_insert_inv)
next
  case (4 s fresh i d)
  then show ?case by (simp add: mem_ops_def mem_insert_get)
next
  case (5 i s d)
  then show ?case by (auto simp: mem_ops_def mem_get_def split: option.splits if_splits)
next
  case (6 s i d)
  then show ?case by (auto simp: mem_ops_def mem_get_iff) (auto simp: mem_inv_def)
next
  case (7 s d now)
  then show ?case
    by (auto simp: mem_ops_def mem_update_def mem_get_def split: option.splits if_splits)
next
  case (8 s d i now)
  then show ?case unfolding mem_ops_simps by (rule mem_update_present)
next
  case (9 s i now user)
  then show ?case unfolding mem_ops_simps by (rule mem_delete_present)
next
  case (10 s i now user)
  then show ?case
    by (auto simp: mem_ops_def mem_soft_delete_def mem_get_def split: option.splits if_splits)
next
  case (11 s f d)
  then show ?case by (simp add: mem_ops_def mem_matching_iff)
next
  case (12 s f)
  then show ?case by (rule mem_matching_distinct)
next
  case (13 s f p)
  then show ?case by (simp add: mem_ops_def mem_list_where_def mem_matching_def Let_def)
qed simp

section \<open>The tenant view of any backend provides it\<close>

definition scoped_matching :: "(pydict \<Rightarrow> 's \<Rightarrow> document list) \<Rightarrow> string \<Rightarrow> pydict \<Rightarrow> 's \<Rightarrow> document list" where
  "scoped_matching inner tenant f s =
     (if tenant_clash tenant f then [] else inner (stamp_filters tenant f) s)"

lemma stamp_filters_distinct: "distinct (map fst f) \<Longrightarrow> distinct (map fst (stamp_filters tenant f))"
  by (simp add: stamp_filters_def distinct_update)

lemma doc_matches_iff:
  "distinct (map fst f) \<Longrightarrow> doc_matches f d \<longleftrightarrow> (\<forall>k v. map_of f k = Some v \<longrightarrow> py_eq (doc_attr k d) v)"
  by (auto simp: doc_matches_def list_all_iff)

lemma owned_attr: "doc_attr ''tenant_id'' d = PStr tenant \<longleftrightarrow> owned tenant d"
  by (simp add: doc_attr_def owned_def opt_str_def split: option.splits)

lemma stamp_filters_matches:
  assumes "distinct (map fst f)" "\<not> tenant_clash tenant f"
  shows "doc_matches (stamp_filters tenant f) d \<longleftrightarrow> owned tenant d \<and> doc_matches f d"
proof -
  have map: "map_of (stamp_filters tenant f) = (map_of f)(''tenant_id'' \<mapsto> PStr tenant)"
    by (simp add: stamp_filters_def dict_simps)
  have "map_of f ''tenant_id'' = Some v \<Longrightarrow> v = PStr tenant" for v
    using assms(2) by (simp add: tenant_clash_def)
  then show ?thesis
    unfolding doc_matches_iff [OF assms(1)] doc_matches_iff [OF stamp_filters_distinct [OF assms(1)]] map
    by (auto simp: owned_attr [symmetric])
qed

lemma clash_excludes:
  assumes "distinct (map fst f)" "tenant_clash tenant f" "owned tenant d"
  shows "\<not> doc_matches f d"
proof
  assume "doc_matches f d"
  moreover obtain v where v: "map_of f ''tenant_id'' = Some v" "v \<noteq> PStr tenant"
    using assms(2) by (auto simp: tenant_clash_def split: option.splits)
  ultimately have "py_eq (doc_attr ''tenant_id'' d) v" using doc_matches_iff [OF assms(1)] by blast
  with assms(3) v(2) show False by (simp add: owned_attr [symmetric])
qed

locale tenant_view = inner: repository inner inv matching "\<lambda>d. d"
  for inner :: "'s repo_ops" and inv matching +
  fixes tenant :: string
begin

lemma stamped_simps [simp]:
  "doc_id (stamped tenant d) = doc_id d" "doc_is_active (stamped tenant d) = doc_is_active d"
  "owned tenant (stamped tenant d)"
  by (simp_all add: stamped_def owned_def)

lemma own_get: "op_get (scoped_ops inner tenant) i s = Some d \<longleftrightarrow> op_get inner i s = Some d \<and> owned tenant d"
  by (auto simp: scoped_ops_def scoped_get_def split: option.splits)

lemma own_get_none:
  "op_get (scoped_ops inner tenant) i s = None \<longleftrightarrow> (\<forall>d. op_get inner i s = Some d \<longrightarrow> \<not> owned tenant d)"
  by (auto simp: scoped_ops_def scoped_get_def split: option.splits)

lemma require_iff:
  "require_same_tenant inner tenant i s \<longleftrightarrow> op_get (scoped_ops inner tenant) (or_empty i) s \<noteq> None"
  by (auto simp: require_same_tenant_def scoped_ops_def scoped_get_def split: option.splits)

end

lemma scoped_ops_simps [simp]:
  "op_insert (scoped_ops inner t) = scoped_insert inner t"
  "op_get (scoped_ops inner t) = scoped_get inner t"
  "op_list_where (scoped_ops inner t) = scoped_list_where inner t"
  "op_update (scoped_ops inner t) = scoped_update inner t"
  "op_soft_delete (scoped_ops inner t) = scoped_soft_delete inner t"
  "op_find_one (scoped_ops inner t) = scoped_find_one inner t"
  "op_find_many (scoped_ops inner t) = scoped_find_many inner t"
  "op_raw_documents (scoped_ops inner t) = scoped_raw_documents inner t"
  by (simp_all add: scoped_ops_def)

context tenant_view
begin

lemma scoped_get_iff: "scoped_get inner tenant i s = Some d \<longleftrightarrow> op_get inner i s = Some d \<and> owned tenant d"
  using own_get by simp

lemma scoped_update_present:
  assumes "inv s" "doc_id d = Some i" "scoped_get inner tenant i s \<noteq> None"
  shows "\<exists>s'. scoped_update inner tenant now d s = Inr (touch now None (stamped tenant d), s') \<and> inv s' \<and>
    (\<forall>j. scoped_get inner tenant j s' =
      (if j = i then visible (touch now None (stamped tenant d)) else scoped_get inner tenant j s))"
proof -
  from assms(3) have get: "op_get inner i s \<noteq> None" by (auto simp: scoped_get_def split: option.splits)
  have req: "require_same_tenant inner tenant (doc_id d) s"
    using assms(2,3) by (simp add: require_iff)
  obtain s' where s': "op_update inner now (stamped tenant d) s = Inr (touch now None (stamped tenant d), s')"
      "inv s'" and g: "\<forall>j. op_get inner j s' =
        (if j = i then visible (touch now None (stamped tenant d)) else op_get inner j s)"
    using inner.update_present [OF assms(1), of "stamped tenant d" i now] assms(2) get by auto
  have "owned tenant (touch now None (stamped tenant d))" by (simp add: owned_def stamped_def)
  then have "scoped_get inner tenant j s' =
      (if j = i then visible (touch now None (stamped tenant d)) else scoped_get inner tenant j s)" for j
    using g by (simp add: scoped_get_def visible_def)
  with s' req show ?thesis by (simp add: scoped_update_def)
qed

lemma scoped_delete_present:
  assumes "inv s" "scoped_get inner tenant i s \<noteq> None"
  shows "\<exists>s'. scoped_soft_delete inner tenant now i user s = Inr (True, s') \<and> inv s' \<and>
    (\<forall>j. scoped_get inner tenant j s' = (if j = i then None else scoped_get inner tenant j s))"
proof -
  from assms(2) have get: "op_get inner i s \<noteq> None" by (auto simp: scoped_get_def split: option.splits)
  have req: "require_same_tenant inner tenant (Some i) s" using assms(2) by (simp add: require_iff)
  obtain s' where "op_soft_delete inner now i user s = Inr (True, s')" "inv s'"
      "\<forall>j. op_get inner j s' = (if j = i then None else op_get inner j s)"
    using inner.delete_present [OF assms(1) get, of now user] by blast
  with req show ?thesis by (simp add: scoped_soft_delete_def scoped_get_def)
qed

lemma scoped_matching_iff:
  assumes "inv s" "distinct (map fst f)"
  shows "d \<in> set (scoped_matching matching tenant f s) \<longleftrightarrow>
    (\<exists>i. scoped_get inner tenant i s = Some d) \<and> doc_matches f d"
proof (cases "tenant_clash tenant f")
  case True
  then show ?thesis
    using clash_excludes [OF assms(2) True] by (auto simp: scoped_matching_def scoped_get_iff)
next
  case False
  then show ?thesis
    using inner.matching_iff [OF assms(1) stamp_filters_distinct [OF assms(2)]]
    by (auto simp: scoped_matching_def scoped_get_iff stamp_filters_matches [OF assms(2) False])
qed

lemma scoped_listing:
  assumes "inv s" "distinct (map fst f)"
  shows "scoped_list_where inner tenant f p s =
    paginate (window p (scoped_matching matching tenant f s)) (length (scoped_matching matching tenant f s)) p"
proof (cases "tenant_clash tenant f")
  case True
  then show ?thesis by (simp add: scoped_list_where_def scoped_matching_def window_def)
next
  case False
  let ?ms = "matching (stamp_filters tenant f) s"
  have all: "doc_is_active d \<and> owned tenant d" if "d \<in> set ?ms" for d
    using that inner.matching_iff [OF assms(1) stamp_filters_distinct [OF assms(2)], of d tenant]
      stamp_filters_matches [OF assms(2) False] inner.get_active by auto
  have "filter (\<lambda>d. doc_is_active d \<and> owned tenant d) (window p ?ms) = window p ?ms"
    unfolding window_def by (rule filter_True) (meson all in_set_dropD in_set_takeD)
  with False show ?thesis
    using inner.listing [OF assms(1) stamp_filters_distinct [OF assms(2)], of tenant p]
    by (simp add: scoped_list_where_def scoped_matching_def paginate_def)
qed

end

sublocale tenant_view \<subseteq> view: repository "scoped_ops inner tenant" inv
  "scoped_matching matching tenant" "stamped tenant"
proof (unfold_locales, goal_cases)
  case (2 fresh d s)
  then show ?case by (simp add: scoped_insert_def inner.insert_stores)
next
  case (3 s fresh d)
  then show ?case by (simp add: scoped_insert_def inner.insert_inv)
next
  case (4 s fresh i d)
  then show ?case
    by (simp add: scoped_insert_def scoped_get_def inner.insert_get with_id_def visible_def
        owned_def stamped_def split: option.splits) (cases "doc_id d"; simp)
next
  case (5 i s d)
  then show ?case using inner.get_active by (auto simp: scoped_get_iff)
next
  case (6 s i d)
  then show ?case using inner.get_id by (auto simp: scoped_get_iff)
next
  case (7 s d now)
  then show ?case by (simp add: scoped_update_def require_iff)
next
  case (8 s d i now)
  then show ?case unfolding scoped_ops_simps by (rule scoped_update_present)
next
  case (9 s i now user)
  then show ?case unfolding scoped_ops_simps by (rule scoped_delete_present)
next
  case (10 s i now user)
  then show ?case by (simp add: scoped_soft_delete_def require_iff)
next
  case (11 s f d)
  then show ?case unfolding scoped_ops_simps by (rule scoped_matching_iff)
next
  case (12 s f)
  then show ?case using inner.matching_distinct by (simp add: scoped_matching_def)
next
  case (13 s f p)
  then show ?case unfolding scoped_ops_simps by (rule scoped_listing)
qed simp

interpretation scoped: tenant_view mem_ops mem_inv mem_matching tenant for tenant ..

section \<open>Properties\<close>

lemma mem_matching_length: "length (scoped_matching mem_matching tenant f c) \<le> length c"
proof -
  have "length (mem_matching g c) \<le> length c" for g
    unfolding mem_matching_def active_models_def
    by (metis le_trans length_filter_le length_map)
  then show ?thesis by (simp add: scoped_matching_def)
qed

text \<open>
  Walking the pages of a tenant's listing yields exactly the tenant's active
  documents that match the filter, each once, however many pages that takes and whatever other
  tenants store; the walk needs at most one page request per stored document.
\<close>

theorem tenant_walk_exact:
  assumes "mem_inv c" "distinct (map fst f)"
  shows "\<exists>xs. walk_pages (Suc (length c)) (\<lambda>p. scoped_list_where mem_ops tenant f p c) 1 = Some xs \<and>
    distinct xs \<and> set xs = {d. (\<exists>i. mem_get i c = Some d) \<and> owned tenant d \<and> doc_matches f d}"
proof -
  let ?xs = "scoped_matching mem_matching tenant f c"
  have "length ?xs < Suc (length c)" using mem_matching_length [of tenant f c] by simp
  from scoped.view.walk_complete [OF assms this] have
    "walk_pages (Suc (length c)) (\<lambda>p. scoped_list_where mem_ops tenant f p c) 1 = Some ?xs" by simp
  moreover have "distinct ?xs" by (rule scoped.view.matching_distinct [OF assms(1)])
  moreover have "set ?xs = {d. (\<exists>i. mem_get i c = Some d) \<and> owned tenant d \<and> doc_matches f d}"
    using scoped.view.matching_iff [OF assms] scoped.scoped_get_iff by auto
  ultimately show ?thesis by blast
qed

definition sample_doc :: "string \<Rightarrow> string \<Rightarrow> string \<Rightarrow> document" where
  "sample_doc i tenant slug =
     \<lparr>doc_id = Some i, doc_tenant_id = Some tenant, doc_created_at = 0, doc_updated_at = 0,
      doc_created_by = None, doc_updated_by = None, doc_is_active = True, doc_meta = [],
      doc_fields = [(''slug'', PStr slug)]\<rparr>"

definition sample_store :: collection where
  "sample_store = [(''1'', sample_doc ''1'' ''beta'' ''s''), (''2'', sample_doc ''2'' ''acme'' ''s'')]"

lemma sample_store_inv: "mem_inv sample_store"
  by (simp add: mem_inv_def sample_store_def sample_doc_def)

theorem tenant_walk_exact_witness:
  "\<exists>xs. walk_pages 3 (\<lambda>p. scoped_list_where mem_ops ''acme'' [] p sample_store) 1 = Some xs \<and>
     set xs = {d. (\<exists>i. mem_get i sample_store = Some d) \<and> owned ''acme'' d \<and> doc_matches [] d}"
  using tenant_walk_exact [OF sample_store_inv, of "[]" "''acme''"]
  by (auto simp: sample_store_def numeral_eq_Suc)

lemma mem_update_others:
  "mem_update now d c = Inr (st, c') \<Longrightarrow> doc_id d \<noteq> Some j \<Longrightarrow> map_of c' j = map_of c j"
  by (cases "doc_id d") (auto simp: mem_update_def Let_def dict_simps split: option.splits if_splits)

lemma mem_delete_others:
  "mem_soft_delete now i u c = Inr (b, c') \<Longrightarrow> j \<noteq> i \<Longrightarrow> map_of c' j = map_of c j"
  by (auto simp: mem_soft_delete_def Let_def dict_simps split: option.splits if_splits)

lemma require_owner:
  "require_same_tenant mem_ops tenant i c \<Longrightarrow> \<exists>d. map_of c (or_empty i) = Some d \<and> owned tenant d"
  by (auto simp: require_same_tenant_def mem_get_def split: option.splits if_splits)

lemma scoped_reads_owned:
  "scoped_get mem_ops t i c = Some d \<Longrightarrow> owned t d"
  "scoped_find_one mem_ops t f v c = Some d \<Longrightarrow> owned t d"
  "d \<in> set (scoped_find_many mem_ops t f v n c) \<Longrightarrow> owned t d"
  "d \<in> set (pg_items (scoped_list_where mem_ops t fs p c)) \<Longrightarrow> owned t d"
  "d \<in> set (scoped_raw_documents mem_ops t c) \<Longrightarrow> owned t d"
proof -
  show "scoped_get mem_ops t i c = Some d \<Longrightarrow> owned t d"
    by (auto simp: scoped_get_def split: option.splits if_splits)
  show "scoped_find_one mem_ops t f v c = Some d \<Longrightarrow> owned t d"
    by (auto simp: scoped_find_one_def mem_find_one_def find_Some_iff doc_matches_def
        owned_attr [symmetric] split: option.splits if_splits)
  show "d \<in> set (scoped_find_many mem_ops t f v n c) \<Longrightarrow> owned t d"
    by (auto simp: scoped_find_many_def split: if_splits dest: in_set_takeD)
  show "d \<in> set (pg_items (scoped_list_where mem_ops t fs p c)) \<Longrightarrow> owned t d"
    by (auto simp: scoped_list_where_def paginate_def Let_def split: if_splits)
  show "d \<in> set (scoped_raw_documents mem_ops t c) \<Longrightarrow> owned t d"
    by (auto simp: scoped_raw_documents_def)
qed

text \<open>
  C32: Through the view of one tenant no read returns a row of another tenant or of
  none, and no update or deletion changes a stored row, active or not, that another tenant owns;
  neither does an insert under a fresh id.
\<close>

theorem tenant_isolation:
  "(\<forall>d. (scoped_get mem_ops t i c = Some d \<or> scoped_find_one mem_ops t f v c = Some d \<or>
         d \<in> set (scoped_find_many mem_ops t f v n c) \<or>
         d \<in> set (pg_items (scoped_list_where mem_ops t fs p c)) \<or>
         d \<in> set (scoped_raw_documents mem_ops t c)) \<longrightarrow> owned t d) \<and>
   (\<forall>j r. map_of c j = Some r \<and> \<not> owned t r \<longrightarrow>
      (\<forall>st c'. scoped_update mem_ops t now d c = Inr (st, c') \<longrightarrow> map_of c' j = Some r) \<and>
      (\<forall>b c'. scoped_soft_delete mem_ops t now i u c = Inr (b, c') \<longrightarrow> map_of c' j = Some r) \<and>
      (\<not> truthy_str (doc_id d) \<and> map_of c fresh = None \<longrightarrow>
         map_of (snd (scoped_insert mem_ops t fresh d c)) j = Some r))"
proof (intro conjI allI impI; (elim conjE)?)
  fix j r assume r: "map_of c j = Some r" "\<not> owned t r"
  show "map_of c' j = Some r" if up: "scoped_update mem_ops t now d c = Inr (st, c')" for st c'
  proof -
    from up have req: "require_same_tenant mem_ops t (doc_id d) c"
      and m: "mem_update now (stamped t d) c = Inr (st, c')"
      by (auto simp: scoped_update_def split: if_splits)
    have "doc_id d \<noteq> Some j" using require_owner [OF req] r by auto
    with mem_update_others [OF m, of j] r show ?thesis by (simp add: stamped_def)
  qed
  show "map_of c' j = Some r" if del: "scoped_soft_delete mem_ops t now i u c = Inr (b, c')" for b c'
  proof -
    from del have req: "require_same_tenant mem_ops t (Some i) c"
      and m: "mem_soft_delete now i u c = Inr (b, c')"
      by (auto simp: scoped_soft_delete_def split: if_splits)
    have "j \<noteq> i" using require_owner [OF req] r by auto
    with mem_delete_others [OF m] r show ?thesis by simp
  qed
  show "map_of (snd (scoped_insert mem_ops t fresh d c)) j = Some r"
    if "\<not> truthy_str (doc_id d)" "map_of c fresh = None"
    using that r by (auto simp: scoped_insert_def mem_insert_def Let_def stamped_def dict_simps)
qed ((elim disjE; erule scoped_reads_owned))

theorem tenant_isolation_witness:
  "map_of (snd (scoped_insert mem_ops ''acme'' ''9'' ((sample_doc ''2'' ''acme'' ''s'')\<lparr>doc_id := None\<rparr>)
     sample_store)) ''1'' = Some (sample_doc ''1'' ''beta'' ''s'')"
  using tenant_isolation [where t = "''acme''" and c = sample_store and fresh = "''9''"
    and d = "(sample_doc ''2'' ''acme'' ''s'')\<lparr>doc_id := None\<rparr>" and i = "[]" and f = "[]" and v = PNone
    and n = 0 and fs = "[]" and p = "\<lparr>pp_page = 1, pp_page_size = 1\<rparr>" and now = 0 and u = None]
  by (auto simp: sample_store_def sample_doc_def owned_def)

text \<open>
  The isolation has a gap: an insert through the view of one tenant of a document
  that carries the id of another tenant's row replaces that row, and the row disappears from its
  owner's view, although an update with the same id is refused as not found.
\<close>

theorem insert_takes_over:
  assumes "doc_id d = Some i" "i \<noteq> []" "a \<noteq> b" "scoped_get mem_ops b i c = Some r"
  shows "scoped_get mem_ops b i (snd (scoped_insert mem_ops a fresh d c)) = None \<and>
    map_of (snd (scoped_insert mem_ops a fresh d c)) i = Some (stamped a d) \<and>
    scoped_update mem_ops a now d c = Inl (NotFoundError (Some i))"
proof -
  have other: "scoped_get mem_ops a i c = None"
    using assms(3,4) by (auto simp: scoped_get_def owned_def split: option.splits if_splits)
  have ins: "snd (scoped_insert mem_ops a fresh d c) = AList.update i (stamped a d) c"
    using assms(1,2) by (simp add: scoped_insert_def mem_insert_def stamped_def Let_def)
  show ?thesis
    using assms(1,3) other
    by (auto simp: ins scoped_get_def mem_get_update visible_def owned_def stamped_def dict_simps
        scoped_update_def scoped.require_iff)
qed

theorem insert_takes_over_witness:
  "scoped_get mem_ops ''beta'' ''1'' sample_store = Some (sample_doc ''1'' ''beta'' ''s'') \<and>
   scoped_get mem_ops ''beta'' ''1''
     (snd (scoped_insert mem_ops ''acme'' ''9'' (sample_doc ''1'' ''acme'' ''x'') sample_store)) = None"
proof -
  have get: "scoped_get mem_ops ''beta'' ''1'' sample_store = Some (sample_doc ''1'' ''beta'' ''s'')"
    by (simp add: scoped_get_def mem_get_def sample_store_def sample_doc_def owned_def)
  have "doc_id (sample_doc ''1'' ''acme'' ''x'') = Some ''1''" by (simp add: sample_doc_def)
  with get insert_takes_over [of "sample_doc ''1'' ''acme'' ''x''" "''1''" "''acme''" "''beta''"
      sample_store "sample_doc ''1'' ''beta'' ''s''"]
  show ?thesis by simp
qed

lemma find_first_hit:
  "r \<in> set xs \<Longrightarrow> P r \<Longrightarrow> \<forall>x \<in> set (takeWhile (\<lambda>x. x \<noteq> r) xs). \<not> P x \<Longrightarrow> find P xs = Some r"
  by (induction xs) (auto split: if_splits)

text \<open>
  A tenant's lookup by a field can miss the tenant's own document: when another
  tenant's earlier document has the same value, the view's \<open>find_one\<close> answers nothing, although
  the listing of the same filter contains the tenant's document.
\<close>

theorem find_one_shadowed:
  assumes "map_of c k = Some r" "doc_is_active r" "doc_matches [(f, v)] r" "\<not> owned t r" "f \<noteq> ''tenant_id''"
    and "\<forall>x \<in> set (takeWhile (\<lambda>x. x \<noteq> r) (active_models c)). \<not> doc_matches [(f, v)] x"
  shows "scoped_find_one mem_ops t f v c = None"
proof -
  have "r \<in> set (active_models c)"
    using assms(1,2) by (force simp: active_models_def dest: map_of_SomeD)
  then have "find (doc_matches [(f, v)]) (active_models c) = Some r"
    using assms(3,6) by (rule find_first_hit)
  with assms(4,5) show ?thesis by (simp add: scoped_find_one_def mem_find_one_def)
qed

theorem find_one_shadowed_witness:
  "scoped_find_one mem_ops ''acme'' ''slug'' (PStr ''s'') sample_store = None \<and>
   pg_items (scoped_list_where mem_ops ''acme'' [(''slug'', PStr ''s'')]
     \<lparr>pp_page = 1, pp_page_size = 20\<rparr> sample_store) = [sample_doc ''2'' ''acme'' ''s'']"
proof
  show "scoped_find_one mem_ops ''acme'' ''slug'' (PStr ''s'') sample_store = None"
    by (rule find_one_shadowed [of _ "''1''" "sample_doc ''1'' ''beta'' ''s''"])
       (simp_all add: sample_store_def sample_doc_def doc_matches_def doc_attr_def dict_get_def
         owned_def active_models_def)
  show "pg_items (scoped_list_where mem_ops ''acme'' [(''slug'', PStr ''s'')]
     \<lparr>pp_page = 1, pp_page_size = 20\<rparr> sample_store) = [sample_doc ''2'' ''acme'' ''s'']"
    by code_simp
qed

text \<open>
  A deletion through a tenant's view succeeds only on a document of the tenant
  and makes it absent: no read, listing or second deletion finds it, and no update brings it back,
  until it is inserted again under its id.
\<close>

theorem deletion_is_final:
  assumes "mem_inv c" "scoped_soft_delete mem_ops t now i u c = Inr (b, c')" "distinct (map fst f)"
    and "doc_id d = Some i" "doc_is_active d"
  shows "b \<and> mem_inv c' \<and> scoped_get mem_ops t i c' = None \<and>
    (\<forall>p. \<forall>x \<in> set (pg_items (scoped_list_where mem_ops t f p c')). doc_id x \<noteq> Some i) \<and>
    scoped_update mem_ops t now' d c' = Inl (NotFoundError (Some i)) \<and>
    scoped_soft_delete mem_ops t now'' i u' c' = Inl (NotFoundError (Some i)) \<and>
    (i \<noteq> [] \<longrightarrow> scoped_get mem_ops t i (snd (scoped_insert mem_ops t fresh d c')) = Some (stamped t d))"
proof -
  have del: "op_soft_delete (scoped_ops mem_ops t) now i u c = Inr (b, c')" using assms(2) by simp
  note A = scoped.view.deleted_absent [OF assms(1) del]
  note B = scoped.view.deleted_gone [OF assms(1) del, where f = f and d = d and now' = now']
  have b: "b" using A assms(2) by (auto simp: scoped_soft_delete_def scoped.require_iff split: if_splits)
  have list: "doc_id x \<noteq> Some i" if "x \<in> set (pg_items (scoped_list_where mem_ops t f p c'))" for p x
  proof -
    have "x \<in> set (scoped_matching mem_matching t f c')"
      using that scoped.scoped_listing [of c' f t p] A assms(3)
      by (auto simp: paginate_def window_def dest: in_set_takeD in_set_dropD)
    with B assms(3) show ?thesis by blast
  qed
  have again: "scoped_soft_delete mem_ops t now'' i u' c' = Inl (NotFoundError (Some i))"
    using A by (simp add: scoped_soft_delete_def scoped.require_iff)
  have ins: "scoped_get mem_ops t i (snd (scoped_insert mem_ops t fresh d c')) = Some (stamped t d)"
    if "i \<noteq> []"
    using that assms(4,5)
    by (simp add: scoped_insert_def mem_insert_def stamped_def Let_def scoped_get_def mem_get_update
        visible_def owned_def)
  from A B b list again ins assms(4) show ?thesis by auto
qed

theorem deletion_is_final_witness:
  "scoped_get mem_ops ''acme'' ''2''
     (snd (projr (scoped_soft_delete mem_ops ''acme'' 1 ''2'' None sample_store))) = None"
proof -
  obtain b c' where del: "scoped_soft_delete mem_ops ''acme'' 1 ''2'' None sample_store = Inr (b, c')"
    by (simp add: scoped_soft_delete_def require_same_tenant_def mem_get_def mem_soft_delete_def
        sample_store_def sample_doc_def owned_def Let_def)
  have "doc_id (sample_doc ''2'' ''acme'' ''s'') = Some ''2''" "doc_is_active (sample_doc ''2'' ''acme'' ''s'')"
    by (simp_all add: sample_doc_def)
  with deletion_is_final [OF sample_store_inv del, of "[]"] show ?thesis by (simp add: del)
qed

end
