(* ===== verification/Expression.thy ===== *)
theory Expression
  imports Prelude
begin

text \<open>
  The deterministic expression evaluator of graph agents, from
  \<open>voiceai/helpers/expression_evaluator.py\<close>: dotted lookup, coercion by declared type or by
  inference, the comparison, membership and substring operators, groups and edges, and the traces
  written to the routing log. Python's \<open>float()\<close>, \<open>str()\<close>, \<open>repr()\<close>, \<open>==\<close>, \<open><\<close> and \<open>in\<close> are
  written out for JSON values; the overflow of \<open>float()\<close> beyond the IEEE range is not modelled.

  A condition, a group and an edge are records of the keys the evaluator reads. Warnings are not
  modelled.
\<close>

section \<open>Numbers as text\<close>

fun digits_of :: "nat \<Rightarrow> string" where
  "digits_of n = (if n < 10 then [char_of (48 + n)] else digits_of (n div 10) @ [char_of (48 + n mod 10)])"

declare digits_of.simps [simp del]

definition show_int :: "int \<Rightarrow> string" where
  "show_int n = (if n < 0 then CHR ''-'' # digits_of (nat (- n)) else digits_of (nat n))"

definition is_digit :: "char \<Rightarrow> bool" where
  "is_digit c = (let n = of_char c :: nat in 48 \<le> n \<and> n \<le> 57)"

definition digit_val :: "char \<Rightarrow> nat" where
  "digit_val c = of_char c - 48"

definition nat_of_digits :: "string \<Rightarrow> nat" where
  "nat_of_digits s = foldl (\<lambda>n c. 10 * n + digit_val c) 0 s"

text \<open>A digit part of \<open>float()\<close>'s grammar: digits, single underscores between digits.\<close>

fun underscores_ok :: "string \<Rightarrow> bool" where
  "underscores_ok [] = True"
| "underscores_ok [c] = is_digit c"
| "underscores_ok (c # d # s) = (is_digit c \<and> (is_digit d \<or> d = CHR ''_'' \<and> s \<noteq> []) \<and>
     (if d = CHR ''_'' then underscores_ok s else underscores_ok (d # s)))"

definition digit_part :: "string \<Rightarrow> string option" where
  "digit_part s = (if s \<noteq> [] \<and> underscores_ok s then Some (filter is_digit s) else None)"

definition opt_digit_part :: "string \<Rightarrow> string option" where
  "opt_digit_part s = (if s = [] then Some [] else digit_part s)"

definition split_at :: "char \<Rightarrow> string \<Rightarrow> string \<times> string option" where
  "split_at c s = (let pre = takeWhile (\<lambda>x. x \<noteq> c) s
     in (pre, if length pre < length s then Some (drop (Suc (length pre)) s) else None))"

definition split_sign :: "string \<Rightarrow> bool \<times> string" where
  "split_sign s = (case s of [] \<Rightarrow> (False, [])
     | c # r \<Rightarrow> if c = CHR ''-'' then (True, r) else if c = CHR ''+'' then (False, r) else (False, s))"

definition parse_mantissa :: "string \<Rightarrow> rat option" where
  "parse_mantissa s =
     (case split_at (CHR ''.'') s of
        (whole, None) \<Rightarrow> map_option (\<lambda>d. of_nat (nat_of_digits d)) (digit_part whole)
      | (whole, Some fpart) \<Rightarrow>
          (if whole = [] \<and> fpart = [] then None
           else case (opt_digit_part whole, opt_digit_part fpart) of
                  (Some w, Some f) \<Rightarrow> Some (of_nat (nat_of_digits (w @ f)) / 10 ^ length f)
                | _ \<Rightarrow> None))"

definition parse_exponent :: "string option \<Rightarrow> int option" where
  "parse_exponent e =
     (case e of
        None \<Rightarrow> Some 0
      | Some s \<Rightarrow> (let (neg, r) = split_sign s
                  in map_option (\<lambda>d. if neg then - int (nat_of_digits d) else int (nat_of_digits d))
                       (digit_part r)))"

definition scale10 :: "rat \<Rightarrow> int \<Rightarrow> rat" where
  "scale10 m e = (if 0 \<le> e then m * 10 ^ nat e else m / 10 ^ nat (- e))"

text \<open>\<open>float(s)\<close>, \<open>None\<close> for a \<open>ValueError\<close>.\<close>

definition parse_float :: "string \<Rightarrow> pyval option" where
  "parse_float s =
     (let (neg, r) = split_sign (py_lower (py_strip s))
      in if r = ''inf'' \<or> r = ''infinity'' then Some (PInf neg)
         else if r = ''nan'' then Some PNan
         else let (m, e) = split_at (CHR ''e'') r
           in case (parse_mantissa m, parse_exponent e) of
                (Some x, Some k) \<Rightarrow> Some (PFloat (if neg then - scale10 x k else scale10 x k))
              | _ \<Rightarrow> None)"

definition py_float :: "pyval \<Rightarrow> py_error + pyval" where
  "py_float v =
     (case v of
        PBool b \<Rightarrow> Inr (PFloat (if b then 1 else 0))
      | PInt n \<Rightarrow> Inr (PFloat (of_int n))
      | PFloat r \<Rightarrow> Inr v
      | PInf neg \<Rightarrow> Inr v
      | PNan \<Rightarrow> Inr v
      | PStr s \<Rightarrow> (case parse_float s of Some x \<Rightarrow> Inr x | None \<Rightarrow> Inl ValueError)
      | _ \<Rightarrow> Inl TypeError)"

text \<open>
  \<open>repr\<close> of a float whose value is a decimal of at most 17 places: positional between \<open>1e-4\<close> and
  \<open>1e16\<close>, scientific outside.
\<close>

fun decimals :: "nat \<Rightarrow> rat \<Rightarrow> nat" where
  "decimals 0 r = 0"
| "decimals (Suc fuel) r = (if r = of_int \<lfloor>r\<rfloor> then 0 else Suc (decimals fuel (r * 10)))"

definition pad_left :: "nat \<Rightarrow> string \<Rightarrow> string" where
  "pad_left n s = replicate (n - length s) (CHR ''0'') @ s"

definition show_positional :: "rat \<Rightarrow> string" where
  "show_positional r =
     (let k = max 1 (decimals 340 r); ds = pad_left (k + 1) (digits_of (nat \<lfloor>r * 10 ^ k\<rfloor>))
      in take (length ds - k) ds @ ''.'' @ drop (length ds - k) ds)"

fun exponent10 :: "nat \<Rightarrow> rat \<Rightarrow> int" where
  "exponent10 0 r = 0"
| "exponent10 (Suc fuel) r =
     (if 10 \<le> r then 1 + exponent10 fuel (r / 10) else if r < 1 then -1 + exponent10 fuel (r * 10) else 0)"

definition show_scientific :: "rat \<Rightarrow> string" where
  "show_scientific r =
     (let e = exponent10 400 r; m = scale10 r (- e); k = decimals 340 m;
          ds = digits_of (nat \<lfloor>m * 10 ^ k\<rfloor>);
          body = (if k = 0 then ds else take 1 ds @ ''.'' @ drop 1 ds)
      in body @ ''e'' @ (if e < 0 then ''-'' else ''+'') @ pad_left 2 (digits_of (nat \<bar>e\<bar>)))"

definition show_float :: "rat \<Rightarrow> string" where
  "show_float r =
     (let a = \<bar>r\<bar>;
          body = (if a = 0 then ''0.0''
                  else if 1 / 10000 \<le> a \<and> a < 10 ^ 16 then show_positional a else show_scientific a)
      in if r < 0 then CHR ''-'' # body else body)"

definition hex_digit :: "nat \<Rightarrow> char" where
  "hex_digit n = (if n < 10 then char_of (48 + n) else char_of (87 + n))"

definition repr_char :: "char \<Rightarrow> char \<Rightarrow> string" where
  "repr_char quote_char c =
     (let n = of_char c :: nat in
      if c = quote_char \<or> n = 92 then [char_of (92 :: nat), c]
      else if n = 9 then [char_of (92 :: nat), CHR ''t'']
      else if n = 10 then [char_of (92 :: nat), CHR ''n'']
      else if n = 13 then [char_of (92 :: nat), CHR ''r'']
      else if n < 32 \<or> (127 \<le> n \<and> n \<le> 160) \<or> n = 173
      then [char_of (92 :: nat), CHR ''x'', hex_digit (n div 16), hex_digit (n mod 16)]
      else [c])"

definition repr_str :: "string \<Rightarrow> string" where
  "repr_str s =
     (let q = (if char_of (39 :: nat) \<in> set s \<and> char_of (34 :: nat) \<notin> set s
               then char_of (34 :: nat) else char_of (39 :: nat))
      in [q] @ concat (map (repr_char q) s) @ [q])"

fun py_repr :: "pyval \<Rightarrow> string"
  and repr_list :: "pyval list \<Rightarrow> string list"
  and repr_dict :: "pydict \<Rightarrow> string list" where
  "py_repr PNone = ''None''"
| "py_repr (PBool b) = (if b then ''True'' else ''False'')"
| "py_repr (PInt n) = show_int n"
| "py_repr (PFloat r) = show_float r"
| "py_repr (PInf neg) = (if neg then ''-inf'' else ''inf'')"
| "py_repr PNan = ''nan''"
| "py_repr (PStr s) = repr_str s"
| "py_repr (PList xs) = ''['' @ py_join '', '' (repr_list xs) @ '']''"
| "py_repr (PDict d) = ''{'' @ py_join '', '' (repr_dict d) @ ''}''"
| "repr_list [] = []"
| "repr_list (x # xs) = py_repr x # repr_list xs"
| "repr_dict [] = []"
| "repr_dict ((k, v) # d) = (repr_str k @ '': '' @ py_repr v) # repr_dict d"

definition py_str :: "pyval \<Rightarrow> string" where
  "py_str v = (case v of PStr s \<Rightarrow> s | _ \<Rightarrow> py_repr v)"

section \<open>Order and membership\<close>

fun str_less :: "string \<Rightarrow> string \<Rightarrow> bool" where
  "str_less s [] = False"
| "str_less [] (d # t) = True"
| "str_less (c # s) (d # t) =
     (if c = d then str_less s t else (of_char c :: nat) < of_char d)"

text \<open>The numeric position of a float or integer, \<open>None\<close> for NaN: -inf, finite, inf.\<close>

definition is_number :: "pyval \<Rightarrow> bool" where
  "is_number v = (case v of PInf _ \<Rightarrow> True | PNan \<Rightarrow> True | _ \<Rightarrow> py_number v \<noteq> None)"

definition num_less :: "pyval \<Rightarrow> pyval \<Rightarrow> bool" where
  "num_less v w =
     (case (v, w) of
        (PNan, _) \<Rightarrow> False
      | (_, PNan) \<Rightarrow> False
      | (PInf a, PInf b) \<Rightarrow> a \<and> \<not> b
      | (PInf a, _) \<Rightarrow> a
      | (_, PInf b) \<Rightarrow> \<not> b
      | _ \<Rightarrow> (case (py_number v, py_number w) of (Some x, Some y) \<Rightarrow> x < y | _ \<Rightarrow> False))"

text \<open>\<open>v < w\<close>, \<open>None\<close> for a \<open>TypeError\<close>; lists compare at the first unequal position.\<close>

fun py_less :: "pyval \<Rightarrow> pyval \<Rightarrow> bool option"
  and py_less_list :: "pyval list \<Rightarrow> pyval list \<Rightarrow> bool option" where
  "py_less (PStr s) w = (case w of PStr t \<Rightarrow> Some (str_less s t) | _ \<Rightarrow> None)"
| "py_less (PList xs) w = (case w of PList ys \<Rightarrow> py_less_list xs ys | _ \<Rightarrow> None)"
| "py_less v w = (if is_number v \<and> is_number w then Some (num_less v w) else None)"
| "py_less_list xs [] = Some False"
| "py_less_list [] (y # ys) = Some True"
| "py_less_list (x # xs) (y # ys) = (if py_eq x y then py_less_list xs ys else py_less x y)"

text \<open>\<open>v <= w\<close>: on lists the first unequal pair decides, with \<open><=\<close>.\<close>

fun py_le :: "pyval \<Rightarrow> pyval \<Rightarrow> bool option"
  and py_le_list :: "pyval list \<Rightarrow> pyval list \<Rightarrow> bool option" where
  "py_le (PStr s) w = (case w of PStr t \<Rightarrow> Some (s = t \<or> str_less s t) | _ \<Rightarrow> None)"
| "py_le (PList xs) w = (case w of PList ys \<Rightarrow> py_le_list xs ys | _ \<Rightarrow> None)"
| "py_le v w = (if is_number v \<and> is_number w then Some (py_eq v w \<or> num_less v w) else None)"
| "py_le_list [] ys = Some True"
| "py_le_list (x # xs) [] = Some False"
| "py_le_list (x # xs) (y # ys) = (if py_eq x y then py_le_list xs ys else py_le x y)"

definition py_in :: "pyval \<Rightarrow> pyval list \<Rightarrow> bool" where
  "py_in v xs = list_ex (\<lambda>x. py_eq x v) xs"

section \<open>Conditions\<close>

record condition =
  cd_variable :: string
  cd_operator :: string
  cd_value :: pyval

record expression_group =
  eg_logic :: "string option"
  eg_conditions :: "condition list"

datatype variable_type = STRING | NUMBER | BOOLEAN

type_synonym variable_types = "(string \<times> string) list"

fun resolve_path :: "string list \<Rightarrow> pyval \<Rightarrow> pyval option" where
  "resolve_path [] v = Some v"
| "resolve_path (seg # segs) (PDict d) =
     (case map_of d seg of None \<Rightarrow> None | Some v \<Rightarrow> resolve_path segs v)"
| "resolve_path (seg # segs) v = None"

text \<open>\<open>None\<close> is the code's \<open>_MISSING\<close>.\<close>

definition resolve_variable :: "pydict \<Rightarrow> string \<Rightarrow> pyval option" where
  "resolve_variable context path = resolve_path (py_split_on (CHR ''.'') path) (PDict context)"

definition TRUE_TOKENS :: "string list" where "TRUE_TOKENS = [''true'', ''1'', ''yes'']"
definition FALSE_TOKENS :: "string list" where "FALSE_TOKENS = [''false'', ''0'', ''no'']"

definition bool_token :: "string \<Rightarrow> string" where
  "bool_token s = py_lower (py_strip s)"

definition is_bool_like :: "pyval \<Rightarrow> bool" where
  "is_bool_like v =
     (case v of PBool _ \<Rightarrow> True
      | PStr s \<Rightarrow> bool_token s \<in> set (TRUE_TOKENS @ FALSE_TOKENS)
      | _ \<Rightarrow> False)"

definition to_bool :: "pyval \<Rightarrow> py_error + bool" where
  "to_bool v =
     (case v of
        PBool b \<Rightarrow> Inr b
      | PInt n \<Rightarrow> Inr (n \<noteq> 0)
      | PFloat r \<Rightarrow> Inr (r \<noteq> 0)
      | PInf _ \<Rightarrow> Inr True
      | PNan \<Rightarrow> Inr True
      | PStr s \<Rightarrow> (if bool_token s \<in> set TRUE_TOKENS then Inr True
                   else if bool_token s \<in> set FALSE_TOKENS then Inr False else Inl ValueError)
      | _ \<Rightarrow> Inl ValueError)"

definition coerce_value :: "pyval \<Rightarrow> variable_type \<Rightarrow> py_error + pyval" where
  "coerce_value v t =
     (case t of
        STRING \<Rightarrow> Inr (PStr (py_str v))
      | NUMBER \<Rightarrow> py_float v
      | BOOLEAN \<Rightarrow> map_sum id PBool (to_bool v))"

definition variable_type_of :: "string \<Rightarrow> variable_type option" where
  "variable_type_of s =
     (if s = ''string'' then Some STRING else if s = ''number'' then Some NUMBER
      else if s = ''boolean'' then Some BOOLEAN else None)"

definition resolve_declared_type :: "string \<Rightarrow> variable_types \<Rightarrow> variable_type option" where
  "resolve_declared_type variable types =
     (case map_of types variable of None \<Rightarrow> None | Some raw \<Rightarrow> variable_type_of raw)"

definition comparison_ops :: "string list" where
  "comparison_ops = [''eq'', ''neq'', ''gt'', ''gte'', ''lt'', ''lte'']"

text \<open>The type of a value, for \<open>type(actual) is type(expected)\<close>.\<close>

fun same_type :: "pyval \<Rightarrow> pyval \<Rightarrow> bool" where
  "same_type PNone w = (w = PNone)"
| "same_type (PBool _) w = (case w of PBool _ \<Rightarrow> True | _ \<Rightarrow> False)"
| "same_type (PInt _) w = (case w of PInt _ \<Rightarrow> True | _ \<Rightarrow> False)"
| "same_type (PStr _) w = (case w of PStr _ \<Rightarrow> True | _ \<Rightarrow> False)"
| "same_type (PList _) w = (case w of PList _ \<Rightarrow> True | _ \<Rightarrow> False)"
| "same_type (PDict _) w = (case w of PDict _ \<Rightarrow> True | _ \<Rightarrow> False)"
| "same_type v w = (case w of PFloat _ \<Rightarrow> True | PInf _ \<Rightarrow> True | PNan \<Rightarrow> True | _ \<Rightarrow> False)"

definition scalar :: "pyval \<Rightarrow> bool" where
  "scalar v = (is_number v \<or> (case v of PStr _ \<Rightarrow> True | _ \<Rightarrow> False))"

fun coerce_all :: "pyval list \<Rightarrow> variable_type \<Rightarrow> py_error + pyval list" where
  "coerce_all [] t = Inr []"
| "coerce_all (x # xs) t =
     (case coerce_value x t of
        Inl e \<Rightarrow> Inl e
      | Inr y \<Rightarrow> (case coerce_all xs t of Inl e \<Rightarrow> Inl e | Inr ys \<Rightarrow> Inr (y # ys)))"

definition coerce_expected :: "pyval \<Rightarrow> variable_type \<Rightarrow> py_error + pyval" where
  "coerce_expected expected t =
     (case expected of
        PList xs \<Rightarrow> map_sum id PList (coerce_all xs t)
      | PNone \<Rightarrow> Inr PNone
      | _ \<Rightarrow> coerce_value expected t)"

definition coerce_operands ::
  "pyval \<Rightarrow> pyval \<Rightarrow> string \<Rightarrow> variable_type option \<Rightarrow> py_error + pyval \<times> pyval" where
  "coerce_operands actual expected operator declared =
     (case declared of
        Some t \<Rightarrow>
          (case coerce_value actual t of
             Inl e \<Rightarrow> Inl e
           | Inr a \<Rightarrow> (case coerce_expected expected t of Inl e \<Rightarrow> Inl e | Inr x \<Rightarrow> Inr (a, x)))
      | None \<Rightarrow>
          (if operator \<notin> set comparison_ops then Inr (actual, expected)
           else if same_type actual expected then Inr (actual, expected)
           else if (case expected of PBool _ \<Rightarrow> True | _ \<Rightarrow> False) \<and> is_bool_like actual
           then map_sum id (\<lambda>b. (PBool b, expected)) (to_bool actual)
           else if scalar actual \<and> scalar expected
           then (case (py_float actual, py_float expected) of
                   (Inr a, Inr x) \<Rightarrow> Inr (a, x)
                 | _ \<Rightarrow> Inr (actual, expected))
           else Inr (actual, expected)))"

text \<open>A comparison that raises \<open>TypeError\<close> is false.\<close>

definition or_false :: "bool option \<Rightarrow> bool" where
  "or_false x = (x = Some True)"

definition apply_operator :: "string \<Rightarrow> pyval \<Rightarrow> pyval \<Rightarrow> bool" where
  "apply_operator operator actual expected =
     (if operator = ''eq'' then py_eq actual expected
      else if operator = ''neq'' then \<not> py_eq actual expected
      else if operator = ''gt'' then or_false (py_less expected actual)
      else if operator = ''gte'' then or_false (py_le expected actual)
      else if operator = ''lt'' then or_false (py_less actual expected)
      else if operator = ''lte'' then or_false (py_le actual expected)
      else if operator = ''in''
      then (case expected of PList xs \<Rightarrow> py_in actual xs | _ \<Rightarrow> False)
      else if operator = ''not_in''
      then (case expected of PList xs \<Rightarrow> \<not> py_in actual xs | _ \<Rightarrow> True)
      else if operator = ''contains''
      then (case (actual, expected) of
              (PStr s, PStr t) \<Rightarrow> py_contains t s
            | (PList xs, _) \<Rightarrow> py_in expected xs
            | _ \<Rightarrow> False)
      else False)"

definition evaluate_condition :: "condition \<Rightarrow> pydict \<Rightarrow> variable_types \<Rightarrow> bool" where
  "evaluate_condition c context types =
     (let actual = resolve_variable context (cd_variable c)
      in if cd_operator c = ''exists'' then actual \<noteq> None
         else if cd_operator c = ''not_exists'' then actual = None
         else case actual of
                None \<Rightarrow> False
              | Some a \<Rightarrow>
                  (case coerce_operands a (cd_value c) (cd_operator c)
                          (resolve_declared_type (cd_variable c) types) of
                     Inl e \<Rightarrow> False
                   | Inr (x, y) \<Rightarrow> apply_operator (cd_operator c) x y))"

definition evaluate_expression_group :: "expression_group \<Rightarrow> pydict \<Rightarrow> variable_types \<Rightarrow> bool" where
  "evaluate_expression_group g context types =
     (if eg_conditions g = [] then False
      else if eg_logic g = Some ''or''
      then list_ex (\<lambda>c. evaluate_condition c context types) (eg_conditions g)
      else list_all (\<lambda>c. evaluate_condition c context types) (eg_conditions g))"

section \<open>Edges\<close>

record graph_edge =
  ge_to_node_id :: string
  ge_condition_type :: "string option"
  ge_expression :: "expression_group option"
  ge_priority :: "int option"
  ge_event_name :: "string option"
  ge_condition :: "string option"
  ge_function_name :: "string option"
  ge_function_description :: "string option"
  ge_parameters :: "(string \<times> string) list"

definition evaluate_edge_expression :: "graph_edge \<Rightarrow> pydict \<Rightarrow> variable_types \<Rightarrow> bool" where
  "evaluate_edge_expression e context types =
     (if ge_condition_type e = Some ''unconditional'' then True
      else if ge_condition_type e \<noteq> Some ''expression'' then False
      else case ge_expression e of
             None \<Rightarrow> False
           | Some g \<Rightarrow> evaluate_expression_group g context types)"

definition type_name :: "variable_type \<Rightarrow> string" where
  "type_name t = (case t of STRING \<Rightarrow> ''string'' | NUMBER \<Rightarrow> ''number'' | BOOLEAN \<Rightarrow> ''boolean'')"

definition show_bool :: "bool \<Rightarrow> string" where
  "show_bool b = (if b then ''True'' else ''False'')"

definition describe_condition :: "condition \<Rightarrow> pydict \<Rightarrow> variable_types \<Rightarrow> string" where
  "describe_condition c context types =
     (let actual_repr = (case resolve_variable context (cd_variable c) of
                           None \<Rightarrow> ''<missing>'' | Some v \<Rightarrow> py_repr v);
          result = show_bool (evaluate_condition c context types);
          type_note = (case resolve_declared_type (cd_variable c) types of
                         None \<Rightarrow> [] | Some t \<Rightarrow> '', as '' @ type_name t)
      in if cd_operator c = ''exists'' \<or> cd_operator c = ''not_exists''
         then cd_variable c @ '' '' @ cd_operator c @ '' (actual='' @ actual_repr @ type_note @ '') -> '' @ result
         else cd_variable c @ '' '' @ cd_operator c @ '' '' @ py_repr (cd_value c) @
              '' (actual='' @ actual_repr @ type_note @ '') -> '' @ result)"

definition describe_edge_expression :: "graph_edge \<Rightarrow> pydict \<Rightarrow> variable_types \<Rightarrow> string" where
  "describe_edge_expression e context types =
     (if ge_condition_type e = Some ''unconditional'' then ''unconditional''
      else if ge_condition_type e \<noteq> Some ''expression''
      then (case ge_condition_type e of None \<Rightarrow> ''None'' | Some t \<Rightarrow> t) @ '' (non-deterministic)''
      else let conditions = (case ge_expression e of None \<Rightarrow> [] | Some g \<Rightarrow> eg_conditions g);
               logic = (case ge_expression e of None \<Rightarrow> None | Some g \<Rightarrow> eg_logic g)
           in if conditions = [] then ''expression (no conditions)''
              else py_join ('' '' @ py_upper (if truthy_str logic then or_empty logic else ''and'') @ '' '')
                     (map (\<lambda>c. describe_condition c context types) conditions))"

section \<open>Lemmas\<close>

lemma char_of_digit: "n < 10 \<Longrightarrow> (of_char (char_of (48 + n) :: char) :: nat) = 48 + n"
  by simp

lemma is_digit_of [simp]: "n < 10 \<Longrightarrow> is_digit (char_of (48 + n :: nat))"
  by (simp add: is_digit_def)

lemma digits_all: "list_all is_digit (digits_of n)"
proof (induction n rule: digits_of.induct)
  case (1 n)
  then show ?case by (subst digits_of.simps) auto
qed

lemma digits_ne [simp]: "digits_of n \<noteq> []"
  by (subst digits_of.simps) simp

lemma nat_of_digits_snoc: "nat_of_digits (s @ [c]) = 10 * nat_of_digits s + digit_val c"
  by (simp add: nat_of_digits_def)

lemma nat_of_digits_of: "nat_of_digits (digits_of n) = n"
proof (induction n rule: digits_of.induct)
  case (1 n)
  show ?case
  proof (cases "n < 10")
    case True
    then show ?thesis by (subst digits_of.simps) (simp add: nat_of_digits_def digit_val_def)
  next
    case False
    then have "nat_of_digits (digits_of n) = 10 * nat_of_digits (digits_of (n div 10)) + n mod 10"
      by (subst digits_of.simps) (simp add: nat_of_digits_snoc digit_val_def)
    with 1 False show ?thesis by simp
  qed
qed

lemma digit_chars:
  assumes "is_digit c"
  shows "\<not> py_isspace c" "py_lower_char c = c" "c \<noteq> CHR ''-''" "c \<noteq> CHR ''+''" "c \<noteq> CHR ''e''"
    "c \<noteq> CHR ''.''" "c \<noteq> CHR ''i''" "c \<noteq> CHR ''n''" "c \<noteq> CHR ''_''"
  using assms by (auto simp: is_digit_def py_isspace_def py_lower_char_def Let_def)

lemma strip_no_space: "list_all (\<lambda>c. \<not> py_isspace c) s \<Longrightarrow> py_strip s = s"
proof -
  assume a: "list_all (\<lambda>c. \<not> py_isspace c) s"
  then have "dropWhile py_isspace s = s" by (cases s) auto
  moreover have "list_all (\<lambda>c. \<not> py_isspace c) (rev s)" using a by simp
  then have "dropWhile py_isspace (rev s) = rev s" by (cases "rev s") auto
  ultimately show ?thesis by (simp add: py_strip_def py_lstrip_def py_rstrip_def)
qed

lemma lower_digits: "list_all is_digit s \<Longrightarrow> py_lower s = s"
  by (induction s) (auto simp: py_lower_def digit_chars)

lemma underscores_digits: "list_all is_digit s \<Longrightarrow> underscores_ok s"
  by (induction s rule: underscores_ok.induct) (auto simp: digit_chars)

lemma split_at_absent: "c \<notin> set s \<Longrightarrow> split_at c s = (s, None)"
proof -
  assume "c \<notin> set s"
  then have "takeWhile (\<lambda>x. x \<noteq> c) s = s" by (induction s) auto
  then show ?thesis by (simp only: split_at_def Let_def less_irrefl if_False)
qed

lemma parse_digits:
  assumes "list_all is_digit d" "d \<noteq> []"
  shows "parse_mantissa d = Some (of_nat (nat_of_digits d))" "split_at (CHR ''e'') d = (d, None)"
proof -
  have no: "CHR ''.'' \<notin> set d" "CHR ''e'' \<notin> set d"
    using assms(1) by (auto simp: list_all_iff is_digit_def)
  have "filter is_digit d = d" using assms(1) by (simp add: list_all_iff)
  then show "parse_mantissa d = Some (of_nat (nat_of_digits d))"
    using assms by (simp add: parse_mantissa_def split_at_absent no digit_part_def underscores_digits)
  show "split_at (CHR ''e'') d = (d, None)" by (rule split_at_absent [OF no(2)])
qed

lemma parse_float_digits:
  assumes "list_all is_digit d" "d \<noteq> []"
  shows "parse_float d = Some (PFloat (of_nat (nat_of_digits d)))"
    and "parse_float (CHR ''-'' # d) = Some (PFloat (- of_nat (nat_of_digits d)))"
proof -
  obtain c r where d: "d = c # r" using assms(2) by (cases d) auto
  have c: "is_digit c" using assms(1) by (simp add: d)
  have ns: "list_all (\<lambda>c. \<not> py_isspace c) d" using assms(1) by (auto simp: list_all_iff digit_chars)
  have minus: "\<not> py_isspace (CHR ''-'')" "py_lower_char (CHR ''-'') = CHR ''-''"
    by (simp_all add: py_isspace_def py_lower_char_def)
  have norm: "py_lower (py_strip d) = d" "py_lower (py_strip (CHR ''-'' # d)) = CHR ''-'' # d"
    using ns minus lower_digits [OF assms(1)] by (simp_all add: strip_no_space py_lower_def)
  have ni: "d \<noteq> ''inf''" "d \<noteq> ''infinity''" "d \<noteq> ''nan''" using c digit_chars [OF c] by (auto simp: d)
  have sign: "split_sign d = (False, d)" "split_sign (CHR ''-'' # d) = (True, d)"
    using digit_chars [OF c] by (simp_all add: split_sign_def d)
  show "parse_float d = Some (PFloat (of_nat (nat_of_digits d)))"
    "parse_float (CHR ''-'' # d) = Some (PFloat (- of_nat (nat_of_digits d)))"
    using ni by (simp_all add: parse_float_def norm sign parse_digits [OF assms] parse_exponent_def scale10_def)
qed

text \<open>
  The decimal text of an integer reads back as that integer, so a context
  value that arrives as text compares with a number as the number it spells, whether the type is
  declared or inferred.
\<close>

theorem number_text_roundtrip:
  "parse_float (show_int n) = Some (PFloat (of_int n)) \<and>
   py_float (PStr (py_str (PInt n))) = py_float (PInt n) \<and>
   evaluate_condition \<lparr>cd_variable = ''x'', cd_operator = ''eq'', cd_value = PInt n\<rparr>
     [(''x'', PStr (py_str (PInt n)))] []"
proof -
  have p: "parse_float (show_int n) = Some (PFloat (of_int n))"
    using parse_float_digits [OF digits_all digits_ne, of "nat n"]
      parse_float_digits [OF digits_all digits_ne, of "nat (- n)"]
    by (auto simp: show_int_def nat_of_digits_of)
  have r: "resolve_variable [(''x'', v)] ''x'' = Some v" for v
    by (simp add: resolve_variable_def)
  show ?thesis
    using p by (simp add: py_float_def py_str_def evaluate_condition_def r resolve_declared_type_def
        coerce_operands_def comparison_ops_def scalar_def is_number_def apply_operator_def)
qed

definition comparable :: "condition \<Rightarrow> string \<Rightarrow> pydict \<Rightarrow> variable_types \<Rightarrow> bool" where
  "comparable c operator context types =
     (case resolve_variable context (cd_variable c) of
        None \<Rightarrow> False
      | Some a \<Rightarrow> \<not> isl (coerce_operands a (cd_value c) operator
                           (resolve_declared_type (cd_variable c) types)))"

lemma coerce_operator_irrelevant:
  "coerce_operands a x ''neq'' t = coerce_operands a x ''eq'' t"
  "coerce_operands a x ''not_in'' t = coerce_operands a x ''in'' t"
  by (simp_all add: coerce_operands_def comparison_ops_def)

lemma opposite_apply:
  "apply_operator ''neq'' x y = (\<not> apply_operator ''eq'' x y)"
  "apply_operator ''not_in'' x y = (\<not> apply_operator ''in'' x y)"
  by (simp_all add: apply_operator_def split: pyval.splits)

text \<open>
  Opposite operators answer oppositely whenever the operands can be brought
  into one domain, and both answer no when the variable is missing or cannot be coerced;
  \<open>exists\<close> and \<open>not_exists\<close> are always opposite.
\<close>

theorem opposite_operators:
  "let ev = (\<lambda>operator. evaluate_condition (c\<lparr>cd_operator := operator\<rparr>) context types) in
   ev ''neq'' = (comparable c ''eq'' context types \<and> \<not> ev ''eq'') \<and>
   ev ''not_in'' = (comparable c ''in'' context types \<and> \<not> ev ''in'') \<and>
   ev ''not_exists'' = (\<not> ev ''exists'')"
  by (cases "resolve_variable context (cd_variable c)")
     (auto simp: evaluate_condition_def comparable_def coerce_operator_irrelevant opposite_apply
       split: sum.splits)

text \<open>
  On a variable declared a number whose operands both read as finite numbers,
  from numbers or from text, the six comparison operators are the order of the rationals.
\<close>

theorem numeric_operators:
  assumes "resolve_variable context (cd_variable c) = Some a"
    and "resolve_declared_type (cd_variable c) types = Some NUMBER"
    and "py_float a = Inr (PFloat x)" "py_float (cd_value c) = Inr (PFloat y)"
  shows "let ev = (\<lambda>operator. evaluate_condition (c\<lparr>cd_operator := operator\<rparr>) context types) in
    (ev ''eq'' \<longleftrightarrow> x = y) \<and> (ev ''neq'' \<longleftrightarrow> x \<noteq> y) \<and> (ev ''lt'' \<longleftrightarrow> x < y) \<and>
    (ev ''lte'' \<longleftrightarrow> x \<le> y) \<and> (ev ''gt'' \<longleftrightarrow> y < x) \<and> (ev ''gte'' \<longleftrightarrow> y \<le> x)"
proof -
  have coerced: "coerce_operands a (cd_value c) operator (Some NUMBER) = Inr (PFloat x, PFloat y)" for operator
    using assms(3,4)
    by (cases "cd_value c") (simp_all add: coerce_operands_def coerce_value_def coerce_expected_def py_float_def)
  show ?thesis
    by (auto simp: evaluate_condition_def assms(1,2) coerced apply_operator_def or_false_def
        is_number_def num_less_def)
qed

theorem numeric_operators_witness:
  "evaluate_condition \<lparr>cd_variable = ''age'', cd_operator = ''lt'', cd_value = PInt 20\<rparr>
     [(''age'', PStr ''19.5'')] [(''age'', ''number'')]"
proof -
  have "py_float (PStr ''19.5'') = Inr (PFloat (39 / 2))" by code_simp
  moreover have "resolve_variable [(''age'', PStr ''19.5'')] ''age'' = Some (PStr ''19.5'')" by code_simp
  moreover have "resolve_declared_type ''age'' [(''age'', ''number'')] = Some NUMBER" by code_simp
  ultimately show ?thesis
    using numeric_operators [of "[(''age'', PStr ''19.5'')]"
        "\<lparr>cd_variable = ''age'', cd_operator = ''lt'', cd_value = PInt 20\<rparr>" "PStr ''19.5''"
        "[(''age'', ''number'')]" "39 / 2" 20]
    by (simp add: py_float_def)
qed

end
