(* ===== verification/Templates.thy ===== *)
theory Templates
  imports Expression
begin

text \<open>
  Prompt templates, from \<open>voiceai/helpers/utils.py\<close>: the token pattern, the walk of a dotted
  or indexed path, \<open>render_prompt\<close>, \<open>update_prompt_with_context\<close>, the time variables and the
  choice of a message by language.

  The regular expression \<open>PROMPT_TOKEN_PATTERN\<close> is a scanner: no character a shorter
  \<open>VARIABLE_PATH\<close> could stop before is a space, a colon or a closing brace, so the longest
  path is the only one that can be followed by the rest of the pattern, and backtracking never
  changes the result. \<open>json.loads\<close> and \<open>format(value, spec)\<close> are the fields of a record
  \<open>text_lib\<close>; the clock reading of a time zone is an argument.
\<close>

section \<open>Tokens\<close>

definition is_alpha :: "char \<Rightarrow> bool" where
  "is_alpha c = (let n = of_char c :: nat in (65 \<le> n \<and> n \<le> 90) \<or> (97 \<le> n \<and> n \<le> 122))"

definition ident_start :: "char \<Rightarrow> bool" where
  "ident_start c = (is_alpha c \<or> c = CHR ''_'')"

definition ident_char :: "char \<Rightarrow> bool" where
  "ident_char c = (ident_start c \<or> is_digit c)"

definition segment_char :: "char \<Rightarrow> bool" where
  "segment_char c = (ident_char c \<or> c = CHR ''-'')"

definition bracket_char :: "char \<Rightarrow> bool" where
  "bracket_char c = (c \<notin> {CHR ''['', CHR '']'', CHR ''{'', CHR ''}''})"

text \<open>The longest path at the start of a string, and what follows it.\<close>

function path_tail :: "(char \<Rightarrow> bool) \<Rightarrow> string \<Rightarrow> string \<times> string" where
  "path_tail seg [] = ([], [])"
| "path_tail seg (c # s) =
     (if c = CHR ''.'' \<and> takeWhile seg s \<noteq> [] then
        (let (p, rest) = path_tail seg (dropWhile seg s)
         in (c # takeWhile seg s @ p, rest))
      else if c = CHR ''['' \<and> takeWhile bracket_char s \<noteq> [] then
        (case dropWhile bracket_char s of
           [] \<Rightarrow> ([], c # s)
         | d # r \<Rightarrow>
             if d = CHR '']''
             then (let (p, rest) = path_tail seg r in (c # takeWhile bracket_char s @ d # p, rest))
             else ([], c # s))
      else ([], c # s))"
  by pat_completeness auto

lemma dropWhile_shorter: "dropWhile P s = d # r \<Longrightarrow> length r < length s"
  using length_dropWhile_le [of P s] by simp

termination path_tail
  by (relation "measure (\<lambda>(seg, s). length s)") (auto simp: le_imp_less_Suc length_dropWhile_le dest: dropWhile_shorter)

definition variable_path :: "string \<Rightarrow> (string \<times> string) option" where
  "variable_path s =
     (case s of
        [] \<Rightarrow> None
      | c # r \<Rightarrow>
          if ident_start c
          then (let (p, rest) = path_tail segment_char (dropWhile ident_char r)
                in Some (c # takeWhile ident_char r @ p, rest))
          else None)"

datatype token = Double string | Single string "string option"

definition match_double :: "string \<Rightarrow> (token \<times> string) option" where
  "match_double s =
     (if prefix ''{{'' s then
        (case variable_path (dropWhile py_isspace (drop 2 s)) of
           None \<Rightarrow> None
         | Some (p, rest) \<Rightarrow>
             (let r = dropWhile py_isspace rest
              in if prefix ''}}'' r then Some (Double p, drop 2 r) else None))
      else None)"

definition match_single :: "string \<Rightarrow> (token \<times> string) option" where
  "match_single s =
     (if prefix ''{'' s then
        (case variable_path (drop 1 s) of
           None \<Rightarrow> None
         | Some (p, rest) \<Rightarrow>
             (case rest of
                [] \<Rightarrow> None
              | c # r \<Rightarrow>
                  if c = CHR ''}'' then Some (Single p None, r)
                  else if c = CHR '':'' then
                    (let spec = takeWhile (\<lambda>x. x \<noteq> CHR ''{'' \<and> x \<noteq> CHR ''}'') r;
                         after = dropWhile (\<lambda>x. x \<noteq> CHR ''{'' \<and> x \<noteq> CHR ''}'') r
                     in if prefix ''}'' after then Some (Single p (Some (c # spec)), drop 1 after) else None)
                  else None))
      else None)"

definition match_token :: "string \<Rightarrow> (token \<times> string) option" where
  "match_token s = (case match_double s of Some x \<Rightarrow> Some x | None \<Rightarrow> match_single s)"

section \<open>Values\<close>

record text_lib =
  json_loads :: "string \<Rightarrow> pyval option"
  format_spec :: "pyval \<Rightarrow> string \<Rightarrow> string option"

definition parse_json_container :: "text_lib \<Rightarrow> pyval \<Rightarrow> pyval" where
  "parse_json_container lib v =
     (case v of
        PStr s \<Rightarrow>
          (let trimmed = py_strip s
           in if \<not> prefix ''{'' trimmed \<and> \<not> prefix ''['' trimmed then v
              else case json_loads lib trimmed of
                     Some (PDict d) \<Rightarrow> PDict d
                   | Some (PList xs) \<Rightarrow> PList xs
                   | _ \<Rightarrow> v)
      | _ \<Rightarrow> v)"

text \<open>
  \<open>str.isdigit\<close> also accepts the three superscript digits of Latin-1, which \<open>int\<close> rejects,
  as it rejects two leading minus signs and more than 4300 digits.
\<close>

definition py_isdigit :: "string \<Rightarrow> bool" where
  "py_isdigit s = (s \<noteq> [] \<and> list_all (\<lambda>c. is_digit c \<or> (of_char c :: nat) \<in> {178, 179, 185}) s)"

definition int_of_text :: "string \<Rightarrow> py_error + int" where
  "int_of_text s =
     (let digits = (if prefix ''-'' s then drop 1 s else s)
      in if digits = [] \<or> \<not> list_all is_digit digits \<or> 4300 < length digits then Inl ValueError
         else Inr (if prefix ''-'' s then - int (nat_of_digits digits) else int (nat_of_digits digits)))"

definition path_parts :: "string \<Rightarrow> string list" where
  "path_parts path =
     py_split_on CHR ''.''
       (filter (\<lambda>c. c \<noteq> CHR '']'') (map (\<lambda>c. if c = CHR ''['' then CHR ''.'' else c) path))"

fun walk_path :: "text_lib \<Rightarrow> string list \<Rightarrow> pyval \<Rightarrow> py_error + pyval option" where
  "walk_path lib [] v = Inr (Some v)"
| "walk_path lib (p # ps) v =
     (if p = [] then walk_path lib ps v
      else case parse_json_container lib v of
             PDict d \<Rightarrow> (case map_of d p of None \<Rightarrow> Inr None | Some w \<Rightarrow> walk_path lib ps w)
           | PList xs \<Rightarrow>
               (if \<not> py_isdigit (dropWhile (\<lambda>c. c = CHR ''-'') p) then Inr None
                else case int_of_text p of
                       Inl e \<Rightarrow> Inl e
                     | Inr i \<Rightarrow>
                         if - int (length xs) \<le> i \<and> i < int (length xs)
                         then walk_path lib ps (xs ! nat (if i < 0 then i + int (length xs) else i))
                         else Inr None)
           | _ \<Rightarrow> Inr None)"

definition resolve_variable_path :: "text_lib \<Rightarrow> string \<Rightarrow> pydict \<Rightarrow> py_error + pyval option" where
  "resolve_variable_path lib path d = walk_path lib (path_parts path) (PDict d)"

text \<open>\<open>json.dumps(value, ensure_ascii=False)\<close>.\<close>

definition json_char :: "char \<Rightarrow> string" where
  "json_char c = (let n = of_char c :: nat in
     if c = CHR 0x22 then [CHR 0x5C, CHR 0x22]
     else if c = CHR 0x5C then [CHR 0x5C, CHR 0x5C]
     else if n = 10 then [CHR 0x5C, CHR ''n'']
     else if n = 13 then [CHR 0x5C, CHR ''r'']
     else if n = 9 then [CHR 0x5C, CHR ''t'']
     else if n = 12 then [CHR 0x5C, CHR ''f'']
     else if n = 8 then [CHR 0x5C, CHR ''b'']
     else if n < 32 then [CHR 0x5C, CHR ''u'', CHR ''0'', CHR ''0'', hex_digit (n div 16), hex_digit (n mod 16)]
     else [c])"

definition json_string :: "string \<Rightarrow> string" where
  "json_string s = [CHR 0x22] @ concat (map json_char s) @ [CHR 0x22]"

fun json_dumps :: "pyval \<Rightarrow> string"
  and json_items :: "pyval list \<Rightarrow> string list"
  and json_entries :: "pydict \<Rightarrow> string list" where
  "json_dumps PNone = ''null''"
| "json_dumps (PBool b) = (if b then ''true'' else ''false'')"
| "json_dumps (PInt n) = show_int n"
| "json_dumps (PFloat r) = show_float r"
| "json_dumps (PInf neg) = (if neg then ''-Infinity'' else ''Infinity'')"
| "json_dumps PNan = ''NaN''"
| "json_dumps (PStr s) = json_string s"
| "json_dumps (PList xs) = ''['' @ py_join '', '' (json_items xs) @ '']''"
| "json_dumps (PDict d) = ''{'' @ py_join '', '' (json_entries d) @ ''}''"
| "json_items [] = []"
| "json_items (v # vs) = json_dumps v # json_items vs"
| "json_entries [] = []"
| "json_entries ((k, v) # d) = (json_string k @ '': '' @ json_dumps v) # json_entries d"

definition render_variable_value :: "pyval \<Rightarrow> bool \<Rightarrow> string" where
  "render_variable_value v as_json =
     (case v of
        PStr s \<Rightarrow> s
      | PDict d \<Rightarrow> if as_json then json_dumps v else py_str v
      | PList xs \<Rightarrow> if as_json then json_dumps v else py_str v
      | _ \<Rightarrow> py_str v)"

section \<open>Rendering\<close>

fun token_path :: "token \<Rightarrow> string" where
  "token_path (Double p) = p"
| "token_path (Single p spec) = p"

fun token_spec :: "token \<Rightarrow> string option" where
  "token_spec (Double p) = None"
| "token_spec (Single p spec) = spec"

fun is_double :: "token \<Rightarrow> bool" where
  "is_double (Double p) = True"
| "is_double (Single p spec) = False"

definition substitute :: "text_lib \<Rightarrow> pydict \<Rightarrow> string option \<Rightarrow> token \<Rightarrow> string \<Rightarrow> py_error + string" where
  "substitute lib d missing tok matched =
     (case resolve_variable_path lib (token_path tok) d of
        Inl e \<Rightarrow> Inl e
      | Inr None \<Rightarrow>
          (case missing of
             None \<Rightarrow> Inr matched
           | Some m \<Rightarrow>
               if token_spec tok \<noteq> None then Inr matched
               else if is_double tok then Inr (''{'' @ token_path tok @ ''}'') else Inr m)
      | Inr (Some v) \<Rightarrow>
          (case token_spec tok of
             Some spec \<Rightarrow>
               if missing = None then Inr matched
               else (case format_spec lib v (drop 1 spec) of None \<Rightarrow> Inr matched | Some t \<Rightarrow> Inr t)
           | None \<Rightarrow> Inr (render_variable_value v (is_double tok))))"

lemma dropWhile_eq: "dropWhile P s = r \<Longrightarrow> s = takeWhile P s @ r"
  by auto

lemma path_tail_length: "path_tail seg s = (p, rest) \<Longrightarrow> s = p @ rest"
proof (induction seg s arbitrary: p rest rule: path_tail.induct)
  case (2 seg c s)
  show ?case
  proof (cases "c = CHR ''.'' \<and> takeWhile seg s \<noteq> []")
    case True
    obtain q r where q: "path_tail seg (dropWhile seg s) = (q, r)" by fastforce
    from 2(1) [OF True this] have s: "s = takeWhile seg s @ q @ r" by (rule dropWhile_eq)
    from "2.prems" True q have "p = c # takeWhile seg s @ q" and "r = rest" by auto
    then have "p @ rest = c # (takeWhile seg s @ q @ r)" by simp
    also have "\<dots> = c # s" using s by (rule arg_cong [OF sym])
    finally show ?thesis by (rule sym)
  next
    case no_dot: False
    show ?thesis
    proof (cases "c = CHR ''['' \<and> takeWhile bracket_char s \<noteq> []")
      case True
      show ?thesis
      proof (cases "dropWhile bracket_char s")
        case Nil
        from "2.prems" have "([], c # s) = (p, rest)"
          unfolding path_tail.simps if_not_P [OF no_dot] if_P [OF True] Nil by simp
        then show ?thesis by simp
      next
        case (Cons d r)
        show ?thesis
        proof (cases "d = CHR '']''")
          case d: True
          obtain q t where q: "path_tail seg r = (q, t)" by fastforce
          from "2.prems" have p: "p = c # takeWhile bracket_char s @ d # q" and t: "rest = t"
            unfolding path_tail.simps if_not_P [OF no_dot] if_P [OF True] Cons list.case if_P [OF d]
            by (simp_all add: q)
          from Cons "2.IH"(2) [OF no_dot True Cons d q]
          have s: "s = takeWhile bracket_char s @ d # q @ t" by (metis dropWhile_eq)
          have "p @ rest = c # (takeWhile bracket_char s @ d # q @ t)" using p t by simp
          also have "\<dots> = c # s" using s by (rule arg_cong [OF sym])
          finally show ?thesis by (rule sym)
        next
          case d: False
          from "2.prems" have "([], c # s) = (p, rest)"
            unfolding path_tail.simps if_not_P [OF no_dot] if_P [OF True] Cons list.case if_not_P [OF d]
            by simp
          then show ?thesis by simp
        qed
      qed
    next
      case False
      then show ?thesis using "2.prems" no_dot by (simp only: path_tail.simps if_False) simp
    qed
  qed
qed simp

lemma variable_path_split:
  assumes "variable_path s = Some (p, rest)"
  shows "s = p @ rest" and "p \<noteq> []" and "ident_start (hd p)"
proof -
  obtain c r q where s: "s = c # r" and c: "ident_start c"
    and q: "path_tail segment_char (dropWhile ident_char r) = (q, rest)" and p: "p = c # takeWhile ident_char r @ q"
    using assms by (auto simp: variable_path_def split: list.splits if_splits prod.splits)
  from path_tail_length [OF q] have r: "r = takeWhile ident_char r @ q @ rest" by (rule dropWhile_eq)
  have "p @ rest = c # (takeWhile ident_char r @ q @ rest)" using p by simp
  also have "\<dots> = c # r" using r by (rule arg_cong [OF sym])
  finally show "s = p @ rest" using s by simp
  from p c show "p \<noteq> []" "ident_start (hd p)" by simp_all
qed

lemma match_double_shorter: "match_double s = Some (t, rest) \<Longrightarrow> length rest < length s"
proof -
  assume m: "match_double s = Some (t, rest)"
  then obtain p r where p: "variable_path (dropWhile py_isspace (drop 2 s)) = Some (p, r)"
    and rest: "rest = drop 2 (dropWhile py_isspace r)" and s: "prefix ''{{'' s"
    by (auto simp: match_double_def Let_def split: if_splits option.splits prod.splits)
  have "length r < length (dropWhile py_isspace (drop 2 s))"
    using variable_path_split [OF p] by (metis length_append length_greater_0_conv less_add_same_cancel2)
  also have "\<dots> \<le> length s" using length_dropWhile_le [of py_isspace "drop 2 s"] by simp
  finally show ?thesis using rest length_dropWhile_le [of py_isspace r] by simp
qed

lemma match_single_shorter: "match_single s = Some (t, rest) \<Longrightarrow> length rest < length s"
proof -
  assume m: "match_single s = Some (t, rest)"
  then have s: "s \<noteq> []" by (auto simp: match_single_def)
  from m obtain p r where p: "variable_path (drop 1 s) = Some (p, r)"
    by (cases "variable_path (drop 1 s)") (auto simp: match_single_def split: if_splits)
  have "length rest \<le> length r"
    using m p length_dropWhile_le [of "\<lambda>x. x \<noteq> CHR ''{'' \<and> x \<noteq> CHR ''}''" "tl r"]
    by (auto simp: match_single_def Let_def split: if_splits list.splits)
  moreover have "length r \<le> length s - 1"
    using variable_path_split(1) [OF p] by (metis length_append length_drop le_add2)
  ultimately show ?thesis using s by (cases s) auto
qed

lemma match_token_shorter: "match_token s = Some (t, rest) \<Longrightarrow> length rest < length s"
  by (auto simp: match_token_def split: option.splits dest: match_double_shorter match_single_shorter)

function render_from :: "text_lib \<Rightarrow> pydict \<Rightarrow> string option \<Rightarrow> string \<Rightarrow> py_error + string" where
  "render_from lib d missing [] = Inr []"
| "render_from lib d missing (c # s) =
     (case match_token (c # s) of
        None \<Rightarrow>
          (case render_from lib d missing s of Inl e \<Rightarrow> Inl e | Inr t \<Rightarrow> Inr (c # t))
      | Some (tok, rest) \<Rightarrow>
          (case substitute lib d missing tok (take (length (c # s) - length rest) (c # s)) of
             Inl e \<Rightarrow> Inl e
           | Inr u \<Rightarrow>
               (case render_from lib d missing rest of Inl e \<Rightarrow> Inl e | Inr t \<Rightarrow> Inr (u @ t))))"
  by pat_completeness auto

termination render_from
  by (relation "measure (\<lambda>(lib, d, missing, s). length s)") (auto dest: match_token_shorter)

definition render_prompt :: "text_lib \<Rightarrow> string \<Rightarrow> pydict \<Rightarrow> string option \<Rightarrow> string" where
  "render_prompt lib template d missing =
     (if template = [] then template
      else case render_from lib d missing template of Inl e \<Rightarrow> template | Inr t \<Rightarrow> t)"

definition SERVER_OWNED_CALL_IDENTIFIERS :: "string list" where
  "SERVER_OWNED_CALL_IDENTIFIERS = [''call_sid'', ''stream_sid'']"

definition update_prompt_with_context :: "text_lib \<Rightarrow> string \<Rightarrow> pydict \<Rightarrow> string" where
  "update_prompt_with_context lib prompt context =
     (case dict_get context ''recipient_data'' of
        PDict r \<Rightarrow>
          render_prompt lib prompt
            (filter (\<lambda>(k, v). k \<notin> set SERVER_OWNED_CALL_IDENTIFIERS) r) (Some [])
      | _ \<Rightarrow> render_prompt lib prompt [] (Some []))"

section \<open>Time variables and languages\<close>

text \<open>
  The reading of the clock in a zone: the nine variables the code writes, or the exception of an
  unknown zone or of a value that is no zone.
\<close>

type_synonym clock = "pyval \<Rightarrow> py_error + pydict"

definition enrich_context_with_time_variables :: "clock \<Rightarrow> pydict \<Rightarrow> pyval \<Rightarrow> py_error + pydict" where
  "enrich_context_with_time_variables now context timezone =
     (case now timezone of
        Inl e \<Rightarrow> Inl e
      | Inr vars \<Rightarrow>
          (let context = (if map_of context ''recipient_data'' = None
                          then AList.update ''recipient_data'' (PDict []) context else context)
           in case dict_get context ''recipient_data'' of
                PDict r \<Rightarrow> Inr (AList.update ''recipient_data'' (PDict (dict_merge r vars)) context)
              | _ \<Rightarrow> Inr context))"

definition nonblank :: "string option \<Rightarrow> bool" where
  "nonblank x = (truthy_str x \<and> py_strip (or_empty x) \<noteq> [])"

datatype message_config = Text_Message string | Language_Messages "(string \<times> string option) list"

definition select_message_by_language :: "message_config option \<Rightarrow> string option \<Rightarrow> string" where
  "select_message_by_language config lang =
     (case config of
        None \<Rightarrow> []
      | Some (Text_Message s) \<Rightarrow> s
      | Some (Language_Messages m) \<Rightarrow>
          (let get = (\<lambda>k. case map_of m k of None \<Rightarrow> None | Some v \<Rightarrow> v);
               in_lang = (case lang of None \<Rightarrow> None | Some l \<Rightarrow> get l)
           in if nonblank in_lang then or_empty in_lang
              else if nonblank (get ''en'') then or_empty (get ''en'')
              else case find (\<lambda>(k, v). nonblank v) m of None \<Rightarrow> [] | Some (k, v) \<Rightarrow> or_empty v))"

definition has_non_english_variants :: "message_config \<Rightarrow> bool" where
  "has_non_english_variants config =
     (case config of
        Text_Message s \<Rightarrow> False
      | Language_Messages m \<Rightarrow> m \<noteq> [] \<and> (1 < length m \<or> map_of m ''en'' = None))"

section \<open>Lemmas\<close>

lemma match_token_brace: "c \<noteq> CHR ''{'' \<Longrightarrow> match_token (c # s) = None"
  by (simp add: match_token_def match_double_def match_single_def)

text \<open>Text before the first brace is copied.\<close>

lemma render_plain_prefix:
  assumes "CHR ''{'' \<notin> set pre"
  shows "render_from lib d missing (pre @ s) =
           (case render_from lib d missing s of Inl e \<Rightarrow> Inl e | Inr t \<Rightarrow> Inr (pre @ t))"
  using assms
proof (induction pre)
  case Nil
  then show ?case by (cases "render_from lib d missing s") simp_all
next
  case (Cons c pre)
  then have "match_token (c # pre @ s) = None" by (intro match_token_brace) auto
  with Cons show ?case by (cases "render_from lib d missing s") simp_all
qed

lemma render_plain:
  "CHR ''{'' \<notin> set s \<Longrightarrow> render_from lib d missing s = Inr s"
  using render_plain_prefix [of s lib d missing "[]"] by simp

definition plain_name :: "string \<Rightarrow> bool" where
  "plain_name n = (n \<noteq> [] \<and> ident_start (hd n) \<and> list_all ident_char n)"

lemma ident_char_plain:
  assumes "ident_char c"
  shows "c \<noteq> CHR ''.''" "c \<noteq> CHR ''[''" "c \<noteq> CHR '']''" "c \<noteq> CHR ''{''" "c \<noteq> CHR ''}''" "\<not> py_isspace c"
proof -
  have "\<not> ident_char c" if "c \<in> {CHR ''.'', CHR ''['', CHR '']'', CHR ''{'', CHR ''}''}"
    using that by (auto simp: ident_char_def ident_start_def is_alpha_def is_digit_def Let_def)
  with assms show "c \<noteq> CHR ''.''" "c \<noteq> CHR ''[''" "c \<noteq> CHR '']''" "c \<noteq> CHR ''{''" "c \<noteq> CHR ''}''"
    by blast+
  have nat: "48 \<le> (of_char c :: nat) \<and> (of_char c :: nat) \<le> 122"
    using assms by (auto simp: ident_char_def ident_start_def is_alpha_def is_digit_def Let_def)
  then show "\<not> py_isspace c" by (auto simp: py_isspace_def Let_def)
qed

lemma variable_path_identifier:
  assumes n: "plain_name n" and c: "\<not> ident_char c" "c \<noteq> CHR ''.''" "c \<noteq> CHR ''[''"
  shows "variable_path (n @ c # s) = Some (n, c # s)"
proof -
  from n obtain x xs where n': "n = x # xs" and x: "ident_start x" and xs: "list_all ident_char xs"
    by (cases n) (auto simp: plain_name_def)
  have "takeWhile ident_char (xs @ c # s) = xs" "dropWhile ident_char (xs @ c # s) = c # s"
    using xs c by (auto simp: list_all_iff takeWhile_append2 dropWhile_append2)
  then show ?thesis using x c by (simp add: variable_path_def n')
qed

lemma close_brace: "\<not> ident_char CHR ''}''"
  by (simp add: ident_char_def ident_start_def is_alpha_def is_digit_def)

lemma match_double_token:
  assumes n: "plain_name n"
  shows "match_token (''{{'' @ n @ ''}}'' @ s) = Some (Double n, s)"
proof -
  from n obtain x xs where n': "n = x # xs" and x: "ident_char x"
    by (cases n) (auto simp: plain_name_def)
  have "dropWhile py_isspace (n @ ''}}'' @ s) = n @ ''}}'' @ s"
    using ident_char_plain(6) [OF x] by (simp add: n')
  moreover have "variable_path (n @ ''}}'' @ s) = Some (n, ''}}'' @ s)"
    using variable_path_identifier [OF n close_brace, of "''}'' @ s"] by simp
  moreover have "\<not> py_isspace CHR ''}''" by (simp add: py_isspace_def)
  ultimately show ?thesis by (simp add: match_token_def match_double_def)
qed

lemma match_single_token:
  assumes n: "plain_name n"
  shows "match_token (''{'' @ n @ ''}'' @ s) = Some (Single n None, s)"
proof -
  from n obtain x xs where n': "n = x # xs" and x: "ident_char x"
    by (cases n) (auto simp: plain_name_def)
  have "match_double (''{'' @ n @ ''}'' @ s) = None"
    using ident_char_plain(4) [OF x] by (auto simp: match_double_def n')
  moreover have "variable_path (n @ ''}'' @ s) = Some (n, ''}'' @ s)"
    using variable_path_identifier [OF n close_brace, of s] by simp
  ultimately show ?thesis by (simp add: match_token_def match_single_def)
qed

lemma py_split_on_absent: "c \<notin> set s \<Longrightarrow> py_split_on c s = [s]"
  by (induction c s rule: py_split_on.induct) auto

lemma path_parts_identifier: "plain_name n \<Longrightarrow> path_parts n = [n]"
proof -
  assume n: "plain_name n"
  then have all: "\<forall>c \<in> set n. ident_char c" by (auto simp: plain_name_def list_all_iff)
  have "map (\<lambda>c. if c = CHR ''['' then CHR ''.'' else c) n = n"
    using all ident_char_plain(2) by (intro map_idI) auto
  moreover have "filter (\<lambda>c. c \<noteq> CHR '']'') n = n"
    using all ident_char_plain(3) by (intro filter_True) auto
  moreover have "CHR ''.'' \<notin> set n" using all ident_char_plain(1) by auto
  ultimately show ?thesis by (simp add: path_parts_def py_split_on_absent)
qed

lemma resolve_identifier:
  "plain_name n \<Longrightarrow> resolve_variable_path lib n d = Inr (map_of d n)"
  by (cases "map_of d n")
     (auto simp: resolve_variable_path_def path_parts_identifier plain_name_def parse_json_container_def)

lemma render_token:
  assumes "match_token (w @ s) = Some (tok, s)" and "w \<noteq> []" and "CHR ''{'' \<notin> set s"
    and "CHR ''{'' \<notin> set pre" and "substitute lib d missing tok w = Inr u"
  shows "render_prompt lib (pre @ w @ s) d missing = pre @ u @ s"
proof -
  from assms(2) obtain c v where w: "w = c # v" by (cases w) auto
  have "render_from lib d missing (w @ s) = Inr (u @ s)"
    using assms(1,5) render_plain [OF assms(3), of lib d missing] by (simp add: w)
  then show ?thesis
    using assms(2) by (simp add: render_prompt_def render_plain_prefix [OF assms(4)])
qed

section \<open>What a template renders to\<close>

text \<open>
  A prompt with one variable, \<open>{{name}}\<close> or \<open>{name}\<close>, in text without braces
  renders to the surrounding text with the token alone replaced: by the value when it is known
  (as JSON for an object or a list in double braces), otherwise by \<open>{name}\<close> for the double and
  by the replacement for missing variables for the single form.
\<close>

theorem token_semantics:
  assumes "plain_name name" and "CHR ''{'' \<notin> set pre" and "CHR ''{'' \<notin> set post"
  shows "render_prompt lib (pre @ (''{{'' @ name @ ''}}'') @ post) d (Some missing) =
           pre @ (case map_of d name of Some v \<Rightarrow> render_variable_value v True
                                      | None \<Rightarrow> ''{'' @ name @ ''}'') @ post \<and>
         render_prompt lib (pre @ (''{'' @ name @ ''}'') @ post) d (Some missing) =
           pre @ (case map_of d name of Some v \<Rightarrow> render_variable_value v False
                                      | None \<Rightarrow> missing) @ post"
  using match_double_token [OF assms(1), of post] match_single_token [OF assms(1), of post]
    resolve_identifier [OF assms(1), of lib d]
  by (intro conjI render_token [OF _ _ assms(3,2), where tok = "Double name"]
            render_token [OF _ _ assms(3,2), where tok = "Single name None"])
     (auto simp: substitute_def split: option.splits)

definition example_lib :: text_lib where
  "example_lib = \<lparr>json_loads = (\<lambda>s. None), format_spec = (\<lambda>v s. None)\<rparr>"

theorem token_semantics_witness:
  "render_prompt example_lib (''Hi '' @ (''{{'' @ ''cart'' @ ''}}'') @ ''.'')
       [(''cart'', PDict [(''qty'', PInt 2)])] (Some []) =
     ''Hi '' @ (case map_of [(''cart'', PDict [(''qty'', PInt 2)])] ''cart'' of
                  Some v \<Rightarrow> render_variable_value v True | None \<Rightarrow> ''{'' @ ''cart'' @ ''}'') @ ''.'' \<and>
   render_prompt example_lib (''Hi '' @ (''{'' @ ''cart'' @ ''}'') @ ''.'')
       [(''cart'', PDict [(''qty'', PInt 2)])] (Some []) =
     ''Hi '' @ (case map_of [(''cart'', PDict [(''qty'', PInt 2)])] ''cart'' of
                  Some v \<Rightarrow> render_variable_value v False | None \<Rightarrow> []) @ ''.''"
proof (rule token_semantics)
  show "plain_name ''cart''" by code_simp
qed simp_all

lemma walk_path_empty: "\<exists>p \<in> set ps. p \<noteq> [] \<Longrightarrow> walk_path lib ps (PDict []) = Inr None"
  by (induction ps) (auto simp: parse_json_container_def)

lemma split_on_head: "x \<noteq> c \<Longrightarrow> hd (py_split_on c (x # xs)) \<noteq> []"
  by (cases "py_split_on c xs") auto

lemma path_parts_nonempty:
  assumes "p \<noteq> []" and "ident_start (hd p)"
  shows "\<exists>q \<in> set (path_parts p). q \<noteq> []"
proof -
  from assms obtain c cs where p: "p = c # cs" and c: "ident_char c"
    by (cases p) (auto simp: ident_char_def)
  let ?q = "py_split_on CHR ''.'' (c # filter (\<lambda>c. c \<noteq> CHR '']'')
          (map (\<lambda>c. if c = CHR ''['' then CHR ''.'' else c) cs))"
  have "path_parts p = ?q"
    using ident_char_plain(2,3) [OF c] by (simp add: path_parts_def p)
  moreover have "hd ?q \<in> set ?q" by (rule hd_in_set) (rule py_split_on_ne)
  moreover have "hd ?q \<noteq> []" by (rule split_on_head [OF ident_char_plain(1) [OF c]])
  ultimately show ?thesis by metis
qed

lemma suffix_of_drops:
  assumes "suffix rest (drop n (dropWhile P r))" and "suffix r s"
  shows "suffix rest s"
proof -
  have "suffix rest (dropWhile P r)" using assms(1) suffix_drop suffix_order.trans by blast
  then have "suffix rest r" using suffix_dropWhile suffix_order.trans by blast
  with assms(2) show ?thesis using suffix_order.trans by blast
qed

lemma variable_path_suffix:
  "variable_path (drop n (dropWhile P s)) = Some (p, r) \<Longrightarrow> suffix r s"
  by (metis suffix_of_drops suffix_order.refl suffixI variable_path_split(1))

lemma match_double_parts:
  assumes "match_double s = Some (tok, rest)"
  shows "token_path tok \<noteq> [] \<and> ident_start (hd (token_path tok)) \<and> suffix rest s"
proof -
  from assms obtain p r where p: "variable_path (dropWhile py_isspace (drop 2 s)) = Some (p, r)"
    and rest: "rest = drop 2 (dropWhile py_isspace r)" and tok: "tok = Double p"
    by (auto simp: match_double_def Let_def split: if_splits option.splits prod.splits)
  have "suffix r (drop 2 s)" using variable_path_suffix [of 0 py_isspace "drop 2 s"] p by simp
  then have "suffix r s" using suffix_drop suffix_order.trans by blast
  then have "suffix rest s" unfolding rest by (rule suffix_of_drops [OF suffix_order.refl])
  with variable_path_split [OF p] tok show ?thesis by simp
qed

lemma match_single_parts:
  assumes "match_single s = Some (tok, rest)"
  shows "token_path tok \<noteq> [] \<and> ident_start (hd (token_path tok)) \<and> suffix rest s"
proof -
  from assms obtain p r where p: "variable_path (drop 1 s) = Some (p, r)"
    by (cases "variable_path (drop 1 s)") (auto simp: match_single_def split: if_splits)
  have "suffix r s"
    using variable_path_suffix [of 1 "\<lambda>_. False" s] p by simp
  moreover have "token_path tok = p \<and> suffix rest (tl r)"
    using assms p suffix_of_drops [OF suffix_order.refl suffix_order.refl]
    by (auto simp: match_single_def Let_def split: if_splits list.splits)
  moreover have "suffix (tl r) r" by (cases r) (auto simp: suffix_ConsI)
  ultimately show ?thesis
    using variable_path_split [OF p] suffix_order.trans by metis
qed

lemma match_token_parts:
  assumes "match_token s = Some (tok, rest)"
  shows "token_path tok \<noteq> [] \<and> ident_start (hd (token_path tok)) \<and> suffix rest s"
  using assms match_double_parts match_single_parts
  by (auto simp: match_token_def split: option.splits)

text \<open>
  Seeding a template without values (partial fill, \<open>missing=None\<close>)
  returns it unchanged, whatever braces, JSON literals or format specs it holds.
\<close>

theorem partial_fill_identity: "render_prompt lib template [] None = template"
proof -
  have "render_from lib [] None s = Inr s" for s
  proof (induction "length s" arbitrary: s rule: less_induct)
    case less
    show ?case
    proof (cases "match_token s")
      case None
      with less show ?thesis by (cases s) simp_all
    next
      case (Some r)
      obtain tok rest where r: "r = (tok, rest)" by fastforce
      note m = match_token_parts [OF Some [unfolded r]]
      from m obtain w where w: "s = w @ rest" by (auto simp: suffix_def)
      have sub: "substitute lib [] None tok w = Inr w" for w
        using walk_path_empty path_parts_nonempty m
        by (simp add: substitute_def resolve_variable_path_def)
      have shorter: "length rest < length s" by (rule match_token_shorter [OF Some [unfolded r]])
      then obtain c s' where s: "s = c # s'" by (cases s) auto
      have "take (length s - length rest) s = w" by (simp add: w)
      with less [OF shorter] Some r s w sub [of w] show ?thesis by simp
    qed
  qed
  then show ?thesis by (simp add: render_prompt_def)
qed

text \<open>
  No prompt shows a server-owned call identifier: what
  \<open>update_prompt_with_context\<close> renders does not depend on the recipient's \<open>call_sid\<close> and
  \<open>stream_sid\<close>, present or absent.
\<close>

theorem server_ids_never_rendered:
  "update_prompt_with_context lib prompt
     (AList.update ''recipient_data''
        (PDict (AList.update ''call_sid'' v (AList.update ''stream_sid'' w r))) context) =
   update_prompt_with_context lib prompt (AList.update ''recipient_data'' (PDict r) context)"
proof -
  have "filter (\<lambda>(k, v). k \<notin> S) (AList.update k v r) = filter (\<lambda>(k, v). k \<notin> S) r"
    if "k \<in> S" for k v S and r :: pydict
    using that by (induction r) auto
  note frame = this [where S = "set SERVER_OWNED_CALL_IDENTIFIERS"]
  have "filter (\<lambda>(k, v). k \<notin> set SERVER_OWNED_CALL_IDENTIFIERS)
               (AList.update ''call_sid'' v (AList.update ''stream_sid'' w r)) =
             filter (\<lambda>(k, v). k \<notin> set SERVER_OWNED_CALL_IDENTIFIERS) r"
    by (subst frame, simp add: SERVER_OWNED_CALL_IDENTIFIERS_def)
       (rule frame, simp add: SERVER_OWNED_CALL_IDENTIFIERS_def)
  then show ?thesis
    by (simp only: update_prompt_with_context_def dict_get_def map_of_dict_update fun_upd_same
                   option.case pyval.case)
qed

end
