(* ===== verification/Graph.thy ===== *)
theory Graph
  imports Templates History "HOL-Library.Char_ord" "HOL-Library.List_Lexorder"
begin

text \<open>
  The graph brain's state and its traversal, from \<open>modules/agents/brains/graph/traversal.py\<close>
  and \<open>prompts.py\<close>: nodes and edges, transition tools and their cache, edge classification and
  deterministic evaluation, external events, the routing context, advancing to a node, the
  first-delivery hold, node-scoped tools and the conversation prompt. The validators of
  \<open>modules/agents/models/brains.py\<close> are in \<open>Graph_Validation\<close>, the routing decisions in
  \<open>Routing\<close>.

  A call that can raise returns the agent as it is left and an error or a value. Measured
  latencies are telemetry and are not modelled.
\<close>

section \<open>State\<close>

record graph_node =
  gn_id :: string
  gn_node_type :: "string option"
  gn_edges :: "graph_edge list"
  gn_prompt :: string
  gn_description :: "string option"
  gn_static_message :: "message_config option"
  gn_examples :: "(string \<times> string) list"
  gn_function_call :: "string option"

record llm_tool =
  lt_name :: string
  lt_description :: string
  lt_properties :: "(string \<times> string \<times> string) list"
  lt_required :: "string list"

record tool_scope =
  ts_scope :: "string option"
  ts_nodes :: "string list"

record brain_llm =
  bl_trigger_function_call :: bool
  bl_tools :: "llm_tool list"
  bl_api_params :: "(string \<times> tool_scope) list"

record graph_agent =
  ga_nodes :: "graph_node list"
  ga_agent_information :: "string option"
  ga_current_node_id :: string
  ga_context_data :: pydict
  ga_variable_types :: variable_types
  ga_node_history :: "string list"
  ga_entry_index :: nat
  ga_silence_repeats :: int
  ga_event_triggered :: bool
  ga_first_delivered :: bool
  ga_hold_until_first_delivery :: bool
  ga_last_eval :: "string option"
  ga_frozen_time_vars :: "pydict option"
  ga_tools_cache :: "(string \<times> llm_tool list) list"
  ga_tools_cache_max :: nat
  ga_routing_model :: string
  ga_routing_provider :: string
  ga_routing_instructions :: "string option"
  ga_routing_reasoning_effort :: "string option"
  ga_routing_max_tokens :: "int option"
  ga_service_tier :: "string option"
  ga_effort_used :: "string option"
  ga_llm :: brain_llm

text \<open>
  What the brain calls outside itself: the library functions of the templates, the clock, the
  routing model, the retrieval service (the trailing message for a node and a history), the texts
  of the language directive and of the event hint (they hold characters outside Latin-1), the
  digest of a text and one environment variable.
\<close>

record routing_request =
  rq_model :: string
  rq_messages :: "message list"
  rq_tools :: "llm_tool list"
  rq_max_completion_tokens :: "int option"
  rq_reasoning_effort :: "string option"
  rq_max_tokens :: "int option"
  rq_service_tier :: "string option"

record routing_response =
  rr_call :: "(string \<times> string) option"
  rr_usage :: "pydict option"

record brain_env =
  env_lib :: text_lib
  env_clock :: clock
  env_ask :: "routing_request \<Rightarrow> routing_response option"
  env_rag :: "string \<Rightarrow> message list \<Rightarrow> message option"
  env_directive :: "string \<Rightarrow> string"
  env_event_hint :: "string \<Rightarrow> string"
  env_md5 :: "string \<Rightarrow> string"
  env_effort :: "string option"

definition TRANSITION_TOOLS_CACHE_MAX_SIZE :: nat where
  "TRANSITION_TOOLS_CACHE_MAX_SIZE = 100"

definition STAY :: string where "STAY = ''stay_on_current_node''"
definition SILENCE_PREFIX :: string where "SILENCE_PREFIX = ''[silence]''"

section \<open>Nodes and edges\<close>

definition find_node :: "graph_node list \<Rightarrow> string \<Rightarrow> graph_node option" where
  "find_node nodes node_id = find (\<lambda>n. gn_id n = node_id) nodes"

definition get_node_by_id :: "graph_agent \<Rightarrow> string \<Rightarrow> graph_node option" where
  "get_node_by_id agent node_id = find_node (ga_nodes agent) node_id"

definition node_type_of :: "graph_node option \<Rightarrow> string" where
  "node_type_of node =
     (case node of
        None \<Rightarrow> ''llm''
      | Some n \<Rightarrow> (case gn_node_type n of None \<Rightarrow> ''llm'' | Some t \<Rightarrow> t))"

definition edge_function_name :: "graph_edge \<Rightarrow> string" where
  "edge_function_name e =
     (if truthy_str (ge_function_name e) then or_empty (ge_function_name e)
      else ''transition_to_'' @ ge_to_node_id e)"

definition get_edge_by_function_name_from_edges :: "graph_edge list \<Rightarrow> string \<Rightarrow> graph_edge option" where
  "get_edge_by_function_name_from_edges edges name = find (\<lambda>e. edge_function_name e = name) edges"

definition priority_or :: "int \<Rightarrow> graph_edge \<Rightarrow> int" where
  "priority_or d e = (case ge_priority e of Some p \<Rightarrow> p | None \<Rightarrow> d)"

definition is_event_edge :: "graph_edge \<Rightarrow> bool" where
  "is_event_edge e = (ge_condition_type e = Some ''event'')"

definition is_expression_edge :: "graph_edge \<Rightarrow> bool" where
  "is_expression_edge e = (ge_condition_type e = Some ''expression'')"

definition is_unconditional_edge :: "graph_edge \<Rightarrow> bool" where
  "is_unconditional_edge e = (ge_condition_type e = Some ''unconditional'')"

definition is_deterministic_edge :: "graph_edge \<Rightarrow> bool" where
  "is_deterministic_edge e = (is_expression_edge e \<or> is_unconditional_edge e)"

definition classify_edges :: "graph_edge list \<Rightarrow> graph_edge list \<times> graph_edge list" where
  "classify_edges edges =
     (sort_key (priority_or 0) (filter is_deterministic_edge edges),
      sort_key (priority_or 100)
        (filter (\<lambda>e. \<not> is_event_edge e \<and> \<not> is_deterministic_edge e) edges))"

fun evaluate_deterministic_edges ::
  "graph_agent \<Rightarrow> graph_edge list \<Rightarrow> graph_edge option \<times> string list" where
  "evaluate_deterministic_edges agent [] = (None, [])"
| "evaluate_deterministic_edges agent (e # es) =
     (let is_match = evaluate_edge_expression e (ga_context_data agent) (ga_variable_types agent);
          trace = ''-> '' @ ge_to_node_id e @ '': '' @
                  describe_edge_expression e (ga_context_data agent) (ga_variable_types agent) @
                  '' | matched='' @ show_bool is_match
      in if is_match then (Some e, [trace])
         else let (found, traces) = evaluate_deterministic_edges agent es in (found, trace # traces))"

definition match_expression_edge ::
  "graph_agent \<Rightarrow> graph_node \<Rightarrow> graph_edge list option \<Rightarrow> graph_edge option \<times> string" where
  "match_expression_edge agent node deterministic =
     (let edges = (case deterministic of None \<Rightarrow> fst (classify_edges (gn_edges node)) | Some es \<Rightarrow> es);
          (found, traces) = evaluate_deterministic_edges agent (filter is_expression_edge edges);
          joined = py_join ''; '' traces
      in (found, if joined = [] then ''no expression edge matched'' else joined))"

text \<open>\<open>min(xs, key=f)\<close>: the first of the smallest.\<close>

fun py_min_on :: "('a \<Rightarrow> int) \<Rightarrow> 'a list \<Rightarrow> 'a option" where
  "py_min_on f [] = None"
| "py_min_on f (x # xs) =
     (case py_min_on f xs of None \<Rightarrow> Some x | Some y \<Rightarrow> if f x \<le> f y then Some x else Some y)"

definition catch_all_edge :: "graph_node \<Rightarrow> graph_edge option" where
  "catch_all_edge node = py_min_on (priority_or 0) (filter is_unconditional_edge (gn_edges node))"

definition catch_all_reasoning :: "graph_edge \<Rightarrow> string" where
  "catch_all_reasoning e =
     (let ct = (case ge_condition_type e of None \<Rightarrow> ''unconditional'' | Some t \<Rightarrow> t)
      in ''deterministic:'' @ ct @ '':'' @
         (if truthy_str (ge_condition e) then or_empty (ge_condition e) else ct))"

section \<open>Context\<close>

definition recipient_of :: "pydict \<Rightarrow> pydict option" where
  "recipient_of context =
     (case dict_get context ''recipient_data'' of PDict r \<Rightarrow> Some r | _ \<Rightarrow> None)"

definition count_user :: "message list \<Rightarrow> nat" where
  "count_user ms = length (filter (\<lambda>m. msg_role m = USER) ms)"

definition compute_turn_counts :: "graph_agent \<Rightarrow> message list \<Rightarrow> nat \<times> nat" where
  "compute_turn_counts agent history =
     (count_user (drop (ga_entry_index agent) history), count_user history)"

definition refresh_time :: "brain_env \<Rightarrow> pyval \<Rightarrow> pydict \<Rightarrow> py_error + pydict" where
  "refresh_time env timezone context =
     (if truthy timezone then enrich_context_with_time_variables (env_clock env) context timezone
      else Inr context)"

definition enrich_routing_context ::
  "brain_env \<Rightarrow> graph_agent \<Rightarrow> message list \<Rightarrow> graph_agent \<times> (py_error + unit)" where
  "enrich_routing_context env agent history =
     (let context = ga_context_data agent;
          timezone = (case recipient_of context of None \<Rightarrow> PNone | Some r \<Rightarrow> dict_get r ''timezone'')
      in case refresh_time env timezone context of
           Inl e \<Rightarrow> (agent, Inl e)
         | Inr context \<Rightarrow>
             (let (node_turns, total_turns) = compute_turn_counts agent history
              in (agent\<lparr>ga_context_data :=
                    AList.update ''_silence_repeats'' (PInt (ga_silence_repeats agent))
                      (AList.update ''_total_turns'' (PInt (int total_turns))
                        (AList.update ''_node_turns'' (PInt (int node_turns)) context))\<rparr>, Inr ())))"

definition TIME_VAR_KEYS :: "string list" where
  "TIME_VAR_KEYS =
     [''current_date'', ''current_time'', ''current_hour'', ''current_minute'', ''current_weekday'',
      ''current_day'', ''current_month'', ''current_year'']"

definition pick_keys :: "string list \<Rightarrow> pydict \<Rightarrow> pydict" where
  "pick_keys ks d = concat (map (\<lambda>k. case map_of d k of None \<Rightarrow> [] | Some v \<Rightarrow> [(k, v)]) ks)"

definition freeze_time :: "brain_env \<Rightarrow> graph_agent \<Rightarrow> pydict \<Rightarrow> graph_agent \<times> (py_error + unit)" where
  "freeze_time env agent recipient =
     (if ga_frozen_time_vars agent \<noteq> None then (agent, Inr ())
      else case refresh_time env (dict_get recipient ''timezone'') (ga_context_data agent) of
             Inl e \<Rightarrow> (agent, Inl e)
           | Inr context \<Rightarrow>
               (let r = (case recipient_of context of None \<Rightarrow> [] | Some r \<Rightarrow> r)
                in (agent\<lparr>ga_context_data := context,
                         ga_frozen_time_vars := Some (pick_keys TIME_VAR_KEYS r)\<rparr>, Inr ())))"

definition prompt_context :: "brain_env \<Rightarrow> graph_agent \<Rightarrow> graph_agent \<times> (py_error + pydict)" where
  "prompt_context env agent =
     (case recipient_of (ga_context_data agent) of
        None \<Rightarrow> (agent, Inr (ga_context_data agent))
      | Some recipient \<Rightarrow>
          (case freeze_time env agent recipient of
             (agent, Inl e) \<Rightarrow> (agent, Inl e)
           | (agent, Inr _) \<Rightarrow>
               (let context = ga_context_data agent;
                    frozen = (case ga_frozen_time_vars agent of None \<Rightarrow> [] | Some f \<Rightarrow> f);
                    recipient = (case recipient_of context of None \<Rightarrow> [] | Some r \<Rightarrow> r)
                in if frozen = [] then (agent, Inr context)
                   else (agent, Inr (AList.update ''recipient_data''
                                       (PDict (dict_merge recipient frozen)) context)))))"

section \<open>Transition tools\<close>

definition REASONING_DESCRIPTION :: string where
  "REASONING_DESCRIPTION = ''Brief explanation of why this routing decision was made''"

definition CONFIDENCE_DESCRIPTION :: string where
  "CONFIDENCE_DESCRIPTION = ''Confidence score from 0.0 to 1.0 for this routing decision''"

definition with_context :: "brain_env \<Rightarrow> pydict \<Rightarrow> string \<Rightarrow> string" where
  "with_context env context t =
     (if context = [] then t else update_prompt_with_context (env_lib env) t context)"

definition transition_tool :: "brain_env \<Rightarrow> pydict \<Rightarrow> graph_edge \<Rightarrow> llm_tool" where
  "transition_tool env context e =
     (let description = (if truthy_str (ge_function_description e) then or_empty (ge_function_description e)
                         else ''Call this function when: '' @ or_empty (ge_condition e));
          params = map (\<lambda>(name, ty). (name, ty, ''The '' @ name @ '' provided by the user'')) (ge_parameters e)
      in \<lparr>lt_name = edge_function_name e,
          lt_description = with_context env context description,
          lt_properties =
            AList.update ''confidence'' (''number'', CONFIDENCE_DESCRIPTION)
              (AList.update ''reasoning'' (''string'', REASONING_DESCRIPTION) params),
          lt_required = map fst (ge_parameters e) @ [''reasoning'', ''confidence'']\<rparr>)"

definition stay_tool :: llm_tool where
  "stay_tool =
     \<lparr>lt_name = STAY,
      lt_description = ''No transition matches. Need more info or clarification.'',
      lt_properties = [(''reasoning'', ''string'', REASONING_DESCRIPTION),
                       (''confidence'', ''number'', CONFIDENCE_DESCRIPTION)],
      lt_required = [''reasoning'', ''confidence'']\<rparr>"

definition build_transition_tools_for_edges ::
  "brain_env \<Rightarrow> graph_agent \<Rightarrow> graph_edge list \<Rightarrow> bool \<Rightarrow> graph_agent \<times> (py_error + llm_tool list)" where
  "build_transition_tools_for_edges env agent edges allow_stay =
     (case prompt_context env agent of
        (agent, Inl e) \<Rightarrow> (agent, Inl e)
      | (agent, Inr context) \<Rightarrow>
          (agent, Inr (map (transition_tool env context) edges @ (if allow_stay then [stay_tool] else []))))"

definition build_transition_tools ::
  "brain_env \<Rightarrow> graph_agent \<Rightarrow> graph_node \<Rightarrow> graph_agent \<times> (py_error + llm_tool list)" where
  "build_transition_tools env agent node =
     (case (if gn_id node = [] then None else map_of (ga_tools_cache agent) (gn_id node)) of
        Some tools \<Rightarrow> (agent, Inr tools)
      | None \<Rightarrow>
          (case build_transition_tools_for_edges env agent (gn_edges node) True of
             (agent, Inl e) \<Rightarrow> (agent, Inl e)
           | (agent, Inr tools) \<Rightarrow>
               if gn_id node = [] then (agent, Inr tools)
               else (let cache = (if ga_tools_cache_max agent \<le> length (ga_tools_cache agent)
                                  then tl (ga_tools_cache agent) else ga_tools_cache agent)
                     in (agent\<lparr>ga_tools_cache := AList.update (gn_id node) tools cache\<rparr>, Inr tools))))"

section \<open>Moving between nodes\<close>

definition advance_to_node :: "string \<Rightarrow> nat \<Rightarrow> graph_agent \<Rightarrow> graph_agent" where
  "advance_to_node node_id entry_index agent =
     agent\<lparr>ga_current_node_id := node_id,
           ga_entry_index := entry_index,
           ga_silence_repeats := 0,
           ga_first_delivered := False,
           ga_node_history :=
             (if ga_node_history agent = [] \<or> last (ga_node_history agent) \<noteq> node_id
              then ga_node_history agent @ [node_id] else ga_node_history agent)\<rparr>"

record call_event =
  ce_event :: string
  ce_properties :: pydict

record event_result =
  er_matched :: bool
  er_event :: string
  er_previous_node :: "string option"
  er_new_node_id :: "string option"
  er_node_type :: "string option"
  er_target_node :: "graph_node option"

definition unmatched_event :: "string \<Rightarrow> event_result" where
  "unmatched_event name =
     \<lparr>er_matched = False, er_event = name, er_previous_node = None, er_new_node_id = None,
      er_node_type = None, er_target_node = None\<rparr>"

definition event_edge_for :: "graph_node \<Rightarrow> string \<Rightarrow> graph_edge option" where
  "event_edge_for node name =
     find (\<lambda>e. ge_event_name e = Some name) (sort_key (priority_or 0) (filter is_event_edge (gn_edges node)))"

definition process_event :: "call_event \<Rightarrow> graph_agent \<Rightarrow> graph_agent \<times> event_result" where
  "process_event ev agent =
     (let agent = agent\<lparr>ga_context_data :=
            AList.update ''_last_event'' (PStr (ce_event ev))
              (dict_merge (ga_context_data agent) (ce_properties ev))\<rparr>
      in case get_node_by_id agent (ga_current_node_id agent) of
           None \<Rightarrow> (agent, unmatched_event (ce_event ev))
         | Some node \<Rightarrow>
             (case event_edge_for node (ce_event ev) of
                None \<Rightarrow> (agent, unmatched_event (ce_event ev))
              | Some e \<Rightarrow>
                  (let previous = ga_current_node_id agent;
                       target = get_node_by_id agent (ge_to_node_id e);
                       history = ga_node_history agent
                   in (agent\<lparr>ga_current_node_id := ge_to_node_id e,
                             ga_entry_index := 0,
                             ga_silence_repeats := 0,
                             ga_first_delivered := False,
                             ga_node_history :=
                               (if ge_to_node_id e \<notin> set history \<or> last history \<noteq> ge_to_node_id e
                                then history @ [ge_to_node_id e] else history)\<rparr>,
                       \<lparr>er_matched = True, er_event = ce_event ev, er_previous_node = Some previous,
                        er_new_node_id = Some (ge_to_node_id e),
                        er_node_type = Some (node_type_of target), er_target_node = target\<rparr>))))"

definition should_hold_for_first_delivery :: "graph_agent \<Rightarrow> graph_node option \<Rightarrow> bool" where
  "should_hold_for_first_delivery agent node =
     (ga_hold_until_first_delivery agent \<and> node \<noteq> None \<and> node_type_of node = ''llm'' \<and>
      \<not> ga_first_delivered agent)"

definition mark_first_response_delivered :: "graph_agent \<Rightarrow> graph_agent" where
  "mark_first_response_delivered agent = agent\<lparr>ga_first_delivered := True\<rparr>"

end
