(* ===== verification/Graph_Validation.thy ===== *)
theory Graph_Validation
  imports Graph
begin

text \<open>
  The validators of a graph configuration, from \<open>modules/agents/models/brains.py\<close>
  (\<open>GraphNode.validate_router_node\<close>, \<open>GraphAgentConfig.validate_router_graph\<close>): router nodes
  never speak and always have a catch-all, their edges lead to nodes of the graph, and the
  three-colour search finds no cycle of routers. A \<open>ValueError\<close> is a value of
  \<open>config_error\<close>; the set of router ids is searched in configuration order.
\<close>

section \<open>Validators\<close>

datatype config_error =
    Router_Speaks string
  | Router_Event_Edge string string
  | Router_Without_Catch_All string
  | Router_Unknown_Target string string
  | Router_Cycle string

definition is_router :: "graph_node \<Rightarrow> bool" where
  "is_router n = (gn_node_type n = Some ''router'')"

definition static_set :: "graph_node \<Rightarrow> bool" where
  "static_set n =
     (case gn_static_message n of
        None \<Rightarrow> False
      | Some (Text_Message s) \<Rightarrow> s \<noteq> []
      | Some (Language_Messages m) \<Rightarrow> m \<noteq> [])"

definition validate_router_node :: "graph_node \<Rightarrow> config_error + unit" where
  "validate_router_node n =
     (if \<not> is_router n then Inr ()
      else if gn_prompt n \<noteq> [] \<or> static_set n then Inl (Router_Speaks (gn_id n))
      else case find is_event_edge (gn_edges n) of
             Some e \<Rightarrow> Inl (Router_Event_Edge (gn_id n) (ge_to_node_id e))
           | None \<Rightarrow>
               if \<not> list_ex is_unconditional_edge (gn_edges n) then Inl (Router_Without_Catch_All (gn_id n))
               else Inr ())"

datatype colour = WHITE | GRAY | BLACK

type_synonym colours = "(string \<times> colour) list"
type_synonym adjacency = "(string \<times> string list) list"

definition colour_of :: "colours \<Rightarrow> string \<Rightarrow> colour" where
  "colour_of col n = (case map_of col n of Some c \<Rightarrow> c | None \<Rightarrow> BLACK)"

definition successors :: "adjacency \<Rightarrow> string \<Rightarrow> string list" where
  "successors adj n = (case map_of adj n of Some ns \<Rightarrow> ns | None \<Rightarrow> [])"

definition whites :: "colours \<Rightarrow> nat" where
  "whites col = length (filter (\<lambda>(k, c). c = WHITE) col)"

lemma whites_update_le: "c \<noteq> WHITE \<Longrightarrow> whites (AList.update k c col) \<le> whites col"
  by (induction col) (auto simp: whites_def)

lemma whites_update_less:
  "colour_of col k = WHITE \<Longrightarrow> c \<noteq> WHITE \<Longrightarrow> whites (AList.update k c col) < whites col"
  by (induction col) (auto simp: whites_def colour_of_def split: if_splits)

text \<open>\<open>has_cycle(rid)\<close>, called on white nodes only, and its loop over the successors.\<close>

function (sequential) has_cycle :: "adjacency \<Rightarrow> colours \<Rightarrow> string \<Rightarrow> bool \<times> colours"
  and probe :: "adjacency \<Rightarrow> colours \<Rightarrow> string list \<Rightarrow> bool \<times> colours" where
  "has_cycle adj col rid =
     (if colour_of col rid \<noteq> WHITE then (False, col)
      else case probe adj (AList.update rid GRAY col) (successors adj rid) of
             (True, col') \<Rightarrow> (True, col')
           | (False, col') \<Rightarrow> (False, AList.update rid BLACK col'))"
| "probe adj col [] = (False, col)"
| "probe adj col (n # ns) =
     (if colour_of col n = GRAY then (True, col)
      else if colour_of col n = WHITE then
        (case has_cycle adj col n of (True, col') \<Rightarrow> (True, col') | (False, col') \<Rightarrow> probe adj col' ns)
      else probe adj col ns)"
  by pat_completeness auto

lemma has_cycle_whites:
  "has_cycle_probe_dom (Inl (adj, col, rid)) \<Longrightarrow> whites (snd (has_cycle adj col rid)) \<le> whites col"
  "has_cycle_probe_dom (Inr (adj, col, ns)) \<Longrightarrow> whites (snd (probe adj col ns)) \<le> whites col"
proof (induction adj col rid and adj col ns rule: has_cycle_probe.pinduct)
  case (1 adj col rid)
  obtain b col' where p: "probe adj (AList.update rid GRAY col) (successors adj rid) = (b, col')"
    by fastforce
  have "whites (AList.update rid GRAY col) \<le> whites col" by (simp add: whites_update_le)
  moreover have "whites (AList.update rid BLACK col') \<le> whites col'" by (simp add: whites_update_le)
  ultimately show ?case
    using 1 p by (cases b) (auto simp: has_cycle.psimps)
next
  case (3 adj col n ns)
  then show ?case
    by (auto simp: probe.psimps split: prod.splits bool.splits) (meson order_trans)
qed (simp add: probe.psimps)

termination has_cycle
  by (relation "measures [\<lambda>x. case x of Inl (adj, col, rid) \<Rightarrow> whites col | Inr (adj, col, ns) \<Rightarrow> whites col,
        \<lambda>x. case x of Inl (adj, col, rid) \<Rightarrow> 0 | Inr (adj, col, ns) \<Rightarrow> Suc (length ns)]")
     (auto simp: whites_update_less le_neq_implies_less dest!: has_cycle_whites(1) dest: sym
           split: prod.splits)

declare has_cycle.simps [simp del]

definition router_ids :: "graph_node list \<Rightarrow> string list" where
  "router_ids nodes = remdups (map gn_id (filter is_router nodes))"

definition router_adjacency :: "graph_node list \<Rightarrow> adjacency" where
  "router_adjacency nodes =
     foldl (\<lambda>adj n. AList.update (gn_id n)
              (filter (\<lambda>t. t \<in> set (router_ids nodes)) (map ge_to_node_id (gn_edges n))) adj)
       [] (filter is_router nodes)"

fun probe_all :: "adjacency \<Rightarrow> colours \<Rightarrow> string list \<Rightarrow> string option" where
  "probe_all adj col [] = None"
| "probe_all adj col (r # rs) =
     (if colour_of col r = WHITE then
        (case has_cycle adj col r of (True, col') \<Rightarrow> Some r | (False, col') \<Rightarrow> probe_all adj col' rs)
      else probe_all adj col rs)"

definition unknown_target :: "graph_node list \<Rightarrow> (string \<times> string) option" where
  "unknown_target nodes =
     List.find (\<lambda>(i, t). t \<notin> set (map gn_id nodes))
       (concat (map (\<lambda>n. map (\<lambda>e. (gn_id n, ge_to_node_id e)) (gn_edges n)) (filter is_router nodes)))"

definition validate_router_graph :: "graph_node list \<Rightarrow> config_error + unit" where
  "validate_router_graph nodes =
     (if filter is_router nodes = [] then Inr ()
      else case unknown_target nodes of
             Some (i, t) \<Rightarrow> Inl (Router_Unknown_Target i t)
           | None \<Rightarrow>
               (case probe_all (router_adjacency nodes) (map (\<lambda>i. (i, WHITE)) (router_ids nodes))
                       (router_ids nodes) of
                  Some i \<Rightarrow> Inl (Router_Cycle i)
                | None \<Rightarrow> Inr ()))"

definition valid_graph :: "graph_node list \<Rightarrow> bool" where
  "valid_graph nodes =
     (list_all (\<lambda>n. validate_router_node n = Inr ()) nodes \<and> validate_router_graph nodes = Inr ())"

section \<open>The search finds every cycle\<close>

definition blacks :: "colours \<Rightarrow> string set" where
  "blacks col = {n. colour_of col n = BLACK}"

definition grays :: "colours \<Rightarrow> string set" where
  "grays col = {n. colour_of col n = GRAY}"

definition edges_from :: "adjacency \<Rightarrow> string set \<Rightarrow> (string \<times> string) set" where
  "edges_from adj B = {(x, y). x \<in> B \<and> y \<in> set (successors adj x)}"

definition settled :: "adjacency \<Rightarrow> colours \<Rightarrow> bool" where
  "settled adj col = (edges_from adj (blacks col) \<subseteq> UNIV \<times> blacks col \<and> acyclic (edges_from adj (blacks col)))"

lemma colour_of_update: "colour_of (AList.update k c col) n = (if n = k then c else colour_of col n)"
  by (simp add: colour_of_def update_conv')

lemma blacks_gray: "colour_of col n = WHITE \<Longrightarrow> blacks (AList.update n GRAY col) = blacks col"
  by (auto simp: blacks_def colour_of_update split: if_splits)

lemma acyclic_new_root:
  assumes "acyclic R" and "R \<subseteq> UNIV \<times> B" and "r \<notin> B" and "Y \<subseteq> B"
  shows "acyclic (R \<union> {r} \<times> Y)"
proof -
  let ?S = "R \<union> {r} \<times> Y"
  have into: "(x, y) \<in> ?S \<Longrightarrow> y \<noteq> r" for x y using assms(2,3,4) by auto
  have noto: "(x, y) \<in> ?S\<^sup>+ \<Longrightarrow> y \<noteq> r" for x y
    using into by (metis tranclD2)
  have keep: "(x, y) \<in> ?S\<^sup>+ \<Longrightarrow> x \<noteq> r \<Longrightarrow> (x, y) \<in> R\<^sup>+" for x y
  proof (induction rule: trancl_induct)
    case (base y)
    then show ?case by auto
  next
    case (step y z)
    then have "y \<noteq> r" using noto by blast
    with step show ?case by (auto intro: trancl_into_trancl)
  qed
  show ?thesis
  proof (rule acyclicI, intro allI)
    fix x
    show "(x, x) \<notin> ?S\<^sup>+"
      using noto keep assms(1) by (metis acyclic_def)
  qed
qed

lemma settle_node:
  assumes "settled adj col" and "n \<notin> blacks col" and "set (successors adj n) \<subseteq> blacks col"
  shows "settled adj (AList.update n BLACK col)"
proof -
  have b: "blacks (AList.update n BLACK col) = insert n (blacks col)"
    by (auto simp: blacks_def colour_of_update split: if_splits)
  have e: "edges_from adj (insert n (blacks col)) =
             edges_from adj (blacks col) \<union> {n} \<times> set (successors adj n)"
    by (auto simp: edges_from_def)
  show ?thesis
    using assms acyclic_new_root [of "edges_from adj (blacks col)" "blacks col" n]
    unfolding settled_def b e by blast
qed

lemma search_settles:
  "has_cycle adj col n = (False, col') \<Longrightarrow> settled adj col \<Longrightarrow> colour_of col n = WHITE \<Longrightarrow>
     settled adj col' \<and> blacks col \<subseteq> blacks col' \<and> grays col' = grays col \<and> n \<in> blacks col'"
  "probe adj col ns = (False, col') \<Longrightarrow> settled adj col \<Longrightarrow>
     settled adj col' \<and> blacks col \<subseteq> blacks col' \<and> grays col' = grays col \<and> set ns \<subseteq> blacks col'"
proof (induction adj col n and adj col ns arbitrary: col' and col' rule: has_cycle_probe.induct)
  case (1 adj col n)
  let ?gray = "AList.update n GRAY col"
  obtain c where c: "probe adj ?gray (successors adj n) = (False, c)"
    and col': "col' = AList.update n BLACK c"
    using 1 by (auto simp: has_cycle.simps split: prod.splits bool.splits)
  have "settled adj ?gray" using 1 by (simp add: settled_def blacks_gray)
  then have ih: "settled adj c" "blacks ?gray \<subseteq> blacks c" "grays c = grays ?gray"
    "set (successors adj n) \<subseteq> blacks c"
    using "1.IH" c 1 by auto
  have "n \<in> grays c" unfolding ih(3) by (simp add: grays_def colour_of_update)
  then have n: "n \<notin> blacks c" by (simp add: grays_def blacks_def)
  have "settled adj col'" unfolding col' by (rule settle_node [OF ih(1) n ih(4)])
  moreover have "blacks col \<subseteq> blacks col'" "n \<in> blacks col'"
    using ih(2) 1 by (auto simp: col' blacks_gray) (auto simp: blacks_def colour_of_update)
  moreover have "grays col' = grays col"
  proof -
    have "colour_of c x = GRAY \<longleftrightarrow> colour_of ?gray x = GRAY" for x
      using ih(3) by (auto simp: grays_def)
    then show ?thesis using 1 by (auto simp: col' grays_def colour_of_update split: if_splits)
  qed
  ultimately show ?case by simp
next
  case (3 adj col n ns)
  show ?case
  proof (cases "colour_of col n = WHITE")
    case True
    then obtain c where c: "has_cycle adj col n = (False, c)" and p: "probe adj c ns = (False, col')"
      using 3 by (auto split: prod.splits bool.splits)
    from "3.IH"(1) [of c] True c 3 have "settled adj c \<and> blacks col \<subseteq> blacks c \<and> grays c = grays col \<and> n \<in> blacks c"
      by simp
    moreover have "settled adj col' \<and> blacks c \<subseteq> blacks col' \<and> grays col' = grays c \<and> set ns \<subseteq> blacks col'"
      by (rule "3.IH"(2) [OF _ True c [symmetric] refl p]) (use True calculation in simp_all)
    ultimately show ?thesis by auto
  next
    case False
    then have "colour_of col n = BLACK" and "probe adj col ns = (False, col')"
      using 3 by (cases "colour_of col n"; simp)+
    with "3.IH"(3) [of col'] 3 show ?thesis by (auto simp: blacks_def)
  qed
qed simp

lemma probe_all_settles:
  "probe_all adj col rs = None \<Longrightarrow> settled adj col \<Longrightarrow> grays col = {} \<Longrightarrow>
     \<exists>col'. settled adj col' \<and> set rs \<subseteq> blacks col' \<and> blacks col \<subseteq> blacks col'"
proof (induction adj col rs rule: probe_all.induct)
  case (2 adj col r rs)
  show ?case
  proof (cases "colour_of col r = WHITE")
    case True
    then obtain c where c: "has_cycle adj col r = (False, c)" and p: "probe_all adj c rs = None"
      using 2 by (auto split: prod.splits bool.splits)
    from search_settles(1) [OF c] 2 True
    have s: "settled adj c" "blacks col \<subseteq> blacks c" "grays c = {}" "r \<in> blacks c" by auto
    from "2.IH"(1) [OF True c [symmetric] refl p s(1) s(3)] obtain col'
      where "settled adj col'" "set rs \<subseteq> blacks col'" "blacks c \<subseteq> blacks col'" by blast
    with s show ?thesis by (intro exI [of _ col']) auto
  next
    case False
    then have "colour_of col r = BLACK" using 2 by (cases "colour_of col r") (auto simp: grays_def)
    with 2 False show ?thesis by (auto simp: blacks_def)
  qed
qed auto

lemma colour_of_white: "colour_of (map (\<lambda>i. (i, WHITE)) ids) n = (if n \<in> set ids then WHITE else BLACK)"
  by (induction ids) (auto simp: colour_of_def)

text \<open>The edges between routers.\<close>

definition router_edges :: "graph_node list \<Rightarrow> (string \<times> string) set" where
  "router_edges nodes =
     {(gn_id n, ge_to_node_id e) | n e.
        n \<in> set nodes \<and> is_router n \<and> e \<in> set (gn_edges n) \<and> ge_to_node_id e \<in> set (router_ids nodes)}"

lemma foldl_update_distinct:
  assumes "distinct (map gn_id ns)" and "n \<in> set ns"
  shows "map_of (foldl (\<lambda>adj n. AList.update (gn_id n) (f n) adj) adj ns) (gn_id n) = Some (f n)"
  using assms
proof (induction ns arbitrary: adj rule: rev_induct)
  case (snoc m ns)
  then show ?case by (cases "n = m") (auto simp: update_conv' intro: rev_image_eqI)
qed simp

lemma successors_router:
  assumes "distinct (map gn_id nodes)" and "n \<in> set nodes" and "is_router n"
  shows "successors (router_adjacency nodes) (gn_id n) =
           filter (\<lambda>t. t \<in> set (router_ids nodes)) (map ge_to_node_id (gn_edges n))"
proof -
  have "distinct (map gn_id (filter is_router nodes))" using assms(1) by (rule distinct_map_filter)
  then show ?thesis
    using foldl_update_distinct [of "filter is_router nodes" n
        "\<lambda>n. filter (\<lambda>t. t \<in> set (router_ids nodes)) (map ge_to_node_id (gn_edges n))" "[]"] assms(2,3)
    by (simp add: successors_def router_adjacency_def)
qed

lemma foldl_update_keys:
  "fst ` set (foldl (\<lambda>adj n. AList.update (k n) (f n) adj) adj ns) = fst ` set adj \<union> k ` set ns"
  by (induction ns arbitrary: adj) (auto simp: dom_update)

lemma successors_outside: "x \<notin> set (router_ids nodes) \<Longrightarrow> successors (router_adjacency nodes) x = []"
proof -
  assume "x \<notin> set (router_ids nodes)"
  then have "x \<notin> fst ` set (router_adjacency nodes)"
    unfolding router_adjacency_def foldl_update_keys by (simp add: router_ids_def)
  then have "map_of (router_adjacency nodes) x = None" by (simp only: map_of_eq_None_iff not_False_eq_True)
  then show ?thesis by (simp add: successors_def)
qed

lemma search_none_acyclic:
  assumes "distinct (map gn_id nodes)"
    and none: "probe_all (router_adjacency nodes) (map (\<lambda>i. (i, WHITE)) (router_ids nodes)) (router_ids nodes) = None"
  shows "acyclic (router_edges nodes)"
proof -
  let ?ids = "router_ids nodes"
  let ?adj = "router_adjacency nodes"
  let ?white = "map (\<lambda>i. (i, WHITE)) ?ids"
  have b: "blacks ?white = - set ?ids" and g: "grays ?white = {}"
    by (auto simp: blacks_def grays_def colour_of_white)
  have out: "successors ?adj x = []" if "x \<notin> set ?ids" for x
    using that by (rule successors_outside)
  have "edges_from ?adj (blacks ?white) = {}" using out by (auto simp: edges_from_def b)
  then have "settled ?adj ?white" by (simp add: settled_def acyclic_def)
  from probe_all_settles [OF none this g] obtain col
    where s: "settled ?adj col" and ids: "set ?ids \<subseteq> blacks col" by blast
  have "router_edges nodes \<subseteq> edges_from ?adj (blacks col)"
  proof
    fix p assume "p \<in> router_edges nodes"
    then obtain n e where p: "p = (gn_id n, ge_to_node_id e)" and n: "n \<in> set nodes" "is_router n"
      and e: "e \<in> set (gn_edges n)" "ge_to_node_id e \<in> set ?ids"
      by (auto simp: router_edges_def)
    have "gn_id n \<in> set ?ids" using n by (auto simp: router_ids_def)
    with ids e show "p \<in> edges_from ?adj (blacks col)"
      by (auto simp: p edges_from_def successors_router [OF assms(1) n])
  qed
  with s show ?thesis unfolding settled_def by (blast intro: acyclic_subset)
qed

section \<open>The search reports only cycles\<close>

lemma search_grays:
  "has_cycle adj col n = (False, col') \<Longrightarrow> grays col' = grays col"
  "probe adj col ns = (False, col') \<Longrightarrow> grays col' = grays col"
proof (induction adj col n and adj col ns arbitrary: col' and col' rule: has_cycle_probe.induct)
  case (1 adj col n)
  show ?case
  proof (cases "colour_of col n = WHITE")
    case True
    let ?gray = "AList.update n GRAY col"
    obtain c where c: "probe adj ?gray (successors adj n) = (False, c)"
      and col': "col' = AList.update n BLACK c"
      using 1 True by (auto simp: has_cycle.simps split: prod.splits bool.splits)
    have "grays c = grays ?gray" using 1 True c by simp
    then have "colour_of c x = GRAY \<longleftrightarrow> colour_of ?gray x = GRAY" for x by (auto simp: grays_def)
    then show ?thesis using True by (auto simp: col' grays_def colour_of_update split: if_splits)
  next
    case False
    with 1 show ?thesis by (simp add: has_cycle.simps)
  qed
next
  case (3 adj col n ns)
  show ?case
  proof (cases "colour_of col n = WHITE")
    case True
    then obtain c where c: "has_cycle adj col n = (False, c)" and p: "probe adj c ns = (False, col')"
      using 3 by (auto split: prod.splits bool.splits)
    with "3.IH"(1) [of c] "3.IH"(2) [OF _ True c [symmetric] refl p] True show ?thesis by simp
  next
    case False
    with 3 show ?thesis by (cases "colour_of col n") auto
  qed
qed simp

abbreviation all_edges :: "adjacency \<Rightarrow> (string \<times> string) set" where
  "all_edges adj \<equiv> edges_from adj UNIV"

lemma search_finds:
  "has_cycle adj col n = (True, col') \<Longrightarrow> \<forall>g \<in> grays col. (g, n) \<in> (all_edges adj)\<^sup>* \<Longrightarrow> \<not> acyclic (all_edges adj)"
  "probe adj col ns = (True, col') \<Longrightarrow> set ns \<subseteq> set (successors adj m) \<Longrightarrow>
     \<forall>g \<in> grays col. (g, m) \<in> (all_edges adj)\<^sup>* \<Longrightarrow> \<not> acyclic (all_edges adj)"
proof (induction adj col n and adj col ns arbitrary: col' and col' m rule: has_cycle_probe.induct)
  case (1 adj col n)
  then have w: "colour_of col n = WHITE"
    and p: "probe adj (AList.update n GRAY col) (successors adj n) = (True, col')"
    by (auto simp: has_cycle.simps split: if_splits prod.splits bool.splits)
  have "grays (AList.update n GRAY col) = insert n (grays col)"
    by (auto simp: grays_def colour_of_update split: if_splits)
  with 1 w p show ?case by auto
next
  case (3 adj col n ns)
  have e: "(m, n) \<in> all_edges adj" using "3.prems"(2) by (simp add: edges_from_def)
  consider "colour_of col n = GRAY" | "colour_of col n = WHITE" | "colour_of col n = BLACK"
    by (cases "colour_of col n") auto
  then show ?case
  proof cases
    case 1
    with "3.prems" have "(n, m) \<in> (all_edges adj)\<^sup>*" by (simp add: grays_def)
    with e have "(m, m) \<in> (all_edges adj)\<^sup>+" by (meson rtrancl_into_trancl2)
    then show ?thesis by (auto simp: acyclic_def)
  next
    case 2
    obtain b c where c: "has_cycle adj col n = (b, c)" by fastforce
    show ?thesis
    proof (cases b)
      case True
      have "\<forall>g \<in> grays col. (g, n) \<in> (all_edges adj)\<^sup>*"
        using "3.prems"(3) e by (meson rtrancl.rtrancl_into_rtrancl)
      with "3.IH"(1) [of c] 2 c True show ?thesis by simp
    next
      case False
      then have p: "probe adj c ns = (True, col')" using "3.prems"(1) 2 c by simp
      from search_grays(1) c False have g: "grays c = grays col" by simp
      from False have b: "b = False" by simp
      show ?thesis
        by (rule "3.IH"(2) [OF _ 2 c [symmetric] b p, of m]) (use 2 g "3.prems" in simp_all)
    qed
  next
    case 3
    with "3.IH"(3) [of col' m] "3.prems" show ?thesis by simp
  qed
qed simp

lemma probe_all_finds:
  "probe_all adj col rs = Some i \<Longrightarrow> grays col = {} \<Longrightarrow> \<not> acyclic (all_edges adj)"
proof (induction adj col rs rule: probe_all.induct)
  case (2 adj col r rs)
  show ?case
  proof (cases "colour_of col r = WHITE")
    case True
    obtain b c where c: "has_cycle adj col r = (b, c)" by fastforce
    show ?thesis
    proof (cases b)
      case True
      with search_finds(1) [of adj col r c] c "2.prems" show ?thesis by simp
    next
      case b: False
      with search_grays(1) c "2.prems" have "grays c = {}" by simp
      moreover from b c True "2.prems" have "probe_all adj c rs = Some i" by simp
      moreover from b have "b = False" by simp
      ultimately show ?thesis using "2.IH"(1) [OF True c [symmetric]] by simp
    qed
  next
    case False
    with 2 show ?thesis by simp
  qed
qed simp

lemma all_edges_router:
  assumes "distinct (map gn_id nodes)"
  shows "all_edges (router_adjacency nodes) = router_edges nodes"
proof (intro set_eqI iffI)
  fix p assume p: "p \<in> all_edges (router_adjacency nodes)"
  obtain x y where xy: "p = (x, y)" by fastforce
  with p have y: "y \<in> set (successors (router_adjacency nodes) x)" by (simp add: edges_from_def)
  then have "x \<in> set (router_ids nodes)" using successors_outside by fastforce
  then obtain n where n: "n \<in> set nodes" "is_router n" "x = gn_id n" by (auto simp: router_ids_def)
  with y successors_router [OF assms n(1,2)] show "p \<in> router_edges nodes"
    by (auto simp: xy router_edges_def)
next
  fix p assume "p \<in> router_edges nodes"
  then show "p \<in> all_edges (router_adjacency nodes)"
    using successors_router [OF assms] by (auto simp: router_edges_def edges_from_def)
qed

lemma known_targets: "unknown_target nodes = None \<longleftrightarrow>
    (\<forall>n \<in> set nodes. is_router n \<longrightarrow> (\<forall>e \<in> set (gn_edges n). ge_to_node_id e \<in> set (map gn_id nodes)))"
  by (simp add: unknown_target_def find_None_iff split_beta) blast

lemma router_graph_exact:
  assumes "distinct (map gn_id nodes)"
  shows "validate_router_graph nodes = Inr () \<longleftrightarrow>
           acyclic (router_edges nodes) \<and>
           (\<forall>n \<in> set nodes. is_router n \<longrightarrow> (\<forall>e \<in> set (gn_edges n). ge_to_node_id e \<in> set (map gn_id nodes)))"
proof (cases "filter is_router nodes = []")
  case True
  then have "router_edges nodes = {}" and "\<forall>n \<in> set nodes. \<not> is_router n"
    by (auto simp: router_edges_def filter_empty_conv)
  with True show ?thesis by (simp add: validate_router_graph_def acyclic_def)
next
  case False
  let ?search = "probe_all (router_adjacency nodes) (map (\<lambda>i. (i, WHITE)) (router_ids nodes)) (router_ids nodes)"
  have g: "grays (map (\<lambda>i. (i, WHITE)) (router_ids nodes)) = {}"
    by (auto simp: grays_def colour_of_white)
  have "?search = None \<longleftrightarrow> acyclic (router_edges nodes)"
  proof (cases ?search)
    case None
    with search_none_acyclic [OF assms] show ?thesis by simp
  next
    case (Some i)
    from probe_all_finds [OF Some g] show ?thesis by (simp add: Some all_edges_router [OF assms])
  qed
  then show ?thesis
    using False known_targets [of nodes] by (auto simp: validate_router_graph_def split: option.splits)
qed

text \<open>
  C30: The validator of the router graph accepts a configuration with distinct node
  ids exactly when every edge of a router leads to a node of the graph and the edges between
  routers form no cycle: the three-colour search misses no cycle and reports no false one.
\<close>

theorem validation_exact:
  assumes "distinct (map gn_id nodes)"
  shows "validate_router_graph nodes = Inr () \<longleftrightarrow>
           acyclic (router_edges nodes) \<and>
           (\<forall>n \<in> set nodes. is_router n \<longrightarrow> (\<forall>e \<in> set (gn_edges n). ge_to_node_id e \<in> set (map gn_id nodes)))"
  by (rule router_graph_exact [OF assms])

definition plain_node :: "string \<Rightarrow> string option \<Rightarrow> graph_edge list \<Rightarrow> graph_node" where
  "plain_node i t es =
     \<lparr>gn_id = i, gn_node_type = t, gn_edges = es, gn_prompt = [], gn_description = None,
      gn_static_message = None, gn_examples = [], gn_function_call = None\<rparr>"

definition plain_edge :: "string \<Rightarrow> string \<Rightarrow> graph_edge" where
  "plain_edge t ct =
     \<lparr>ge_to_node_id = t, ge_condition_type = Some ct, ge_expression = None, ge_priority = None,
      ge_event_name = None, ge_condition = None, ge_function_name = None,
      ge_function_description = None, ge_parameters = []\<rparr>"

definition cyclic_routers :: "graph_node list" where
  "cyclic_routers =
     [plain_node ''a'' (Some ''router'') [plain_edge ''b'' ''unconditional''],
      plain_node ''b'' (Some ''router'') [plain_edge ''c'' ''llm'', plain_edge ''a'' ''unconditional''],
      plain_node ''c'' None []]"

theorem validation_exact_witness:
  "validate_router_graph cyclic_routers = Inl (Router_Cycle ''a'') \<and> \<not> acyclic (router_edges cyclic_routers)"
proof -
  have rejected: "validate_router_graph cyclic_routers = Inl (Router_Cycle ''a'')" by code_simp
  have ids: "distinct (map gn_id cyclic_routers)" by code_simp
  have known: "\<forall>n \<in> set cyclic_routers. is_router n \<longrightarrow>
      (\<forall>e \<in> set (gn_edges n). ge_to_node_id e \<in> set (map gn_id cyclic_routers))"
    by (simp add: cyclic_routers_def plain_node_def plain_edge_def)
  from rejected have "validate_router_graph cyclic_routers \<noteq> Inr ()" by simp
  with validation_exact [OF ids] known rejected show ?thesis by blast
qed

end
