(* ===== verification/Routing.thy ===== *)
theory Routing
  imports Graph
begin

text \<open>
  The graph brain's decisions, from \<open>modules/agents/brains/graph/routing.py\<close>,
  \<open>traversal.py\<close> (the router chain), \<open>prompts.py\<close> and \<open>generation.py\<close>: the request to the
  routing model and the reading of its answer, the three tiers of a decision, the silent hops
  through router nodes, the conversation prompt, and one turn of \<open>generate()\<close> as the list of
  what it yields.

  An exception of the routing request is the answer \<open>None\<close>. The provider's stream is one item
  of the list.
\<close>

section \<open>The routing request\<close>

definition MODEL_REASONING_EFFORT_MAP :: "(string \<times> string list) list" where
  "MODEL_REASONING_EFFORT_MAP =
     [(''gpt-5'', [''minimal'', ''low'', ''medium'', ''high'']),
      (''gpt-5-mini'', [''minimal'', ''low'', ''medium'', ''high'']),
      (''gpt-5-nano'', [''minimal'', ''low'', ''medium'', ''high'']),
      (''gpt-5-codex'', [''low'', ''medium'', ''high'']),
      (''gpt-5-pro'', [''high'']),
      (''gpt-5.1'', [''none'', ''low'', ''medium'', ''high'']),
      (''gpt-5.1-codex'', [''low'', ''medium'', ''high'']),
      (''gpt-5.1-codex-max'', [''low'', ''medium'', ''high'', ''xhigh'']),
      (''gpt-5.1-codex-mini'', [''low'', ''medium'', ''high'']),
      (''gpt-5.2'', [''none'', ''low'', ''medium'', ''high'', ''xhigh'']),
      (''gpt-5.4'', [''none'', ''low'', ''medium'', ''high'', ''xhigh'']),
      (''gpt-5.4-mini'', [''none'', ''low'', ''medium'', ''high'']),
      (''gpt-5.4-nano'', [''none'', ''low'', ''medium'', ''high'']),
      (''gpt-5.5'', [''none'', ''low'', ''medium'', ''high'', ''xhigh'']),
      (''gpt-5.5-pro'', [''medium'', ''high'', ''xhigh'']),
      (''gpt-5.6-sol'', [''none'', ''low'', ''medium'', ''high'', ''xhigh'']),
      (''gpt-5.6-terra'', [''none'', ''low'', ''medium'', ''high'', ''xhigh'']),
      (''gpt-5.6-luna'', [''none'', ''low'', ''medium'', ''high'', ''xhigh'']),
      (''gpt-realtime-2'', [''minimal'', ''low'', ''medium'', ''high'', ''xhigh'']),
      (''gpt-realtime-2.1'', [''minimal'', ''low'', ''medium'', ''high'', ''xhigh'']),
      (''gpt-realtime-2.1-mini'', [''minimal'', ''low'', ''medium'', ''high'', ''xhigh''])]"

definition default_reasoning_effort :: "string \<Rightarrow> string" where
  "default_reasoning_effort model =
     (case map_of MODEL_REASONING_EFFORT_MAP model of
        None \<Rightarrow> ''minimal''
      | Some supported \<Rightarrow>
          if supported = [] \<or> ''minimal'' \<in> set supported then ''minimal'' else hd supported)"

text \<open>\<open>max(known, key=len)\<close> is the first of the longest.\<close>

definition canonical_model :: "string \<Rightarrow> string" where
  "canonical_model name =
     (let bare = last (py_split_on CHR ''/'' name);
          known = filter (\<lambda>m. py_contains m bare) (map fst MODEL_REASONING_EFFORT_MAP)
      in case py_min_on (\<lambda>m. - int (length m)) known of None \<Rightarrow> bare | Some m \<Rightarrow> m)"

definition context_item :: "string \<times> pyval \<Rightarrow> bool" where
  "context_item kv =
     (case snd kv of PNone \<Rightarrow> False | PDict d \<Rightarrow> False | _ \<Rightarrow> fst kv \<noteq> ''detected_language'')"

definition context_section :: "pydict \<Rightarrow> string" where
  "context_section context =
     (let items = map (\<lambda>(k, v). k @ ''='' @ py_str v)
                    (filter context_item context)
      in if items = [] then []
         else CHR 0x0A # ''Context: '' @ py_join '', '' items)"

definition routing_instructions_for :: "brain_env \<Rightarrow> graph_agent \<Rightarrow> bool \<Rightarrow> string" where
  "routing_instructions_for env agent default_offered =
     (let dflt = (if default_offered
                     then ''Call the transition function that best matches the user's intent. '' @
                          ''Choose the default route only when none of the others clearly apply.''
                     else ''Call the transition function matching user intent, or stay_on_current_node if unclear.'');
          instructions = (if truthy_str (ga_routing_instructions agent)
                          then or_empty (ga_routing_instructions agent) else dflt);
          context = ga_context_data agent
      in if context = [] then instructions
         else render_prompt (env_lib env) instructions
                (case recipient_of context of None \<Rightarrow> context | Some r \<Rightarrow> dict_merge context r)
                (Some ''NULL''))"

definition said :: "chat_role \<Rightarrow> message \<Rightarrow> message" where
  "said r m = new_message r (msg_content m)"

text \<open>The node's slice of the history as the routing model sees it.\<close>

fun routing_row :: "bool \<Rightarrow> message \<Rightarrow> message list" where
  "routing_row tool_context m =
     (if tool_context then
        (case msg_role m of
           ASSISTANT \<Rightarrow>
             if has_tool_calls m
             then [(new_message ASSISTANT None)\<lparr>msg_tool_calls := msg_tool_calls m\<rparr>]
             else if truthy_str (msg_content m) then [said ASSISTANT m] else []
         | TOOL \<Rightarrow> [(said TOOL m)\<lparr>msg_tool_call_id := msg_tool_call_id m\<rparr>]
         | USER \<Rightarrow> if truthy_str (msg_content m) then [said USER m] else []
         | SYSTEM \<Rightarrow> [])
      else if (msg_role m = USER \<or> msg_role m = ASSISTANT) \<and> truthy_str (msg_content m)
           then [said (msg_role m) m] else [])"

definition node_slice :: "graph_agent \<Rightarrow> message list \<Rightarrow> message list" where
  "node_slice agent history =
     (if ga_entry_index agent < length history then drop (ga_entry_index agent) history else history)"

definition build_routing_messages ::
  "brain_env \<Rightarrow> graph_agent \<Rightarrow> graph_node \<Rightarrow> message list \<Rightarrow> bool \<Rightarrow> graph_agent \<times> (py_error + message list)" where
  "build_routing_messages env agent node history default_offered =
     (let section = context_section (ga_context_data agent);
          instructions = routing_instructions_for env agent default_offered;
          objective = (if gn_prompt node \<noteq> [] then gn_prompt node else or_empty (gn_description node))
      in case prompt_context env agent of
           (agent, Inl e) \<Rightarrow> (agent, Inl e)
         | (agent, Inr context) \<Rightarrow>
             (let objective = with_context env context objective;
                  system = ''Routing Guidelines: '' @ CHR 0x0A # '' '' @ instructions @
                           CHR 0x0A # '' Current Node: '' @ gn_id node @ section @ '' '' @
                           CHR 0x0A # '' Node Objective: '' @ objective @ CHR 0x0A # CHR 0x0A #
                           '' Node Conversation History:'' @ [CHR 0x0A];
                  slice = node_slice agent history;
                  tool_context = list_ex (\<lambda>m. msg_role m = ASSISTANT \<and> has_tool_calls m) slice;
                  rows = concat (map (routing_row tool_context) slice);
                  rows = (if rows = [] \<and> history \<noteq> [] \<and> truthy_str (msg_content (last history))
                          then [said USER (last history)] else rows)
              in (agent, Inr (new_message SYSTEM (Some system) # rows))))"

definition build_routing_request ::
  "brain_env \<Rightarrow> graph_agent \<Rightarrow> message list \<Rightarrow> llm_tool list \<Rightarrow> routing_request" where
  "build_routing_request env agent ms tools =
     (let model = canonical_model (ga_routing_model agent);
          gpt5 = prefix ''gpt-5'' model;
          limit = (case ga_routing_max_tokens agent of None \<Rightarrow> 0 | Some n \<Rightarrow> n)
      in \<lparr>rq_model = ga_routing_model agent, rq_messages = ms, rq_tools = tools,
          rq_max_completion_tokens = (if gpt5 then Some (if limit \<noteq> 0 then limit else 150) else None),
          rq_reasoning_effort =
            (if gpt5 then Some (if truthy_str (ga_routing_reasoning_effort agent)
                                then or_empty (ga_routing_reasoning_effort agent)
                                else if truthy_str (env_effort env) then or_empty (env_effort env)
                                else default_reasoning_effort model)
             else None),
          rq_max_tokens = (if gpt5 then None else Some (if limit \<noteq> 0 then limit else 250)),
          rq_service_tier =
            (if (ga_routing_provider agent = ''openai'' \<or> ga_routing_provider agent = ''azure'') \<and>
                truthy_str (ga_service_tier agent) then ga_service_tier agent else None)\<rparr>)"

section \<open>The decision of the routing model\<close>

record decision =
  dc_node :: "string option"
  dc_params :: "pydict option"
  dc_messages :: "message list option"
  dc_tools :: "llm_tool list option"
  dc_reasoning :: pyval
  dc_confidence :: pyval
  dc_usage :: "pydict option"

definition stay :: decision where
  "stay = \<lparr>dc_node = None, dc_params = None, dc_messages = None, dc_tools = None,
           dc_reasoning = PNone, dc_confidence = PNone, dc_usage = None\<rparr>"

text \<open>
  The arguments of the tool call: none when the text is empty; text that is no JSON object
  raises.
\<close>

definition call_arguments :: "text_lib \<Rightarrow> string \<Rightarrow> pydict option" where
  "call_arguments lib t =
     (if t = [] then Some []
      else case json_loads lib t of Some (PDict d) \<Rightarrow> Some d | _ \<Rightarrow> None)"

definition read_answer ::
  "text_lib \<Rightarrow> graph_edge list \<Rightarrow> message list \<Rightarrow> llm_tool list \<Rightarrow> routing_response option \<Rightarrow> decision" where
  "read_answer lib options ms tools answer =
     (let failed = stay\<lparr>dc_messages := Some ms, dc_tools := Some tools\<rparr>
      in case answer of
           None \<Rightarrow> failed
         | Some r \<Rightarrow>
             (case rr_call r of
                None \<Rightarrow> failed\<lparr>dc_usage := rr_usage r\<rparr>
              | Some (name, arguments) \<Rightarrow>
                  (case call_arguments lib arguments of
                     None \<Rightarrow> failed
                   | Some args \<Rightarrow>
                       (let answered = failed\<lparr>dc_reasoning := dict_get args ''reasoning'',
                                              dc_confidence := dict_get args ''confidence'',
                                              dc_usage := rr_usage r\<rparr>;
                            args = AList.delete ''confidence'' (AList.delete ''reasoning'' args)
                        in if name = STAY then answered
                           else case get_edge_by_function_name_from_edges options name of
                                  None \<Rightarrow> answered
                                | Some e \<Rightarrow> answered\<lparr>dc_node := Some (ge_to_node_id e), dc_params := Some args\<rparr>))))"

definition default_option :: "graph_edge \<Rightarrow> graph_edge" where
  "default_option e =
     (let marker = ''Default route: choose this only when none of the other transitions apply.'';
          hint = (if truthy_str (ge_function_description e) then or_empty (ge_function_description e)
                  else or_empty (ge_condition e))
      in e\<lparr>ge_function_description := Some (if hint \<noteq> [] then marker @ '' '' @ hint else marker)\<rparr>)"

definition option_edges :: "graph_edge list \<Rightarrow> graph_edge option \<Rightarrow> graph_edge list" where
  "option_edges intents dflt =
     intents @ (case dflt of None \<Rightarrow> [] | Some e \<Rightarrow> [default_option e])"

definition decide_next_node_llm ::
  "brain_env \<Rightarrow> graph_agent \<Rightarrow> graph_node \<Rightarrow> graph_edge list \<Rightarrow> message list \<Rightarrow> graph_edge option \<Rightarrow>
   graph_agent \<times> (py_error + decision)" where
  "decide_next_node_llm env agent node intents history dflt =
     (let options = option_edges intents dflt
      in case build_transition_tools_for_edges env agent options (dflt = None) of
           (agent, Inl e) \<Rightarrow> (agent, Inl e)
         | (agent, Inr tools) \<Rightarrow>
             (case build_routing_messages env agent node history (dflt \<noteq> None) of
                (agent, Inl e) \<Rightarrow> (agent, Inl e)
              | (agent, Inr ms) \<Rightarrow>
                  (let request = build_routing_request env agent ms tools
                   in (agent\<lparr>ga_effort_used := rq_reasoning_effort request\<rparr>,
                       Inr (read_answer (env_lib env) options ms tools (env_ask env request))))))"

definition none_or :: "string option \<Rightarrow> string \<Rightarrow> string" where
  "none_or x d = (case x of None \<Rightarrow> d | Some s \<Rightarrow> s)"

definition decide_next_node_with_functions ::
  "brain_env \<Rightarrow> graph_agent \<Rightarrow> message list \<Rightarrow> graph_agent \<times> (py_error + decision)" where
  "decide_next_node_with_functions env agent history =
     (let agent = agent\<lparr>ga_last_eval := None\<rparr>
      in case get_node_by_id agent (ga_current_node_id agent) of
           None \<Rightarrow> (agent, Inr stay)
         | Some node \<Rightarrow>
             if gn_edges node = [] then (agent, Inr stay)
             else case enrich_routing_context env agent history of
                (agent, Inl e) \<Rightarrow> (agent, Inl e)
              | (agent, Inr _) \<Rightarrow>
                  (let (deterministic, intents) = classify_edges (gn_edges node);
                       catch_all = catch_all_edge node;
                       (matched, trace) = match_expression_edge agent node (Some deterministic);
                       agent = agent\<lparr>ga_last_eval := Some trace\<rparr>
                   in case matched of
                        Some e \<Rightarrow>
                          (agent, Inr (stay\<lparr>dc_node := Some (ge_to_node_id e),
                             dc_reasoning := PStr (''deterministic:'' @ none_or (ge_condition_type e) ''expression'' @ '':'' @
                               none_or (ge_condition e) (none_or (ge_condition_type e) ''expression'')),
                             dc_confidence := PFloat 1\<rparr>))
                      | None \<Rightarrow>
                          if intents \<noteq> [] then
                            (case decide_next_node_llm env agent node intents history catch_all of
                               (agent, Inl e) \<Rightarrow> (agent, Inl e)
                             | (agent, Inr d) \<Rightarrow>
                                 if dc_node d \<noteq> None then (agent, Inr d)
                                 else (case catch_all of
                                         None \<Rightarrow> (agent, Inr d)
                                       | Some e \<Rightarrow>
                                           (agent\<lparr>ga_last_eval := Some (''intent: no match; default -> '' @ ge_to_node_id e)\<rparr>,
                                            Inr (d\<lparr>dc_node := Some (ge_to_node_id e), dc_params := None,
                                                   dc_reasoning := PStr (catch_all_reasoning e),
                                                   dc_confidence := PFloat 1\<rparr>))))
                          else (case catch_all of
                                  None \<Rightarrow> (agent, Inr stay)
                                | Some e \<Rightarrow>
                                    (agent\<lparr>ga_last_eval := Some (''default -> '' @ ge_to_node_id e)\<rparr>,
                                     Inr (stay\<lparr>dc_node := Some (ge_to_node_id e),
                                               dc_reasoning := PStr (catch_all_reasoning e),
                                               dc_confidence := PFloat 1\<rparr>)))))"

section \<open>Router chains\<close>

record routing_info =
  ri_previous_node :: string
  ri_current_node :: string
  ri_transitioned :: bool
  ri_routing_type :: string
  ri_model :: "string option"
  ri_provider :: "string option"
  ri_extracted_params :: pydict
  ri_node_history :: "string list"
  ri_messages :: "message list option"
  ri_tools :: "llm_tool list option"
  ri_reasoning :: pyval
  ri_expression :: "string option"
  ri_confidence :: pyval
  ri_usage :: "pydict option"
  ri_node_type :: string
  ri_is_silence_trigger :: bool

definition current_type :: "graph_agent \<Rightarrow> string" where
  "current_type agent = node_type_of (get_node_by_id agent (ga_current_node_id agent))"

text \<open>A hop's payload from the decision it carries.\<close>

definition router_hop_info ::
  "graph_agent \<Rightarrow> string \<Rightarrow> string \<Rightarrow> decision \<Rightarrow> bool \<Rightarrow> string option \<Rightarrow> routing_info" where
  "router_hop_info agent previous routing_type d silence expression =
     (let made_llm_call = dc_messages d \<noteq> None
      in \<lparr>ri_previous_node = previous, ri_current_node = ga_current_node_id agent, ri_transitioned = True,
          ri_routing_type = routing_type,
          ri_model = (if made_llm_call then Some (ga_routing_model agent) else None),
          ri_provider = (if made_llm_call then Some (ga_routing_provider agent) else None),
          ri_extracted_params = (case dc_params d of None \<Rightarrow> [] | Some p \<Rightarrow> p),
          ri_node_history = ga_node_history agent,
          ri_messages = dc_messages d, ri_tools = dc_tools d, ri_reasoning = dc_reasoning d,
          ri_expression = expression, ri_confidence = dc_confidence d, ri_usage = dc_usage d,
          ri_node_type = current_type agent, ri_is_silence_trigger = silence\<rparr>)"

text \<open>\<open>history[-1].get("content", "").startswith("[silence]")\<close>.\<close>

definition silence_trigger :: "message list \<Rightarrow> bool" where
  "silence_trigger history =
     (history \<noteq> [] \<and> prefix SILENCE_PREFIX (or_empty (msg_content (last history))))"

definition merge_params :: "pydict option \<Rightarrow> graph_agent \<Rightarrow> graph_agent" where
  "merge_params params agent =
     (case params of
        None \<Rightarrow> agent
      | Some p \<Rightarrow> agent\<lparr>ga_context_data := dict_merge (ga_context_data agent) p\<rparr>)"

text \<open>
  One iteration of the chain at a router that was not visited: the hop, or \<open>None\<close> where the
  loop breaks for want of an edge.
\<close>

definition take_edge ::
  "graph_agent \<Rightarrow> string \<Rightarrow> nat \<Rightarrow> bool \<Rightarrow> string \<Rightarrow> decision \<Rightarrow> graph_edge option \<Rightarrow>
   graph_agent \<times> (py_error + routing_info option)" where
  "take_edge agent previous entry silence trace spent choice =
     (case choice of
        None \<Rightarrow> (agent, Inr None)
      | Some e \<Rightarrow>
          (let agent = advance_to_node (ge_to_node_id e) entry agent;
               condition = (if truthy_str (ge_condition e) then or_empty (ge_condition e)
                            else none_or (ge_condition_type e) ''router'')
           in (agent, Inr (Some (router_hop_info agent previous ''deterministic''
                 (spent\<lparr>dc_node := Some (ge_to_node_id e), dc_params := None,
                        dc_reasoning := PStr (''deterministic:router:'' @ condition),
                        dc_confidence := PFloat 1\<rparr>)
                 silence (Some trace))))))"

definition router_hop ::
  "brain_env \<Rightarrow> graph_agent \<Rightarrow> message list \<Rightarrow> graph_node \<Rightarrow> bool \<Rightarrow>
   graph_agent \<times> (py_error + routing_info option)" where
  "router_hop env agent history node silence =
     (case enrich_routing_context env agent history of
        (agent, Inl e) \<Rightarrow> (agent, Inl e)
      | (agent, Inr _) \<Rightarrow>
          (let previous = ga_current_node_id agent;
               (deterministic, intents) = classify_edges (gn_edges node);
               catch_all = catch_all_edge node;
               (matched, trace) = match_expression_edge agent node (Some deterministic)
           in if matched = None \<and> intents \<noteq> [] then
                (case decide_next_node_llm env agent node intents history catch_all of
                   (agent, Inl e) \<Rightarrow> (agent, Inl e)
                 | (agent, Inr d) \<Rightarrow>
                     if truthy_str (dc_node d) then
                       (let agent = merge_params (dc_params d)
                                      (advance_to_node (or_empty (dc_node d)) (length history) agent)
                        in (agent, Inr (Some (router_hop_info agent previous ''llm'' d silence None))))
                     else take_edge agent previous (length history) silence (trace @ ''; intent: no match'')
                            (stay\<lparr>dc_messages := dc_messages d, dc_tools := dc_tools d, dc_usage := dc_usage d\<rparr>)
                            catch_all)
              else take_edge agent previous (length history) silence trace stay
                     (case matched of Some e \<Rightarrow> Some e | None \<Rightarrow> catch_all)))"

definition routers :: "graph_node list \<Rightarrow> string set" where
  "routers nodes = {gn_id n | n. n \<in> set nodes \<and> gn_node_type n = Some ''router''}"

lemma finite_routers [simp]: "finite (routers nodes)"
  by (rule finite_subset [of _ "gn_id ` set nodes"]) (auto simp: routers_def)

lemma router_in_routers:
  "get_node_by_id agent i = Some n \<Longrightarrow> node_type_of (Some n) = ''router'' \<Longrightarrow> i \<in> routers (ga_nodes agent)"
  by (auto simp: get_node_by_id_def find_node_def find_Some_iff node_type_of_def routers_def split: option.splits)

section \<open>The configuration is never changed\<close>

named_theorems frame \<open>what an operation leaves alone\<close>

text \<open>The parts of the agent that only a move to another node changes.\<close>

definition position :: "graph_agent \<Rightarrow> graph_node list \<times> string \<times> string list \<times> nat \<times> bool" where
  "position agent = (ga_nodes agent, ga_current_node_id agent, ga_node_history agent,
                     ga_entry_index agent, ga_first_delivered agent)"

lemma position_context [simp]:
  "position (agent\<lparr>ga_context_data := c\<rparr>) = position agent"
  "position (agent\<lparr>ga_frozen_time_vars := f\<rparr>) = position agent"
  "position (agent\<lparr>ga_last_eval := l\<rparr>) = position agent"
  "position (agent\<lparr>ga_effort_used := u\<rparr>) = position agent"
  "position (agent\<lparr>ga_silence_repeats := k\<rparr>) = position agent"
  "position (agent\<lparr>ga_event_triggered := b\<rparr>) = position agent"
  by (simp_all add: position_def)

lemma position_nodes: "position a = position b \<Longrightarrow> ga_nodes a = ga_nodes b"
  by (simp add: position_def)

lemma enrich_position [frame]: "enrich_routing_context env agent h = (agent', r) \<Longrightarrow> position agent' = position agent"
  by (auto simp: enrich_routing_context_def Let_def split: option.splits sum.splits prod.splits)

lemma freeze_position [frame]: "freeze_time env agent d = (agent', r) \<Longrightarrow> position agent' = position agent"
  by (auto simp: freeze_time_def Let_def split: if_splits sum.splits)

lemma prompt_context_position [frame]:
  "prompt_context env agent = (agent', r) \<Longrightarrow> position agent' = position agent"
  by (auto simp: prompt_context_def Let_def split: option.splits sum.splits prod.splits if_splits dest: freeze_position)

lemma tools_position [frame]:
  "build_transition_tools_for_edges env agent es b = (agent', r) \<Longrightarrow> position agent' = position agent"
  by (auto simp: build_transition_tools_for_edges_def split: prod.splits sum.splits dest: prompt_context_position)

lemma routing_messages_position [frame]:
  "build_routing_messages env agent n h b = (agent', r) \<Longrightarrow> position agent' = position agent"
  by (auto simp: build_routing_messages_def Let_def split: prod.splits sum.splits dest: prompt_context_position)

lemma decide_llm_position [frame]:
  "decide_next_node_llm env agent n es h d = (agent', r) \<Longrightarrow> position agent' = position agent"
  by (auto simp: decide_next_node_llm_def Let_def split: prod.splits sum.splits
           dest!: tools_position routing_messages_position)

lemma advance_nodes [simp]: "ga_nodes (advance_to_node i k agent) = ga_nodes agent"
  by (simp add: advance_to_node_def)

lemma merge_nodes [simp]: "position (merge_params p agent) = position agent"
  by (simp add: merge_params_def split: option.splits)

lemma take_edge_nodes: "take_edge agent p k s t d c = (agent', r) \<Longrightarrow> ga_nodes agent' = ga_nodes agent"
  by (auto simp: take_edge_def Let_def split: option.splits)

lemma router_hop_nodes:
  assumes "router_hop env agent h n s = (agent', r)"
  shows "ga_nodes agent' = ga_nodes agent"
proof -
  have adv: "ga_nodes (merge_params p (advance_to_node i k a)) = ga_nodes a" for p i k a
    by (simp add: merge_params_def split: option.splits)
  show ?thesis
    using assms
    by (auto simp: router_hop_def Let_def adv split: prod.splits sum.splits if_splits
             dest!: enrich_position decide_llm_position take_edge_nodes position_nodes)
qed

function resolve_router_chain ::
  "brain_env \<Rightarrow> message list \<Rightarrow> string set \<Rightarrow> graph_agent \<Rightarrow> graph_agent \<times> (py_error + unit) \<times> routing_info list" where
  "resolve_router_chain env history visited agent =
     (case get_node_by_id agent (ga_current_node_id agent) of
        None \<Rightarrow> (agent, Inr (), [])
      | Some node \<Rightarrow>
          if node_type_of (Some node) \<noteq> ''router'' then (agent, Inr (), [])
          else if ga_current_node_id agent \<in> visited then (agent, Inr (), [])
          else case router_hop env agent history node (silence_trigger history) of
                 (agent', Inl e) \<Rightarrow> (agent', Inl e, [])
               | (agent', Inr None) \<Rightarrow> (agent', Inr (), [])
               | (agent', Inr (Some hop)) \<Rightarrow>
                   (let (final, outcome, hops) =
                          resolve_router_chain env history (insert (ga_current_node_id agent) visited) agent'
                    in (final, outcome, hop # hops)))"
  by pat_completeness auto

lemma chain_measure:
  assumes "get_node_by_id agent i = Some n" and "node_type_of (Some n) = ''router''" and "i \<notin> visited"
    and "(agent', r) = router_hop env agent h n s"
  shows "card (routers (ga_nodes agent') - insert i visited) < card (routers (ga_nodes agent) - visited)"
proof -
  have "i \<in> routers (ga_nodes agent)" using router_in_routers [OF assms(1,2)] .
  then show ?thesis
    using assms(3) unfolding router_hop_nodes [OF assms(4) [symmetric]]
    by (intro psubset_card_mono) auto
qed

termination resolve_router_chain
  by (relation "measure (\<lambda>(env, h, visited, agent). card (routers (ga_nodes agent) - visited))")
     (auto intro: chain_measure)

section \<open>What the node may say\<close>

definition get_prompt_with_example :: "brain_env \<Rightarrow> graph_node \<Rightarrow> string option \<Rightarrow> string" where
  "get_prompt_with_example env node lang =
     (let examples = gn_examples node; quote = [CHR 0x22]
      in if truthy_str lang then
           gn_prompt node @ env_directive env (or_empty lang) @
           (case map_of examples (or_empty lang) of
              Some ex \<Rightarrow>
                if ex = [] then []
                else '' You can refer to the example given below to generate a reply in the given language. Example response: '' @
                     quote @ ex @ quote
            | None \<Rightarrow> [])
         else if examples = [] then gn_prompt node
         else gn_prompt node @ [CHR 0x0A, CHR 0x0A] @ ''Example responses:'' @ [CHR 0x0A] @
              py_join [CHR 0x0A]
                (map (\<lambda>(l, t). ''  '' @ py_upper l @ '': '' @ quote @ t @ quote) examples))"

text \<open>
  \<open>_PROMPT_VAR_PATTERN.findall\<close>: the root names of the variables a prompt mentions, in either
  syntax (no hyphens in dotted segments here).
\<close>

definition root_name :: "string \<Rightarrow> (string \<times> string) option" where
  "root_name s =
     (case dropWhile py_isspace s of
        [] \<Rightarrow> None
      | c # r \<Rightarrow>
          if ident_start c then
            (let (p, rest) = path_tail ident_char (dropWhile ident_char r);
                 after = dropWhile py_isspace rest
             in if prefix ''}'' after
                then Some (c # takeWhile ident_char r, drop (if prefix ''}}'' after then 2 else 1) after)
                else None)
          else None)"

definition prompt_var :: "string \<Rightarrow> (string \<times> string) option" where
  "prompt_var s =
     (if prefix ''{{'' s then root_name (drop 2 s)
      else if prefix ''{'' s then root_name (drop 1 s) else None)"

function prompt_vars :: "string \<Rightarrow> string list" where
  "prompt_vars [] = []"
| "prompt_vars (c # s) =
     (case prompt_var (c # s) of
        None \<Rightarrow> prompt_vars s
      | Some (v, rest) \<Rightarrow> v # prompt_vars rest)"
  by pat_completeness auto

lemma root_name_shorter: "root_name s = Some (v, rest) \<Longrightarrow> length rest < length s"
proof -
  assume m: "root_name s = Some (v, rest)"
  then obtain c r p t where s: "dropWhile py_isspace s = c # r"
    and p: "path_tail ident_char (dropWhile ident_char r) = (p, t)"
    by (auto simp: root_name_def split: list.splits if_splits prod.splits)
  have "length rest \<le> length t"
    using m s p length_dropWhile_le [of py_isspace t]
    by (auto simp: root_name_def Let_def split: if_splits)
  also have "length t \<le> length r"
    using path_tail_length [OF p] length_dropWhile_le [of ident_char r]
    by (metis length_append le_add2 order_trans)
  also have "length r < length s" using dropWhile_shorter [OF s] .
  finally show ?thesis .
qed

lemma prompt_var_shorter: "prompt_var s = Some (v, rest) \<Longrightarrow> length rest < length s"
  by (auto simp: prompt_var_def split: if_splits dest!: root_name_shorter)

termination prompt_vars
  by (relation "measure length") (auto dest: prompt_var_shorter)

definition missing_forced_function_vars :: "graph_agent \<Rightarrow> graph_node \<Rightarrow> string \<Rightarrow> py_error + string list" where
  "missing_forced_function_vars agent node fn =
     (let required = (case find (\<lambda>t. lt_name t = fn) (bl_tools (ga_llm agent)) of
                        None \<Rightarrow> [] | Some t \<Rightarrow> lt_required t);
          referenced = filter (\<lambda>v. v \<in> set required) (remdups (prompt_vars (gn_prompt node)));
          recipient = dict_get (ga_context_data agent) ''recipient_data''
      in if referenced = [] \<or> \<not> truthy recipient then Inr (sort referenced)
         else case recipient of
                PDict r \<Rightarrow> Inr (sort (filter (\<lambda>v. \<not> truthy (dict_get r v)) referenced))
              | _ \<Rightarrow> Inl AttributeError)"

definition forced_function_already_called :: "graph_agent \<Rightarrow> string \<Rightarrow> message list \<Rightarrow> bool" where
  "forced_function_already_called agent fn history =
     (let slice = drop (ga_entry_index agent) history;
          ids = concat (map (\<lambda>m. if msg_role m = ASSISTANT
                                 then map tc_id (filter (\<lambda>tc. tc_name tc = fn)
                                        (case msg_tool_calls m of None \<Rightarrow> [] | Some tcs \<Rightarrow> tcs))
                                 else []) slice)
      in list_ex (\<lambda>m. msg_role m = TOOL \<and> msg_tool_call_id m \<in> set ids) slice)"

definition get_tool_choice_for_node :: "graph_agent \<Rightarrow> message list \<Rightarrow> py_error + string option" where
  "get_tool_choice_for_node agent history =
     (if \<not> bl_trigger_function_call (ga_llm agent) then Inr None
      else case get_node_by_id agent (ga_current_node_id agent) of
             None \<Rightarrow> Inr None
           | Some node \<Rightarrow>
               if \<not> truthy_str (gn_function_call node) then Inr None
               else (let fn = or_empty (gn_function_call node)
                     in case missing_forced_function_vars agent node fn of
                          Inl e \<Rightarrow> Inl e
                        | Inr missing \<Rightarrow>
                            if missing \<noteq> [] then Inr None
                            else if forced_function_already_called agent fn history then Inr None
                            else Inr (Some fn)))"

definition tool_visible :: "brain_llm \<Rightarrow> string option \<Rightarrow> string option \<Rightarrow> llm_tool \<Rightarrow> bool" where
  "tool_visible llm node_id forced t =
     (if Some (lt_name t) = forced then True
      else case map_of (bl_api_params llm) (lt_name t) of
             None \<Rightarrow> True
           | Some p \<Rightarrow>
               if ts_scope p = Some ''node''
               then (case node_id of None \<Rightarrow> False | Some i \<Rightarrow> i \<in> set (ts_nodes p))
               else True)"

definition tools_for_node :: "graph_agent \<Rightarrow> graph_node option \<Rightarrow> string option \<Rightarrow> llm_tool list option" where
  "tools_for_node agent node forced =
     (let full = bl_tools (ga_llm agent);
          subset = filter (tool_visible (ga_llm agent) (map_option gn_id node) forced) full
      in if \<not> bl_trigger_function_call (ga_llm agent) \<or> full = [] \<or> length subset = length full then None
         else Some subset)"

definition detected_language :: "graph_agent \<Rightarrow> string option" where
  "detected_language agent =
     (case dict_get (ga_context_data agent) ''detected_language'' of PStr l \<Rightarrow> Some l | _ \<Rightarrow> None)"

definition build_messages ::
  "brain_env \<Rightarrow> graph_agent \<Rightarrow> message list \<Rightarrow> graph_agent \<times> (py_error + message list)" where
  "build_messages env agent history =
     (case get_node_by_id agent (ga_current_node_id agent) of
        None \<Rightarrow> (agent, Inl ValueError)
      | Some node \<Rightarrow>
          (case prompt_context env agent of
             (agent', Inl e) \<Rightarrow> (agent', Inl e)
           | (agent', Inr context) \<Rightarrow>
               (let node_prompt = with_context env context
                                    (get_prompt_with_example env node (detected_language agent));
                    prompt = (if truthy_str (ga_agent_information agent)
                              then with_context env context (or_empty (ga_agent_information agent)) @
                                   [CHR 0x0A, CHR 0x0A] @ node_prompt
                              else node_prompt) @ [CHR 0x0A, CHR 0x0A] @ ''## Conversation History'';
                    recent = drop (length history - 50) history;
                    trailing = (case env_rag env (ga_current_node_id agent) history of
                                  None \<Rightarrow> [] | Some m \<Rightarrow> [m])
                in (agent', Inr (new_message SYSTEM (Some prompt) #
                                 filter (\<lambda>m. msg_role m \<noteq> SYSTEM) recent @ trailing)))))"

definition static_message_chunk :: "brain_env \<Rightarrow> graph_agent \<Rightarrow> graph_node option \<Rightarrow> (string \<times> string) option" where
  "static_message_chunk env agent node =
     (let config = (case node of None \<Rightarrow> None | Some n \<Rightarrow> gn_static_message n);
          chosen = select_message_by_language config (detected_language agent)
      in if chosen = [] then None
         else let shown = with_context env (ga_context_data agent) chosen
              in Some (shown, env_md5 env shown))"

section \<open>One turn\<close>

datatype turn_item =
    Routing_Info routing_info
  | End_Of_Turn
  | Static_Chunk string string
  | Messages "message list"
  | Stream "message list" "string option" "llm_tool list option"
  | Error_Chunk py_error

definition deliver ::
  "brain_env \<Rightarrow> graph_agent \<Rightarrow> message list \<Rightarrow> message list \<Rightarrow> graph_agent \<times> turn_item list" where
  "deliver env agent history hint =
     (let node = get_node_by_id agent (ga_current_node_id agent)
      in if node_type_of node = ''router'' then (agent, [End_Of_Turn])
         else if node_type_of node = ''static'' then
           (agent, case static_message_chunk env agent node of
                     None \<Rightarrow> [] | Some (t, digest) \<Rightarrow> [Static_Chunk t digest])
         else case build_messages env agent history of
                (agent, Inl e) \<Rightarrow> (agent, [Error_Chunk e])
              | (agent, Inr ms) \<Rightarrow>
                  (let ms = ms @ hint
                   in case get_tool_choice_for_node agent history of
                        Inl e \<Rightarrow> (agent, [Messages ms, Error_Chunk e])
                      | Inr forced \<Rightarrow>
                          (agent, [Messages ms, Stream ms forced (tools_for_node agent node forced)])))"

definition chain_then_deliver ::
  "brain_env \<Rightarrow> graph_agent \<Rightarrow> message list \<Rightarrow> message list \<Rightarrow> graph_agent \<times> turn_item list" where
  "chain_then_deliver env agent history hint =
     (if current_type agent \<noteq> ''router'' then deliver env agent history hint
      else case resolve_router_chain env history {} agent of
             (agent, Inl e, hops) \<Rightarrow> (agent, [Error_Chunk e])
           | (agent, Inr _, hops) \<Rightarrow>
               (let (final, items) = deliver env agent history hint
                in (final, map Routing_Info hops @ items)))"

definition passive_info :: "graph_agent \<Rightarrow> string \<Rightarrow> string \<Rightarrow> bool \<Rightarrow> string \<Rightarrow> bool \<Rightarrow> routing_info" where
  "passive_info agent previous routing_type transitioned reasoning silence =
     \<lparr>ri_previous_node = previous, ri_current_node = ga_current_node_id agent,
      ri_transitioned = transitioned, ri_routing_type = routing_type, ri_model = None, ri_provider = None,
      ri_extracted_params = [], ri_node_history = ga_node_history agent, ri_messages = None,
      ri_tools = None, ri_reasoning = PStr reasoning, ri_expression = None, ri_confidence = PFloat 1,
      ri_usage = None, ri_node_type = current_type agent, ri_is_silence_trigger = silence\<rparr>"

definition hold_routing_info :: "graph_agent \<Rightarrow> bool \<Rightarrow> routing_info" where
  "hold_routing_info agent silence =
     passive_info agent (ga_current_node_id agent) ''hold'' False
       ''deterministic:hold:first_response_undelivered'' silence"

definition text_of :: "pydict \<Rightarrow> string \<Rightarrow> string \<Rightarrow> string" where
  "text_of d k dflt = (case map_of d k of None \<Rightarrow> dflt | Some v \<Rightarrow> py_str v)"

definition generate_event_triggered ::
  "brain_env \<Rightarrow> graph_agent \<Rightarrow> message list \<Rightarrow> graph_agent \<times> turn_item list" where
  "generate_event_triggered env agent history =
     (let context = ga_context_data agent;
          info = passive_info agent (text_of context ''_event_previous_node'' (ga_current_node_id agent))
                   ''event'' True (''event:'' @ text_of context ''_last_event'' []) False;
          hint = new_message SYSTEM (Some (env_event_hint env (text_of context ''_last_event'' [])));
          (final, items) = chain_then_deliver env agent history [hint]
      in (final, Routing_Info info # items))"

definition decision_type :: "pyval \<Rightarrow> py_error + string" where
  "decision_type reasoning =
     (case reasoning of
        PStr s \<Rightarrow> Inr (if prefix ''deterministic:'' s then ''deterministic'' else ''llm'')
      | v \<Rightarrow> if truthy v then Inl AttributeError else Inr ''llm'')"

definition turn_info :: "graph_agent \<Rightarrow> string \<Rightarrow> string \<Rightarrow> decision \<Rightarrow> bool \<Rightarrow> routing_info" where
  "turn_info agent previous routing_type d silence =
     \<lparr>ri_previous_node = previous, ri_current_node = ga_current_node_id agent,
      ri_transitioned = (dc_node d \<noteq> None), ri_routing_type = routing_type,
      ri_model = Some (ga_routing_model agent), ri_provider = Some (ga_routing_provider agent),
      ri_extracted_params = (case dc_params d of None \<Rightarrow> [] | Some p \<Rightarrow> p),
      ri_node_history = ga_node_history agent, ri_messages = dc_messages d, ri_tools = dc_tools d,
      ri_reasoning = dc_reasoning d, ri_expression = ga_last_eval agent,
      ri_confidence = dc_confidence d, ri_usage = dc_usage d, ri_node_type = current_type agent,
      ri_is_silence_trigger = silence\<rparr>"

definition apply_decision :: "decision \<Rightarrow> nat \<Rightarrow> graph_agent \<Rightarrow> graph_agent" where
  "apply_decision d entry agent =
     (if truthy_str (dc_node d)
      then merge_params (dc_params d) (advance_to_node (or_empty (dc_node d)) entry agent) else agent)"

definition routed_turn ::
  "brain_env \<Rightarrow> graph_agent \<Rightarrow> message list \<Rightarrow> bool \<Rightarrow> graph_agent \<times> turn_item list" where
  "routed_turn env agent history silence =
     (case decide_next_node_with_functions env agent history of
        (agent', Inl e) \<Rightarrow> (agent', [Error_Chunk e])
      | (agent', Inr d) \<Rightarrow>
          (let agent'' = apply_decision d (length history) agent'
           in case decision_type (dc_reasoning d) of
                Inl e \<Rightarrow> (agent'', [Error_Chunk e])
              | Inr routing_type \<Rightarrow>
                  (let info = turn_info agent'' (ga_current_node_id agent) routing_type d silence;
                       (final, items) = chain_then_deliver env agent'' history []
                   in (final, Routing_Info info # items))))"

definition user_turn :: "brain_env \<Rightarrow> graph_agent \<Rightarrow> message list \<Rightarrow> graph_agent \<times> turn_item list" where
  "user_turn env agent history =
     (let silence = silence_trigger history;
          agent = (if silence then agent\<lparr>ga_silence_repeats := ga_silence_repeats agent + 1\<rparr> else agent);
          node = get_node_by_id agent (ga_current_node_id agent)
      in if node_type_of node = ''router'' then chain_then_deliver env agent history []
         else if should_hold_for_first_delivery agent node then
           (let (final, items) = deliver env agent history []
            in (final, Routing_Info (hold_routing_info agent silence) # items))
         else routed_turn env agent history silence)"

definition generate ::
  "brain_env \<Rightarrow> string option \<Rightarrow> graph_agent \<Rightarrow> message list \<Rightarrow> graph_agent \<times> turn_item list" where
  "generate env language agent history =
     (let agent = (if truthy_str language
                   then agent\<lparr>ga_context_data :=
                          AList.update ''detected_language'' (PStr (or_empty language)) (ga_context_data agent)\<rparr>
                   else agent)
      in if ga_event_triggered agent
         then generate_event_triggered env (agent\<lparr>ga_event_triggered := False\<rparr>) history
         else user_turn env agent history)"

end
