(* ===== verification/Graph_Runs.thy ===== *)
theory Graph_Runs
  imports Routing Graph_Validation
begin

text \<open>
  Runs of the graph brain. The walk invariant: the visited nodes are a walk along configured
  edges that ends at the current node, whatever the routing model answers and whatever events
  arrive. The chain of routers ends within as many hops as there are routers, and on a validated
  configuration at a node that speaks. The tiers of a decision and the first-delivery hold.
\<close>

section \<open>Where a decision can lead\<close>

definition targets :: "graph_node list \<Rightarrow> string \<Rightarrow> string set" where
  "targets nodes i = (case find_node nodes i of None \<Rightarrow> {} | Some n \<Rightarrow> ge_to_node_id ` set (gn_edges n))"

definition leads_to :: "graph_edge set \<Rightarrow> string set" where
  "leads_to es = ge_to_node_id ` es"

lemma py_min_on_in: "py_min_on f xs = Some x \<Longrightarrow> x \<in> set xs"
  by (induction xs arbitrary: x) (auto split: option.splits if_splits)

lemma py_min_on_None [simp]: "py_min_on f xs = None \<longleftrightarrow> xs = []"
  by (cases xs) (auto split: option.splits)

lemma catch_all_in: "catch_all_edge n = Some e \<Longrightarrow> e \<in> set (gn_edges n) \<and> is_unconditional_edge e"
  by (auto simp: catch_all_edge_def dest: py_min_on_in)

lemma evaluate_deterministic_find:
  "fst (evaluate_deterministic_edges agent es) =
     find (\<lambda>e. evaluate_edge_expression e (ga_context_data agent) (ga_variable_types agent)) es"
  by (induction es) (auto simp: Let_def split: prod.splits)

definition expression_matches :: "graph_agent \<Rightarrow> graph_edge \<Rightarrow> bool" where
  "expression_matches agent e =
     (is_expression_edge e \<and> evaluate_edge_expression e (ga_context_data agent) (ga_variable_types agent))"

definition first_match :: "graph_agent \<Rightarrow> graph_node \<Rightarrow> graph_edge option" where
  "first_match agent n = find (expression_matches agent) (sort_key (priority_or 0) (gn_edges n))"

lemma find_filter: "find P (filter Q xs) = find (\<lambda>x. Q x \<and> P x) xs"
  by (induction xs) auto

lemma match_expression_first:
  assumes "match_expression_edge agent n (Some (fst (classify_edges (gn_edges n)))) = (m, trace)"
  shows "m = first_match agent n"
proof -
  have "m = find (\<lambda>e. evaluate_edge_expression e (ga_context_data agent) (ga_variable_types agent))
              (filter is_expression_edge (sort_key (priority_or 0) (filter is_deterministic_edge (gn_edges n))))"
    using assms by (auto simp: match_expression_edge_def classify_edges_def Let_def
        evaluate_deterministic_find [symmetric] split: prod.splits)
  also have "\<dots> = find (\<lambda>e. evaluate_edge_expression e (ga_context_data agent) (ga_variable_types agent))
              (filter is_expression_edge (filter is_deterministic_edge (sort_key (priority_or 0) (gn_edges n))))"
    by (simp add: filter_sort)
  also have "\<dots> = first_match agent n"
    by (simp add: first_match_def expression_matches_def [abs_def] is_deterministic_edge_def find_filter
        conj_ac cong: conj_cong)
  finally show ?thesis .
qed

lemma first_match_in: "first_match agent n = Some e \<Longrightarrow> e \<in> set (gn_edges n) \<and> expression_matches agent e"
  unfolding first_match_def find_Some_iff by (metis length_sort nth_mem set_sort)

lemma find_sorted_least:
  assumes "find P (sort_key f xs) = Some x" and "y \<in> set xs" and "P y"
  shows "f x \<le> f y"
proof -
  from assms(1) obtain i where i: "i < length xs" "x = sort_key f xs ! i"
    and no: "\<And>j. j < i \<Longrightarrow> \<not> P (sort_key f xs ! j)" by (auto simp: find_Some_iff)
  from assms(2) obtain k where k: "k < length xs" "sort_key f xs ! k = y"
    by (metis in_set_conv_nth length_sort set_sort)
  with no assms(3) have "i \<le> k" by (metis linorder_not_less)
  then show ?thesis
    using sorted_nth_mono [of "map f (sort_key f xs)" i k] i k by simp
qed

lemma read_answer_target:
  "dc_node (read_answer lib es ms tools ans) = Some t \<Longrightarrow> t \<in> leads_to (set es)"
  by (auto simp: read_answer_def Let_def stay_def leads_to_def get_edge_by_function_name_from_edges_def
      find_Some_iff split: option.splits prod.splits if_splits)

lemma leads_to_options:
  "leads_to (set (option_edges es d)) = leads_to (set es) \<union> leads_to (set_option d)"
  by (cases d) (auto simp: option_edges_def leads_to_def default_option_def Let_def)

lemma decide_llm_target:
  "decide_next_node_llm env agent n es h d = (agent', Inr dc) \<Longrightarrow> dc_node dc = Some t \<Longrightarrow>
     t \<in> leads_to (set es) \<union> leads_to (set_option d)"
  by (auto simp: decide_next_node_llm_def Let_def leads_to_options [symmetric]
      split: prod.splits sum.splits dest: read_answer_target)

lemma intents_in: "set (snd (classify_edges es)) \<subseteq> set es"
  by (auto simp: classify_edges_def)

lemma llm_leads_on:
  assumes "decide_next_node_llm env agent n (snd (classify_edges (gn_edges n))) h (catch_all_edge n) = (agent', Inr dc)"
    and "dc_node dc = Some t"
  shows "t \<in> leads_to (set (gn_edges n))"
  using decide_llm_target [OF assms] intents_in catch_all_in [of n]
  by (cases "catch_all_edge n") (auto simp: leads_to_def)

section \<open>The walk invariant\<close>

text \<open>
  The configuration is \<open>fst w\<close>; the history is a walk along its edges from the node \<open>snd w\<close> to
  the current node.
\<close>

definition placed :: "graph_node list \<times> string \<Rightarrow> graph_agent \<Rightarrow> bool" where
  "placed w agent =
     (ga_nodes agent = fst w \<and> ga_node_history agent \<noteq> [] \<and> hd (ga_node_history agent) = snd w \<and> last (ga_node_history agent) = ga_current_node_id agent \<and>
      successively (\<lambda>a b. b \<in> targets (ga_nodes agent) a) (ga_node_history agent))"

lemma placed_position: "position a = position b \<Longrightarrow> placed w a \<longleftrightarrow> placed w b"
  by (simp add: placed_def position_def)

lemma placed_advance:
  assumes "placed w agent" and "i \<in> targets (ga_nodes agent) (ga_current_node_id agent)"
  shows "placed w (advance_to_node i k agent)"
  using assms by (auto simp: advance_to_node_def placed_def successively_append_iff)

lemma placed_merge [simp]: "placed w (merge_params p agent) = placed w agent"
  by (rule placed_position) simp

lemma targets_node:
  "get_node_by_id agent i = Some n \<Longrightarrow> targets (ga_nodes agent) i = leads_to (set (gn_edges n))"
  by (simp add: targets_def get_node_by_id_def leads_to_def)

lemma position_simps:
  assumes "position a = position b"
  shows "ga_nodes a = ga_nodes b" "ga_current_node_id a = ga_current_node_id b"
    "get_node_by_id a i = get_node_by_id b i" "ga_node_history a = ga_node_history b"
    "ga_first_delivered a = ga_first_delivered b"
  using assms by (simp_all add: position_def get_node_by_id_def)

lemma position_advance:
  "position a = position b \<Longrightarrow> position (advance_to_node t k a) = position (advance_to_node t k b)"
  by (simp add: position_def advance_to_node_def)

lemma previous_hop_info [simp]: "ri_previous_node (router_hop_info agent p t d s x) = p"
  by (simp add: router_hop_info_def Let_def)

lemma take_edge_result:
  assumes "take_edge agent p k s t d c = (agent', r)"
  shows "case c of None \<Rightarrow> agent' = agent \<and> r = Inr None
         | Some e \<Rightarrow> agent' = advance_to_node (ge_to_node_id e) k agent \<and>
                     (\<exists>i. r = Inr (Some i) \<and> ri_previous_node i = p)"
  using assms by (cases c) (auto simp: take_edge_def Let_def)

text \<open>
  A hop moves along an edge of the router; it stays only where the router has no catch-all or a
  call raised.
\<close>

definition hop_result :: "graph_agent \<Rightarrow> graph_node \<Rightarrow> nat \<Rightarrow> graph_agent \<Rightarrow> (py_error + routing_info option) \<Rightarrow> bool" where
  "hop_result agent n k agent' r =
     (case r of
        Inl e \<Rightarrow> position agent' = position agent
      | Inr None \<Rightarrow> position agent' = position agent \<and> catch_all_edge n = None
      | Inr (Some i) \<Rightarrow>
          ri_previous_node i = ga_current_node_id agent \<and>
          (\<exists>t \<in> leads_to (set (gn_edges n)). position agent' = position (advance_to_node t k agent)))"

lemma hop_result_take_edge:
  assumes "take_edge a (ga_current_node_id agent) k s t d c = (agent', r)" and "position a = position agent"
    and "\<And>e. c = Some e \<Longrightarrow> e \<in> set (gn_edges n)" and "c = None \<Longrightarrow> catch_all_edge n = None"
  shows "hop_result agent n k agent' r"
  using take_edge_result [OF assms(1)] assms(2-4) position_advance [OF assms(2)]
  by (cases c) (auto simp: hop_result_def leads_to_def)

lemma router_hop_result:
  assumes hop: "router_hop env agent h n s = (agent', r)"
  shows "hop_result agent n (length h) agent' r"
proof -
  obtain a1 o1 where enrich: "enrich_routing_context env agent h = (a1, o1)" by fastforce
  note p1 = enrich_position [OF enrich]
  have cur: "ga_current_node_id a1 = ga_current_node_id agent" using position_simps(2) [OF p1] .
  obtain det ints where c: "classify_edges (gn_edges n) = (det, ints)" by fastforce
  obtain m trace where m: "match_expression_edge a1 n (Some det) = (m, trace)" by fastforce
  have mfirst: "m = first_match a1 n" using match_expression_first [of a1 n m trace] c m by simp
  show ?thesis
  proof (cases o1)
    case (Inl e)
    with hop enrich p1 show ?thesis by (auto simp: router_hop_def hop_result_def)
  next
    case (Inr u)
    show ?thesis
    proof (cases "m = None \<and> ints \<noteq> []")
      case True
      obtain a2 o2 where llm: "decide_next_node_llm env a1 n ints h (catch_all_edge n) = (a2, o2)" by fastforce
      have p2: "position a2 = position agent" using decide_llm_position [OF llm] p1 by simp
      show ?thesis
      proof (cases o2)
        case (Inl e)
        with hop enrich Inr c m True llm p2 show ?thesis by (auto simp: router_hop_def hop_result_def)
      next
        case d: (Inr d)
        show ?thesis
        proof (cases "truthy_str (dc_node d)")
          case t: True
          then obtain t where dn: "dc_node d = Some t" by (cases "dc_node d") auto
          have "agent' = merge_params (dc_params d) (advance_to_node t (length h) a2) \<and>
              (\<exists>i. r = Inr (Some i) \<and> ri_previous_node i = ga_current_node_id a1)"
            using hop enrich Inr c m True llm d t by (auto simp: router_hop_def dn Let_def)
          moreover have "t \<in> leads_to (set (gn_edges n))"
            using llm_leads_on [of env a1 n h a2 d t] llm c d dn by simp
          ultimately show ?thesis using position_advance [OF p2] by (auto simp: hop_result_def cur)
        next
          case f: False
          then have "take_edge a2 (ga_current_node_id a1) (length h) s (trace @ ''; intent: no match'')
              (stay\<lparr>dc_messages := dc_messages d, dc_tools := dc_tools d, dc_usage := dc_usage d\<rparr>)
              (catch_all_edge n) = (agent', r)"
            using hop enrich Inr c m True llm d by (auto simp: router_hop_def)
          then show ?thesis unfolding cur
            by (rule hop_result_take_edge [OF _ p2]) (use catch_all_in [of n] in auto)
        qed
      qed
    next
      case False
      then have "take_edge a1 (ga_current_node_id a1) (length h) s trace stay
            (case m of Some e \<Rightarrow> Some e | None \<Rightarrow> catch_all_edge n) = (agent', r)"
        using hop enrich Inr c m by (auto simp: router_hop_def)
      then show ?thesis unfolding cur
        by (rule hop_result_take_edge [OF _ p1])
           (use first_match_in [of a1 n] catch_all_in [of n] in \<open>auto simp: mfirst split: option.splits\<close>)
    qed
  qed
qed

lemma hop_result_placed:
  assumes "hop_result agent n k agent' r"
    and node: "get_node_by_id agent (ga_current_node_id agent) = Some n" and "placed w agent"
  shows "placed w agent'"
  using assms placed_advance [OF assms(3)] targets_node [OF node]
  by (auto simp: hop_result_def split: sum.splits option.splits dest: placed_position)

lemma router_hop_moves:
  "router_hop env agent h n s = (agent', r) \<Longrightarrow>
   get_node_by_id agent (ga_current_node_id agent) = Some n \<Longrightarrow> placed w agent \<Longrightarrow> placed w agent'"
  using router_hop_result hop_result_placed by blast

section \<open>Induction over the hops of a chain\<close>

declare resolve_router_chain.simps [simp del]

definition at_router :: "graph_agent \<Rightarrow> string set \<Rightarrow> graph_node \<Rightarrow> bool" where
  "at_router agent visited n =
     (get_node_by_id agent (ga_current_node_id agent) = Some n \<and> node_type_of (Some n) = ''router'' \<and>
      ga_current_node_id agent \<notin> visited)"

lemma chain_elim:
  assumes "resolve_router_chain env h visited agent = (agent', r, hops)"
  obtains (stopped) "agent' = agent" "r = Inr ()" "hops = []"
      "current_type agent \<noteq> ''router'' \<or> ga_current_node_id agent \<in> visited"
  | (raised) n e where "at_router agent visited n"
      "router_hop env agent h n (silence_trigger h) = (agent', Inl e)" "r = Inl e" "hops = []"
  | (stuck) n where "at_router agent visited n"
      "router_hop env agent h n (silence_trigger h) = (agent', Inr None)" "r = Inr ()" "hops = []"
  | (hopped) n a1 hop hs where "at_router agent visited n"
      "router_hop env agent h n (silence_trigger h) = (a1, Inr (Some hop))"
      "resolve_router_chain env h (insert (ga_current_node_id agent) visited) a1 = (agent', r, hs)"
      "hops = hop # hs"
proof (cases "\<exists>n. at_router agent visited n")
  case False
  with assms have "agent' = agent \<and> r = Inr () \<and> hops = []"
    by (auto simp: resolve_router_chain.simps [of env h visited agent] at_router_def split: option.splits if_splits)
  moreover have "current_type agent \<noteq> ''router'' \<or> ga_current_node_id agent \<in> visited"
    using False by (auto simp: at_router_def current_type_def node_type_of_def split: option.splits)
  ultimately show ?thesis using stopped by blast
next
  case True
  then obtain n where n: "at_router agent visited n" by blast
  obtain a1 o1 where hop: "router_hop env agent h n (silence_trigger h) = (a1, o1)" by fastforce
  obtain f oc hs where rest:
    "resolve_router_chain env h (insert (ga_current_node_id agent) visited) a1 = (f, oc, hs)"
    by (metis prod_cases3)
  have step: "resolve_router_chain env h visited agent =
      (case o1 of Inl e \<Rightarrow> (a1, Inl e, [])
       | Inr None \<Rightarrow> (a1, Inr (), [])
       | Inr (Some hop) \<Rightarrow> (f, oc, hop # hs))"
    using n hop rest
    by (auto simp: resolve_router_chain.simps [of env h visited agent] at_router_def
        split: sum.splits option.splits)
  show ?thesis
  proof (cases o1)
    case (Inl e)
    with step assms hop n raised show ?thesis by simp
  next
    case (Inr x)
    show ?thesis
    proof (cases x)
      case None
      with Inr step assms hop n stuck show ?thesis by simp
    next
      case (Some y)
      with Inr step assms hop n rest hopped show ?thesis by simp
    qed
  qed
qed

lemma chain_induct [consumes 1, case_names stopped raised stuck hopped]:
  assumes "resolve_router_chain env h visited agent = (agent', r, hops)"
    and "\<And>visited agent. current_type agent \<noteq> ''router'' \<or> ga_current_node_id agent \<in> visited \<Longrightarrow>
           P visited agent agent (Inr ()) []"
    and "\<And>visited agent n agent' e. at_router agent visited n \<Longrightarrow>
           router_hop env agent h n (silence_trigger h) = (agent', Inl e) \<Longrightarrow> P visited agent agent' (Inl e) []"
    and "\<And>visited agent n agent'. at_router agent visited n \<Longrightarrow>
           router_hop env agent h n (silence_trigger h) = (agent', Inr None) \<Longrightarrow> P visited agent agent' (Inr ()) []"
    and "\<And>visited agent n a1 hop agent' r hs. at_router agent visited n \<Longrightarrow>
           router_hop env agent h n (silence_trigger h) = (a1, Inr (Some hop)) \<Longrightarrow>
           P (insert (ga_current_node_id agent) visited) a1 agent' r hs \<Longrightarrow>
           P visited agent agent' r (hop # hs)"
  shows "P visited agent agent' r hops"
  using assms(1)
proof (induction "card (routers (ga_nodes agent) - visited)" arbitrary: visited agent agent' r hops
    rule: less_induct)
  case less
  from less.prems show ?case
  proof (cases rule: chain_elim)
    case (hopped n a1 hop hs)
    have "card (routers (ga_nodes a1) - insert (ga_current_node_id agent) visited)
        < card (routers (ga_nodes agent) - visited)"
      using hopped(1) chain_measure [OF _ _ _ hopped(2) [symmetric]] by (auto simp: at_router_def)
    from less.hyps [OF this hopped(3)] hopped assms(5) show ?thesis by simp
  next
    case stopped
    with assms(2) [of agent visited] show ?thesis by simp
  next
    case (raised n e)
    with assms(3) [of agent visited n agent' e] show ?thesis by simp
  next
    case (stuck n)
    with assms(4) [of agent visited n agent'] show ?thesis by simp
  qed
qed

lemma chain_placed:
  "resolve_router_chain env h visited agent = (agent', r, hops) \<Longrightarrow> placed w agent \<Longrightarrow> placed w agent'"
proof (induction rule: chain_induct)
  case (hopped visited agent n a1 hop agent' r hs)
  then show ?case using router_hop_moves by (auto simp: at_router_def)
qed (auto simp: at_router_def dest: router_hop_moves)

lemma chain_nodes:
  "resolve_router_chain env h visited agent = (agent', r, hops) \<Longrightarrow> ga_nodes agent' = ga_nodes agent"
  by (induction rule: chain_induct) (auto dest: router_hop_nodes)

section \<open>Turns and events keep the walk\<close>

lemma build_messages_position [frame]:
  "build_messages env agent h = (agent', r) \<Longrightarrow> position agent' = position agent"
  by (auto simp: build_messages_def Let_def split: option.splits prod.splits sum.splits dest: prompt_context_position)

lemma deliver_position [frame]: "deliver env agent h hint = (agent', items) \<Longrightarrow> position agent' = position agent"
  by (auto simp: deliver_def Let_def split: prod.splits sum.splits if_splits dest!: build_messages_position)

lemma decide_position [frame]:
  assumes "decide_next_node_with_functions env agent h = (agent', r)"
  shows "position agent' = position agent"
proof -
  let ?a = "agent\<lparr>ga_last_eval := None\<rparr>"
  obtain a1 o1 where enrich: "enrich_routing_context env ?a h = (a1, o1)" by fastforce
  have p1: "position a1 = position agent" using enrich_position [OF enrich] by simp
  have llm: "position a2 = position agent"
    if "decide_next_node_llm env (a1\<lparr>ga_last_eval := l\<rparr>) n es h d = (a2, o2)" for l n es d a2 o2
    using decide_llm_position [OF that] p1 by simp
  show ?thesis
    using assms p1 llm
    by (auto simp: decide_next_node_with_functions_def Let_def enrich
        split: option.splits prod.splits sum.splits if_splits)
qed

lemma decide_target:
  assumes "decide_next_node_with_functions env agent h = (agent', Inr d)" and "dc_node d = Some t"
  shows "t \<in> targets (ga_nodes agent) (ga_current_node_id agent)"
proof -
  let ?a = "agent\<lparr>ga_last_eval := None\<rparr>"
  obtain n where n: "get_node_by_id agent (ga_current_node_id agent) = Some n"
    using assms by (auto simp: decide_next_node_with_functions_def Let_def stay_def get_node_by_id_def
        split: option.splits)
  obtain a1 o1 where enrich: "enrich_routing_context env ?a h = (a1, o1)" by fastforce
  have llm: "u \<in> leads_to (set (gn_edges n))"
    if "decide_next_node_llm env b n (snd (classify_edges (gn_edges n))) h (catch_all_edge n) = (c, Inr dc)"
      and "dc_node dc = Some u" for b c dc u
    using llm_leads_on that .
  have edges: "e \<in> set (gn_edges n) \<Longrightarrow> ge_to_node_id e \<in> leads_to (set (gn_edges n))" for e
    by (simp add: leads_to_def)
  obtain det ints where c: "classify_edges (gn_edges n) = (det, ints)" by fastforce
  obtain m trace where m: "match_expression_edge a1 n (Some det) = (m, trace)" by fastforce
  have mfirst: "m = first_match a1 n" using match_expression_first [of a1 n m trace] c m by simp
  have "t \<in> leads_to (set (gn_edges n))"
    using assms n llm [unfolded c] edges first_match_in [of a1 n] catch_all_in [of n]
    by (auto simp: decide_next_node_with_functions_def Let_def enrich c m mfirst get_node_by_id_def stay_def
        split: option.splits prod.splits sum.splits if_splits)
  then show ?thesis by (simp add: targets_node [OF n])
qed

lemma deliver_placed: "placed w agent \<Longrightarrow> placed w (fst (deliver env agent h hint))"
  using placed_position [OF deliver_position] by (metis prod.collapse)

lemma chain_then_deliver_placed:
  assumes "placed w agent"
  shows "placed w (fst (chain_then_deliver env agent h hint))"
proof -
  obtain a1 o1 hops where c: "resolve_router_chain env h {} agent = (a1, o1, hops)" by (metis prod_cases3)
  have "placed w a1" using chain_placed [OF c assms] .
  with assms deliver_placed c show ?thesis
    by (cases o1) (simp_all add: chain_then_deliver_def split_beta Let_def)
qed

lemma routed_turn_placed:
  assumes placed: "placed w agent"
  shows "placed w (fst (routed_turn env agent h silence))"
proof -
  obtain a1 o1 where d: "decide_next_node_with_functions env agent h = (a1, o1)" by fastforce
  note p1 = decide_position [OF d]
  have placed1: "placed w a1" using placed placed_position [OF p1] by simp
  show ?thesis
  proof (cases o1)
    case (Inl e)
    with d placed1 show ?thesis by (simp add: routed_turn_def)
  next
    case (Inr dc)
    have p2: "placed w (apply_decision dc (length h) a1)"
    proof (cases "dc_node dc")
      case (Some t)
      have "t \<in> targets (ga_nodes a1) (ga_current_node_id a1)"
        using decide_target d Inr Some position_simps(1,2) [OF p1] by auto
      with placed_advance [OF placed1] show ?thesis by (simp add: apply_decision_def Some placed1)
    qed (simp add: apply_decision_def placed1)
    show ?thesis
      using d Inr p2 chain_then_deliver_placed [OF p2]
      by (cases "decision_type (dc_reasoning dc)") (simp_all add: routed_turn_def Let_def split_beta)
  qed
qed

lemma user_turn_placed:
  assumes "placed w agent"
  shows "placed w (fst (user_turn env agent h))"
proof -
  let ?a = "if silence_trigger h then agent\<lparr>ga_silence_repeats := ga_silence_repeats agent + 1\<rparr> else agent"
  have p: "placed w ?a"
    using assms placed_position [of "agent\<lparr>ga_silence_repeats := ga_silence_repeats agent + 1\<rparr>" agent] by simp
  show ?thesis
    unfolding user_turn_def Let_def split_beta
    using chain_then_deliver_placed [OF p] routed_turn_placed [OF p] deliver_placed [OF p] by simp
qed

lemma generate_placed:
  assumes "generate env lang agent h = (agent', items)" and "placed w agent"
  shows "placed w agent'"
proof -
  define a0 where "a0 = (if truthy_str lang
      then agent\<lparr>ga_context_data :=
             AList.update ''detected_language'' (PStr (or_empty lang)) (ga_context_data agent)\<rparr> else agent)"
  have "position a0 = position agent" by (simp add: a0_def)
  with assms(2) have p0: "placed w a0" using placed_position by blast
  have "position (a0\<lparr>ga_event_triggered := False\<rparr>) = position a0" by simp
  with p0 have p1: "placed w (a0\<lparr>ga_event_triggered := False\<rparr>)" using placed_position by blast
  show ?thesis
  proof (cases "ga_event_triggered a0")
    case True
    then have "generate_event_triggered env (a0\<lparr>ga_event_triggered := False\<rparr>) h = (agent', items)"
      using assms(1) by (simp add: generate_def Let_def a0_def)
    then show ?thesis
      using chain_then_deliver_placed [OF p1] unfolding generate_event_triggered_def Let_def split_beta
      by (metis fst_conv)
  next
    case False
    then have "user_turn env a0 h = (agent', items)"
      using assms(1) by (simp add: generate_def Let_def a0_def)
    then show ?thesis using user_turn_placed [OF p0, of env h] by simp
  qed
qed

section \<open>A sample configuration\<close>

definition sample_nodes :: "graph_node list" where
  "sample_nodes =
     [plain_node ''a'' None [(plain_edge ''b'' ''event'')\<lparr>ge_event_name := Some ''paid''\<rparr>, plain_edge ''b'' ''llm''],
      plain_node ''b'' (Some ''router'') [plain_edge ''c'' ''unconditional''],
      plain_node ''c'' None []]"

definition sample_agent :: graph_agent where
  "sample_agent =
     \<lparr>ga_nodes = sample_nodes, ga_agent_information = None, ga_current_node_id = ''a'', ga_context_data = [],
      ga_variable_types = [], ga_node_history = [''a''], ga_entry_index = 0, ga_silence_repeats = 0,
      ga_event_triggered = False, ga_first_delivered = False, ga_hold_until_first_delivery = True,
      ga_last_eval = None, ga_frozen_time_vars = None, ga_tools_cache = [], ga_tools_cache_max = 100,
      ga_routing_model = ''gpt-4.1-mini'', ga_routing_provider = ''openai'', ga_routing_instructions = None,
      ga_routing_reasoning_effort = None, ga_routing_max_tokens = None, ga_service_tier = None,
      ga_effort_used = None,
      ga_llm = \<lparr>bl_trigger_function_call = False, bl_tools = [], bl_api_params = []\<rparr>\<rparr>"

definition sample_env :: brain_env where
  "sample_env =
     \<lparr>env_lib = example_lib, env_clock = (\<lambda>z. Inr []),
      env_ask = (\<lambda>r. Some \<lparr>rr_call = Some (''transition_to_b'', []), rr_usage = None\<rparr>),
      env_rag = (\<lambda>i h. None), env_directive = (\<lambda>l. []), env_event_hint = (\<lambda>e. e),
      env_md5 = (\<lambda>t. t), env_effort = None\<rparr>"

lemma event_edge_in: "event_edge_for n name = Some e \<Longrightarrow> e \<in> set (gn_edges n)"
  unfolding event_edge_for_def find_Some_iff by (metis filter_is_subset length_sort nth_mem set_sort subsetD)

lemma process_event_placed:
  assumes "process_event ev agent = (agent', res)" and "placed w agent"
  shows "placed w agent'"
proof -
  define a0 where "a0 = agent\<lparr>ga_context_data :=
      AList.update ''_last_event'' (PStr (ce_event ev)) (dict_merge (ga_context_data agent) (ce_properties ev))\<rparr>"
  have "position a0 = position agent" by (simp add: a0_def)
  with assms(2) have p0: "placed w a0" using placed_position by blast
  show ?thesis
  proof (cases "get_node_by_id a0 (ga_current_node_id a0)")
    case None
    with assms(1) p0 show ?thesis by (simp add: process_event_def Let_def a0_def)
  next
    case (Some n)
    show ?thesis
    proof (cases "event_edge_for n (ce_event ev)")
      case None
      with assms(1) p0 Some show ?thesis by (simp add: process_event_def Let_def a0_def)
    next
      case e: (Some e)
      let ?t = "ge_to_node_id e"
      have "?t \<in> targets (ga_nodes a0) (ga_current_node_id a0)"
        using event_edge_in [OF e] targets_node [OF Some] by (simp add: leads_to_def)
      then have "placed w (advance_to_node ?t 0 a0)" by (rule placed_advance [OF p0])
      moreover have "agent' = advance_to_node ?t 0 a0"
      proof -
        have h: "ga_node_history agent \<noteq> []" using assms(2) by (simp add: placed_def)
        show ?thesis
        proof (cases "last (ga_node_history agent) = ?t")
          case True
          with h have "?t \<in> set (ga_node_history agent)" using last_in_set by metis
          then show ?thesis
            using assms(1) Some e h True by (auto simp: process_event_def Let_def a0_def advance_to_node_def)
        next
          case False
          then show ?thesis
            using assms(1) Some e h by (auto simp: process_event_def Let_def a0_def advance_to_node_def)
        qed
      qed
      ultimately show ?thesis by simp
    qed
  qed
qed

text \<open>
  What happens to the brain in a call: turns, events, the delivery of a response, and the two
  assignments of the event listener (\<open>voice/session/events.py\<close>).
\<close>

inductive brain_step :: "brain_env \<Rightarrow> graph_agent \<Rightarrow> graph_agent \<Rightarrow> bool" for env where
  turn: "generate env lang agent h = (agent', items) \<Longrightarrow> brain_step env agent agent'"
| event: "process_event ev agent = (agent', res) \<Longrightarrow> brain_step env agent agent'"
| delivered: "brain_step env agent (mark_first_response_delivered agent)"
| proactive: "brain_step env agent (agent\<lparr>ga_event_triggered := True, ga_context_data := c\<rparr>)"
| reindexed: "brain_step env agent (agent\<lparr>ga_entry_index := k\<rparr>)"

lemma brain_step_placed: "brain_step env a b \<Longrightarrow> placed w a \<Longrightarrow> placed w b"
proof (induction rule: brain_step.induct)
  case (turn lang agent h agent' items)
  then show ?case by (rule generate_placed)
next
  case (event ev agent agent' res)
  then show ?case by (rule process_event_placed)
qed (auto simp: placed_def mark_first_response_delivered_def)

text \<open>
  C28: Whatever the routing model answers, whatever events arrive and in whatever order
  turns, events and deliveries happen, the node history of a call is a walk in the configured
  graph: it starts at the start node, each visited node is a target of an edge of the one before,
  and it ends at the current node; the configuration never changes.
\<close>

theorem node_walk:
  assumes "(brain_step env)\<^sup>*\<^sup>* start agent" and "ga_node_history start = [ga_current_node_id start]"
  shows "ga_nodes agent = ga_nodes start \<and> hd (ga_node_history agent) = ga_current_node_id start \<and>
         last (ga_node_history agent) = ga_current_node_id agent \<and>
         successively (\<lambda>a b. b \<in> targets (ga_nodes start) a) (ga_node_history agent)"
proof -
  have "placed (ga_nodes start, ga_current_node_id start) start"
    using assms(2) by (simp add: placed_def)
  with assms(1) have "placed (ga_nodes start, ga_current_node_id start) agent"
    by (induction rule: rtranclp_induct) (auto dest: brain_step_placed)
  then show ?thesis by (auto simp: placed_def)
qed

definition paid :: call_event where
  "paid = \<lparr>ce_event = ''paid'', ce_properties = []\<rparr>"

theorem node_walk_witness:
  "ga_node_history (fst (process_event paid sample_agent)) = [''a'', ''b''] \<and>
   successively (\<lambda>a b. b \<in> targets (ga_nodes sample_agent) a) (ga_node_history (fst (process_event paid sample_agent)))"
proof -
  have h: "ga_node_history (fst (process_event paid sample_agent)) = [''a'', ''b'']" by code_simp
  have "brain_step sample_env sample_agent (fst (process_event paid sample_agent))"
    by (rule brain_step.event [of paid _ _ "snd (process_event paid sample_agent)"]) simp
  then have "(brain_step sample_env)\<^sup>*\<^sup>* sample_agent (fst (process_event paid sample_agent))" by simp
  moreover have "ga_node_history sample_agent = [ga_current_node_id sample_agent]"
    by (simp add: sample_agent_def)
  ultimately show ?thesis using node_walk h by blast
qed

section \<open>Chains end\<close>

lemma chain_distinct:
  "resolve_router_chain env h visited agent = (agent', r, hops) \<Longrightarrow>
     distinct (map ri_previous_node hops) \<and>
     set (map ri_previous_node hops) \<subseteq> routers (ga_nodes agent) - visited"
proof (induction rule: chain_induct)
  case (hopped visited agent n a1 hop agent' r hs)
  have "ri_previous_node hop = ga_current_node_id agent"
    using router_hop_result [OF hopped(2)] by (simp add: hop_result_def)
  moreover have "ga_current_node_id agent \<in> routers (ga_nodes agent) - visited"
    using hopped(1) router_in_routers by (auto simp: at_router_def)
  ultimately show ?case using hopped(3) router_hop_nodes [OF hopped(2)] by auto
qed auto

text \<open>
  C29: On any configuration, also one that was never validated, a chain of
  silent hops leaves each router at most once, so it makes at most as many hops, and at most as
  many calls of the routing model, as there are router nodes.
\<close>

theorem router_chain_bounded:
  "distinct (map ri_previous_node (snd (snd (resolve_router_chain env h {} agent)))) \<and>
   length (snd (snd (resolve_router_chain env h {} agent))) \<le> length (filter is_router (ga_nodes agent))"
proof -
  obtain a' r hops where c: "resolve_router_chain env h {} agent = (a', r, hops)" by (metis prod_cases3)
  note d = chain_distinct [OF c]
  have "length hops = card (set (map ri_previous_node hops))" using d distinct_card by (metis length_map)
  also have "\<dots> \<le> card (routers (ga_nodes agent))" using d by (intro card_mono) auto
  also have "routers (ga_nodes agent) = set (map gn_id (filter is_router (ga_nodes agent)))"
    by (auto simp: routers_def is_router_def)
  also have "card \<dots> \<le> length (filter is_router (ga_nodes agent))"
    by (metis card_length length_map)
  finally show ?thesis using d by (simp add: c)
qed

lemma valid_acyclic:
  assumes "valid_graph nodes" and "distinct (map gn_id nodes)"
  shows "acyclic (router_edges nodes)"
proof (cases "filter is_router nodes = []")
  case True
  then have "router_edges nodes = {}" by (auto simp: router_edges_def filter_empty_conv)
  then show ?thesis by (simp add: acyclic_def)
next
  case False
  then show ?thesis
    using assms(1) by (intro search_none_acyclic [OF assms(2)])
      (auto simp: valid_graph_def validate_router_graph_def split: option.splits)
qed

lemma valid_catch_all:
  assumes "valid_graph nodes" and "n \<in> set nodes" and "is_router n"
  shows "catch_all_edge n \<noteq> None"
  using assms
  by (auto simp: valid_graph_def list_all_iff validate_router_node_def catch_all_edge_def
      filter_empty_conv list_ex_iff split: if_splits option.splits)

lemma at_router_node:
  assumes "at_router agent visited n"
  shows "n \<in> set (ga_nodes agent)" "is_router n" "gn_id n = ga_current_node_id agent"
  using assms
  by (auto simp: at_router_def get_node_by_id_def find_node_def find_Some_iff is_router_def node_type_of_def
      split: option.splits)

lemma router_type_id: "current_type agent = ''router'' \<Longrightarrow> ga_current_node_id agent \<in> set (router_ids (ga_nodes agent))"
  by (force simp: current_type_def node_type_of_def router_ids_def is_router_def get_node_by_id_def
      find_node_def find_Some_iff split: option.splits)

lemma valid_chain:
  "resolve_router_chain env h visited agent = (agent', r, hops) \<Longrightarrow>
     valid_graph (ga_nodes agent) \<Longrightarrow> distinct (map gn_id (ga_nodes agent)) \<Longrightarrow>
     (ga_current_node_id agent \<in> set (router_ids (ga_nodes agent)) \<Longrightarrow>
        \<forall>v \<in> visited. (v, ga_current_node_id agent) \<in> (router_edges (ga_nodes agent))\<^sup>+) \<Longrightarrow>
     r = Inr () \<Longrightarrow> current_type agent' \<noteq> ''router''"
proof (induction rule: chain_induct)
  case (stopped visited agent)
  show ?case
  proof
    assume r: "current_type agent = ''router''"
    with stopped have "(ga_current_node_id agent, ga_current_node_id agent) \<in> (router_edges (ga_nodes agent))\<^sup>+"
      using router_type_id by blast
    with valid_acyclic [OF stopped(2,3)] show False by (simp add: acyclic_def)
  qed
next
  case (stuck visited agent n agent')
  then show ?case
    using router_hop_result [OF stuck(2)] valid_catch_all [OF stuck(3) at_router_node(1,2) [OF stuck(1)]]
    by (simp add: hop_result_def)
next
  case (hopped visited agent n a1 hop agent' r hs)
  note node = at_router_node [OF hopped(1)]
  have nodes: "ga_nodes a1 = ga_nodes agent" using router_hop_nodes [OF hopped(2)] .
  obtain t where t: "t \<in> leads_to (set (gn_edges n))" and cur: "ga_current_node_id a1 = t"
    using router_hop_result [OF hopped(2)]
    by (auto simp: hop_result_def position_def advance_to_node_def)
  have "\<forall>v \<in> insert (ga_current_node_id agent) visited. (v, t) \<in> (router_edges (ga_nodes agent))\<^sup>+"
    if tr: "t \<in> set (router_ids (ga_nodes agent))"
  proof -
    have e: "(ga_current_node_id agent, t) \<in> router_edges (ga_nodes agent)"
      using t tr node unfolding router_edges_def leads_to_def by (smt (verit) imageE mem_Collect_eq)
    have "ga_current_node_id agent \<in> set (router_ids (ga_nodes agent))"
      using node by (force simp: router_ids_def)
    with hopped.prems(3) e show ?thesis by (auto intro: trancl_into_trancl)
  qed
  with hopped.IH hopped.prems show ?case by (simp add: nodes cur)
qed simp

lemma deliver_speaks:
  "current_type agent \<noteq> ''router'' \<Longrightarrow> End_Of_Turn \<notin> set (snd (deliver env agent h hint))"
  by (auto simp: deliver_def Let_def current_type_def split: option.splits prod.splits sum.splits)

lemma chain_then_deliver_speaks:
  assumes "valid_graph (ga_nodes agent)" and "distinct (map gn_id (ga_nodes agent))"
  shows "End_Of_Turn \<notin> set (snd (chain_then_deliver env agent h hint))"
proof (cases "current_type agent = ''router''")
  case True
  obtain a1 o1 hops where c: "resolve_router_chain env h {} agent = (a1, o1, hops)" by (metis prod_cases3)
  then have "o1 = Inr () \<Longrightarrow> current_type a1 \<noteq> ''router''" using valid_chain [OF c assms] by simp
  with True c deliver_speaks [of a1 env h hint] show ?thesis
    by (auto simp: chain_then_deliver_def Let_def split: sum.splits prod.splits)
next
  case False
  with deliver_speaks show ?thesis by (simp add: chain_then_deliver_def)
qed



section \<open>The tiers of a decision\<close>

text \<open>
  A decision takes the matching expression edge of least priority (the first one
  on ties) without calling the routing model; the model is asked only when no expression matches
  and the node has intent edges; without intent edges the least unconditional edge is the default;
  and the node is kept only when it has no default.
\<close>

theorem decision_tiers:
  assumes "get_node_by_id agent (ga_current_node_id agent) = Some n"
    and "enrich_routing_context env (agent\<lparr>ga_last_eval := None\<rparr>) h = (a1, Inr ())"
    and "decide_next_node_with_functions env agent h = (agent', Inr d)"
  shows "(\<forall>e. first_match a1 n = Some e \<longrightarrow>
            dc_node d = Some (ge_to_node_id e) \<and> dc_messages d = None \<and>
            (\<forall>e' \<in> set (gn_edges n). expression_matches a1 e' \<longrightarrow> priority_or 0 e \<le> priority_or 0 e')) \<and>
         (first_match a1 n = None \<and> snd (classify_edges (gn_edges n)) = [] \<longrightarrow>
            dc_node d = map_option ge_to_node_id (catch_all_edge n) \<and> dc_messages d = None) \<and>
         (dc_node d = None \<longrightarrow> catch_all_edge n = None)"
proof -
  obtain det ints where c: "classify_edges (gn_edges n) = (det, ints)" by fastforce
  obtain m trace where m: "match_expression_edge a1 n (Some det) = (m, trace)" by fastforce
  have mfirst: "m = first_match a1 n" using match_expression_first [of a1 n m trace] c m by simp
  have none: "gn_edges n = [] \<Longrightarrow> first_match a1 n = None \<and> catch_all_edge n = None"
    by (simp add: first_match_def catch_all_edge_def)
  have least: "first_match a1 n = Some e \<Longrightarrow> e' \<in> set (gn_edges n) \<Longrightarrow> expression_matches a1 e' \<Longrightarrow>
      priority_or 0 e \<le> priority_or 0 e'" for e e'
    unfolding first_match_def by (rule find_sorted_least)
  have node: "get_node_by_id (agent\<lparr>ga_last_eval := None\<rparr>) (ga_current_node_id (agent\<lparr>ga_last_eval := None\<rparr>)) = Some n"
    using assms(1) by (simp add: get_node_by_id_def)
  show ?thesis
  proof (cases "gn_edges n = []")
    case True
    then have "d = stay"
      using assms(3) unfolding decide_next_node_with_functions_def Let_def node by simp
    with none [OF True] show ?thesis by (simp add: stay_def)
  next
    case False
    note step = assms(3) [unfolded decide_next_node_with_functions_def Let_def node option.case if_not_P [OF False]
        assms(2) prod.case sum.case c m]
    show ?thesis
    proof (cases m)
      case (Some e)
      with step have "dc_node d = Some (ge_to_node_id e) \<and> dc_messages d = None" by (auto simp: stay_def)
      with Some mfirst least show ?thesis by auto
    next
      case None
      show ?thesis
      proof (cases "ints = []")
        case True
        with step None have "dc_node d = map_option ge_to_node_id (catch_all_edge n) \<and> dc_messages d = None"
          by (auto simp: stay_def split: option.splits)
        with None mfirst c show ?thesis by auto
      next
        case ints: False
        have "dc_node d = None \<Longrightarrow> catch_all_edge n = None"
          using step None ints by (auto split: prod.splits sum.splits option.splits if_splits)
        with None mfirst c ints show ?thesis by auto
      qed
    qed
  qed
qed

theorem decision_tiers_witness:
  "\<exists>d. snd (decide_next_node_with_functions sample_env (sample_agent\<lparr>ga_current_node_id := ''b''\<rparr>) []) = Inr d \<and>
     dc_node d = Some ''c'' \<and> dc_messages d = None"
proof -
  let ?a = "sample_agent\<lparr>ga_current_node_id := ''b''\<rparr>"
  let ?n = "plain_node ''b'' (Some ''router'') [plain_edge ''c'' ''unconditional'']"
  let ?a1 = "fst (enrich_routing_context sample_env (?a\<lparr>ga_last_eval := None\<rparr>) [])"
  have n: "get_node_by_id ?a (ga_current_node_id ?a) = Some ?n" by code_simp
  have "snd (enrich_routing_context sample_env (?a\<lparr>ga_last_eval := None\<rparr>) []) = Inr ()" by code_simp
  then have e: "enrich_routing_context sample_env (?a\<lparr>ga_last_eval := None\<rparr>) [] = (?a1, Inr ())"
    by (metis prod.collapse)
  have "\<not> isl (snd (decide_next_node_with_functions sample_env ?a []))" by code_simp
  then obtain d where d: "snd (decide_next_node_with_functions sample_env ?a []) = Inr d"
    by (metis sum.collapse(2))
  then have "decide_next_node_with_functions sample_env ?a [] =
      (fst (decide_next_node_with_functions sample_env ?a []), Inr d)" by (metis prod.collapse)
  note tiers = decision_tiers [OF n e this]
  have "first_match ?a1 ?n = None" by code_simp
  moreover have "snd (classify_edges (gn_edges ?n)) = []" by code_simp
  moreover have "map_option ge_to_node_id (catch_all_edge ?n) = Some ''c''" by code_simp
  ultimately show ?thesis using tiers d by simp
qed

section \<open>The first-delivery hold\<close>

text \<open>
  While the first response of an LLM node has not been delivered, what the user
  says routes nowhere: the turn reports the hold, and the node, the walk and the entry index stay
  as they are, whatever edges the node has.
\<close>

theorem hold_keeps_node:
  assumes "\<not> ga_event_triggered agent"
    and "should_hold_for_first_delivery agent (get_node_by_id agent (ga_current_node_id agent))"
  shows "position (fst (generate env None agent h)) = position agent \<and>
         (\<exists>info items. snd (generate env None agent h) = Routing_Info info # items \<and>
            \<not> ri_transitioned info \<and> ri_routing_type info = ''hold'')"
proof -
  let ?b = "if silence_trigger h then agent\<lparr>ga_silence_repeats := ga_silence_repeats agent + 1\<rparr> else agent"
  have b: "position ?b = position agent" by simp
  have node: "get_node_by_id ?b (ga_current_node_id ?b) = get_node_by_id agent (ga_current_node_id agent)"
    using position_simps(2,3) [OF b] by simp
  have hold: "should_hold_for_first_delivery ?b (get_node_by_id agent (ga_current_node_id agent))"
    using assms(2) by (simp add: should_hold_for_first_delivery_def)
  have notr: "node_type_of (get_node_by_id agent (ga_current_node_id agent)) \<noteq> ''router''"
    using assms(2) by (auto simp: should_hold_for_first_delivery_def)
  obtain f items where del: "deliver env ?b h [] = (f, items)" by fastforce
  have "generate env None agent h = (f, Routing_Info (hold_routing_info ?b (silence_trigger h)) # items)"
  proof -
    have g: "generate env None agent h = user_turn env agent h" using assms(1) by (simp add: generate_def)
    show ?thesis
      unfolding g user_turn_def Let_def node if_not_P [OF notr] if_P [OF hold] del by simp
  qed
  then show ?thesis
    using deliver_position [OF del] b
    by (auto simp: hold_routing_info_def passive_info_def)
qed

theorem hold_keeps_node_witness:
  "ga_current_node_id (fst (generate sample_env None sample_agent [])) = ''a''"
proof -
  have "\<not> ga_event_triggered sample_agent" by (simp add: sample_agent_def)
  moreover have "should_hold_for_first_delivery sample_agent
      (get_node_by_id sample_agent (ga_current_node_id sample_agent))" by code_simp
  ultimately have "position (fst (generate sample_env None sample_agent [])) = position sample_agent"
    using hold_keeps_node by blast
  then show ?thesis by (simp add: position_def sample_agent_def)
qed

end
