(* ===== verification/Reachability.thy ===== *)
theory Reachability
  imports Prelude
begin

text \<open>
  What the definition validators of graphs and of workflows share: the result shape of
  \<open>common/validation.py\<close>, the repeated-id scan and the worklist search
  for the nodes reachable from a start node. The worklist is a Python list popped at its end; here
  its top is the head, so extending it with the successors puts their reverse in front.
\<close>

section \<open>Results\<close>

record ('e, 'w) validation_result =
  vr_valid :: bool
  vr_errors :: "'e list"
  vr_warnings :: "'w list"

section \<open>Worklist search\<close>

function reach :: "('a \<Rightarrow> 'a list) \<Rightarrow> 'a list \<Rightarrow> 'a list \<Rightarrow> 'a list \<Rightarrow> 'a list" where
  "reach succ known seen [] = seen"
| "reach succ known seen (c # stack) =
     (if c \<in> set seen \<or> c \<notin> set known then reach succ known seen stack
      else reach succ known (c # seen) (rev (succ c) @ stack))"
  by pat_completeness auto

termination reach
proof (relation "measures [\<lambda>(succ, known, seen, stack). card (set known - set seen),
                           \<lambda>(succ, known, seen, stack). length stack]", goal_cases)
  case (3 succ known seen c stack)
  then have "c \<in> set known - set seen" by blast
  then have "card (set known - set (c # seen)) < card (set known - set seen)"
    by (intro psubset_card_mono) auto
  then show ?case by simp
qed simp_all

declare reach.simps(2) [simp del]

definition links :: "('a \<Rightarrow> 'a list) \<Rightarrow> 'a list \<Rightarrow> ('a \<times> 'a) set" where
  "links succ known = {(x, y). x \<in> set known \<and> y \<in> set known \<and> y \<in> set (succ x)}"

lemma reach_extends: "set seen \<subseteq> set (reach succ known seen stack)"
  by (induction succ known seen stack rule: reach.induct) (auto simp: reach.simps)

lemma reach_stack: "set stack \<inter> set known \<subseteq> set (reach succ known seen stack)"
proof (induction succ known seen stack rule: reach.induct)
  case (2 succ known seen c stack)
  then show ?case
    using reach_extends [of seen succ known stack]
      reach_extends [of "c # seen" succ known "rev (succ c) @ stack"]
    by (simp add: reach.simps) blast
qed simp

lemma reach_closed:
  assumes "\<And>x y. x \<in> set seen \<Longrightarrow> (x, y) \<in> links succ known \<Longrightarrow> y \<in> set seen \<union> set stack"
    and "x \<in> set (reach succ known seen stack)" and "(x, y) \<in> links succ known"
  shows "y \<in> set (reach succ known seen stack)"
  using assms
proof (induction succ known seen stack rule: reach.induct)
  case (2 succ known seen c stack)
  show ?case
  proof (cases "c \<in> set seen \<or> c \<notin> set known")
    case True
    have "y' \<in> set seen \<union> set stack" if "x' \<in> set seen" "(x', y') \<in> links succ known" for x' y'
      using "2.prems"(1) [OF that] that True by (auto simp: links_def)
    with "2.IH"(1) [OF True] "2.prems"(2,3) True show ?thesis by (simp add: reach.simps)
  next
    case False
    have "y' \<in> set (c # seen) \<union> set (rev (succ c) @ stack)"
      if "x' \<in> set (c # seen)" "(x', y') \<in> links succ known" for x' y'
      using "2.prems"(1) [of x' y'] that by (auto simp: links_def)
    with "2.IH"(2) [OF False] "2.prems"(2,3) False show ?thesis by (simp add: reach.simps)
  qed
qed auto

lemma reach_sound:
  assumes "set seen \<subseteq> P" and "set stack \<inter> set known \<subseteq> P"
    and "\<And>x y. x \<in> P \<Longrightarrow> (x, y) \<in> links succ known \<Longrightarrow> y \<in> P"
  shows "set (reach succ known seen stack) \<subseteq> P"
  using assms
proof (induction succ known seen stack rule: reach.induct)
  case (2 succ known seen c stack)
  show ?case
  proof (cases "c \<in> set seen \<or> c \<notin> set known")
    case True
    have "set stack \<inter> set known \<subseteq> P" using "2.prems"(2) by auto
    with "2.IH"(1) [OF True "2.prems"(1) _ "2.prems"(3)] True show ?thesis by (simp add: reach.simps)
  next
    case False
    have c: "c \<in> P" using "2.prems"(2) False by auto
    then have "set (rev (succ c) @ stack) \<inter> set known \<subseteq> P"
      using "2.prems"(2,3) False by (auto simp: links_def)
    with "2.IH"(2) [OF False] "2.prems"(1,3) c False show ?thesis by (simp add: reach.simps)
  qed
qed auto

lemma reach_exact:
  assumes "s \<in> set known"
  shows "set (reach succ known [] [s]) = (links succ known)\<^sup>* `` {s}"
proof
  show "set (reach succ known [] [s]) \<subseteq> (links succ known)\<^sup>* `` {s}"
    by (rule reach_sound) (auto intro: rtrancl.rtrancl_into_rtrancl)
  have s: "s \<in> set (reach succ known [] [s])"
    using reach_stack [of "[s]" known succ "[]"] assms by auto
  show "(links succ known)\<^sup>* `` {s} \<subseteq> set (reach succ known [] [s])"
  proof
    fix x assume "x \<in> (links succ known)\<^sup>* `` {s}"
    then have "(s, x) \<in> (links succ known)\<^sup>*" by simp
    then show "x \<in> set (reach succ known [] [s])"
    proof induction
      case (step y z)
      show ?case by (rule reach_closed [of "[]", OF _ step.IH step.hyps(2)]) simp
    qed (rule s)
  qed
qed

section \<open>Repeated ids\<close>

fun repeated :: "'a list \<Rightarrow> 'a list \<Rightarrow> 'a list" where
  "repeated seen [] = []"
| "repeated seen (i # is) = (if i \<in> set seen then i # repeated (i # seen) is else repeated (i # seen) is)"

lemma repeated_none: "repeated seen is = [] \<longleftrightarrow> distinct is \<and> set is \<inter> set seen = {}"
  by (induction seen "is" rule: repeated.induct) auto

text \<open>A dictionary from keys to rows built in row order keeps the last row of a key.\<close>

definition last_row :: "('a \<Rightarrow> 'k) \<Rightarrow> 'a list \<Rightarrow> 'k \<Rightarrow> 'a option" where
  "last_row key rows k = find (\<lambda>r. key r = k) (rev rows)"

lemma last_row_None: "last_row key rows k = None \<longleftrightarrow> k \<notin> key ` set rows"
  by (auto simp: last_row_def find_None_iff)

lemma last_row_Some: "last_row key rows k = Some r \<Longrightarrow> r \<in> set rows \<and> key r = k"
  by (auto simp: last_row_def find_Some_iff) (metis nth_mem length_rev set_rev)

lemma last_row_distinct:
  assumes "distinct (map key rows)" and "r \<in> set rows"
  shows "last_row key rows (key r) = Some r"
proof -
  obtain r' where r': "last_row key rows (key r) = Some r'"
    using assms(2) last_row_None [of key rows "key r"] by (cases "last_row key rows (key r)") auto
  with last_row_Some [OF r'] assms show ?thesis by (auto simp: distinct_map dest: inj_onD)
qed

end
