(* ===== verification/Automation.thy ===== *)
theory Automation
  imports Graph_Validation Reachability "HOL-Library.Product_Lexorder"
begin

text \<open>
  The graph builder, from \<open>modules/automation/engine.py\<close>: the canvas definition, its validator
  (\<open>validate_definition\<close>), the structural dry run (\<open>dry_run\<close>) and the deploy mapping
  (\<open>graph_to_agent_payload\<close>). \<open>Deployment\<close> relates the mapping to the runtime's validators.

  Messages of the validator are constructors: one per format string of the code, with its
  arguments. \<open>steps\<close> of a dry run never exceeds \<open>max_steps\<close>, which is its termination measure.
\<close>

section \<open>The canvas\<close>

record canvas_edge =
  ce_to_node_id :: string
  ce_condition :: string
  ce_label :: "string option"
  ce_condition_type :: string
  ce_expression :: "pydict option"
  ce_event_name :: "string option"
  ce_priority :: "int option"

record canvas_node =
  cn_id :: string
  cn_node_type :: string
  cn_description :: "string option"
  cn_prompt :: string
  cn_static_message :: "string option"
  cn_repeat_after_silence_seconds :: "rat option"
  cn_edges :: "canvas_edge list"

record graph_definition =
  gd_agent_information :: string
  gd_start_node_id :: string
  gd_routing_model :: "string option"
  gd_variables :: "(string \<times> string) list"
  gd_nodes :: "canvas_node list"

text \<open>The literal types and the \<open>min_length\<close> of ids.\<close>

definition CONDITION_TYPES :: "string list" where
  "CONDITION_TYPES = [''llm'', ''expression'', ''unconditional'', ''event'']"

definition NODE_TYPES :: "string list" where
  "NODE_TYPES = [''llm'', ''static'', ''router'']"

definition edge_ok :: "canvas_edge \<Rightarrow> bool" where
  "edge_ok e = (ce_to_node_id e \<noteq> [] \<and> ce_condition_type e \<in> set CONDITION_TYPES)"

definition node_ok :: "canvas_node \<Rightarrow> bool" where
  "node_ok n = (cn_id n \<noteq> [] \<and> cn_node_type n \<in> set NODE_TYPES \<and> list_all edge_ok (cn_edges n))"

section \<open>Validation\<close>

datatype canvas_error =
    Graph_Empty
  | Duplicate_Id string
  | No_Such_Start string
  | Unknown_Node string string
  | Speaking_Router string
  | Event_On_Router string
  | No_Catch_All string

datatype canvas_warning =
    Self_Link string
  | Unnamed_Event string
  | Silent_Static string
  | Empty_Prompt string
  | Unreachable_Node string

definition edge_errors :: "canvas_node list \<Rightarrow> canvas_node \<Rightarrow> canvas_edge \<Rightarrow> canvas_error list" where
  "edge_errors nodes n e =
     (if ce_to_node_id e \<notin> set (map cn_id nodes) then [Unknown_Node (cn_id n) (ce_to_node_id e)] else [])"

definition edge_warnings :: "canvas_node \<Rightarrow> canvas_edge \<Rightarrow> canvas_warning list" where
  "edge_warnings n e =
     (if ce_to_node_id e = cn_id n then [Self_Link (cn_id n)] else []) @
     (if ce_condition_type e = ''event'' \<and> \<not> truthy_str (ce_event_name e) then [Unnamed_Event (cn_id n)] else [])"

definition node_errors :: "canvas_node list \<Rightarrow> canvas_node \<Rightarrow> canvas_error list" where
  "node_errors nodes n =
     concat (map (edge_errors nodes n) (cn_edges n)) @
     (if cn_node_type n = ''router'' then
        (if cn_prompt n \<noteq> [] \<or> truthy_str (cn_static_message n) then [Speaking_Router (cn_id n)] else []) @
        (if list_ex (\<lambda>e. ce_condition_type e = ''event'') (cn_edges n) then [Event_On_Router (cn_id n)] else []) @
        (if \<not> list_ex (\<lambda>e. ce_condition_type e = ''unconditional'') (cn_edges n)
         then [No_Catch_All (cn_id n)] else [])
      else [])"

definition node_warnings :: "canvas_node \<Rightarrow> canvas_warning list" where
  "node_warnings n =
     concat (map (edge_warnings n) (cn_edges n)) @
     (if cn_node_type n = ''router'' then []
      else if cn_node_type n = ''static'' then
        (if py_strip (or_empty (cn_static_message n)) = [] then [Silent_Static (cn_id n)] else [])
      else (if py_strip (cn_prompt n) = [] then [Empty_Prompt (cn_id n)] else []))"

definition by_id :: "canvas_node list \<Rightarrow> string \<Rightarrow> canvas_node option" where
  "by_id nodes i = last_row cn_id nodes i"

definition edge_targets :: "canvas_node list \<Rightarrow> string \<Rightarrow> string list" where
  "edge_targets nodes i =
     (case by_id nodes i of None \<Rightarrow> [] | Some n \<Rightarrow> map ce_to_node_id (cn_edges n))"

definition reachable_ids :: "canvas_node list \<Rightarrow> string \<Rightarrow> string list" where
  "reachable_ids nodes start = reach (edge_targets nodes) (map cn_id nodes) [] [start]"

definition validate_definition :: "graph_definition \<Rightarrow> (canvas_error, canvas_warning) validation_result" where
  "validate_definition d =
     (let nodes = gd_nodes d; ids = map cn_id nodes; start = gd_start_node_id d
      in if nodes = [] then \<lparr>vr_valid = False, vr_errors = [Graph_Empty], vr_warnings = []\<rparr>
         else
           (let errors = map Duplicate_Id (repeated [] ids) @
                  (if start \<notin> set ids then [No_Such_Start start] else []) @
                  concat (map (node_errors nodes) nodes);
                warnings = concat (map node_warnings nodes) @
                  (if start \<in> set ids then
                     map Unreachable_Node (filter (\<lambda>i. i \<notin> set (reachable_ids nodes start)) ids)
                   else [])
            in \<lparr>vr_valid = (errors = []), vr_errors = errors, vr_warnings = warnings\<rparr>))"

section \<open>The dry run\<close>

definition TIER_RANK :: "(string \<times> int) list" where
  "TIER_RANK = [(''expression'', 0), (''llm'', 1), (''unconditional'', 2), (''event'', 1)]"

definition DEFAULT_PRIORITY :: "(string \<times> int) list" where
  "DEFAULT_PRIORITY = [(''expression'', 0), (''unconditional'', 0), (''llm'', 100), (''event'', 100)]"

definition MAX_DRY_RUN_STEPS :: nat where "MAX_DRY_RUN_STEPS = 20"

definition edge_rank :: "canvas_edge \<Rightarrow> int \<times> int" where
  "edge_rank e =
     (let tier = (case map_of TIER_RANK (ce_condition_type e) of Some r \<Rightarrow> r | None \<Rightarrow> 1);
          dflt = (case map_of DEFAULT_PRIORITY (ce_condition_type e) of Some p \<Rightarrow> p | None \<Rightarrow> 100)
      in (tier, case ce_priority e of Some p \<Rightarrow> p | None \<Rightarrow> dflt))"

record dry_run_result =
  dr_path :: "string list"
  dr_transcript_preview :: "(string \<times> string) list"
  dr_steps :: nat
  dr_loop_detected :: bool

definition preview :: "canvas_node \<Rightarrow> string \<Rightarrow> (string \<times> string) list" where
  "preview n current =
     (if cn_node_type n = ''static'' \<and> py_strip (or_empty (cn_static_message n)) \<noteq> [] then
        [(current, py_strip (or_empty (cn_static_message n)))]
      else if cn_node_type n = ''llm'' then
        [(current, let t = take 120 (py_strip (cn_prompt n)) in if t \<noteq> [] then t else ''[generates a reply]'')]
      else [])"

definition next_hop :: "canvas_node \<Rightarrow> string" where
  "next_hop n = ce_to_node_id (hd (sort_key edge_rank (cn_edges n)))"

definition visit :: "canvas_node \<Rightarrow> string \<Rightarrow> dry_run_result \<Rightarrow> dry_run_result" where
  "visit n current r =
     r\<lparr>dr_path := dr_path r @ [current], dr_steps := dr_steps r + 1,
       dr_transcript_preview := dr_transcript_preview r @ preview n current\<rparr>"

function dry_walk :: "canvas_node list \<Rightarrow> nat \<Rightarrow> string \<Rightarrow> dry_run_result \<Rightarrow> dry_run_result" where
  "dry_walk nodes max_steps current r =
     (if current = [] \<or> max_steps \<le> dr_steps r then r
      else case by_id nodes current of
             None \<Rightarrow> r
           | Some n \<Rightarrow>
               (if current \<in> set (dr_path r) then r\<lparr>dr_loop_detected := True\<rparr>
                else let r1 = visit n current r
                  in if cn_edges n = [] then r1
                     else if next_hop n \<in> set (dr_path r1) then r1\<lparr>dr_loop_detected := True\<rparr>
                     else dry_walk nodes max_steps (next_hop n) r1))"
  by pat_completeness auto

termination dry_walk
  by (relation "measure (\<lambda>(nodes, m, current, r). m - dr_steps r)") (auto simp: visit_def)

declare dry_walk.simps [simp del]

definition dry_run :: "graph_definition \<Rightarrow> nat \<Rightarrow> dry_run_result" where
  "dry_run d max_steps =
     dry_walk (gd_nodes d) max_steps (gd_start_node_id d)
       \<lparr>dr_path = [], dr_transcript_preview = [], dr_steps = 0, dr_loop_detected = False\<rparr>"

section \<open>The deploy mapping\<close>

definition opt_entry :: "string \<Rightarrow> string option \<Rightarrow> pydict" where
  "opt_entry k x = (if truthy_str x then [(k, PStr (or_empty x))] else [])"

definition edge_payload :: "canvas_edge \<Rightarrow> pyval" where
  "edge_payload e =
     PDict ([(''to_node_id'', PStr (ce_to_node_id e)), (''condition'', PStr (ce_condition e))] @
       opt_entry ''label'' (ce_label e) @
       (if ce_condition_type e \<noteq> ''llm'' then [(''condition_type'', PStr (ce_condition_type e))] else []) @
       (case ce_expression e of Some (x # xs) \<Rightarrow> [(''expression'', PDict (x # xs))] | _ \<Rightarrow> []) @
       opt_entry ''event_name'' (ce_event_name e) @
       (case ce_priority e of Some p \<Rightarrow> [(''priority'', PInt p)] | None \<Rightarrow> []))"

definition node_payload :: "canvas_node \<Rightarrow> pyval" where
  "node_payload n =
     PDict ([(''id'', PStr (cn_id n)), (''node_type'', PStr (cn_node_type n)), (''prompt'', PStr (cn_prompt n)),
        (''edges'', PList (map edge_payload (cn_edges n)))] @
       opt_entry ''description'' (cn_description n) @
       opt_entry ''static_message'' (cn_static_message n) @
       (case cn_repeat_after_silence_seconds n of
          Some s \<Rightarrow> [(''repeat_after_silence_seconds'', PFloat s)] | None \<Rightarrow> []))"

definition AGENT_TYPE_OTHER :: string where "AGENT_TYPE_OTHER = ''other''"

definition information_or :: "string \<Rightarrow> graph_definition \<Rightarrow> string" where
  "information_or graph_name d =
     (if gd_agent_information d \<noteq> [] then gd_agent_information d else ''Agent '' @ graph_name @ ''.'')"

definition llm_config_payload :: "string \<Rightarrow> graph_definition \<Rightarrow> pydict" where
  "llm_config_payload graph_name d =
     [(''agent_information'', PStr (information_or graph_name d)),
      (''nodes'', PList (map node_payload (gd_nodes d))),
      (''current_node_id'', PStr (gd_start_node_id d))] @
     opt_entry ''routing_model'' (gd_routing_model d)"

definition graph_to_agent_payload :: "string \<Rightarrow> graph_definition \<Rightarrow> string \<Rightarrow> pyval" where
  "graph_to_agent_payload graph_name d agent_name =
     PDict
       [(''agent_config'', PDict
          [(''agent_name'', PStr agent_name),
           (''agent_type'', PStr AGENT_TYPE_OTHER),
           (''tasks'', PList [PDict
              [(''task_type'', PStr ''conversation''),
               (''toolchain'', PDict
                  [(''execution'', PStr ''parallel''),
                   (''pipelines'', PList [PList [PStr ''transcriber'', PStr ''llm'', PStr ''synthesizer'']])]),
               (''tools_config'', PDict
                  [(''transcriber'', PDict
                      [(''provider'', PStr ''deepgram''), (''language'', PStr ''en''), (''stream'', PBool True)]),
                   (''llm_agent'', PDict
                      [(''agent_type'', PStr ''graph_agent''),
                       (''agent_flow_type'', PStr ''streaming''),
                       (''llm_config'', PDict (llm_config_payload graph_name d))]),
                   (''synthesizer'', PDict
                      [(''provider'', PStr ''elevenlabs''), (''stream'', PBool True),
                       (''audio_format'', PStr ''wav'')])]),
               (''task_config'', PDict [(''check_if_user_online'', PBool True)])]])]),
        (''agent_prompts'', PDict
          [(''task_1'', PDict [(''system_prompt'', PStr (information_or graph_name d))])])]"

section \<open>What the validator decides\<close>

lemma node_errors_none:
  "node_errors nodes n = [] \<longleftrightarrow>
     (\<forall>e \<in> set (cn_edges n). ce_to_node_id e \<in> set (map cn_id nodes)) \<and>
     (cn_node_type n = ''router'' \<longrightarrow>
        cn_prompt n = [] \<and> \<not> truthy_str (cn_static_message n) \<and>
        (\<forall>e \<in> set (cn_edges n). ce_condition_type e \<noteq> ''event'') \<and>
        (\<exists>e \<in> set (cn_edges n). ce_condition_type e = ''unconditional''))"
  by (auto simp: node_errors_def edge_errors_def list_ex_iff split: if_splits)

lemma valid_definition_iff:
  "vr_valid (validate_definition d) \<longleftrightarrow>
     gd_nodes d \<noteq> [] \<and> distinct (map cn_id (gd_nodes d)) \<and>
     gd_start_node_id d \<in> set (map cn_id (gd_nodes d)) \<and>
     (\<forall>n \<in> set (gd_nodes d). node_errors (gd_nodes d) n = [])"
  by (auto simp: validate_definition_def Let_def repeated_none)

lemma by_id_None: "by_id nodes i = None \<longleftrightarrow> i \<notin> set (map cn_id nodes)"
  by (simp add: by_id_def last_row_None)

lemma by_id_known: "by_id nodes i = Some n \<Longrightarrow> i \<in> set (map cn_id nodes)"
  using by_id_None [of nodes i] by fastforce

definition canvas_links :: "graph_definition \<Rightarrow> (string \<times> string) set" where
  "canvas_links d =
     {(x, y). y \<in> set (map cn_id (gd_nodes d)) \<and>
        (\<exists>n. by_id (gd_nodes d) x = Some n \<and> y \<in> ce_to_node_id ` set (cn_edges n))}"

lemma canvas_links: "links (edge_targets (gd_nodes d)) (map cn_id (gd_nodes d)) = canvas_links d"
proof (rule set_eqI)
  fix p :: "string \<times> string"
  obtain x y where p: "p = (x, y)" by fastforce
  show "p \<in> links (edge_targets (gd_nodes d)) (map cn_id (gd_nodes d)) \<longleftrightarrow> p \<in> canvas_links d"
    using by_id_known [of "gd_nodes d" x]
    by (cases "by_id (gd_nodes d) x") (auto simp: p links_def canvas_links_def edge_targets_def)
qed

lemma unreachable_not_earlier: "Unreachable_Node i \<notin> set (node_warnings n)"
  by (auto simp: node_warnings_def edge_warnings_def split: if_splits)

text \<open>
  A builder is warned that a node is unreachable exactly for the
  nodes that no chain of edges leads to from an existing start node; a cycle of the graph or
  an edge to an unknown node changes nothing.
\<close>

theorem unreachable_exact:
  assumes "gd_start_node_id d \<in> set (map cn_id (gd_nodes d))"
  shows "Unreachable_Node i \<in> set (vr_warnings (validate_definition d)) \<longleftrightarrow>
           i \<in> set (map cn_id (gd_nodes d)) \<and> (gd_start_node_id d, i) \<notin> (canvas_links d)\<^sup>*"
proof -
  have "gd_nodes d \<noteq> []" using assms by auto
  moreover have "set (reachable_ids (gd_nodes d) (gd_start_node_id d)) =
      (canvas_links d)\<^sup>* `` {gd_start_node_id d}"
    using reach_exact [OF assms] by (simp add: reachable_ids_def canvas_links)
  ultimately show ?thesis
    using assms unreachable_not_earlier by (auto simp: validate_definition_def Let_def)
qed

definition canvas_edge_to :: "string \<Rightarrow> string \<Rightarrow> canvas_edge" where
  "canvas_edge_to t ct =
     \<lparr>ce_to_node_id = t, ce_condition = [], ce_label = None, ce_condition_type = ct,
      ce_expression = None, ce_event_name = None, ce_priority = None\<rparr>"

definition canvas_node_of :: "string \<Rightarrow> string \<Rightarrow> string \<Rightarrow> canvas_edge list \<Rightarrow> canvas_node" where
  "canvas_node_of i t p es =
     \<lparr>cn_id = i, cn_node_type = t, cn_description = None, cn_prompt = p, cn_static_message = None,
      cn_repeat_after_silence_seconds = None, cn_edges = es\<rparr>"

definition canvas_of :: "canvas_node list \<Rightarrow> graph_definition" where
  "canvas_of nodes =
     \<lparr>gd_agent_information = [], gd_start_node_id = ''a'', gd_routing_model = None, gd_variables = [],
      gd_nodes = nodes\<rparr>"

definition sample_canvas :: graph_definition where
  "sample_canvas = canvas_of
     [canvas_node_of ''a'' ''llm'' ''hello''
        [canvas_edge_to ''b'' ''llm'', canvas_edge_to ''c'' ''expression'', canvas_edge_to ''b'' ''expression''],
      canvas_node_of ''b'' ''llm'' ''ask'' [],
      canvas_node_of ''c'' ''router'' [] [canvas_edge_to ''a'' ''unconditional''],
      canvas_node_of ''d'' ''llm'' ''lost'' [canvas_edge_to ''d'' ''llm'']]"

lemmas sample_canvas_defs = sample_canvas_def canvas_of_def canvas_node_of_def canvas_edge_to_def

theorem unreachable_exact_witness:
  "Unreachable_Node ''d'' \<in> set (vr_warnings (validate_definition sample_canvas)) \<and>
   (''a'', ''d'') \<notin> (canvas_links sample_canvas)\<^sup>*"
proof -
  have "gd_start_node_id sample_canvas \<in> set (map cn_id (gd_nodes sample_canvas))" by code_simp
  moreover have "Unreachable_Node ''d'' \<in> set (vr_warnings (validate_definition sample_canvas))" by code_simp
  moreover have "gd_start_node_id sample_canvas = ''a''" by code_simp
  ultimately show ?thesis using unreachable_exact [of sample_canvas "''d''"] by auto
qed

section \<open>The dry run follows the preferred edges\<close>

definition chosen :: "canvas_node list \<Rightarrow> string \<Rightarrow> string option" where
  "chosen nodes i =
     (case by_id nodes i of None \<Rightarrow> None | Some n \<Rightarrow> if cn_edges n = [] then None else Some (next_hop n))"

fun hops :: "canvas_node list \<Rightarrow> string list \<Rightarrow> bool" where
  "hops nodes (x # y # p) = (chosen nodes x = Some y \<and> hops nodes (y # p))"
| "hops nodes p = True"

lemma hops_snoc: "hops nodes (p @ [y]) \<longleftrightarrow> hops nodes p \<and> (p = [] \<or> chosen nodes (last p) = Some y)"
  by (induction nodes p rule: hops.induct) auto

lemma hd_sort_key:
  fixes f :: "'a \<Rightarrow> 'b::linorder"
  assumes "xs \<noteq> []"
  shows "hd (sort_key f xs) \<in> set xs" and "x \<in> set xs \<Longrightarrow> f (hd (sort_key f xs)) \<le> f x"
proof -
  have ne: "sort_key f xs \<noteq> []" using assms by (metis length_0_conv length_sort)
  then have "hd (sort_key f xs) \<in> set (sort_key f xs)" by (rule hd_in_set)
  then show "hd (sort_key f xs) \<in> set xs" by simp
  have "sorted (map f (sort_key f xs))" by simp
  moreover assume "x \<in> set xs"
  then have "x \<in> set (sort_key f xs)" by simp
  ultimately show "f (hd (sort_key f xs)) \<le> f x" by (cases "sort_key f xs") auto
qed

lemma chosen_edge:
  "chosen nodes i = Some j \<Longrightarrow>
     \<exists>n e. by_id nodes i = Some n \<and> e \<in> set (cn_edges n) \<and> ce_to_node_id e = j \<and>
       (\<forall>e' \<in> set (cn_edges n). edge_rank e \<le> edge_rank e')"
proof -
  assume "chosen nodes i = Some j"
  then obtain n where n: "by_id nodes i = Some n" "cn_edges n \<noteq> []"
    and j: "ce_to_node_id (hd (sort_key edge_rank (cn_edges n))) = j"
    by (auto simp: chosen_def next_hop_def split: option.splits if_splits)
  with hd_sort_key(1) [OF n(2), of edge_rank] hd_sort_key(2) [OF n(2), where f = edge_rank] show ?thesis by blast
qed

definition previews :: "canvas_node list \<Rightarrow> string list \<Rightarrow> (string \<times> string) list" where
  "previews nodes p = concat (map (\<lambda>i. case by_id nodes i of None \<Rightarrow> [] | Some n \<Rightarrow> preview n i) p)"

definition walked :: "canvas_node list \<Rightarrow> dry_run_result \<Rightarrow> bool" where
  "walked nodes r \<longleftrightarrow> distinct (dr_path r) \<and> hops nodes (dr_path r) \<and> dr_steps r = length (dr_path r) \<and>
     dr_transcript_preview r = previews nodes (dr_path r) \<and> set (dr_path r) \<subseteq> set (map cn_id nodes)"

definition stopped :: "canvas_node list \<Rightarrow> nat \<Rightarrow> string \<Rightarrow> dry_run_result \<Rightarrow> bool" where
  "stopped nodes m start r \<longleftrightarrow>
     (if dr_loop_detected r then \<exists>j \<in> set (dr_path r). chosen nodes (last (dr_path r)) = Some j
      else dr_steps r = m \<or>
           (case (if dr_path r = [] then Some start else chosen nodes (last (dr_path r))) of
              None \<Rightarrow> True
            | Some j \<Rightarrow> j = [] \<or> j \<notin> set (map cn_id nodes)))"

lemma dry_walk_spec:
  assumes "walked nodes r" "\<not> dr_loop_detected r" "dr_steps r \<le> m" "current \<notin> set (dr_path r)"
    and "(if dr_path r = [] then Some start else chosen nodes (last (dr_path r))) = Some current"
  shows "walked nodes (dry_walk nodes m current r) \<and> dr_steps (dry_walk nodes m current r) \<le> m \<and>
    stopped nodes m start (dry_walk nodes m current r) \<and> prefix (dr_path r) (dr_path (dry_walk nodes m current r))"
  using assms
proof (induction nodes m current r rule: dry_walk.induct)
  case (1 nodes m current r)
  show ?case
  proof (cases "current = [] \<or> m \<le> dr_steps r \<or> by_id nodes current = None")
    case True
    then have r: "dry_walk nodes m current r = r" by (subst dry_walk.simps) auto
    have "by_id nodes current = None \<Longrightarrow> current \<notin> set (map cn_id nodes)"
      by (simp add: by_id_None)
    with True "1.prems" r show ?thesis by (auto simp: stopped_def split: if_splits)
  next
    case False
    then obtain n where n: "by_id nodes current = Some n" and ne: "current \<noteq> []" and m: "dr_steps r < m"
      by auto
    let ?r = "visit n current r"
    have c: "chosen nodes current = (if cn_edges n = [] then None else Some (next_hop n))"
      by (simp add: chosen_def n)
    have "current \<in> set (map cn_id nodes)" by (rule by_id_known [OF n])
    then have w: "walked nodes ?r"
      using "1.prems" n by (auto simp: walked_def visit_def hops_snoc previews_def split: if_splits)
    have r: "\<not> dr_loop_detected ?r" "dr_steps ?r \<le> m" "dr_path ?r = dr_path r @ [current]"
      using "1.prems"(2) m by (simp_all add: visit_def)
    consider (leaf) "cn_edges n = []" | (loop) "cn_edges n \<noteq> []" "next_hop n \<in> set (dr_path ?r)"
      | (go) "cn_edges n \<noteq> []" "next_hop n \<notin> set (dr_path ?r)" by blast
    then show ?thesis
    proof cases
      case leaf
      then have "dry_walk nodes m current r = ?r"
        using "1.prems"(4) n ne m by (subst dry_walk.simps) (simp add: Let_def)
      with w r c leaf show ?thesis by (simp add: stopped_def)
    next
      case loop
      then have d: "dry_walk nodes m current r = ?r\<lparr>dr_loop_detected := True\<rparr>"
        using "1.prems"(4) n ne m by (subst dry_walk.simps) (simp add: Let_def)
      from w r loop c show ?thesis unfolding d by (auto simp: stopped_def walked_def)
    next
      case go
      then have d: "dry_walk nodes m current r = dry_walk nodes m (next_hop n) ?r"
        using "1.prems"(4) n ne m by (subst dry_walk.simps) (simp add: Let_def)
      have "walked nodes (dry_walk nodes m (next_hop n) ?r) \<and> dr_steps (dry_walk nodes m (next_hop n) ?r) \<le> m \<and>
          stopped nodes m start (dry_walk nodes m (next_hop n) ?r) \<and>
          prefix (dr_path ?r) (dr_path (dry_walk nodes m (next_hop n) ?r))"
        using "1.IH" [OF _ n "1.prems"(4) refl go] ne m w r c go by simp
      with r(3) show ?thesis unfolding d by (auto intro: append_prefixD)
    qed
  qed
qed

text \<open>
  The dry run visits no node twice and at most the
  allowed number of nodes, goes from each node along an edge of least rank, previews exactly what
  the visited nodes say, and stops only at a repeated node (reported as a loop), at the limit, at a
  node without edges, or at an edge to an unknown node.
\<close>

theorem dry_run_exact:
  "walked (gd_nodes d) (dry_run d m) \<and> dr_steps (dry_run d m) \<le> m \<and>
   stopped (gd_nodes d) m (gd_start_node_id d) (dry_run d m) \<and>
   (\<forall>i j. chosen (gd_nodes d) i = Some j \<longrightarrow>
      (\<exists>n e. by_id (gd_nodes d) i = Some n \<and> e \<in> set (cn_edges n) \<and> ce_to_node_id e = j \<and>
         (\<forall>e' \<in> set (cn_edges n). edge_rank e \<le> edge_rank e')))"
proof -
  let ?r = "\<lparr>dr_path = [], dr_transcript_preview = [], dr_steps = 0, dr_loop_detected = False\<rparr>"
  have "walked (gd_nodes d) ?r" by (simp add: walked_def previews_def)
  from dry_walk_spec [OF this, of m "gd_start_node_id d" "gd_start_node_id d"] show ?thesis
    using chosen_edge by (auto simp: dry_run_def)
qed

theorem dry_run_exact_witness:
  "dr_path (dry_run sample_canvas MAX_DRY_RUN_STEPS) = [''a'', ''c''] \<and>
   dr_loop_detected (dry_run sample_canvas MAX_DRY_RUN_STEPS) \<and>
   walked (gd_nodes sample_canvas) (dry_run sample_canvas MAX_DRY_RUN_STEPS)"
proof -
  have "dr_path (dry_run sample_canvas MAX_DRY_RUN_STEPS) = [''a'', ''c'']" by code_simp
  moreover have "dr_loop_detected (dry_run sample_canvas MAX_DRY_RUN_STEPS)" by code_simp
  ultimately show ?thesis using dry_run_exact [of sample_canvas MAX_DRY_RUN_STEPS] by blast
qed

end
