(* ===== verification/Deployment.thy ===== *)
theory Deployment
  imports Automation "HOL-Library.Monad_Syntax"
begin

text \<open>
  From the canvas to the runtime: what \<open>LlmAgent.validate_llm_config\<close> and the models
  \<open>GraphAgentConfig\<close>, \<open>GraphNode\<close>, \<open>GraphEdge\<close>, \<open>ExpressionGroup\<close> and \<open>ExpressionCondition\<close> of
  \<open>modules/agents/models/brains.py\<close> read out of the JSON body that \<open>graph_to_agent_payload\<close> builds, and
  the refinement between the two validators: a canvas that the builder accepts is loaded as the
  same graph, unless its routers form a cycle.

  A field holds a value of its declared type or the model is refused; the conversions of the
  validation library (numbers in strings, integral floats) are not modelled. Retrieval
  configurations and the generation settings of \<open>Llm\<close> are not read.
\<close>

section \<open>Fields\<close>

definition read_str :: "pydict \<Rightarrow> string \<Rightarrow> string option" where
  "read_str d k = (case map_of d k of Some (PStr s) \<Rightarrow> Some s | _ \<Rightarrow> None)"

definition read_str_or :: "string \<Rightarrow> pydict \<Rightarrow> string \<Rightarrow> string option" where
  "read_str_or dflt d k = (case map_of d k of None \<Rightarrow> Some dflt | Some (PStr s) \<Rightarrow> Some s | _ \<Rightarrow> None)"

definition read_opt_str :: "pydict \<Rightarrow> string \<Rightarrow> string option option" where
  "read_opt_str d k =
     (case map_of d k of
        None \<Rightarrow> Some None | Some PNone \<Rightarrow> Some None | Some (PStr s) \<Rightarrow> Some (Some s) | _ \<Rightarrow> None)"

definition read_opt_int :: "pydict \<Rightarrow> string \<Rightarrow> int option option" where
  "read_opt_int d k =
     (case map_of d k of
        None \<Rightarrow> Some None | Some PNone \<Rightarrow> Some None | Some (PInt n) \<Rightarrow> Some (Some n) | _ \<Rightarrow> None)"

definition read_opt_number :: "pydict \<Rightarrow> string \<Rightarrow> rat option option" where
  "read_opt_number d k =
     (case map_of d k of
        None \<Rightarrow> Some None | Some PNone \<Rightarrow> Some None | Some (PFloat r) \<Rightarrow> Some (Some r)
      | Some (PInt n) \<Rightarrow> Some (Some (of_int n)) | _ \<Rightarrow> None)"

definition str_entries :: "pydict \<Rightarrow> (string \<times> string) list option" where
  "str_entries d = those (map (\<lambda>(k, v). case v of PStr s \<Rightarrow> Some (k, s) | _ \<Rightarrow> None) d)"

definition read_str_map :: "pydict \<Rightarrow> string \<Rightarrow> (string \<times> string) list option" where
  "read_str_map d k =
     (case map_of d k of
        None \<Rightarrow> Some [] | Some PNone \<Rightarrow> Some [] | Some (PDict m) \<Rightarrow> str_entries m | _ \<Rightarrow> None)"

definition read_list :: "(pyval \<Rightarrow> 'a option) \<Rightarrow> pydict \<Rightarrow> string \<Rightarrow> 'a list option" where
  "read_list f d k =
     (case map_of d k of None \<Rightarrow> Some [] | Some (PList vs) \<Rightarrow> those (map f vs) | _ \<Rightarrow> None)"

section \<open>Models\<close>

definition OPERATORS :: "string list" where
  "OPERATORS = [''eq'', ''neq'', ''gt'', ''gte'', ''lt'', ''lte'', ''in'', ''not_in'', ''contains'', ''exists'', ''not_exists'']"

definition read_condition :: "pyval \<Rightarrow> condition option" where
  "read_condition v =
     (case v of
        PDict d \<Rightarrow>
          (case (read_str d ''variable'', read_str d ''operator'') of
             (Some x, Some oper) \<Rightarrow>
               (if oper \<in> set OPERATORS
                then Some \<lparr>cd_variable = x, cd_operator = oper, cd_value = dict_get d ''value''\<rparr>
                else None)
           | _ \<Rightarrow> None)
      | _ \<Rightarrow> None)"

definition read_group :: "pydict \<Rightarrow> expression_group option" where
  "read_group d =
     (case (read_str_or ''and'' d ''logic'', read_list read_condition d ''conditions'') of
        (Some l, Some cs) \<Rightarrow>
          (if l \<in> set [''and'', ''or''] then Some \<lparr>eg_logic = Some l, eg_conditions = cs\<rparr> else None)
      | _ \<Rightarrow> None)"

definition read_opt_group :: "pydict \<Rightarrow> string \<Rightarrow> expression_group option option" where
  "read_opt_group d k =
     (case map_of d k of
        None \<Rightarrow> Some None | Some PNone \<Rightarrow> Some None
      | Some (PDict g) \<Rightarrow> map_option Some (read_group g) | _ \<Rightarrow> None)"

definition read_condition_type :: "pydict \<Rightarrow> string option option" where
  "read_condition_type d =
     (case read_opt_str d ''condition_type'' of
        Some (Some t) \<Rightarrow> if t \<in> set CONDITION_TYPES then Some (Some t) else None
      | r \<Rightarrow> r)"

definition read_edge :: "pyval \<Rightarrow> graph_edge option" where
  "read_edge v =
     (case v of
        PDict d \<Rightarrow>
          do {
            target \<leftarrow> read_str d ''to_node_id'';
            cond \<leftarrow> read_str_or [] d ''condition'';
            label \<leftarrow> read_opt_str d ''label'';
            ct \<leftarrow> read_condition_type d;
            expr \<leftarrow> read_opt_group d ''expression'';
            event \<leftarrow> read_opt_str d ''event_name'';
            fname \<leftarrow> read_opt_str d ''function_name'';
            fdesc \<leftarrow> read_opt_str d ''function_description'';
            params \<leftarrow> read_str_map d ''parameters'';
            prio \<leftarrow> read_opt_int d ''priority'';
            Some \<lparr>ge_to_node_id = target, ge_condition_type = ct, ge_expression = expr, ge_priority = prio,
              ge_event_name = event, ge_condition = Some cond, ge_function_name = fname,
              ge_function_description = fdesc, ge_parameters = params\<rparr>
          }
      | _ \<Rightarrow> None)"

definition read_message :: "pydict \<Rightarrow> string \<Rightarrow> message_config option option" where
  "read_message d k =
     (case map_of d k of
        None \<Rightarrow> Some None | Some PNone \<Rightarrow> Some None | Some (PStr s) \<Rightarrow> Some (Some (Text_Message s))
      | Some (PDict m) \<Rightarrow>
          map_option (\<lambda>e. Some (Language_Messages (map (\<lambda>(l, s). (l, Some s)) e))) (str_entries m)
      | _ \<Rightarrow> None)"

definition read_node :: "pyval \<Rightarrow> graph_node option" where
  "read_node v =
     (case v of
        PDict d \<Rightarrow>
          do {
            i \<leftarrow> read_str d ''id'';
            desc \<leftarrow> read_opt_str d ''description'';
            t \<leftarrow> read_str_or ''llm'' d ''node_type'';
            prompt \<leftarrow> read_str_or [] d ''prompt'';
            msg \<leftarrow> read_message d ''static_message'';
            rep \<leftarrow> read_opt_number d ''repeat_after_silence_seconds'';
            exs \<leftarrow> read_str_map d ''examples'';
            edges \<leftarrow> read_list read_edge d ''edges'';
            fcall \<leftarrow> read_opt_str d ''function_call'';
            (if t \<in> set NODE_TYPES
             then Some \<lparr>gn_id = i, gn_node_type = Some t, gn_edges = edges, gn_prompt = prompt,
                    gn_description = desc, gn_static_message = msg, gn_examples = exs,
                    gn_function_call = fcall\<rparr>
             else None)
          }
      | _ \<Rightarrow> None)"

record graph_config =
  gc_agent_information :: string
  gc_nodes :: "graph_node list"
  gc_current_node_id :: string
  gc_routing_model :: "string option"

datatype load_error =
    Wrong_Shape
  | Unsupported_Agent_Type string
  | Refused config_error

text \<open>
  The fields of each node are read and its model validator runs before the next; the router graph is
  checked when all fields of the configuration are in place.
\<close>

fun read_nodes :: "pyval list \<Rightarrow> load_error + graph_node list" where
  "read_nodes [] = Inr []"
| "read_nodes (v # vs) =
     (case read_node v of
        None \<Rightarrow> Inl Wrong_Shape
      | Some n \<Rightarrow>
          (case validate_router_node n of
             Inl err \<Rightarrow> Inl (Refused err)
           | Inr _ \<Rightarrow> (case read_nodes vs of Inl err \<Rightarrow> Inl err | Inr ns \<Rightarrow> Inr (n # ns))))"

definition read_graph_config :: "pydict \<Rightarrow> load_error + graph_config" where
  "read_graph_config d =
     (case (read_str d ''agent_information'', map_of d ''nodes'', read_str d ''current_node_id'',
            read_opt_str d ''routing_model'') of
        (Some info, Some (PList vs), Some cur, Some rm) \<Rightarrow>
          (case read_nodes vs of
             Inl err \<Rightarrow> Inl err
           | Inr ns \<Rightarrow>
               (case validate_router_graph ns of
                  Inl err \<Rightarrow> Inl (Refused err)
                | Inr _ \<Rightarrow> Inr \<lparr>gc_agent_information = info, gc_nodes = ns, gc_current_node_id = cur,
                              gc_routing_model = rm\<rparr>))
      | _ \<Rightarrow> Inl Wrong_Shape)"

text \<open>Only the graph agent's schema is modelled: a supported type of another kind is \<open>Wrong_Shape\<close>.\<close>

definition AGENT_TYPES :: "string list" where
  "AGENT_TYPES = [''knowledgebase_agent'', ''graph_agent'', ''llm_agent_graph'', ''multiagent'', ''simple_llm_agent'']"

definition validate_llm_config :: "string \<Rightarrow> pyval \<Rightarrow> load_error + graph_config" where
  "validate_llm_config agent_type v =
     (if agent_type \<notin> set AGENT_TYPES then Inl (Unsupported_Agent_Type agent_type)
      else case v of
             PDict d \<Rightarrow> if agent_type = ''graph_agent'' then read_graph_config d else Inl Wrong_Shape
           | _ \<Rightarrow> Inl Wrong_Shape)"

text \<open>The way from the body of \<open>POST /agent\<close> to the brain of its first task.\<close>

definition field :: "string \<Rightarrow> pyval \<Rightarrow> pyval" where
  "field k v = (case v of PDict d \<Rightarrow> dict_get d k | _ \<Rightarrow> PNone)"

definition first_item :: "pyval \<Rightarrow> pyval" where
  "first_item v = (case v of PList (x # xs) \<Rightarrow> x | _ \<Rightarrow> PNone)"

definition load_agent :: "pyval \<Rightarrow> load_error + graph_config" where
  "load_agent payload =
     (let agent = field ''llm_agent'' (field ''tools_config'' (first_item (field ''tasks'' (field ''agent_config'' payload))))
      in case field ''agent_type'' agent of
           PStr t \<Rightarrow> validate_llm_config t (field ''llm_config'' agent)
         | _ \<Rightarrow> Inl Wrong_Shape)"

section \<open>The deployed graph\<close>

definition deployed_expression :: "canvas_edge \<Rightarrow> expression_group option" where
  "deployed_expression e = (case ce_expression e of Some (x # xs) \<Rightarrow> read_group (x # xs) | _ \<Rightarrow> None)"

definition filled :: "string option \<Rightarrow> string option" where
  "filled x = (if truthy_str x then x else None)"

definition deployed_edge :: "canvas_edge \<Rightarrow> graph_edge" where
  "deployed_edge e =
     \<lparr>ge_to_node_id = ce_to_node_id e,
      ge_condition_type = (if ce_condition_type e = ''llm'' then None else Some (ce_condition_type e)),
      ge_expression = deployed_expression e, ge_priority = ce_priority e,
      ge_event_name = filled (ce_event_name e), ge_condition = Some (ce_condition e),
      ge_function_name = None, ge_function_description = None, ge_parameters = []\<rparr>"

definition deployed_node :: "canvas_node \<Rightarrow> graph_node" where
  "deployed_node n =
     \<lparr>gn_id = cn_id n, gn_node_type = Some (cn_node_type n), gn_edges = map deployed_edge (cn_edges n),
      gn_prompt = cn_prompt n, gn_description = filled (cn_description n),
      gn_static_message = map_option Text_Message (filled (cn_static_message n)), gn_examples = [],
      gn_function_call = None\<rparr>"

definition deployed_config :: "string \<Rightarrow> graph_definition \<Rightarrow> graph_config" where
  "deployed_config graph_name d =
     \<lparr>gc_agent_information = information_or graph_name d, gc_nodes = map deployed_node (gd_nodes d),
      gc_current_node_id = gd_start_node_id d, gc_routing_model = filled (gd_routing_model d)\<rparr>"

text \<open>An edge whose expression is a group of conditions, the one thing the canvas leaves unchecked.\<close>

definition readable :: "canvas_edge \<Rightarrow> bool" where
  "readable e = (case ce_expression e of Some (x # xs) \<Rightarrow> read_group (x # xs) \<noteq> None | _ \<Rightarrow> True)"

lemma map_of_opt_entry [simp]:
  "map_of (opt_entry k x) k' = (if k' = k \<and> truthy_str x then Some (PStr (or_empty x)) else None)"
  by (simp add: opt_entry_def)

lemma read_filled:
  "(case (if truthy_str x then Some (PStr (or_empty x)) else None) of
      None \<Rightarrow> Some None | Some PNone \<Rightarrow> Some None | Some (PStr s) \<Rightarrow> Some (Some s) | _ \<Rightarrow> None) = Some (filled x)"
  by (cases x) (simp_all add: filled_def)

lemma those_map: "(\<And>x. x \<in> set xs \<Longrightarrow> f x = Some (g x)) \<Longrightarrow> those (map f xs) = Some (map g xs)"
  by (induction xs) auto

lemmas read_defs = read_str_def read_str_or_def read_opt_str_def read_opt_int_def read_str_map_def
  read_list_def read_opt_number_def

lemma edge_fields:
  assumes "edge_payload e = PDict m"
  shows "map_of m ''to_node_id'' = Some (PStr (ce_to_node_id e))"
    and "map_of m ''condition'' = Some (PStr (ce_condition e))"
    and "map_of m ''label'' = (if truthy_str (ce_label e) then Some (PStr (or_empty (ce_label e))) else None)"
    and "map_of m ''condition_type'' =
      (if ce_condition_type e \<noteq> ''llm'' then Some (PStr (ce_condition_type e)) else None)"
    and "map_of m ''expression'' = (case ce_expression e of Some (x # xs) \<Rightarrow> Some (PDict (x # xs)) | _ \<Rightarrow> None)"
    and "map_of m ''event_name'' =
      (if truthy_str (ce_event_name e) then Some (PStr (or_empty (ce_event_name e))) else None)"
    and "map_of m ''function_name'' = None" "map_of m ''function_description'' = None"
    and "map_of m ''parameters'' = None"
    and "map_of m ''priority'' = map_option PInt (ce_priority e)"
  using assms
  by (auto simp: edge_payload_def map_add_def split: option.splits list.splits)

lemma read_edge_payload:
  assumes "edge_ok e" and "readable e"
  shows "read_edge (edge_payload e) = Some (deployed_edge e)"
proof -
  obtain m where m: "edge_payload e = PDict m" by (simp add: edge_payload_def)
  note fields = edge_fields [OF m]
  have ct: "read_condition_type m =
      Some (if ce_condition_type e = ''llm'' then None else Some (ce_condition_type e))"
    using assms(1) by (simp add: read_condition_type_def read_opt_str_def fields edge_ok_def)
  have ex: "read_opt_group m ''expression'' = Some (deployed_expression e)"
    using assms(2)
    by (auto simp: read_opt_group_def fields readable_def deployed_expression_def split: option.splits list.splits)
  have pr: "read_opt_int m ''priority'' = Some (ce_priority e)"
    by (cases "ce_priority e") (simp_all add: read_opt_int_def fields)
  have lb: "read_opt_str m ''label'' = Some (filled (ce_label e))"
    and ev: "read_opt_str m ''event_name'' = Some (filled (ce_event_name e))"
    unfolding read_opt_str_def fields by (rule read_filled)+
  show ?thesis
    by (simp add: m read_edge_def ct ex pr lb ev read_str_def read_str_or_def read_str_map_def fields deployed_edge_def)
       (simp add: read_opt_str_def fields)
qed

lemma node_fields:
  assumes "node_payload n = PDict m"
  shows "map_of m ''id'' = Some (PStr (cn_id n))" "map_of m ''node_type'' = Some (PStr (cn_node_type n))"
    and "map_of m ''prompt'' = Some (PStr (cn_prompt n))"
    and "map_of m ''edges'' = Some (PList (map edge_payload (cn_edges n)))"
    and "map_of m ''description'' =
      (if truthy_str (cn_description n) then Some (PStr (or_empty (cn_description n))) else None)"
    and "map_of m ''static_message'' =
      (if truthy_str (cn_static_message n) then Some (PStr (or_empty (cn_static_message n))) else None)"
    and "map_of m ''repeat_after_silence_seconds'' = map_option PFloat (cn_repeat_after_silence_seconds n)"
    and "map_of m ''examples'' = None" "map_of m ''function_call'' = None"
  using assms by (auto simp: node_payload_def map_add_def split: option.splits)

lemma read_node_payload:
  assumes "node_ok n" and "list_all readable (cn_edges n)"
  shows "read_node (node_payload n) = Some (deployed_node n)"
proof -
  obtain m where m: "node_payload n = PDict m" by (simp add: node_payload_def)
  note fields = node_fields [OF m]
  have es: "read_list read_edge m ''edges'' = Some (map deployed_edge (cn_edges n))"
    using assms read_edge_payload
    by (auto simp: read_list_def fields node_ok_def list_all_iff comp_def intro: those_map)
  have ds: "read_opt_str m ''description'' = Some (filled (cn_description n))"
    unfolding read_opt_str_def fields by (rule read_filled)
  have ms: "read_message m ''static_message'' = Some (map_option Text_Message (filled (cn_static_message n)))"
    by (cases "cn_static_message n") (simp_all add: read_message_def fields filled_def)
  have rp: "\<exists>r. read_opt_number m ''repeat_after_silence_seconds'' = Some r"
    by (cases "cn_repeat_after_silence_seconds n") (simp_all add: read_opt_number_def fields)
  have "cn_node_type n \<in> set NODE_TYPES" using assms(1) by (simp add: node_ok_def)
  with rp show ?thesis
    by (auto simp: m read_node_def es ds ms read_str_def read_str_or_def read_str_map_def fields deployed_node_def)
       (simp add: read_opt_str_def fields)
qed

lemma read_config_payload: "load_agent (graph_to_agent_payload g d a) = read_graph_config (llm_config_payload g d)"
  by (simp add: load_agent_def graph_to_agent_payload_def field_def first_item_def dict_get_def
      validate_llm_config_def AGENT_TYPES_def Let_def)

lemma is_router_deployed [simp]: "is_router (deployed_node n) = (cn_node_type n = ''router'')"
  by (simp add: is_router_def deployed_node_def)

lemma deployed_simps [simp]:
  "gn_id (deployed_node n) = cn_id n" "gn_edges (deployed_node n) = map deployed_edge (cn_edges n)"
  "ge_to_node_id (deployed_edge e) = ce_to_node_id e"
  "is_event_edge (deployed_edge e) = (ce_condition_type e = ''event'')"
  "is_unconditional_edge (deployed_edge e) = (ce_condition_type e = ''unconditional'')"
  by (auto simp: deployed_node_def deployed_edge_def is_event_edge_def is_unconditional_edge_def)

lemma deployed_router_ok:
  assumes "node_errors nodes n = []"
  shows "validate_router_node (deployed_node n) = Inr ()"
proof (cases "cn_node_type n = ''router''")
  case True
  with assms have "cn_prompt n = []" "\<not> truthy_str (cn_static_message n)"
    and ev: "\<forall>e \<in> set (cn_edges n). ce_condition_type e \<noteq> ''event''"
    and ca: "\<exists>e \<in> set (cn_edges n). ce_condition_type e = ''unconditional''"
    by (simp_all add: node_errors_none)
  then have "gn_prompt (deployed_node n) = []" "\<not> static_set (deployed_node n)"
    by (simp_all add: deployed_node_def static_set_def filled_def)
  moreover have "find is_event_edge (gn_edges (deployed_node n)) = None" using ev by (simp add: find_None_iff)
  moreover have "list_ex is_unconditional_edge (gn_edges (deployed_node n))" using ca by (simp add: list_ex_iff)
  ultimately show ?thesis using True by (simp add: validate_router_node_def)
qed (simp add: validate_router_node_def)

lemma read_nodes_payload:
  assumes "\<And>n. n \<in> set ns \<Longrightarrow> read_node (node_payload n) = Some (deployed_node n)"
    and "\<And>n. n \<in> set ns \<Longrightarrow> validate_router_node (deployed_node n) = Inr ()"
  shows "read_nodes (map node_payload ns) = Inr (map deployed_node ns)"
  using assms by (induction ns) simp_all

text \<open>Only the last check of the router graph depends on more than single edges.\<close>

lemma deployed_unknown_none:
  assumes "\<And>n e. n \<in> set nodes \<Longrightarrow> e \<in> set (cn_edges n) \<Longrightarrow> ce_to_node_id e \<in> set (map cn_id nodes)"
  shows "unknown_target (map deployed_node nodes) = None"
  using assms by (fastforce simp: known_targets)

lemma router_graph_cases:
  "unknown_target nodes = None \<Longrightarrow>
     validate_router_graph nodes = Inr () \<or> (\<exists>i. validate_router_graph nodes = Inl (Router_Cycle i))"
  by (simp add: validate_router_graph_def split: option.splits)


text \<open>Two routers that hand over to each other pass the builder's check.\<close>

definition looping_canvas :: graph_definition where
  "looping_canvas = canvas_of
     [canvas_node_of ''a'' ''router'' [] [canvas_edge_to ''b'' ''unconditional''],
      canvas_node_of ''b'' ''router'' [] [canvas_edge_to ''c'' ''llm'', canvas_edge_to ''a'' ''unconditional''],
      canvas_node_of ''c'' ''llm'' ''hi'' []]"


end
