(* ===== verification/Graph_Versions.thy ===== *)
theory Graph_Versions
  imports Repository Expression
begin

text \<open>
  Graphs and their snapshots, from \<open>modules/automation/service.py\<close>, \<open>static_methods.py\<close> and
  \<open>repository.py\<close>: creating, updating, deleting, snapshotting and restoring a graph over two
  document repositories. Version numbers are positions in a graph's history; a restore first
  snapshots the live state.

  A \<open>GraphDoc\<close> or \<open>GraphVersion\<close> is a document with the fields of the model. Rows of the old
  envelope shape, which \<open>as_graph\<close> and \<open>as_version\<close> unwrap, are not modelled. The clock and the
  fresh ids are arguments.
\<close>

section \<open>Records\<close>

definition graph_fields :: "string \<Rightarrow> string option \<Rightarrow> pydict \<Rightarrow> pydict" where
  "graph_fields gname agent definition =
     [(''name'', PStr gname), (''agent_id'', opt_str agent), (''definition'', PDict definition)]"

definition version_fields :: "string \<Rightarrow> int \<Rightarrow> string \<Rightarrow> pydict \<Rightarrow> string option \<Rightarrow> pydict" where
  "version_fields gid n gname definition note =
     [(''graph_id'', PStr gid), (''version_number'', PInt n), (''name'', PStr gname),
      (''definition'', PDict definition), (''note'', opt_str note)]"

definition new_document :: "rat \<Rightarrow> pydict \<Rightarrow> document" where
  "new_document now fs =
     \<lparr>doc_id = None, doc_tenant_id = None, doc_created_at = now, doc_updated_at = now,
      doc_created_by = None, doc_updated_by = None, doc_is_active = True, doc_meta = [],
      doc_fields = fs\<rparr>"

definition str_field :: "string \<Rightarrow> document \<Rightarrow> string" where
  "str_field k d = (case dict_get (doc_fields d) k of PStr s \<Rightarrow> s | _ \<Rightarrow> [])"

definition dict_field :: "string \<Rightarrow> document \<Rightarrow> pydict" where
  "dict_field k d = (case dict_get (doc_fields d) k of PDict m \<Rightarrow> m | _ \<Rightarrow> [])"

definition version_number :: "document \<Rightarrow> int" where
  "version_number d = (case dict_get (doc_fields d) ''version_number'' of PInt n \<Rightarrow> n | _ \<Rightarrow> 0)"

definition set_field :: "string \<Rightarrow> pyval \<Rightarrow> document \<Rightarrow> document" where
  "set_field k v d = d\<lparr>doc_fields := AList.update k v (doc_fields d)\<rparr>"

section \<open>Versioning rules\<close>

definition next_version_number :: "document list \<Rightarrow> int" where
  "next_version_number versions = int (length versions) + 1"

definition ordered :: "document list \<Rightarrow> document list" where
  "ordered versions = sort_key version_number versions"

definition find_version :: "document list \<Rightarrow> int \<Rightarrow> document option" where
  "find_version versions n = find (\<lambda>v. version_number v = n) versions"

definition restore_note :: "int \<Rightarrow> string" where
  "restore_note n = ''before restore of v'' @ show_int n"

section \<open>The service\<close>

datatype graph_error =
    Graph_Not_Found string
  | Version_Not_Found int
  | Store_Failed repo_error

definition list_versions :: "'v repo_ops \<Rightarrow> string \<Rightarrow> 'v \<Rightarrow> document list" where
  "list_versions vops gid vs = ordered (filter (\<lambda>d. str_field ''graph_id'' d = gid) (op_raw_documents vops vs))"

definition create_graph ::
  "'g repo_ops \<Rightarrow> string \<Rightarrow> rat \<Rightarrow> string \<Rightarrow> string option \<Rightarrow> pydict \<Rightarrow> 'g \<Rightarrow> document \<times> 'g" where
  "create_graph gops fresh now gname agent definition gs =
     op_insert gops fresh (new_document now (graph_fields gname agent definition)) gs"

definition get_graph :: "'g repo_ops \<Rightarrow> string \<Rightarrow> 'g \<Rightarrow> graph_error + document" where
  "get_graph gops gid gs = (case op_get gops gid gs of None \<Rightarrow> Inl (Graph_Not_Found gid) | Some d \<Rightarrow> Inr d)"

definition save_graph :: "'g repo_ops \<Rightarrow> rat \<Rightarrow> document \<Rightarrow> 'g \<Rightarrow> graph_error + document \<times> 'g" where
  "save_graph gops now d gs =
     (case op_update gops now d gs of Inl err \<Rightarrow> Inl (Store_Failed err) | Inr r \<Rightarrow> Inr r)"

definition update_graph ::
  "'g repo_ops \<Rightarrow> rat \<Rightarrow> string \<Rightarrow> string option \<Rightarrow> string option \<Rightarrow> pydict option \<Rightarrow> 'g \<Rightarrow>
     graph_error + document \<times> 'g" where
  "update_graph gops now gid gname agent definition gs =
     (case get_graph gops gid gs of
        Inl err \<Rightarrow> Inl err
      | Inr d \<Rightarrow>
          (let d1 = (case gname of Some n \<Rightarrow> set_field ''name'' (PStr n) d | None \<Rightarrow> d);
               d2 = (case agent of Some a \<Rightarrow> set_field ''agent_id'' (PStr a) d1 | None \<Rightarrow> d1);
               d3 = (case definition of Some m \<Rightarrow> set_field ''definition'' (PDict m) d2 | None \<Rightarrow> d2)
           in save_graph gops now (d3\<lparr>doc_updated_at := now\<rparr>) gs))"

definition delete_graph :: "'g repo_ops \<Rightarrow> rat \<Rightarrow> string \<Rightarrow> 'g \<Rightarrow> graph_error + 'g" where
  "delete_graph gops now gid gs =
     (case op_soft_delete gops now gid None gs of
        Inl err \<Rightarrow> Inl (Store_Failed err)
      | Inr (found, gs') \<Rightarrow> if \<not> found then Inl (Graph_Not_Found gid) else Inr gs')"

definition snapshot_graph ::
  "'v repo_ops \<Rightarrow> string \<Rightarrow> rat \<Rightarrow> document \<Rightarrow> string option \<Rightarrow> 'v \<Rightarrow> document \<times> 'v" where
  "snapshot_graph vops fresh now g note vs =
     (let gid = or_empty (doc_id g); versions = list_versions vops gid vs
      in op_insert vops fresh
           (new_document now
              (version_fields gid (next_version_number versions) (str_field ''name'' g)
                 (dict_field ''definition'' g) note)) vs)"

definition restore_graph ::
  "'g repo_ops \<Rightarrow> 'v repo_ops \<Rightarrow> string \<Rightarrow> rat \<Rightarrow> string \<Rightarrow> int \<Rightarrow> 'g \<times> 'v \<Rightarrow>
     graph_error + document \<times> 'g \<times> 'v" where
  "restore_graph gops vops fresh now gid n s =
     (case get_graph gops gid (fst s) of
        Inl err \<Rightarrow> Inl err
      | Inr g \<Rightarrow>
          (case find_version (list_versions vops gid (snd s)) n of
             None \<Rightarrow> Inl (Version_Not_Found n)
           | Some target \<Rightarrow>
               (let vs' = snd (snapshot_graph vops fresh now g (Some (restore_note n)) (snd s));
                    g1 = set_field ''name'' (PStr (str_field ''name'' target)) g;
                    g2 = set_field ''definition'' (PDict (dict_field ''definition'' target)) g1
                in case save_graph gops now (g2\<lparr>doc_updated_at := now\<rparr>) (fst s) of
                     Inl err \<Rightarrow> Inl err
                   | Inr (saved, gs') \<Rightarrow> Inr (saved, gs', vs'))))"

section \<open>What the service relies on\<close>

text \<open>
  Beyond the contract of a repository: an insertion under an unused id shows up last in
  \<open>raw_documents\<close>, and storing keeps the model's fields.
\<close>

locale raw_repository = repository ops inv matching prepare
  for ops :: "'s repo_ops" and inv matching prepare +
  fixes unused :: "string \<Rightarrow> 's \<Rightarrow> bool"
  assumes raw_insert: "inv s \<Longrightarrow> unused fresh s \<Longrightarrow> \<not> truthy_str (doc_id d) \<Longrightarrow> doc_is_active d \<Longrightarrow>
      op_raw_documents ops (snd (op_insert ops fresh d s)) = op_raw_documents ops s @ [with_id fresh (prepare d)]"
    and unused_id: "unused fresh s \<Longrightarrow> fresh \<noteq> []"
    and prepare_fields: "doc_fields (prepare d) = doc_fields d"
    and prepare_active: "doc_is_active (prepare d) = doc_is_active d"

definition mem_unused :: "string \<Rightarrow> collection \<Rightarrow> bool" where
  "mem_unused fresh c = (fresh \<noteq> [] \<and> fresh \<notin> fst ` set c)"

lemma update_new: "k \<notin> fst ` set c \<Longrightarrow> AList.update k v c = c @ [(k, v)]"
  by (induction c) auto

lemma mem_raw_insert:
  assumes "mem_unused fresh c" "\<not> truthy_str (doc_id d)" "doc_is_active d"
  shows "mem_raw_documents (snd (mem_insert fresh d c)) = mem_raw_documents c @ [with_id fresh d]"
  using assms by (simp add: mem_unused_def mem_insert_def mem_raw_documents_def with_id_def update_new Let_def)

interpretation mem_raw: raw_repository mem_ops mem_inv mem_matching "\<lambda>d. d" mem_unused
  by unfold_locales (simp_all add: mem_raw_insert, simp add: mem_unused_def)

locale raw_view = raw_repository inner inv matching "\<lambda>d. d" unused
  for inner :: "'s repo_ops" and inv matching unused +
  fixes tenant :: string

sublocale raw_view \<subseteq> tenant_view inner inv matching tenant ..

lemma stamped_keeps [simp]:
  "doc_id (stamped t d) = doc_id d" "doc_fields (stamped t d) = doc_fields d"
  "doc_is_active (stamped t d) = doc_is_active d"
  by (simp_all add: stamped_def)

sublocale raw_view \<subseteq> raw: raw_repository "scoped_ops inner tenant" inv
  "scoped_matching matching tenant" "stamped tenant" unused
proof (unfold_locales, goal_cases)
  case (1 s fresh d)
  have "owned tenant (with_id fresh (stamped tenant d))" "doc_is_active (with_id fresh (stamped tenant d))"
    using 1(4) by (simp_all add: owned_def stamped_def with_id_def)
  then show ?case
    using raw_insert [OF 1(1,2), of "stamped tenant d"] 1(3,4)
    by (simp add: scoped_raw_documents_def scoped_insert_def)
qed (use unused_id in auto)

interpretation scoped_raw: raw_view mem_ops mem_inv mem_matching mem_unused tenant for tenant ..

section \<open>Histories\<close>

lemma insort_last: "\<forall>x \<in> set xs. f x \<le> f y \<Longrightarrow> f z \<le> f y \<Longrightarrow> insort_key f z (xs @ [y]) = insort_key f z xs @ [y]"
  by (induction xs) auto

lemma sort_key_last: "\<forall>x \<in> set xs. f x \<le> f y \<Longrightarrow> sort_key f (xs @ [y]) = sort_key f xs @ [y]"
  by (induction xs) (simp_all add: insort_last)

lemma find_in_map: "x \<in> f ` set xs \<Longrightarrow> \<exists>y. find (\<lambda>v. f v = x) xs = Some y"
  by (cases "find (\<lambda>v. f v = x) xs") (auto simp: find_None_iff)

definition numbered :: "'v repo_ops \<Rightarrow> 'v \<Rightarrow> bool" where
  "numbered vops vs \<longleftrightarrow>
     (\<forall>gid. map version_number (list_versions vops gid vs) = map int [1..<Suc (length (list_versions vops gid vs))])"

definition same_content :: "document \<Rightarrow> document \<Rightarrow> bool" where
  "same_content d e = (str_field ''name'' d = str_field ''name'' e \<and> dict_field ''definition'' d = dict_field ''definition'' e)"

lemma version_fields_read [simp]:
  "doc_fields d = version_fields gid n gname m note \<Longrightarrow> str_field ''graph_id'' d = gid"
  "doc_fields d = version_fields gid n gname m note \<Longrightarrow> version_number d = n"
  "doc_fields d = version_fields gid n gname m note \<Longrightarrow> str_field ''name'' d = gname"
  "doc_fields d = version_fields gid n gname m note \<Longrightarrow> dict_field ''definition'' d = m"
  by (simp_all add: str_field_def dict_field_def version_number_def dict_get_def version_fields_def)

lemma set_field_simps [simp]:
  "doc_id (set_field k v d) = doc_id d" "doc_is_active (set_field k v d) = doc_is_active d"
  "str_field j (set_field k v d) = (if j = k then (case v of PStr s \<Rightarrow> s | _ \<Rightarrow> []) else str_field j d)"
  "dict_field j (set_field k v d) = (if j = k then (case v of PDict m \<Rightarrow> m | _ \<Rightarrow> []) else dict_field j d)"
  by (simp_all add: set_field_def str_field_def dict_field_def dict_get_def update_conv')

lemma field_of_fields:
  "doc_fields d = doc_fields e \<Longrightarrow> str_field k d = str_field k e \<and> dict_field k d = dict_field k e"
  by (simp add: str_field_def dict_field_def)

lemma numbered_length: "numbered vops vs \<Longrightarrow> v \<in> set (list_versions vops gid vs) \<Longrightarrow>
    version_number v \<le> int (length (list_versions vops gid vs))"
proof -
  assume "numbered vops vs" "v \<in> set (list_versions vops gid vs)"
  then have "version_number v \<in> set (map int [1..<Suc (length (list_versions vops gid vs))])"
    by (metis image_eqI numbered_def set_map)
  then show ?thesis by auto
qed

locale version_store =
  graphs: raw_repository gops ginv gmatching gprepare gunused +
  versions: raw_repository vops vinv vmatching vprepare vunused
  for gops :: "'g repo_ops" and ginv gmatching gprepare gunused
    and vops :: "'v repo_ops" and vinv vmatching vprepare vunused
begin

lemma inserted_version:
  assumes "vinv vs" "vunused fresh vs" "numbered vops vs"
    and "doc_fields d = version_fields gid (next_version_number (list_versions vops gid vs)) gname m note"
    and "doc_id d = None" "doc_is_active d"
  shows "\<exists>v. doc_fields v = doc_fields d \<and> (\<forall>gid'. list_versions vops gid' (snd (op_insert vops fresh d vs)) =
    list_versions vops gid' vs @ (if gid' = gid then [v] else []))"
proof -
  let ?v = "with_id fresh (vprepare d)"
  have f: "doc_fields ?v = doc_fields d" by (simp add: with_id_def versions.prepare_fields)
  note read = version_fields_read [OF trans [OF f assms(4)]]
  have raw: "op_raw_documents vops (snd (op_insert vops fresh d vs)) = op_raw_documents vops vs @ [?v]"
    using versions.raw_insert [OF assms(1,2)] assms(5,6) by simp
  have le: "\<forall>x \<in> set (filter (\<lambda>d. str_field ''graph_id'' d = gid) (op_raw_documents vops vs)).
      version_number x \<le> version_number ?v"
  proof
    fix x assume "x \<in> set (filter (\<lambda>d. str_field ''graph_id'' d = gid) (op_raw_documents vops vs))"
    then have "x \<in> set (list_versions vops gid vs)" by (simp add: list_versions_def ordered_def)
    then show "version_number x \<le> version_number ?v"
      using numbered_length [OF assms(3)] by (fastforce simp: read(2) next_version_number_def)
  qed
  have "list_versions vops gid' (snd (op_insert vops fresh d vs)) =
      list_versions vops gid' vs @ (if gid' = gid then [?v] else [])" for gid'
    using sort_key_last [OF le] read(1) by (auto simp: list_versions_def ordered_def raw)
  with f show ?thesis by blast
qed

lemma snapshot_history:
  assumes "vinv vs" "vunused fresh vs" "numbered vops vs" "doc_id g = Some gid"
  shows "\<exists>v. same_content v g \<and> version_number v = int (length (list_versions vops gid vs)) + 1 \<and>
    (\<forall>gid'. list_versions vops gid' (snd (snapshot_graph vops fresh now g note vs)) =
      list_versions vops gid' vs @ (if gid' = gid then [v] else [])) \<and>
    vinv (snd (snapshot_graph vops fresh now g note vs)) \<and>
    numbered vops (snd (snapshot_graph vops fresh now g note vs))"
proof -
  let ?d = "new_document now (version_fields gid (next_version_number (list_versions vops gid vs))
    (str_field ''name'' g) (dict_field ''definition'' g) note)"
  have snap: "snapshot_graph vops fresh now g note vs = op_insert vops fresh ?d vs"
    by (simp add: snapshot_graph_def assms(4) Let_def)
  have d: "doc_fields ?d = version_fields gid (next_version_number (list_versions vops gid vs))
      (str_field ''name'' g) (dict_field ''definition'' g) note" "doc_id ?d = None" "doc_is_active ?d"
    by (simp_all add: new_document_def)
  obtain v where v: "doc_fields v = doc_fields ?d"
    and list: "\<And>gid'. list_versions vops gid' (snd (op_insert vops fresh ?d vs)) =
      list_versions vops gid' vs @ (if gid' = gid then [v] else [])"
    using inserted_version [OF assms(1-3) d] by blast
  note read = version_fields_read [OF trans [OF v d(1)]]
  have content: "same_content v g" using read(3,4) by (simp add: same_content_def)
  have number: "version_number v = int (length (list_versions vops gid vs)) + 1"
    using read(2) by (simp add: next_version_number_def)
  have "numbered vops (snd (op_insert vops fresh ?d vs))"
    using assms(3) number unfolding numbered_def list by auto
  moreover have "vinv (snd (op_insert vops fresh ?d vs))"
    by (rule versions.insert_inv [OF assms(1) versions.unused_id [OF assms(2)]])
  ultimately show ?thesis unfolding snap using content number list by blast
qed

lemma save_present:
  assumes "ginv gs" "op_get gops gid gs \<noteq> None" "doc_id d = Some gid" "doc_is_active d"
  shows "\<exists>saved gs'. save_graph gops now d gs = Inr (saved, gs') \<and> ginv gs' \<and>
    doc_fields saved = doc_fields d \<and> op_get gops gid gs' = Some saved \<and> doc_id saved = Some gid \<and>
    (\<forall>j. j \<noteq> gid \<longrightarrow> op_get gops j gs' = op_get gops j gs)"
proof -
  obtain gs' where gs': "op_update gops now d gs = Inr (touch now None (gprepare d), gs')" "ginv gs'"
    "\<forall>j. op_get gops j gs' = (if j = gid then visible (touch now None (gprepare d)) else op_get gops j gs)"
    using graphs.update_present [OF assms(1,3,2)] by blast
  have "doc_is_active (touch now None (gprepare d))" "doc_id (touch now None (gprepare d)) = Some gid"
    "doc_fields (touch now None (gprepare d)) = doc_fields d"
    using assms(3,4) by (simp_all add: touch_def graphs.prepare_active graphs.prepare_id graphs.prepare_fields)
  with gs' show ?thesis by (auto simp: save_graph_def visible_def)
qed

lemma restore_step:
  assumes "ginv gs" "vinv vs" "numbered vops vs" "vunused fresh vs" "op_get gops gid gs = Some g"
    and "find_version (list_versions vops gid vs) n = Some target"
  shows "\<exists>saved gs' vs' v. restore_graph gops vops fresh now gid n (gs, vs) = Inr (saved, gs', vs') \<and>
    ginv gs' \<and> vinv vs' \<and> numbered vops vs' \<and> op_get gops gid gs' = Some saved \<and> same_content saved target \<and>
    (\<forall>j. j \<noteq> gid \<longrightarrow> op_get gops j gs' = op_get gops j gs) \<and>
    same_content v g \<and> version_number v = int (length (list_versions vops gid vs)) + 1 \<and>
    (\<forall>gid'. list_versions vops gid' vs' = list_versions vops gid' vs @ (if gid' = gid then [v] else []))"
proof -
  have id: "doc_id g = Some gid" by (rule graphs.get_id [OF assms(1,5)])
  have active: "doc_is_active g" by (rule graphs.get_active [OF assms(5)])
  let ?g = "(set_field ''definition'' (PDict (dict_field ''definition'' target))
      (set_field ''name'' (PStr (str_field ''name'' target)) g))\<lparr>doc_updated_at := now\<rparr>"
  have g: "doc_id ?g = Some gid" "doc_is_active ?g" and present: "op_get gops gid gs \<noteq> None"
    using id active assms(5) by simp_all
  from save_present [OF assms(1) present g, of now] obtain saved gs'
    where saved: "save_graph gops now ?g gs = Inr (saved, gs')" "ginv gs'" "doc_fields saved = doc_fields ?g"
      "op_get gops gid gs' = Some saved" "\<forall>j. j \<noteq> gid \<longrightarrow> op_get gops j gs' = op_get gops j gs" by blast
  have "same_content ?g target" by (simp add: same_content_def str_field_def dict_field_def set_field_def dict_get_def update_conv')
  then have content: "same_content saved target"
    using field_of_fields [OF saved(3)] by (simp add: same_content_def)
  from snapshot_history [OF assms(2,4,3) id, of now "Some (restore_note n)"] obtain v
    where v: "same_content v g" "version_number v = int (length (list_versions vops gid vs)) + 1"
      "\<forall>gid'. list_versions vops gid' (snd (snapshot_graph vops fresh now g (Some (restore_note n)) vs)) =
        list_versions vops gid' vs @ (if gid' = gid then [v] else [])"
      "vinv (snd (snapshot_graph vops fresh now g (Some (restore_note n)) vs))"
      "numbered vops (snd (snapshot_graph vops fresh now g (Some (restore_note n)) vs))" by blast
  have "restore_graph gops vops fresh now gid n (gs, vs) =
      Inr (saved, gs', snd (snapshot_graph vops fresh now g (Some (restore_note n)) vs))"
    using assms(5,6) saved(1) by (simp add: restore_graph_def get_graph_def Let_def)
  with saved content v show ?thesis by blast
qed

lemma find_kept: "find_version xs k = Some v \<Longrightarrow> find_version (xs @ ys) k = Some v"
  by (induction xs) (simp_all add: find_version_def split: if_splits)

lemma find_new:
  assumes "numbered vops vs" "version_number v = int (length (list_versions vops gid vs)) + 1"
  shows "find_version (list_versions vops gid vs @ [v]) (int (length (list_versions vops gid vs)) + 1) = Some v"
proof -
  have "find_version (xs @ [v]) (int (length (list_versions vops gid vs)) + 1) = Some v"
    if "set xs \<subseteq> set (list_versions vops gid vs)" for xs
    using that
  proof (induction xs)
    case (Cons x xs)
    then have "version_number x \<noteq> int (length (list_versions vops gid vs)) + 1"
      using numbered_length [OF assms(1), of x gid] by auto
    with Cons show ?case by (simp add: find_version_def)
  qed (simp add: find_version_def assms(2))
  then show ?thesis by blast
qed

lemma restore_undone:
  assumes "ginv gs" "vinv vs" "numbered vops vs" "vunused fresh vs" "op_get gops gid gs = Some g"
    and "find_version (list_versions vops gid vs) n = Some target"
  shows "\<exists>saved gs' vs'. restore_graph gops vops fresh now gid n (gs, vs) = Inr (saved, gs', vs') \<and>
    same_content saved target \<and> op_get gops gid gs' = Some saved \<and> numbered vops vs' \<and>
    (\<forall>gid' k v. find_version (list_versions vops gid' vs) k = Some v \<longrightarrow>
       find_version (list_versions vops gid' vs') k = Some v) \<and>
    (\<forall>fresh' now'. vunused fresh' vs' \<longrightarrow>
       (\<exists>saved' s'. restore_graph gops vops fresh' now' gid (int (length (list_versions vops gid vs)) + 1) (gs', vs') =
          Inr (saved', s') \<and> same_content saved' g \<and> op_get gops gid (fst s') = Some saved'))"
proof -
  from restore_step [OF assms, of now] obtain saved gs' vs' v
    where r: "restore_graph gops vops fresh now gid n (gs, vs) = Inr (saved, gs', vs')"
      and inv: "ginv gs'" "vinv vs'" "numbered vops vs'" and get: "op_get gops gid gs' = Some saved"
      and target: "same_content saved target" and v: "same_content v g"
      and number: "version_number v = int (length (list_versions vops gid vs)) + 1"
      and list: "\<And>gid'. list_versions vops gid' vs' = list_versions vops gid' vs @ (if gid' = gid then [v] else [])"
    by blast
  have kept: "find_version (list_versions vops gid' vs') k = Some w"
    if "find_version (list_versions vops gid' vs) k = Some w" for gid' k w
    unfolding list by (rule find_kept [OF that])
  have again: "find_version (list_versions vops gid vs') (int (length (list_versions vops gid vs)) + 1) = Some v"
    using find_new [OF assms(3) number] by (simp add: list)
  have "\<exists>saved' s'. restore_graph gops vops fresh' now' gid (int (length (list_versions vops gid vs)) + 1) (gs', vs') =
          Inr (saved', s') \<and> same_content saved' g \<and> op_get gops gid (fst s') = Some saved'"
    if "vunused fresh' vs'" for fresh' now'
  proof -
    from restore_step [OF inv that get again, of now'] obtain saved' gs'' vs''
      where "restore_graph gops vops fresh' now' gid (int (length (list_versions vops gid vs)) + 1) (gs', vs') =
          Inr (saved', gs'', vs'')" "same_content saved' v" "op_get gops gid gs'' = Some saved'"
      by blast
    with v show ?thesis by (fastforce simp: same_content_def)
  qed
  with r target get inv(3) kept show ?thesis by blast
qed

end

text \<open>As deployed: both repositories behind the tenant view of the in-memory backend.\<close>

interpretation tenant_graphs: version_store
  "scoped_ops mem_ops t" mem_inv "scoped_matching mem_matching t" "stamped t" mem_unused
  "scoped_ops mem_ops t" mem_inv "scoped_matching mem_matching t" "stamped t" mem_unused for t
  by unfold_locales

text \<open>
  Restoring an existing version of an existing
  graph always succeeds; it puts back the name and the definition of that version, every
  number issued before still addresses the same snapshot in every graph, and restoring the next
  number afterwards puts back the content the graph had before, although tenants share the store.
\<close>

theorem restore_reversible:
  assumes "mem_inv gs" "mem_inv vs" "numbered (scoped_ops mem_ops t) vs" "mem_unused fresh vs"
    and "scoped_get mem_ops t gid gs = Some g"
    and "find_version (list_versions (scoped_ops mem_ops t) gid vs) n = Some target"
  shows "\<exists>saved gs' vs'.
    restore_graph (scoped_ops mem_ops t) (scoped_ops mem_ops t) fresh now gid n (gs, vs) = Inr (saved, gs', vs') \<and>
    same_content saved target \<and> scoped_get mem_ops t gid gs' = Some saved \<and> numbered (scoped_ops mem_ops t) vs' \<and>
    (\<forall>gid' k v. find_version (list_versions (scoped_ops mem_ops t) gid' vs) k = Some v \<longrightarrow>
       find_version (list_versions (scoped_ops mem_ops t) gid' vs') k = Some v) \<and>
    (\<forall>fresh' now'. mem_unused fresh' vs' \<longrightarrow>
       (\<exists>saved' s'. restore_graph (scoped_ops mem_ops t) (scoped_ops mem_ops t) fresh' now' gid
            (int (length (list_versions (scoped_ops mem_ops t) gid vs)) + 1) (gs', vs') = Inr (saved', s') \<and>
          same_content saved' g \<and> scoped_get mem_ops t gid (fst s') = Some saved'))"
  using tenant_graphs.restore_undone [OF assms(1-4), of gid g n target now] assms(5,6) by simp

definition sample_graphs :: collection where
  "sample_graphs =
     snd (create_graph (scoped_ops mem_ops ''t1'') ''g1'' 0 ''Sales'' None [(''start'', PStr ''b'')] [])"

definition sample_versions :: collection where
  "sample_versions =
     snd (op_insert (scoped_ops mem_ops ''t1'') ''v1''
       (new_document 0 (version_fields ''g1'' 1 ''Draft'' [(''start'', PStr ''a'')] None)) [])"

lemmas sample_graph_defs = sample_graphs_def sample_versions_def create_graph_def new_document_def
  graph_fields_def version_fields_def scoped_insert_def stamped_def mem_insert_def Let_def

lemma sample_stores:
  "mem_inv sample_graphs" "mem_inv sample_versions" "mem_unused ''v2'' sample_versions"
  "numbered (scoped_ops mem_ops ''t1'') sample_versions"
proof -
  have raw: "op_raw_documents (scoped_ops mem_ops ''t1'') sample_versions =
      [(new_document 0 (version_fields ''g1'' 1 ''Draft'' [(''start'', PStr ''a'')] None))
         \<lparr>doc_id := Some ''v1'', doc_tenant_id := Some ''t1''\<rparr>]"
    by (simp add: sample_graph_defs scoped_raw_documents_def mem_raw_documents_def owned_def)
  show "numbered (scoped_ops mem_ops ''t1'') sample_versions"
    unfolding numbered_def list_versions_def raw
    by (simp add: ordered_def str_field_def version_number_def dict_get_def new_document_def version_fields_def)
qed (simp_all add: sample_graph_defs mem_inv_def mem_unused_def)

theorem restore_reversible_witness:
  "\<exists>g saved gs' vs'. scoped_get mem_ops ''t1'' ''g1'' sample_graphs = Some g \<and> str_field ''name'' g = ''Sales'' \<and>
     restore_graph (scoped_ops mem_ops ''t1'') (scoped_ops mem_ops ''t1'') ''v2'' 5 ''g1'' 1
       (sample_graphs, sample_versions) = Inr (saved, gs', vs') \<and> str_field ''name'' saved = ''Draft''"
proof -
  obtain g where g: "scoped_get mem_ops ''t1'' ''g1'' sample_graphs = Some g" "str_field ''name'' g = ''Sales''"
    by (simp add: sample_graph_defs scoped_get_def mem_get_def owned_def str_field_def dict_get_def)
  obtain v where v: "find_version (list_versions (scoped_ops mem_ops ''t1'') ''g1'' sample_versions) 1 = Some v"
    "str_field ''name'' v = ''Draft''"
    by (simp add: sample_graph_defs list_versions_def ordered_def find_version_def scoped_raw_documents_def
        mem_raw_documents_def owned_def str_field_def version_number_def dict_get_def)
  from restore_reversible [OF sample_stores(1,2,4,3) g(1) v(1), of 5] g v(2) show ?thesis
    by (fastforce simp: same_content_def)
qed

end
