(* ===== verification/Executions.thy ===== *)
theory Executions
  imports Prelude "HOL-Library.Char_ord" "HOL-Library.List_Lexorder"
begin

text \<open>
  Call records, from \<open>modules/executions\<close>: the models, the simulated-call runner
  (\<open>runner.py\<close>), the recording of a finished engine run and the aggregates of
  \<open>static_methods.py\<close>. The store is the port of two functions the runner asks for, an argument of
  the definitions; \<open>Memory_Store\<close> at the end is the part of \<open>platform/store.py\<close> that provides it.

  Instants are seconds since the epoch, exact to the microsecond that \<open>datetime\<close> keeps. Delays
  only pass time: the instants read before and after them are arguments, and reads of the clock with
  no delay between them are one. In \<open>record_engine_execution\<close>
  \<open>None\<close> is an exception, all of which its handler treats alike.
\<close>

section \<open>Models\<close>

datatype execution_status =
    QUEUED | RINGING | IN_PROGRESS | COMPLETED | FAILED | NO_ANSWER | BUSY | CANCELED

definition status_value :: "execution_status \<Rightarrow> string" where
  "status_value s =
     (case s of
        QUEUED \<Rightarrow> ''queued'' | RINGING \<Rightarrow> ''ringing'' | IN_PROGRESS \<Rightarrow> ''in_progress''
      | COMPLETED \<Rightarrow> ''completed'' | FAILED \<Rightarrow> ''failed'' | NO_ANSWER \<Rightarrow> ''no-answer''
      | BUSY \<Rightarrow> ''busy'' | CANCELED \<Rightarrow> ''canceled'')"

record transcript_turn =
  tt_role :: string
  tt_text :: string
  tt_ts :: rat
  tt_latency_ms :: "int option"

record latency_breakdown =
  lb_transcriber_ms :: int
  lb_llm_ms :: int
  lb_synthesizer_ms :: int
  lb_e2e_ms :: int

record execution =
  ex_id :: string
  ex_agent_id :: string
  ex_batch_id :: "string option"
  ex_direction :: string
  ex_to_number :: string
  ex_from_number :: "string option"
  ex_status :: execution_status
  ex_variables :: pydict
  ex_transcript :: "transcript_turn list"
  ex_summary :: "string option"
  ex_extracted_data :: pydict
  ex_latency :: "latency_breakdown option"
  ex_hangup_code :: "string option"
  ex_started_at :: rat
  ex_ended_at :: "rat option"
  ex_duration_s :: rat

definition new_execution :: "string \<Rightarrow> string \<Rightarrow> string \<Rightarrow> rat \<Rightarrow> execution" where
  "new_execution i agent to_number now =
     \<lparr>ex_id = i, ex_agent_id = agent, ex_batch_id = None, ex_direction = ''outbound'',
      ex_to_number = to_number, ex_from_number = None, ex_status = QUEUED, ex_variables = [],
      ex_transcript = [], ex_summary = None, ex_extracted_data = [], ex_latency = None,
      ex_hangup_code = None, ex_started_at = now, ex_ended_at = None, ex_duration_s = 0\<rparr>"

section \<open>The simulated call\<close>

definition SCRIPT :: "(string \<times> string) list" where
  "SCRIPT =
     [(''agent'', ''Namaste {name}! I am calling about your recent activity. Do you have a minute?''),
      (''user'', ''Yes, tell me quickly.''),
      (''agent'', ''Thanks {name}! I have noted your preference and will follow up shortly. Anything else I can help with?''),
      (''user'', ''No, that is all. Thank you.''),
      (''agent'', ''Wonderful! Have a great day {name}. Goodbye!'')]"

definition TURN_LATENCY_MS :: "int list" where
  "TURN_LATENCY_MS = [280, 0, 310, 0, 260]"

definition FORCED_OUTCOMES :: "(string \<times> execution_status) list" where
  "FORCED_OUTCOMES = [(''failed'', FAILED), (''no-answer'', NO_ANSWER), (''busy'', BUSY)]"

definition PARTIAL_TURNS :: nat where "PARTIAL_TURNS = 3"

fun stripped_name :: "pyval \<Rightarrow> string option" where
  "stripped_name (PStr s) = (if py_strip s \<noteq> [] then Some (py_strip s) else None)"
| "stripped_name v = None"

definition caller_name :: "pydict \<Rightarrow> string" where
  "caller_name variables =
     (case List.map_filter (\<lambda>k. stripped_name (dict_get variables k)) [''customer_name'', ''name'', ''first_name''] of
        n # ns \<Rightarrow> n | [] \<Rightarrow> ''there'')"

text \<open>\<open>template.format(name=name)\<close> for templates whose only braces are \<open>{name}\<close>.\<close>

fun format_name :: "string \<Rightarrow> string \<Rightarrow> string" where
  "format_name n [] = []"
| "format_name n (c # s) =
     (if take 6 (c # s) = ''{name}'' then n @ format_name n (drop 5 s) else c # format_name n s)"

definition build_transcript :: "pydict \<Rightarrow> transcript_turn list" where
  "build_transcript variables =
     map (\<lambda>(i, role, template).
            \<lparr>tt_role = role, tt_text = format_name (caller_name variables) template,
             tt_ts = py_round 2 (1 / 2 + of_nat i * (5 / 2)),
             tt_latency_ms = (if role = ''agent'' then Some (TURN_LATENCY_MS ! i) else None)\<rparr>)
       (enumerate 0 SCRIPT)"

definition forced_outcome :: "pydict \<Rightarrow> execution_status option" where
  "forced_outcome variables =
     (case dict_get variables ''force_outcome'' of PStr s \<Rightarrow> map_of FORCED_OUTCOMES s | _ \<Rightarrow> None)"

definition agent_latencies :: "transcript_turn list \<Rightarrow> int list" where
  "agent_latencies turns =
     map (\<lambda>t. case tt_latency_ms t of Some n \<Rightarrow> n | None \<Rightarrow> 0) (filter (\<lambda>t. tt_role t = ''agent'') turns)"

definition finalize_execution :: "rat \<Rightarrow> execution \<Rightarrow> execution" where
  "finalize_execution now e =
     (let forced = (case dict_get (ex_variables e) ''force_outcome'' of PStr s \<Rightarrow> s | _ \<Rightarrow> []);
          outcome = forced_outcome (ex_variables e);
          full = build_transcript (ex_variables e);
          turns = (case outcome of None \<Rightarrow> full | Some _ \<Rightarrow> take 2 full);
          lats = agent_latencies turns;
          e2e = (if lats = [] then 0 else Max (set lats));
          n = caller_name (ex_variables e);
          e1 = e\<lparr>ex_transcript := turns,
                 ex_latency := Some \<lparr>lb_transcriber_ms = 180, lb_llm_ms = max (e2e - 180 - 220) 60,
                                 lb_synthesizer_ms = 220, lb_e2e_ms = e2e\<rparr>\<rparr>;
          e2 = (case outcome of
                  None \<Rightarrow>
                    e1\<lparr>ex_summary := Some (''Simulated outbound call with '' @ n @ '': confirmed interest and closed politely.''),
                       ex_extracted_data := [(''caller_name'', PStr n), (''interested'', PBool True), (''language'', PStr ''en'')],
                       ex_hangup_code := Some ''completed'', ex_status := COMPLETED\<rparr>
                | Some st \<Rightarrow>
                    e1\<lparr>ex_summary := Some (''Simulated outbound call with '' @ n @ '' ended before connecting: '' @ forced @ ''.''),
                       ex_extracted_data := [(''caller_name'', PStr n), (''outcome'', PStr forced), (''interested'', PBool False)],
                       ex_hangup_code := Some forced, ex_status := st\<rparr>)
      in e2\<lparr>ex_ended_at := Some now, ex_duration_s := py_round 2 (now - ex_started_at e)\<rparr>)"

text \<open>
  The two drivers share their last three transitions. Each transition is written to the store before
  the next delay; \<open>now\<close> is the instant the call ends.
\<close>

definition ringing :: "execution \<Rightarrow> execution" where
  "ringing e = e\<lparr>ex_status := RINGING\<rparr>"

definition in_progress :: "execution \<Rightarrow> execution" where
  "in_progress e =
     e\<lparr>ex_status := IN_PROGRESS, ex_transcript := take PARTIAL_TURNS (build_transcript (ex_variables e))\<rparr>"

definition drive_call :: "(execution \<Rightarrow> 's \<Rightarrow> 's) \<Rightarrow> rat \<Rightarrow> execution \<Rightarrow> 's \<Rightarrow> execution \<times> 's" where
  "drive_call save now e s =
     (let e1 = ringing e; s1 = save e1 s;
          e2 = in_progress e1; s2 = save e2 s1;
          e3 = finalize_execution now e2
      in (e3, save e3 s2))"

definition run_simulated_call ::
  "(execution \<Rightarrow> 's \<Rightarrow> 's) \<Rightarrow> string \<Rightarrow> rat \<Rightarrow> rat \<Rightarrow> string \<Rightarrow> string \<Rightarrow> string option \<Rightarrow> pydict \<Rightarrow>
     string option \<Rightarrow> 's \<Rightarrow> execution \<times> 's" where
  "run_simulated_call save fresh start now agent to_number from_number variables batch s =
     (let e = (new_execution fresh agent to_number start)
                \<lparr>ex_batch_id := batch, ex_from_number := from_number, ex_variables := variables\<rparr>
      in drive_call save now e (save e s))"

definition progress_simulated_call ::
  "(execution \<Rightarrow> 's \<Rightarrow> 's) \<Rightarrow> (string \<Rightarrow> 's \<Rightarrow> execution option) \<Rightarrow> rat \<Rightarrow> string \<Rightarrow> 's \<Rightarrow>
     execution option \<times> 's" where
  "progress_simulated_call save get now i s =
     (case get i s of
        None \<Rightarrow> (None, s)
      | Some e \<Rightarrow>
          (if ex_status e \<noteq> QUEUED then (Some e, s)
           else (let (e', s') = drive_call save now e s in (Some e', s'))))"

section \<open>Recording an engine run\<close>

text \<open>\<open>(v or {}).get(k)\<close> and \<open>v or []\<close> as something to iterate.\<close>

definition get_or_empty :: "pyval \<Rightarrow> string \<Rightarrow> pyval option" where
  "get_or_empty v k =
     (if \<not> truthy v then Some PNone else case v of PDict d \<Rightarrow> Some (dict_get d k) | _ \<Rightarrow> None)"

definition iterate :: "pyval \<Rightarrow> pyval list option" where
  "iterate v =
     (if \<not> truthy v then Some []
      else case v of
             PList xs \<Rightarrow> Some xs
           | PDict d \<Rightarrow> Some (map (\<lambda>(k, _). PStr k) d)
           | PStr s \<Rightarrow> Some (map (\<lambda>c. PStr [c]) s)
           | _ \<Rightarrow> None)"

definition ROLE_MAP :: "(string \<times> string) list" where
  "ROLE_MAP = [(''assistant'', ''agent''), (''user'', ''user'')]"

definition normalize_role :: "pyval \<Rightarrow> string option" where
  "normalize_role role = (case role of PStr s \<Rightarrow> map_of ROLE_MAP (py_lower s) | _ \<Rightarrow> None)"

definition content_text :: "pyval \<Rightarrow> string option" where
  "content_text v = (if \<not> truthy v then Some [] else case v of PStr s \<Rightarrow> Some (py_strip s) | _ \<Rightarrow> None)"

fun transcript_from :: "rat \<Rightarrow> pyval list \<Rightarrow> transcript_turn list option" where
  "transcript_from ts [] = Some []"
| "transcript_from ts (m # ms) =
     (case (get_or_empty m ''role'', get_or_empty m ''content'') of
        (Some role, Some content) \<Rightarrow>
          (case content_text content of
             None \<Rightarrow> None
           | Some t \<Rightarrow>
               (case normalize_role role of
                  None \<Rightarrow> transcript_from ts ms
                | Some r \<Rightarrow>
                    (if t = [] then transcript_from ts ms
                     else map_option (\<lambda>rest. \<lparr>tt_role = r, tt_text = t, tt_ts = py_round 2 ts, tt_latency_ms = None\<rparr> # rest)
                            (transcript_from (ts + 3) ms))))
      | _ \<Rightarrow> None)"

definition history_to_transcript :: "pyval \<Rightarrow> transcript_turn list option" where
  "history_to_transcript messages =
     (case iterate messages of None \<Rightarrow> None | Some ms \<Rightarrow> transcript_from (1 / 2) ms)"

fun merge_outputs :: "pydict \<Rightarrow> pyval list \<Rightarrow> pydict option" where
  "merge_outputs acc [] = Some acc"
| "merge_outputs acc (v # vs) =
     (case get_or_empty v ''extracted_data'' of
        None \<Rightarrow> None
      | Some (PDict d) \<Rightarrow> merge_outputs (dict_merge acc d) vs
      | Some _ \<Rightarrow> merge_outputs acc vs)"

definition merge_extracted_data :: "pyval \<Rightarrow> pydict option" where
  "merge_extracted_data outputs =
     (case iterate outputs of None \<Rightarrow> None | Some vs \<Rightarrow> merge_outputs [] vs)"

fun sum_durations :: "rat \<Rightarrow> pyval list \<Rightarrow> rat option" where
  "sum_durations acc [] = Some acc"
| "sum_durations acc (t # ts) =
     (case get_or_empty t ''total_stream_duration_ms'' of
        None \<Rightarrow> None
      | Some v \<Rightarrow>
          (if \<not> truthy v then sum_durations acc ts
           else case py_number v of None \<Rightarrow> None | Some x \<Rightarrow> sum_durations (acc + x) ts))"

definition stage_total :: "pydict \<Rightarrow> string \<Rightarrow> int option" where
  "stage_total d key =
     (case get_or_empty (dict_get d key) ''turn_latencies'' of
        None \<Rightarrow> None
      | Some turns \<Rightarrow>
          (case iterate turns of
             None \<Rightarrow> None
           | Some ts \<Rightarrow> map_option round_half_even (sum_durations 0 ts)))"

definition summarize_latency :: "pyval \<Rightarrow> latency_breakdown option option" where
  "summarize_latency v =
     (case v of
        PDict d \<Rightarrow>
          (case (stage_total d ''transcriber_latencies'', stage_total d ''llm_latencies'',
                 stage_total d ''synthesizer_latencies'') of
             (Some t, Some l, Some y) \<Rightarrow>
               (if t = 0 \<and> l = 0 \<and> y = 0 then Some None
                else Some (Some \<lparr>lb_transcriber_ms = t, lb_llm_ms = l, lb_synthesizer_ms = y, lb_e2e_ms = 0\<rparr>))
           | _ \<Rightarrow> None)
      | _ \<Rightarrow> Some None)"

text \<open>\<open>isinstance(v, (int, float))\<close>, and the range of \<open>datetime\<close>: the years 1 to 9999.\<close>

definition number_or_none :: "pyval \<Rightarrow> pyval" where
  "number_or_none v = (case v of PBool b \<Rightarrow> v | PInt n \<Rightarrow> v | PFloat r \<Rightarrow> v | PInf b \<Rightarrow> v | PNan \<Rightarrow> v | _ \<Rightarrow> PNone)"

definition instant :: "rat \<Rightarrow> rat option" where
  "instant t = (if - 62135596800 \<le> t \<and> t < 253402300800 then Some (py_round 6 t) else None)"

definition call_instants :: "pyval \<Rightarrow> pyval \<Rightarrow> (rat option \<times> rat option) option" where
  "call_instants start_ms seconds =
     (case number_or_none start_ms of
        PNone \<Rightarrow> Some (None, None)
      | ms \<Rightarrow>
          (case py_number ms of
             None \<Rightarrow> None
           | Some x \<Rightarrow>
               (case instant (x / 1000) of
                  None \<Rightarrow> None
                | Some started \<Rightarrow>
                    (case number_or_none seconds of
                       PNone \<Rightarrow> Some (Some started, None)
                     | sec \<Rightarrow>
                         (case py_number sec of
                            None \<Rightarrow> None
                          | Some y \<Rightarrow>
                              map_option (\<lambda>ended. (Some started, Some ended))
                                (instant (started + py_round 6 y)))))))"

definition with_e2e :: "pyval \<Rightarrow> latency_breakdown option \<Rightarrow> latency_breakdown option option" where
  "with_e2e seconds latency =
     (case latency of
        None \<Rightarrow> Some None
      | Some l \<Rightarrow>
          (case number_or_none seconds of
             PNone \<Rightarrow> Some (Some l)
           | sec \<Rightarrow> map_option (\<lambda>y. Some (l\<lparr>lb_e2e_ms := round_half_even (y * 1000)\<rparr>)) (py_number sec)))"

definition hangup_text :: "pyval \<Rightarrow> string option" where
  "hangup_text v = (if \<not> truthy v then Some ''completed'' else case v of PStr s \<Rightarrow> Some s | _ \<Rightarrow> None)"

record engine_run =
  er_agent_id :: string
  er_run_id :: "string option"
  er_history :: pyval
  er_task_outputs :: pyval
  er_to_number :: "string option"
  er_direction :: string
  er_output :: pyval

definition engine_execution :: "string \<Rightarrow> rat \<Rightarrow> engine_run \<Rightarrow> execution option" where
  "engine_execution fresh now r =
     (let out = (case er_output r of PDict d \<Rightarrow> d | _ \<Rightarrow> []);
          messages = (if truthy (dict_get out ''messages'') then dict_get out ''messages'' else er_history r);
          seconds = dict_get out ''conversation_time''
      in case get_or_empty (dict_get out ''progression_data'') ''call_start_epoch_ms'' of
           None \<Rightarrow> None
         | Some start_ms \<Rightarrow>
             (case (call_instants start_ms seconds, summarize_latency (dict_get out ''latency_dict'')) of
                (Some (started, ended), Some latency) \<Rightarrow>
                  (case (with_e2e seconds latency, hangup_text (dict_get out ''hangup_detail''),
                         history_to_transcript messages, merge_extracted_data (er_task_outputs r)) of
                     (Some lat, Some code, Some turns, Some extracted) \<Rightarrow>
                       (if er_agent_id r = [] \<or> er_direction r \<notin> set [''outbound'', ''inbound''] then None
                        else let begun = (case started of Some t \<Rightarrow> t | None \<Rightarrow> now);
                                 finished = (case ended of Some t \<Rightarrow> t | None \<Rightarrow> now)
                          in Some ((new_execution (if truthy_str (er_run_id r) then or_empty (er_run_id r) else fresh)
                                     (er_agent_id r)
                                     (if truthy_str (er_to_number r) then or_empty (er_to_number r) else ''unknown'') begun)
                               \<lparr>ex_direction := er_direction r, ex_status := COMPLETED, ex_transcript := turns,
                                ex_extracted_data := extracted, ex_hangup_code := Some code, ex_latency := lat,
                                ex_ended_at := Some finished,
                                ex_duration_s := py_round 2 (finished - begun)\<rparr>))
                   | _ \<Rightarrow> None)
              | _ \<Rightarrow> None))"

definition record_engine_execution ::
  "(execution \<Rightarrow> 's \<Rightarrow> 's option) option \<Rightarrow> string \<Rightarrow> rat \<Rightarrow> engine_run \<Rightarrow> 's \<Rightarrow> execution option \<times> 's" where
  "record_engine_execution save fresh now r s =
     (case save of
        None \<Rightarrow> (None, s)
      | Some put \<Rightarrow>
          (case engine_execution fresh now r of
             None \<Rightarrow> (None, s)
           | Some e \<Rightarrow> (case put e s of None \<Rightarrow> (None, s) | Some s' \<Rightarrow> (Some e, s'))))"

section \<open>Aggregates\<close>

definition mean :: "int list \<Rightarrow> int option" where
  "mean values = (if values = [] then None else Some (round_half_even (of_int (sum_list values) / of_nat (length values))))"

definition percentile :: "int list \<Rightarrow> nat \<Rightarrow> int option" where
  "percentile values pct =
     (if values = [] then None
      else let rank = max 1 (round_half_even (of_nat pct / 100 * of_nat (length values)))
        in Some (sort values ! (nat (min rank (int (length values))) - 1)))"

record execution_stats =
  es_total :: nat
  es_by_status :: "(string \<times> nat) list"
  es_avg_e2e_ms :: "int option"
  es_total_duration_s :: rat
  es_completed_rate :: rat

definition count_statuses :: "execution list \<Rightarrow> (string \<times> nat) list" where
  "count_statuses es =
     foldl (\<lambda>acc e. AList.update (status_value (ex_status e))
              (Suc (case map_of acc (status_value (ex_status e)) of Some n \<Rightarrow> n | None \<Rightarrow> 0)) acc) [] es"

definition e2e_values :: "execution list \<Rightarrow> int list" where
  "e2e_values es = List.map_filter (\<lambda>e. map_option lb_e2e_ms (ex_latency e)) es"

definition stats_for :: "execution list \<Rightarrow> execution_stats" where
  "stats_for es =
     (let by_status = count_statuses es;
          done = (case map_of by_status (status_value COMPLETED) of Some n \<Rightarrow> n | None \<Rightarrow> 0)
      in \<lparr>es_total = length es, es_by_status = by_status, es_avg_e2e_ms = mean (e2e_values es),
          es_total_duration_s = py_round 2 (sum_list (map ex_duration_s es)),
          es_completed_rate = (if es = [] then 0 else py_round 4 (of_nat done / of_nat (length es)))\<rparr>)"

record latency_statistics =
  ls_count :: nat
  ls_avg_e2e_ms :: "int option"
  ls_p50_e2e_ms :: "int option"
  ls_p95_e2e_ms :: "int option"
  ls_by_stage :: "(string \<times> int) list"
  ls_buckets :: "(string \<times> nat \<times> int option) list"

text \<open>\<open>day\<close> is the ISO date of an instant.\<close>

definition buckets :: "(rat \<Rightarrow> string) \<Rightarrow> execution list \<Rightarrow> (string \<times> nat \<times> int option) list" where
  "buckets day es =
     (let grouped = foldl (\<lambda>acc e. case ex_latency e of
              None \<Rightarrow> acc
            | Some l \<Rightarrow> AList.update (day (ex_started_at e))
                ((case map_of acc (day (ex_started_at e)) of Some vs \<Rightarrow> vs | None \<Rightarrow> []) @ [lb_e2e_ms l]) acc) [] es
      in map (\<lambda>(d, vs). (d, length vs, mean vs)) (sort_key fst grouped))"

definition stage_means :: "execution list \<Rightarrow> (string \<times> int) list" where
  "stage_means measured =
     List.map_filter (\<lambda>(k, f). map_option (\<lambda>m. (k, m)) (mean (List.map_filter (\<lambda>e. map_option f (ex_latency e)) measured)))
       [(''transcriber_ms'', lb_transcriber_ms), (''llm_ms'', lb_llm_ms), (''synthesizer_ms'', lb_synthesizer_ms)]"

definition latency_stats :: "(rat \<Rightarrow> string) \<Rightarrow> execution list \<Rightarrow> latency_statistics" where
  "latency_stats day es =
     (let measured = filter (\<lambda>e. ex_latency e \<noteq> None) es; values = e2e_values measured
      in \<lparr>ls_count = length measured, ls_avg_e2e_ms = mean values, ls_p50_e2e_ms = percentile values 50,
          ls_p95_e2e_ms = percentile values 95, ls_by_stage = stage_means measured,
          ls_buckets = buckets day measured\<rparr>)"

section \<open>The memory store's executions\<close>

type_synonym execution_rows = "(string \<times> execution) list"

definition save_execution :: "execution \<Rightarrow> execution_rows \<Rightarrow> execution_rows" where
  "save_execution e rows = AList.update (ex_id e) e rows"

definition get_execution :: "string \<Rightarrow> execution_rows \<Rightarrow> execution option" where
  "get_execution i rows = map_of rows i"

section \<open>The life of a simulated call\<close>

definition terminal :: "execution_status \<Rightarrow> bool" where
  "terminal st = (st \<in> {COMPLETED, FAILED, NO_ANSWER, BUSY})"

text \<open>What the runner relies on: a saved execution is read back under its id, others are kept.\<close>

locale execution_store =
  fixes save :: "execution \<Rightarrow> 's \<Rightarrow> 's" and get :: "string \<Rightarrow> 's \<Rightarrow> execution option"
  assumes get_save: "get i (save e s) = (if i = ex_id e then Some e else get i s)"
    and save_save: "ex_id e = ex_id e' \<Longrightarrow> save e' (save e s) = save e' s"

lemma finalize_simps [simp]:
  "ex_id (finalize_execution now e) = ex_id e" "ex_variables (finalize_execution now e) = ex_variables e"
  "ex_started_at (finalize_execution now e) = ex_started_at e"
  "ex_ended_at (finalize_execution now e) = Some now"
  "ex_duration_s (finalize_execution now e) = py_round 2 (now - ex_started_at e)"
  "ex_status (finalize_execution now e) =
     (case forced_outcome (ex_variables e) of None \<Rightarrow> COMPLETED | Some st \<Rightarrow> st)"
  "ex_transcript (finalize_execution now e) =
     (case forced_outcome (ex_variables e) of
        None \<Rightarrow> build_transcript (ex_variables e) | Some _ \<Rightarrow> take 2 (build_transcript (ex_variables e)))"
  by (cases "forced_outcome (ex_variables e)"; simp add: finalize_execution_def Let_def)+

lemma forced_terminal: "forced_outcome v = Some st \<Longrightarrow> terminal st"
  by (auto simp: forced_outcome_def FORCED_OUTCOMES_def terminal_def split: pyval.splits if_splits)

lemma finalize_terminal: "terminal (ex_status (finalize_execution now e))"
  using forced_terminal by (auto simp: terminal_def split: option.splits)

context execution_store
begin

lemma drive_result:
  "fst (drive_call save now e s) = finalize_execution now (in_progress (ringing e))"
  "snd (drive_call save now e s) = save (finalize_execution now (in_progress (ringing e))) s"
  by (simp_all add: drive_call_def Let_def save_save ringing_def in_progress_def)

lemma progress_settles:
  assumes "get i s = Some e" and "ex_id e = i" and "ex_status e = QUEUED"
    and "progress_simulated_call save get now i s = (r, s')"
  shows "\<exists>e'. r = Some e' \<and> get i s' = Some e' \<and> ex_id e' = i \<and> terminal (ex_status e') \<and>
      ex_duration_s e' = py_round 2 (now - ex_started_at e) \<and>
      (\<forall>j. j \<noteq> i \<longrightarrow> get j s' = get j s) \<and>
      (\<forall>later. progress_simulated_call save get later i s' = (Some e', s'))"
proof -
  let ?e = "finalize_execution now (in_progress (ringing e))"
  have r: "r = Some ?e" and s': "s' = save ?e s"
    using assms(1,3,4) drive_result [of now e s] by (auto simp: progress_simulated_call_def split_beta)
  have id: "ex_id ?e = i" using assms(2) by (simp add: in_progress_def ringing_def)
  have t: "terminal (ex_status ?e)" by (rule finalize_terminal)
  then have nq: "ex_status ?e \<noteq> QUEUED" by (auto simp: terminal_def)
  have g: "get i s' = Some ?e" by (simp only: s' get_save id refl if_True)
  have again: "progress_simulated_call save get later i s' = (Some ?e, s')" for later
    unfolding progress_simulated_call_def using g nq by simp
  have dur: "ex_duration_s ?e = py_round 2 (now - ex_started_at e)" by (simp add: in_progress_def ringing_def)
  show ?thesis
    by (intro exI [of _ ?e] conjI r g id t dur allI again impI) (simp only: s' get_save id, simp)
qed

end

lemma update_again: "AList.update k w (AList.update k v d) = AList.update k w d"
  by (induction d) auto

interpretation memory: execution_store save_execution get_execution
proof
  show "save_execution e' (save_execution e s) = save_execution e' s" if "ex_id e = ex_id e'" for e e' s
    using that by (simp add: save_execution_def update_again)
qed (simp add: save_execution_def get_execution_def update_conv')

text \<open>
  C35: A queued call that is driven ends in a terminal state with its
  duration from its start to its end, stored under its id; no other call's record changes, and
  driving it again, at any time, changes nothing.
\<close>

theorem progress_once:
  assumes "get_execution i rows = Some e" and "ex_id e = i" and "ex_status e = QUEUED"
    and "progress_simulated_call save_execution get_execution now i rows = (r, rows')"
  shows "\<exists>e'. r = Some e' \<and> get_execution i rows' = Some e' \<and> ex_id e' = i \<and> terminal (ex_status e') \<and>
      ex_duration_s e' = py_round 2 (now - ex_started_at e) \<and>
      (\<forall>j. j \<noteq> i \<longrightarrow> get_execution j rows' = get_execution j rows) \<and>
      (\<forall>later. progress_simulated_call save_execution get_execution later i rows' = (Some e', rows'))"
  by (rule memory.progress_settles [OF assms])

definition sample_call :: execution where
  "sample_call = (new_execution ''exec_1'' ''agent'' ''+91'' 10)\<lparr>ex_variables := [(''force_outcome'', PStr ''busy'')]\<rparr>"

theorem progress_once_witness:
  "\<exists>e' rows'. progress_simulated_call save_execution get_execution 13 ''exec_1'' [(''exec_1'', sample_call)] = (Some e', rows') \<and>
     terminal (ex_status e') \<and> ex_duration_s e' = py_round 2 3"
proof -
  obtain r rows' where r: "progress_simulated_call save_execution get_execution 13 ''exec_1'' [(''exec_1'', sample_call)] = (r, rows')"
    by fastforce
  have "get_execution ''exec_1'' [(''exec_1'', sample_call)] = Some sample_call" "ex_id sample_call = ''exec_1''"
    "ex_status sample_call = QUEUED" "ex_started_at sample_call = 10"
    by (simp_all add: get_execution_def sample_call_def new_execution_def)
  with progress_once [OF this(1,2,3) r] show ?thesis using r by auto
qed

text \<open>
  A simulated call writes exactly four records, in the order
  queued, ringing, in progress, and a terminal state; it ends completed unless its variables force another
  outcome; a completed call's transcript continues the one shown while it was in progress.
\<close>

theorem call_lifecycle:
  "\<exists>e0 e1 e2 e3.
     run_simulated_call (\<lambda>e log. log @ [e]) fresh start now agent to_number from_number variables batch [] =
       (e3, [e0, e1, e2, e3]) \<and>
     map ex_status [e0, e1, e2] = [QUEUED, RINGING, IN_PROGRESS] \<and> terminal (ex_status e3) \<and>
     (\<forall>e \<in> {e0, e1, e2, e3}. ex_id e = fresh \<and> ex_variables e = variables \<and> ex_agent_id e = agent \<and> ex_started_at e = start) \<and>
     (ex_status e3 = COMPLETED \<longleftrightarrow> forced_outcome variables = None) \<and>
     (ex_status e3 = COMPLETED \<longrightarrow> prefix (ex_transcript e2) (ex_transcript e3)) \<and>
     list_all (\<lambda>e. ex_transcript e = []) [e0, e1]"
proof -
  let ?e0 = "(new_execution fresh agent to_number start)
      \<lparr>ex_batch_id := batch, ex_from_number := from_number, ex_variables := variables\<rparr>"
  let ?e1 = "ringing ?e0"
  let ?e2 = "in_progress ?e1"
  let ?e3 = "finalize_execution now ?e2"
  have run: "run_simulated_call (\<lambda>e log. log @ [e]) fresh start now agent to_number from_number variables batch [] =
      (?e3, [?e0, ?e1, ?e2, ?e3])"
    by (simp add: run_simulated_call_def drive_call_def Let_def)
  have vars: "ex_variables ?e2 = variables" by (simp add: in_progress_def ringing_def)
  have agent: "ex_agent_id ?e3 = agent"
    by (simp add: finalize_execution_def Let_def in_progress_def ringing_def new_execution_def split: option.splits)
  have ends: "ex_status ?e3 = COMPLETED \<longleftrightarrow> forced_outcome variables = None"
    using vars by (auto simp: forced_outcome_def FORCED_OUTCOMES_def split: option.splits pyval.splits if_splits)
  have turns: "ex_status ?e3 = COMPLETED \<Longrightarrow> prefix (ex_transcript ?e2) (ex_transcript ?e3)"
    using ends vars by (simp add: in_progress_def ringing_def take_is_prefix)
  show ?thesis
    apply (rule exI [of _ ?e0], rule exI [of _ ?e1], rule exI [of _ ?e2], rule exI [of _ ?e3])
    using run finalize_terminal [of now ?e2] ends turns agent
    by (simp add: in_progress_def ringing_def new_execution_def)
qed

theorem call_lifecycle_witness:
  "\<exists>e0 e1 e2 e3.
     run_simulated_call (\<lambda>e log. log @ [e]) ''exec_1'' 0 3 ''agent'' ''+91'' None [] None [] = (e3, [e0, e1, e2, e3]) \<and>
     ex_status e3 = COMPLETED \<and> prefix (ex_transcript e2) (ex_transcript e3)"
proof -
  have "forced_outcome [] = None" by (simp add: forced_outcome_def dict_get_def)
  then show ?thesis
    using call_lifecycle [of "''exec_1''" 0 3 "''agent''" "''+91''" None "[]" None] by blast
qed

section \<open>Transcripts of engine runs\<close>

definition spoken :: "pyval \<Rightarrow> (string \<times> string) option" where
  "spoken m =
     (case (get_or_empty m ''role'', get_or_empty m ''content'') of
        (Some role, Some content) \<Rightarrow>
          (case (normalize_role role, content_text content) of
             (Some r, Some t) \<Rightarrow> if t = [] then None else Some (r, t)
           | _ \<Rightarrow> None)
      | _ \<Rightarrow> None)"

lemma map_filter_Cons:
  "List.map_filter f (x # xs) = (case f x of None \<Rightarrow> List.map_filter f xs | Some y \<Rightarrow> y # List.map_filter f xs)"
  by (simp add: List.map_filter_def split: option.splits)

lemma py_round_half: "py_round 2 (1 / 2 + 3 * of_nat k) = 1 / 2 + 3 * of_nat k"
proof -
  have "(1 / 2 + 3 * of_nat k) * 10 ^ 2 = (of_int (50 + 300 * int k) :: rat)" by (simp add: algebra_simps)
  then have "round_half_even ((1 / 2 + 3 * of_nat k) * 10 ^ 2) = 50 + 300 * int k"
    using round_half_even_of_int by metis
  then show ?thesis by (simp add: py_round_def field_simps)
qed

lemma transcript_from_spec:
  "transcript_from (1 / 2 + 3 * of_nat k) ms = Some turns \<Longrightarrow>
     map (\<lambda>t. (tt_role t, tt_text t)) turns = List.map_filter spoken ms \<and>
     (\<forall>i < length turns. tt_ts (turns ! i) = 1 / 2 + 3 * of_nat (k + i))"
proof (induction ms arbitrary: k turns)
  case (Cons m ms)
  obtain role content t where m: "get_or_empty m ''role'' = Some role" "get_or_empty m ''content'' = Some content"
    "content_text content = Some t"
    using Cons.prems by (auto split: option.splits)
  consider (skip) "normalize_role role = None \<or> t = []" | (say) r where "normalize_role role = Some r" "t \<noteq> []"
    by (cases "normalize_role role") auto
  then show ?case
  proof cases
    case skip
    then have "transcript_from (1 / 2 + 3 * of_nat k) ms = Some turns" using Cons.prems m by (auto split: option.splits)
    from Cons.IH [OF this] show ?thesis using m skip by (auto simp: map_filter_Cons spoken_def split: option.splits)
  next
    case (say r)
    have step: "1 / 2 + 3 * of_nat k + 3 = (1 / 2 + 3 * of_nat (Suc k) :: rat)" by simp
    from say obtain rest where rest: "transcript_from (1 / 2 + 3 * of_nat (Suc k)) ms = Some rest"
      and turns: "turns = \<lparr>tt_role = r, tt_text = t, tt_ts = 1 / 2 + 3 * of_nat k, tt_latency_ms = None\<rparr> # rest"
      using Cons.prems m by (auto simp: py_round_half step)
    from Cons.IH [OF rest] have ih: "map (\<lambda>t. (tt_role t, tt_text t)) rest = List.map_filter spoken ms"
      "\<forall>i < length rest. tt_ts (rest ! i) = 1 / 2 + 3 * of_nat (Suc k + i)" by simp_all
    have sp: "spoken m = Some (r, t)" using m say by (simp add: spoken_def)
    show ?thesis
      using ih by (auto simp: turns map_filter_Cons sp nth_Cons split: nat.splits)
  qed
qed (simp add: List.map_filter_def)

text \<open>
  A finished engine run is stored as exactly one completed
  record or leaves the store as it was; the stored transcript holds the user's and
  the assistant's non-empty messages of the run, in order and stripped, three seconds apart.
\<close>

theorem engine_record:
  assumes "er_output r = PDict out" and "truthy (dict_get out ''messages'')"
    and "record_engine_execution (Some put) fresh now r s = (result, s')"
  shows "(result = None \<and> s' = s) \<or>
    (\<exists>e ms. result = Some e \<and> put e s = Some s' \<and> ex_status e = COMPLETED \<and>
       iterate (dict_get out ''messages'') = Some ms \<and>
       map (\<lambda>t. (tt_role t, tt_text t)) (ex_transcript e) = List.map_filter spoken ms \<and>
       (\<forall>i < length (ex_transcript e). tt_ts (ex_transcript e ! i) = 1 / 2 + 3 * of_nat i))"
proof (cases "engine_execution fresh now r")
  case None
  with assms(3) show ?thesis by (simp add: record_engine_execution_def)
next
  case (Some e)
  then have st: "ex_status e = COMPLETED"
    and h: "history_to_transcript (dict_get out ''messages'') = Some (ex_transcript e)"
    using assms(1,2) by (auto simp: engine_execution_def Let_def split: option.splits if_splits prod.splits)
  then obtain ms where ms: "iterate (dict_get out ''messages'') = Some ms" "transcript_from (1 / 2) ms = Some (ex_transcript e)"
    by (auto simp: history_to_transcript_def split: option.splits)
  have spec: "map (\<lambda>t. (tt_role t, tt_text t)) (ex_transcript e) = List.map_filter spoken ms"
    "\<forall>i < length (ex_transcript e). tt_ts (ex_transcript e ! i) = 1 / 2 + 3 * of_nat i"
    using transcript_from_spec [of 0 ms] ms(2) by auto
  show ?thesis
  proof (cases "put e s")
    case None
    with Some assms(3) show ?thesis by (simp add: record_engine_execution_def)
  next
    case s'': (Some t)
    with Some assms(3) have "result = Some e" "put e s = Some s'" by (simp_all add: record_engine_execution_def)
    with st ms(1) spec show ?thesis by blast
  qed
qed

definition sample_run :: engine_run where
  "sample_run =
     \<lparr>er_agent_id = ''a1'', er_run_id = None, er_history = PNone, er_task_outputs = PNone, er_to_number = None,
      er_direction = ''inbound'',
      er_output = PDict [(''messages'', PList [PDict [(''role'', PStr ''system''), (''content'', PStr ''be brief'')],
        PDict [(''role'', PStr ''Assistant''), (''content'', PStr '' Hello '')], PNone])]\<rparr>"

theorem engine_record_witness:
  "\<exists>e. fst (record_engine_execution (Some (\<lambda>e s. Some (s @ [e]))) ''exec_1'' 7 sample_run []) = Some e \<and>
     map (\<lambda>t. (tt_role t, tt_text t)) (ex_transcript e) = [(''agent'', ''Hello'')]"
proof -
  let ?put = "\<lambda>e s. Some (s @ [e])"
  obtain result s' where r: "record_engine_execution (Some ?put) ''exec_1'' 7 sample_run [] = (result, s')" by fastforce
  let ?out = "[(''messages'', PList [PDict [(''role'', PStr ''system''), (''content'', PStr ''be brief'')],
        PDict [(''role'', PStr ''Assistant''), (''content'', PStr '' Hello '')], PNone])]"
  have "engine_execution ''exec_1'' 7 sample_run \<noteq> None" by code_simp
  then obtain e where "engine_execution ''exec_1'' 7 sample_run = Some e" by blast
  then have "result = Some e" using r by (simp add: record_engine_execution_def)
  then have "result \<noteq> None" by simp
  moreover have "er_output sample_run = PDict ?out" "truthy (dict_get ?out ''messages'')"
    by (simp_all add: sample_run_def dict_get_def)
  moreover have "map_option (List.map_filter spoken) (iterate (dict_get ?out ''messages'')) = Some [(''agent'', ''Hello'')]"
    by code_simp
  ultimately show ?thesis using engine_record [OF _ _ r, of ?out] r by auto
qed

section \<open>Aggregates agree with the records\<close>

lemma count_statuses_snoc: "count_statuses (es @ [e]) =
    AList.update (status_value (ex_status e))
      (Suc (case map_of (count_statuses es) (status_value (ex_status e)) of Some n \<Rightarrow> n | None \<Rightarrow> 0)) (count_statuses es)"
  by (simp add: count_statuses_def)

lemma update_sum:
  "distinct (map fst d) \<Longrightarrow> sum_list (map snd (AList.update k (Suc (case map_of d k of Some n \<Rightarrow> n | None \<Rightarrow> 0)) d)) =
     Suc (sum_list (map snd d))"
  by (induction d) (auto simp: update_conv')

lemma count_statuses_spec:
  "distinct (map fst (count_statuses es)) \<and> sum_list (map snd (count_statuses es)) = length es \<and>
   (case map_of (count_statuses es) (status_value st) of Some n \<Rightarrow> n | None \<Rightarrow> 0) =
     length (filter (\<lambda>e. status_value (ex_status e) = status_value st) es)"
proof (induction es rule: rev_induct)
  case Nil
  then show ?case by (simp add: count_statuses_def)
next
  case (snoc e es)
  then show ?case by (auto simp: count_statuses_snoc update_sum distinct_update update_conv')
qed

lemma status_value_inject: "status_value a = status_value b \<longleftrightarrow> a = b"
  by (cases a; cases b) (simp_all add: status_value_def)

lemma percentile_rank:
  assumes "vs \<noteq> []"
  obtains i where "i < length vs" "percentile vs pct = Some (sort vs ! i)"
    "i = nat (min (max 1 (round_half_even (of_nat pct / 100 * of_nat (length vs)))) (int (length vs))) - 1"
proof -
  let ?i = "nat (min (max 1 (round_half_even (of_nat pct / 100 * of_nat (length vs)))) (int (length vs))) - 1"
  have "?i < length vs" using assms by (cases vs) auto
  then show thesis using assms by (intro that [of ?i]) (simp_all add: percentile_def Let_def)
qed

text \<open>
  The counts by status add up to the number of calls, the
  completion rate is a rounded share between 0 and 1 of the calls that completed, every percentile is
  an observed latency, and a higher percentile is never smaller.
\<close>

theorem stats_agree:
  "sum_list (map snd (es_by_status (stats_for es))) = es_total (stats_for es) \<and>
   0 \<le> es_completed_rate (stats_for es) \<and> es_completed_rate (stats_for es) \<le> 1 \<and>
   (es \<noteq> [] \<longrightarrow> es_completed_rate (stats_for es) =
      py_round 4 (of_nat (length (filter (\<lambda>e. ex_status e = COMPLETED) es)) / of_nat (length es))) \<and>
   (\<forall>vs p q. vs \<noteq> [] \<and> p \<le> q \<longrightarrow>
      (\<exists>x y. percentile vs p = Some x \<and> percentile vs q = Some y \<and> x \<in> set vs \<and> y \<in> set vs \<and> x \<le> y))"
proof -
  let ?n = "length (filter (\<lambda>e. ex_status e = COMPLETED) es)"
  have n: "(case map_of (count_statuses es) (status_value COMPLETED) of Some n \<Rightarrow> n | None \<Rightarrow> 0) = ?n"
    using count_statuses_spec [of es COMPLETED] by (simp add: status_value_inject)
  have rate: "es_completed_rate (stats_for es) = (if es = [] then 0 else py_round 4 (of_nat ?n / of_nat (length es)))"
    by (simp add: stats_for_def Let_def n)
  have share: "(0::rat) \<le> of_nat ?n / of_nat (length es)" "of_nat ?n / of_nat (length es) \<le> (1::rat)"
    by (auto simp: divide_le_eq_1)
  have bounds: "0 \<le> es_completed_rate (stats_for es) \<and> es_completed_rate (stats_for es) \<le> 1"
    using py_round_bounds [of 0 "of_nat ?n / of_nat (length es)" 1 4] share by (simp add: rate)
  have ranks: "\<exists>x y. percentile vs p = Some x \<and> percentile vs q = Some y \<and>
      x \<in> set vs \<and> y \<in> set vs \<and> x \<le> y" if ne: "vs \<noteq> []" and le: "p \<le> q" for vs p q
  proof -
    obtain i where i: "i < length vs" "percentile vs p = Some (sort vs ! i)"
      "i = nat (min (max 1 (round_half_even (of_nat p / 100 * of_nat (length vs)))) (int (length vs))) - 1"
      by (rule percentile_rank [OF ne])
    obtain j where j: "j < length vs" "percentile vs q = Some (sort vs ! j)"
      "j = nat (min (max 1 (round_half_even (of_nat q / 100 * of_nat (length vs)))) (int (length vs))) - 1"
      by (rule percentile_rank [OF ne])
    have "(of_nat p / 100 * of_nat (length vs) :: rat) \<le> of_nat q / 100 * of_nat (length vs)"
      using le by (intro mult_right_mono divide_right_mono) simp_all
    from round_half_even_mono [OF this] have "i \<le> j" unfolding i(3) j(3) by linarith
    then have "sort vs ! i \<le> sort vs ! j" using j(1) by (intro sorted_nth_mono) simp_all
    then show ?thesis using i(1,2) j(1,2) by (metis length_sort nth_mem set_sort)
  qed
  have sums: "sum_list (map snd (es_by_status (stats_for es))) = es_total (stats_for es)"
    using count_statuses_spec [of es COMPLETED] by (simp add: stats_for_def Let_def)
  have "es \<noteq> [] \<longrightarrow> es_completed_rate (stats_for es) = py_round 4 (of_nat ?n / of_nat (length es))"
    by (simp add: rate)
  then show ?thesis using sums bounds ranks by blast
qed

text \<open>The 50th percentile of five latencies is the second smallest: the rank is rounded to even.\<close>

theorem stats_agree_witness:
  "percentile [10, 20, 30, 40, 50] 50 = Some 20 \<and>
   (\<exists>y. percentile [10, 20, 30, 40, 50] 95 = Some y \<and> y \<in> {10, 20, 30, 40, 50} \<and> 20 \<le> y)"
proof -
  have "\<lfloor>5 / 2 :: rat\<rfloor> = 2" by (simp add: floor_eq_iff)
  then have p: "percentile [10, 20, 30, 40, 50] 50 = Some 20"
    by (simp add: percentile_def round_half_even_def)
  have "\<exists>x y. percentile [10, 20, 30, 40, 50] 50 = Some x \<and> percentile [10, 20, 30, 40, 50] 95 = Some y \<and>
      x \<in> set [10, 20, 30, 40, 50] \<and> y \<in> set [10, 20, 30, 40, 50] \<and> x \<le> y"
    by (rule stats_agree [of "[]", THEN conjunct2, THEN conjunct2, THEN conjunct2, THEN conjunct2, rule_format]) simp
  with p show ?thesis by auto
qed

end
