(* ===== verification/Workflows.thy ===== *)
theory Workflows
  imports Executions Reachability Expression "HOL-Library.Monad_Syntax"
begin

text \<open>
  Workflows, from \<open>platform/workflows.py\<close>: the definition, its validator, the choice of the next node
  and the simulated run of one contact. A step of the run is one iteration of the loop; the loop ends
  after at most \<open>MAX_WALK_STEPS\<close> steps, its termination measure. An exception is a left value, and
  leaves the records written so far in the store. Sleeping is not modelled; the instants and the
  fresh ids a step draws are arguments, indexed by the step.
\<close>

section \<open>Definitions\<close>

record workflow_node =
  wn_id :: string
  wn_type :: string
  wn_config :: pydict

record workflow_edge =
  we_from :: string
  we_to :: string
  we_label :: string

record workflow_definition =
  wd_nodes :: "workflow_node list"
  wd_edges :: "workflow_edge list"

definition WORKFLOW_TYPES :: "string list" where
  "WORKFLOW_TYPES =
     [''start'', ''agent'', ''extraction'', ''api'', ''wait'', ''retry'', ''whatsapp'', ''end'']"

definition MAX_WALK_STEPS :: nat where "MAX_WALK_STEPS = 50"
definition MAX_WAIT_S :: rat where "MAX_WAIT_S = 30"

definition wf_node :: "workflow_definition \<Rightarrow> string \<Rightarrow> workflow_node option" where
  "wf_node d i = last_row wn_id (wd_nodes d) i"

section \<open>Validation\<close>

datatype workflow_error =
    Workflow_Empty
  | Duplicate_Node_Ids
  | No_Start_Node
  | Many_Start_Nodes
  | Edge_From_Unknown string
  | Edge_To_Unknown string
  | Unknown_Label string string string
  | Needs_Agent_Id string
  | Needs_Url string
  | Needs_Retry_Target string
  | Needs_Message string
  | Needs_Fields string
  | Negative_Wait string

datatype workflow_warning =
    No_End_Node
  | Workflow_Unreachable string

definition workflow_edge_errors :: "workflow_definition \<Rightarrow> workflow_edge \<Rightarrow> workflow_error list" where
  "workflow_edge_errors d e =
     (if we_from e \<notin> set (map wn_id (wd_nodes d)) then [Edge_From_Unknown (we_from e)] else []) @
     (if we_to e \<notin> set (map wn_id (wd_nodes d)) then [Edge_To_Unknown (we_to e)] else []) @
     (if we_label e \<noteq> [] \<and> we_label e \<notin> set [''on_success'', ''on_failure'']
      then [Unknown_Label (we_from e) (we_to e) (we_label e)] else [])"

text \<open>\<open>config.get("seconds", 0) < 0\<close> raises when the value is no number.\<close>

definition workflow_node_errors :: "workflow_node \<Rightarrow> py_error + workflow_error list" where
  "workflow_node_errors n =
     (let get = dict_get (wn_config n)
      in if wn_type n = ''agent'' \<and> \<not> truthy (get ''agent_id'') then Inr [Needs_Agent_Id (wn_id n)]
         else if wn_type n = ''api'' \<and> \<not> truthy (get ''url'') then Inr [Needs_Url (wn_id n)]
         else if wn_type n = ''retry'' \<and> (\<not> truthy (get ''target_node_id'') \<or> \<not> truthy (get ''max_attempts''))
           then Inr [Needs_Retry_Target (wn_id n)]
         else if wn_type n = ''whatsapp'' \<and> (\<not> truthy (get ''to'') \<or> \<not> truthy (get ''template''))
           then Inr [Needs_Message (wn_id n)]
         else if wn_type n = ''extraction'' \<and> \<not> truthy (get ''fields'') then Inr [Needs_Fields (wn_id n)]
         else if wn_type n = ''wait'' then
           (case py_less (case map_of (wn_config n) ''seconds'' of Some v \<Rightarrow> v | None \<Rightarrow> PInt 0) (PInt 0) of
              None \<Rightarrow> Inl TypeError
            | Some neg \<Rightarrow> Inr (if neg then [Negative_Wait (wn_id n)] else []))
         else Inr [])"

fun all_node_errors :: "workflow_node list \<Rightarrow> py_error + workflow_error list" where
  "all_node_errors [] = Inr []"
| "all_node_errors (n # ns) =
     (case workflow_node_errors n of
        Inl err \<Rightarrow> Inl err
      | Inr es \<Rightarrow> (case all_node_errors ns of Inl err \<Rightarrow> Inl err | Inr es' \<Rightarrow> Inr (es @ es')))"

text \<open>The node after the first node with an id, in definition order.\<close>

fun order_next :: "string list \<Rightarrow> string \<Rightarrow> string option" where
  "order_next (x # y # is) i = (if x = i then Some y else order_next (y # is) i)"
| "order_next is i = None"

definition reach_targets :: "workflow_definition \<Rightarrow> string \<Rightarrow> string list" where
  "reach_targets d i =
     map we_to (filter (\<lambda>e. we_from e = i) (wd_edges d)) @
     (case order_next (map wn_id (wd_nodes d)) i of Some j \<Rightarrow> [j] | None \<Rightarrow> [])"

definition start_nodes :: "workflow_definition \<Rightarrow> workflow_node list" where
  "start_nodes d = filter (\<lambda>n. wn_type n = ''start'') (wd_nodes d)"

definition unreachable_warnings :: "workflow_definition \<Rightarrow> workflow_warning list" where
  "unreachable_warnings d =
     (case start_nodes d of
        [] \<Rightarrow> []
      | s # _ \<Rightarrow>
          (let found = reach (reach_targets d) (map wn_id (wd_nodes d)) [] [wn_id s]
           in map Workflow_Unreachable (filter (\<lambda>i. i \<notin> set found) (map wn_id (wd_nodes d)))))"

definition validate_workflow ::
  "workflow_definition \<Rightarrow> py_error + (workflow_error, workflow_warning) validation_result" where
  "validate_workflow d =
     (if wd_nodes d = [] then Inr \<lparr>vr_valid = False, vr_errors = [Workflow_Empty], vr_warnings = []\<rparr>
      else case all_node_errors (wd_nodes d) of
             Inl err \<Rightarrow> Inl err
           | Inr node_errs \<Rightarrow>
               (let errors =
                      (if \<not> distinct (map wn_id (wd_nodes d)) then [Duplicate_Node_Ids] else []) @
                      (case start_nodes d of [] \<Rightarrow> [No_Start_Node] | [s] \<Rightarrow> [] | _ \<Rightarrow> [Many_Start_Nodes]) @
                      concat (map (workflow_edge_errors d) (wd_edges d)) @ node_errs;
                    warnings =
                      (if \<not> list_ex (\<lambda>n. wn_type n = ''end'') (wd_nodes d) then [No_End_Node] else []) @
                      unreachable_warnings d
                in Inr \<lparr>vr_valid = (errors = []), vr_errors = errors, vr_warnings = warnings\<rparr>))"

section \<open>The next node\<close>

definition labelled :: "string \<Rightarrow> workflow_edge list \<Rightarrow> workflow_edge option" where
  "labelled l outs = find (\<lambda>e. we_label e = l) outs"

definition out_edges :: "workflow_definition \<Rightarrow> string \<Rightarrow> workflow_edge list" where
  "out_edges d i = filter (\<lambda>e. we_from e = i) (wd_edges d)"

definition pick_edge :: "workflow_edge list \<Rightarrow> bool option \<Rightarrow> workflow_edge" where
  "pick_edge outs last_ok =
     (let plain = (case labelled [] outs of Some e \<Rightarrow> e | None \<Rightarrow> hd outs)
      in case last_ok of
           None \<Rightarrow> plain
         | Some ok \<Rightarrow>
             (case labelled (if ok then ''on_success'' else ''on_failure'') outs of Some e \<Rightarrow> e | None \<Rightarrow> plain))"

definition next_node :: "workflow_definition \<Rightarrow> string \<Rightarrow> bool option \<Rightarrow> workflow_node option" where
  "next_node d i last_ok =
     (if out_edges d i \<noteq> [] then wf_node d (we_to (pick_edge (out_edges d i) last_ok))
      else case order_next (map wn_id (wd_nodes d)) i of None \<Rightarrow> None | Some j \<Rightarrow> wf_node d j)"

section \<open>The run of one contact\<close>

datatype report_detail =
    No_Detail
  | Call_Detail string execution_status
  | Values "(pyval \<times> pyval) list"
  | Request pyval pyval
  | Waited pyval
  | Retry_Again nat string
  | Retry_Over nat
  | Message pyval pyval

record node_report =
  nr_node_id :: string
  nr_type :: string
  nr_ok :: bool
  nr_detail :: report_detail

record run_state =
  rs_reports :: "node_report list"
  rs_variables :: pydict
  rs_attempts :: "(string \<times> nat) list"
  rs_last_ok :: "bool option"
  rs_current :: "workflow_node option"
  rs_steps :: nat
  rs_failed :: bool
  rs_retried :: bool

definition report :: "workflow_node \<Rightarrow> bool \<Rightarrow> report_detail \<Rightarrow> run_state \<Rightarrow> run_state" where
  "report n ok detail r =
     r\<lparr>rs_reports := rs_reports r @ [\<lparr>nr_node_id = wn_id n, nr_type = wn_type n, nr_ok = ok, nr_detail = detail\<rparr>]\<rparr>"

text \<open>The ids and the clock of the calls that a run places.\<close>

record run_env =
  re_fresh :: "nat \<Rightarrow> string"
  re_begin :: "nat \<Rightarrow> rat"
  re_end :: "nat \<Rightarrow> rat"

definition as_mapping :: "pyval \<Rightarrow> py_error + pydict" where
  "as_mapping v = (if \<not> truthy v then Inr [] else case v of PDict d \<Rightarrow> Inr d | _ \<Rightarrow> Inl TypeError)"

definition agent_step ::
  "run_env \<Rightarrow> string \<Rightarrow> workflow_node \<Rightarrow> run_state \<Rightarrow> execution_rows \<Rightarrow> (py_error + run_state) \<times> execution_rows" where
  "agent_step env to_number n r rows =
     (case as_mapping (dict_get (wn_config n) ''variables'') of
        Inl err \<Rightarrow> (Inl err, rows)
      | Inr extra \<Rightarrow>
          (case map_of (wn_config n) ''agent_id'' of
             None \<Rightarrow> (Inl (KeyError ''agent_id''), rows)
           | Some agent \<Rightarrow>
               (if py_str agent = [] then (Inl ValueError, rows)
                else let (e, rows') = run_simulated_call save_execution (re_fresh env (rs_steps r)) (re_begin env (rs_steps r))
                             (re_end env (rs_steps r)) (py_str agent) to_number None
                             (dict_merge (rs_variables r) extra) None rows;
                         ok = (ex_status e = COMPLETED)
                     in (Inr (report n ok (Call_Detail (ex_id e) (ex_status e))
                           (r\<lparr>rs_last_ok := Some ok, rs_failed := (rs_failed r \<or> \<not> ok)\<rparr>)), rows'))))"

text \<open>A list or dict is not hashable; only a string can be the name of a variable.\<close>

definition field_value :: "pydict \<Rightarrow> pyval \<Rightarrow> pyval option" where
  "field_value variables f =
     (case f of
        PStr k \<Rightarrow> Some (dict_get variables k) | PList _ \<Rightarrow> None | PDict _ \<Rightarrow> None | _ \<Rightarrow> Some PNone)"

fun field_values :: "pydict \<Rightarrow> (pyval \<times> pyval) list \<Rightarrow> pyval list \<Rightarrow> (pyval \<times> pyval) list option" where
  "field_values variables acc [] = Some acc"
| "field_values variables acc (f # fs) =
     (case field_value variables f of
        None \<Rightarrow> None
      | Some v \<Rightarrow> field_values variables (if list_ex (\<lambda>(k, _). py_eq k f) acc then acc else acc @ [(f, v)]) fs)"

definition named_values :: "(pyval \<times> pyval) list \<Rightarrow> pydict" where
  "named_values vs =
     List.map_filter (\<lambda>(f, v). case f of PStr k \<Rightarrow> if v = PNone then None else Some (k, v) | _ \<Rightarrow> None) vs"

definition extraction_step :: "workflow_node \<Rightarrow> run_state \<Rightarrow> py_error + run_state" where
  "extraction_step n r =
     (case iterate (dict_get (wn_config n) ''fields'') of
        None \<Rightarrow> Inl TypeError
      | Some fs \<Rightarrow>
          (case field_values (rs_variables r) [] fs of
             None \<Rightarrow> Inl TypeError
           | Some vs \<Rightarrow>
               Inr (report n True (Values vs) (r\<lparr>rs_variables := dict_merge (rs_variables r) (named_values vs)\<rparr>))))"

definition wait_seconds :: "pyval \<Rightarrow> py_error + pyval" where
  "wait_seconds v =
     (case py_float v of
        Inl err \<Rightarrow> Inl err
      | Inr (PFloat x) \<Rightarrow> Inr (PFloat (min x MAX_WAIT_S))
      | Inr (PInf False) \<Rightarrow> Inr (PFloat MAX_WAIT_S)
      | Inr w \<Rightarrow> Inr w)"

text \<open>\<open>int(x)\<close>.\<close>

definition py_int :: "pyval \<Rightarrow> py_error + int" where
  "py_int v =
     (case v of
        PBool b \<Rightarrow> Inr (if b then 1 else 0)
      | PInt n \<Rightarrow> Inr n
      | PFloat x \<Rightarrow> Inr (if x < 0 then - \<lfloor>- x\<rfloor> else \<lfloor>x\<rfloor>)
      | PInf _ \<Rightarrow> Inl ValueError
      | PNan \<Rightarrow> Inl ValueError
      | PStr s \<Rightarrow>
          (let (neg, t) = split_sign (py_strip s)
           in case digit_part t of
                None \<Rightarrow> Inl ValueError
              | Some ds \<Rightarrow> Inr (if neg then - int (nat_of_digits ds) else int (nat_of_digits ds)))
      | _ \<Rightarrow> Inl TypeError)"

definition attempts_of :: "run_state \<Rightarrow> string \<Rightarrow> nat" where
  "attempts_of r i = (case map_of (rs_attempts r) i of Some k \<Rightarrow> k | None \<Rightarrow> 0)"

definition config_or :: "pyval \<Rightarrow> pydict \<Rightarrow> string \<Rightarrow> pyval" where
  "config_or dflt c k = (case map_of c k of Some v \<Rightarrow> v | None \<Rightarrow> dflt)"

text \<open>The outcome of a retry node: \<open>Some target\<close> to run again from there.\<close>

definition retry_target ::
  "workflow_definition \<Rightarrow> workflow_node \<Rightarrow> nat \<Rightarrow> bool option \<Rightarrow> py_error + workflow_node option" where
  "retry_target d n used last_ok =
     (if last_ok \<noteq> Some False then Inr None
      else case py_int (config_or (PInt 1) (wn_config n) ''max_attempts'') of
             Inl err \<Rightarrow> Inl err
           | Inr m \<Rightarrow>
               Inr (if int used \<le> m then wf_node d (py_str (dict_get (wn_config n) ''target_node_id'')) else None))"

definition advance :: "workflow_definition \<Rightarrow> workflow_node \<Rightarrow> run_state \<Rightarrow> run_state" where
  "advance d n r = r\<lparr>rs_current := next_node d (wn_id n) (rs_last_ok r)\<rparr>"

definition retry_step :: "workflow_definition \<Rightarrow> workflow_node \<Rightarrow> run_state \<Rightarrow> py_error + run_state" where
  "retry_step d n r =
     (let used = Suc (attempts_of r (wn_id n));
          r1 = r\<lparr>rs_attempts := AList.update (wn_id n) used (rs_attempts r)\<rparr>
      in case retry_target d n used (rs_last_ok r) of
           Inl err \<Rightarrow> Inl err
         | Inr (Some t) \<Rightarrow>
             Inr ((report n True (Retry_Again used (wn_id t)) r1)
                    \<lparr>rs_retried := True, rs_failed := False, rs_current := Some t\<rparr>)
         | Inr None \<Rightarrow> Inr (advance d n (report n True (Retry_Over used) r1)))"

definition plain_step :: "string \<Rightarrow> workflow_node \<Rightarrow> run_state \<Rightarrow> py_error + run_state" where
  "plain_step to_number n r =
     (let c = wn_config n
      in if wn_type n = ''start'' then Inr (report n True No_Detail r)
         else if wn_type n = ''extraction'' then extraction_step n r
         else if wn_type n = ''api'' then
           Inr (report n True (Request (config_or (PStr ''POST'') c ''method'') (dict_get c ''url'')) r)
         else if wn_type n = ''wait'' then
           (case wait_seconds (config_or (PInt 0) c ''seconds'') of
              Inl err \<Rightarrow> Inl err
            | Inr s \<Rightarrow> Inr (report n True (Waited s) r))
         else if wn_type n = ''whatsapp'' then
           Inr (report n True (Message (config_or (PStr to_number) c ''to'') (dict_get c ''template'')) r)
         else Inr r)"

definition run_step ::
  "workflow_definition \<Rightarrow> run_env \<Rightarrow> string \<Rightarrow> workflow_node \<Rightarrow> run_state \<Rightarrow> execution_rows \<Rightarrow>
     (py_error + run_state) \<times> execution_rows" where
  "run_step d env to_number n r0 rows =
     (let r = r0\<lparr>rs_steps := Suc (rs_steps r0)\<rparr>;
          go = (\<lambda>res. case res of Inl err \<Rightarrow> Inl err | Inr r' \<Rightarrow> Inr (advance d n r'))
      in if wn_type n = ''agent'' then
           (let (res, rows') = agent_step env to_number n r rows in (go res, rows'))
         else if wn_type n = ''retry'' then (retry_step d n r, rows)
         else if wn_type n = ''end'' then (Inr ((report n True No_Detail r)\<lparr>rs_current := None\<rparr>), rows)
         else (go (plain_step to_number n r), rows))"

lemma report_simps [simp]:
  "rs_steps (report n ok detail r) = rs_steps r" "rs_attempts (report n ok detail r) = rs_attempts r"
  "rs_last_ok (report n ok detail r) = rs_last_ok r" "rs_retried (report n ok detail r) = rs_retried r"
  "rs_variables (report n ok detail r) = rs_variables r" "rs_failed (report n ok detail r) = rs_failed r"
  "rs_reports (report n ok detail r) =
     rs_reports r @ [\<lparr>nr_node_id = wn_id n, nr_type = wn_type n, nr_ok = ok, nr_detail = detail\<rparr>]"
  by (simp_all add: report_def)

lemma advance_simps [simp]:
  "rs_steps (advance d n r) = rs_steps r" "rs_attempts (advance d n r) = rs_attempts r"
  "rs_reports (advance d n r) = rs_reports r" "rs_retried (advance d n r) = rs_retried r"
  "rs_current (advance d n r) = next_node d (wn_id n) (rs_last_ok r)"
  "rs_last_ok (advance d n r) = rs_last_ok r" "rs_failed (advance d n r) = rs_failed r"
  by (simp_all add: advance_def)

text \<open>
  What every step does to the records of the run: it counts, writes at most one report about its
  node, moves to the next node unless it retries or ends, and only a retry node counts attempts.
\<close>

definition moved :: "workflow_definition \<Rightarrow> workflow_node \<Rightarrow> run_state \<Rightarrow> run_state \<Rightarrow> bool" where
  "moved d n r r' \<longleftrightarrow>
     rs_steps r' = Suc (rs_steps r) \<and> rs_attempts r' = rs_attempts r \<and> rs_retried r' = rs_retried r \<and>
     (rs_current r' = None \<or> rs_current r' = next_node d (wn_id n) (rs_last_ok r')) \<and>
     (\<exists>rep. rs_reports r' = rs_reports r @ rep \<and> length rep \<le> 1 \<and>
        (wn_type n \<in> set WORKFLOW_TYPES \<longrightarrow> length rep = 1) \<and>
        (rs_failed r' \<longleftrightarrow> rs_failed r \<or> (\<exists>x \<in> set rep. \<not> nr_ok x)) \<and>
        (\<forall>x \<in> set rep. nr_node_id x = wn_id n \<and>
           (\<forall>k t. nr_detail x \<noteq> Retry_Again k t \<and> nr_detail x \<noteq> Retry_Over k)))"

definition retried :: "workflow_definition \<Rightarrow> workflow_node \<Rightarrow> run_state \<Rightarrow> run_state \<Rightarrow> bool" where
  "retried d n r r' \<longleftrightarrow>
     (let used = Suc (attempts_of r (wn_id n))
      in rs_steps r' = Suc (rs_steps r) \<and> rs_attempts r' = AList.update (wn_id n) used (rs_attempts r) \<and>
         (\<exists>rep. rs_reports r' = rs_reports r @ [rep] \<and> nr_node_id rep = wn_id n \<and> nr_ok rep \<and>
            ((nr_detail rep = Retry_Over used \<and> rs_retried r' = rs_retried r \<and> rs_failed r' = rs_failed r \<and>
                rs_current r' = next_node d (wn_id n) (rs_last_ok r')) \<or>
             (\<exists>t m. nr_detail rep = Retry_Again used (wn_id t) \<and> rs_retried r' \<and> rs_current r' = Some t \<and>
                wf_node d (wn_id t) = Some t \<and>
                py_int (config_or (PInt 1) (wn_config n) ''max_attempts'') = Inr m \<and> int used \<le> m))))"

lemma agent_step_Inr:
  assumes "agent_step env to_number n r rows = (Inr r', rows')"
  shows "\<exists>ok detail. r' = report n ok detail (r\<lparr>rs_last_ok := Some ok, rs_failed := (rs_failed r \<or> \<not> ok)\<rparr>) \<and>
    (\<forall>k t. detail \<noteq> Retry_Again k t \<and> detail \<noteq> Retry_Over k)"
  using assms
  by (auto simp: agent_step_def Let_def split: sum.splits option.splits if_splits prod.splits)

lemma plain_step_Inr:
  assumes "plain_step to_number n r = Inr r'"
  shows "rs_steps r' = rs_steps r \<and> rs_attempts r' = rs_attempts r \<and> rs_retried r' = rs_retried r \<and>
    rs_failed r' = rs_failed r \<and>
    (\<exists>rep. rs_reports r' = rs_reports r @ rep \<and> length rep \<le> 1 \<and>
        (wn_type n \<in> set WORKFLOW_TYPES - {''agent'', ''retry'', ''end''} \<longrightarrow> length rep = 1) \<and>
        (\<forall>x \<in> set rep. nr_node_id x = wn_id n \<and> nr_ok x \<and>
           (\<forall>k t. nr_detail x \<noteq> Retry_Again k t \<and> nr_detail x \<noteq> Retry_Over k)))"
  using assms
proof -
  have ex: "\<exists>vs r1. r' = report n True (Values vs) r1 \<and> rs_steps r1 = rs_steps r \<and> rs_attempts r1 = rs_attempts r \<and>
      rs_retried r1 = rs_retried r \<and> rs_failed r1 = rs_failed r \<and> rs_reports r1 = rs_reports r"
    if "extraction_step n r = Inr r'"
    using that unfolding extraction_step_def
    by (auto split: option.splits intro!: exI [of _ "r\<lparr>rs_variables := x\<rparr>" for x])
  have reports: "r' = r \<and> wn_type n \<notin> set WORKFLOW_TYPES - {''agent'', ''retry'', ''end''} \<or>
      (\<exists>detail r1. r' = report n True detail r1 \<and> (\<forall>k t. detail \<noteq> Retry_Again k t \<and> detail \<noteq> Retry_Over k) \<and>
        rs_steps r1 = rs_steps r \<and> rs_attempts r1 = rs_attempts r \<and>
        rs_retried r1 = rs_retried r \<and> rs_failed r1 = rs_failed r \<and> rs_reports r1 = rs_reports r)"
  proof (cases "wn_type n = ''extraction''")
    case True
    then have "extraction_step n r = Inr r'" using assms by (simp add: plain_step_def)
    from ex [OF this] show ?thesis by (metis report_detail.distinct)
  next
    case False
    then have "(\<exists>detail. r' = report n True detail r \<and> (\<forall>k t. detail \<noteq> Retry_Again k t \<and> detail \<noteq> Retry_Over k)) \<or>
        r' = r \<and> wn_type n \<notin> {''start'', ''api'', ''wait'', ''whatsapp''}"
      using assms unfolding plain_step_def Let_def by (auto split: if_splits sum.splits)
    then show ?thesis
    proof
      assume "\<exists>detail. r' = report n True detail r \<and> (\<forall>k t. detail \<noteq> Retry_Again k t \<and> detail \<noteq> Retry_Over k)"
      then show ?thesis by blast
    next
      assume "r' = r \<and> wn_type n \<notin> {''start'', ''api'', ''wait'', ''whatsapp''}"
      with False show ?thesis by (intro disjI1) (auto simp: WORKFLOW_TYPES_def)
    qed
  qed
  then show ?thesis
  proof (elim disjE exE conjE)
    assume "r' = r" "wn_type n \<notin> set WORKFLOW_TYPES - {''agent'', ''retry'', ''end''}"
    then show ?thesis by (intro conjI exI [of _ "[]"]) simp_all
  next
    fix detail r1
    assume "r' = report n True detail r1" "\<forall>k t. detail \<noteq> Retry_Again k t \<and> detail \<noteq> Retry_Over k"
      "rs_steps r1 = rs_steps r" "rs_attempts r1 = rs_attempts r" "rs_retried r1 = rs_retried r"
      "rs_failed r1 = rs_failed r" "rs_reports r1 = rs_reports r"
    then show ?thesis
      by (intro conjI exI [of _ "[\<lparr>nr_node_id = wn_id n, nr_type = wn_type n, nr_ok = True, nr_detail = detail\<rparr>]"])
         simp_all
  qed
qed

lemma wf_node_id: "wf_node d i = Some n \<Longrightarrow> wn_id n = i \<and> n \<in> set (wd_nodes d)"
  using last_row_Some [of wn_id "wd_nodes d" i n] by (simp add: wf_node_def)

lemma run_step_cases:
  assumes "run_step d env to_number n r rows = (Inr r', rows')"
  shows "if wn_type n = ''retry'' then retried d n r r' else moved d n r r'"
proof -
  let ?r = "r\<lparr>rs_steps := Suc (rs_steps r)\<rparr>"
  consider (agent) r1 where "wn_type n = ''agent''" "agent_step env to_number n ?r rows = (Inr r1, rows')"
      "r' = advance d n r1"
    | (retry) "wn_type n = ''retry''" "retry_step d n ?r = Inr r'"
    | (ends) "wn_type n = ''end''" "r' = (report n True No_Detail ?r)\<lparr>rs_current := None\<rparr>"
    | (plain) r1 where "wn_type n \<notin> {''agent'', ''retry'', ''end''}" "plain_step to_number n ?r = Inr r1" "r' = advance d n r1"
    using assms by (auto simp: run_step_def Let_def split: if_splits sum.splits prod.splits)
  then show ?thesis
  proof cases
    case agent
    from agent_step_Inr [OF agent(2)] agent(1,3) show ?thesis by (auto simp: moved_def)
  next
    case retry
    let ?used = "Suc (attempts_of r (wn_id n))"
    have a: "attempts_of ?r (wn_id n) = attempts_of r (wn_id n)" by (simp add: attempts_of_def)
    obtain o' where o': "retry_target d n ?used (rs_last_ok r) = Inr o'"
      using retry(2) by (auto simp: retry_step_def Let_def a split: sum.splits)
    show ?thesis
    proof (cases o')
      case None
      with retry(2) o' have "r' = advance d n (report n True (Retry_Over ?used)
          (?r\<lparr>rs_attempts := AList.update (wn_id n) ?used (rs_attempts r)\<rparr>))"
        by (simp add: retry_step_def Let_def a)
      with retry(1) show ?thesis by (simp add: retried_def Let_def)
    next
      case (Some t)
      with o' obtain m where m: "py_int (config_or (PInt 1) (wn_config n) ''max_attempts'') = Inr m"
          "int ?used \<le> m" "wf_node d (py_str (dict_get (wn_config n) ''target_node_id'')) = Some t"
        by (auto simp: retry_target_def split: if_splits sum.splits)
      from retry(2) o' Some have "r' = (report n True (Retry_Again ?used (wn_id t))
          (?r\<lparr>rs_attempts := AList.update (wn_id n) ?used (rs_attempts r)\<rparr>))
            \<lparr>rs_retried := True, rs_failed := False, rs_current := Some t\<rparr>"
        by (simp add: retry_step_def Let_def a)
      moreover have "wf_node d (wn_id t) = Some t" using m(3) wf_node_id by metis
      ultimately show ?thesis using retry(1) m by (auto simp: retried_def Let_def)
    qed
  next
    case ends
    then show ?thesis by (simp add: moved_def)
  next
    case plain
    from plain_step_Inr [OF plain(2)] plain(1,3) show ?thesis by (auto simp: moved_def)
  qed
qed

lemma run_step_steps: "run_step d env to_number n r rows = (Inr r', rows') \<Longrightarrow> rs_steps r' = Suc (rs_steps r)"
  by (drule run_step_cases) (auto simp: moved_def retried_def Let_def split: if_splits)

function run_loop ::
  "workflow_definition \<Rightarrow> run_env \<Rightarrow> string \<Rightarrow> run_state \<Rightarrow> execution_rows \<Rightarrow> (py_error + run_state) \<times> execution_rows" where
  "run_loop d env to_number r rows =
     (case rs_current r of
        None \<Rightarrow> (Inr r, rows)
      | Some n \<Rightarrow>
          (if MAX_WALK_STEPS \<le> rs_steps r then (Inr r, rows)
           else case run_step d env to_number n r rows of
                  (Inl err, rows') \<Rightarrow> (Inl err, rows')
                | (Inr r', rows') \<Rightarrow> run_loop d env to_number r' rows'))"
  by pat_completeness auto

termination run_loop
  by (relation "measure (\<lambda>(d, env, to_number, r, rows). MAX_WALK_STEPS - rs_steps r)")
     (auto dest!: run_step_steps [OF sym])

declare run_loop.simps [simp del]

record workflow_run =
  wr_run_id :: string
  wr_workflow_id :: string
  wr_campaign_id :: "string option"
  wr_to_number :: "string option"
  wr_variables :: pydict
  wr_status :: string
  wr_reports :: "node_report list"

definition first_state :: "workflow_definition \<Rightarrow> pydict \<Rightarrow> run_state" where
  "first_state d variables =
     \<lparr>rs_reports = [], rs_variables = variables, rs_attempts = [], rs_last_ok = None,
      rs_current = (case start_nodes d of [] \<Rightarrow> None | s # _ \<Rightarrow> Some s), rs_steps = 0,
      rs_failed = False, rs_retried = False\<rparr>"

definition looped :: "run_state \<Rightarrow> bool" where
  "looped r = (MAX_WALK_STEPS \<le> rs_steps r \<and> rs_current r \<noteq> None)"

definition run_status :: "run_state \<Rightarrow> string" where
  "run_status r = (if looped r \<or> (rs_failed r \<and> \<not> rs_retried r) then ''failed'' else ''completed'')"

text \<open>\<open>runs\<close> are the saved runs by id; a run that raises is not saved.\<close>

definition run_workflow ::
  "workflow_definition \<Rightarrow> run_env \<Rightarrow> string \<Rightarrow> string \<Rightarrow> string option \<Rightarrow> pydict \<Rightarrow> string option \<Rightarrow>
     execution_rows \<times> (string \<times> workflow_run) list \<Rightarrow>
     (py_error + workflow_run) \<times> execution_rows \<times> (string \<times> workflow_run) list" where
  "run_workflow d env run_id workflow_id to_number variables campaign s =
     (case run_loop d env (if truthy_str to_number then or_empty to_number else ''+910000000000'')
             (first_state d variables) (fst s) of
        (Inl err, rows) \<Rightarrow> (Inl err, rows, snd s)
      | (Inr r, rows) \<Rightarrow>
          (let run = \<lparr>wr_run_id = run_id, wr_workflow_id = workflow_id, wr_campaign_id = campaign,
                      wr_to_number = to_number, wr_variables = variables, wr_status = run_status r,
                      wr_reports = rs_reports r\<rparr>
           in (Inr run, rows, AList.update run_id run (snd s))))"

section \<open>Every run is bounded\<close>

definition retry_number :: "string \<Rightarrow> node_report \<Rightarrow> nat option" where
  "retry_number i rep =
     (if nr_node_id rep \<noteq> i then None
      else case nr_detail rep of Retry_Again k t \<Rightarrow> Some k | Retry_Over k \<Rightarrow> Some k | _ \<Rightarrow> None)"

definition again :: "string \<Rightarrow> node_report \<Rightarrow> bool" where
  "again i rep = (nr_node_id rep = i \<and> (\<exists>k t. nr_detail rep = Retry_Again k t))"

definition bounded_run :: "workflow_definition \<Rightarrow> run_state \<Rightarrow> bool" where
  "bounded_run d r \<longleftrightarrow>
     rs_steps r \<le> MAX_WALK_STEPS \<and> length (rs_reports r) \<le> rs_steps r \<and>
     (list_all (\<lambda>n. wn_type n \<in> set WORKFLOW_TYPES) (wd_nodes d) \<longrightarrow> length (rs_reports r) = rs_steps r) \<and>
     (rs_retried r \<longleftrightarrow> (\<exists>rep \<in> set (rs_reports r). \<exists>k t. nr_detail rep = Retry_Again k t)) \<and>
     (\<not> rs_retried r \<longrightarrow> (rs_failed r \<longleftrightarrow> (\<exists>rep \<in> set (rs_reports r). \<not> nr_ok rep))) \<and>
     (\<forall>n. rs_current r = Some n \<longrightarrow> n \<in> set (wd_nodes d)) \<and>
     (\<forall>rep \<in> set (rs_reports r). nr_node_id rep \<in> set (map wn_id (wd_nodes d))) \<and>
     (\<forall>i. List.map_filter (retry_number i) (rs_reports r) = [1..<Suc (attempts_of r i)]) \<and>
     (\<forall>rep \<in> set (rs_reports r). \<forall>k t. nr_detail rep = Retry_Again k t \<longrightarrow>
        (\<exists>n m. n \<in> set (wd_nodes d) \<and> wn_id n = nr_node_id rep \<and>
           py_int (config_or (PInt 1) (wn_config n) ''max_attempts'') = Inr m \<and> int k \<le> m))"

lemma map_filter_append: "List.map_filter f (xs @ ys) = List.map_filter f xs @ List.map_filter f ys"
  by (simp add: List.map_filter_def)

lemma map_filter_none: "\<forall>x \<in> set xs. f x = None \<Longrightarrow> List.map_filter f xs = []"
  by (simp add: List.map_filter_def filter_empty_conv)

lemma attempts_cong: "rs_attempts r = rs_attempts r' \<Longrightarrow> attempts_of r i = attempts_of r' i"
  by (simp add: attempts_of_def)

lemma next_node_known: "next_node d i ok = Some n \<Longrightarrow> n \<in> set (wd_nodes d)"
  using wf_node_id by (auto simp: next_node_def split: if_splits option.splits)

lemma bounded_run_intro:
  assumes "bounded_run d r" and "rs_current r = Some n" and "rs_steps r < MAX_WALK_STEPS"
    and "rs_steps r' = Suc (rs_steps r)" and reps: "rs_reports r' = rs_reports r @ rep" and "length rep \<le> 1"
    and "wn_type n \<in> set WORKFLOW_TYPES \<Longrightarrow> length rep = 1"
    and cur: "\<And>k. rs_current r' = Some k \<Longrightarrow> k \<in> set (wd_nodes d)"
    and about: "\<And>x. x \<in> set rep \<Longrightarrow> nr_node_id x = wn_id n"
    and "rs_retried r' \<longleftrightarrow> rs_retried r \<or> (\<exists>x \<in> set rep. \<exists>k t. nr_detail x = Retry_Again k t)"
    and failed: "\<not> rs_retried r' \<Longrightarrow> rs_failed r' \<longleftrightarrow> rs_failed r \<or> (\<exists>x \<in> set rep. \<not> nr_ok x)"
    and numbers: "\<And>i. [1..<Suc (attempts_of r' i)] = [1..<Suc (attempts_of r i)] @ List.map_filter (retry_number i) rep"
    and new: "\<And>x k t. x \<in> set rep \<Longrightarrow> nr_detail x = Retry_Again k t \<Longrightarrow>
      (\<exists>m. py_int (config_or (PInt 1) (wn_config n) ''max_attempts'') = Inr m \<and> int k \<le> m)"
  shows "bounded_run d r'"
proof -
  have n: "n \<in> set (wd_nodes d)" using assms(1,2) by (simp add: bounded_run_def)
  have c1: "rs_steps r' \<le> MAX_WALK_STEPS" "length (rs_reports r') \<le> rs_steps r'"
    using assms(1,3,4,6) by (simp_all add: bounded_run_def reps)
  have c2: "list_all (\<lambda>n. wn_type n \<in> set WORKFLOW_TYPES) (wd_nodes d) \<Longrightarrow> length (rs_reports r') = rs_steps r'"
    using assms(1,4,7) n by (simp add: bounded_run_def reps list_all_iff)
  have c3: "rs_retried r' \<longleftrightarrow> (\<exists>rep \<in> set (rs_reports r'). \<exists>k t. nr_detail rep = Retry_Again k t)"
    using assms(1,10) by (simp add: bounded_run_def reps bex_Un)
  have c4: "\<not> rs_retried r' \<Longrightarrow> rs_failed r' \<longleftrightarrow> (\<exists>rep \<in> set (rs_reports r'). \<not> nr_ok rep)"
    using assms(1,10) failed by (simp add: bounded_run_def reps bex_Un)
  have c5: "\<forall>x \<in> set (rs_reports r'). nr_node_id x \<in> set (map wn_id (wd_nodes d))"
    using assms(1) about n by (auto simp: bounded_run_def reps)
  have c6: "List.map_filter (retry_number i) (rs_reports r') = [1..<Suc (attempts_of r' i)]" for i
  proof -
    have "List.map_filter (retry_number i) (rs_reports r) = [1..<Suc (attempts_of r i)]"
      using assms(1) unfolding bounded_run_def by blast
    then show ?thesis by (simp only: reps map_filter_append numbers)
  qed
  have c7: "\<exists>n m. n \<in> set (wd_nodes d) \<and> wn_id n = nr_node_id x \<and>
      py_int (config_or (PInt 1) (wn_config n) ''max_attempts'') = Inr m \<and> int k \<le> m"
    if "x \<in> set (rs_reports r')" "nr_detail x = Retry_Again k t" for x k t
  proof (cases "x \<in> set rep")
    case True
    with new [OF True that(2)] about n show ?thesis by metis
  next
    case False
    with that have "x \<in> set (rs_reports r)" by (simp add: reps)
    with that(2) assms(1) show ?thesis unfolding bounded_run_def by blast
  qed
  show ?thesis
    unfolding bounded_run_def using c1 c2 c3 c4 cur c5 c6 c7 by blast
qed

lemma moved_bounded:
  assumes b: "bounded_run d r" and c: "rs_current r = Some n" "rs_steps r < MAX_WALK_STEPS" and m: "moved d n r r'"
  shows "bounded_run d r'"
proof -
  obtain rep where rep: "rs_reports r' = rs_reports r @ rep" "length rep \<le> 1"
      "wn_type n \<in> set WORKFLOW_TYPES \<longrightarrow> length rep = 1"
      "rs_failed r' \<longleftrightarrow> rs_failed r \<or> (\<exists>x \<in> set rep. \<not> nr_ok x)"
    and about: "\<forall>x \<in> set rep. nr_node_id x = wn_id n \<and> (\<forall>k t. nr_detail x \<noteq> Retry_Again k t \<and> nr_detail x \<noteq> Retry_Over k)"
    using m unfolding moved_def by blast
  have steps: "rs_steps r' = Suc (rs_steps r)" and att: "rs_attempts r' = rs_attempts r" and ret: "rs_retried r' = rs_retried r"
    and cur: "rs_current r' = None \<or> rs_current r' = next_node d (wn_id n) (rs_last_ok r')"
    using m unfolding moved_def by auto
  have "\<forall>x \<in> set rep. retry_number i x = None" for i
    using about by (auto simp: retry_number_def split: report_detail.splits)
  then have "List.map_filter (retry_number i) rep = []" for i by (simp add: map_filter_none)
  then show ?thesis
    by (intro bounded_run_intro [OF b c steps rep(1,2)])
       (use rep(3,4) about ret cur attempts_cong [OF att] next_node_known in auto)
qed

lemma retried_bounded:
  assumes b: "bounded_run d r" and c: "rs_current r = Some n" "rs_steps r < MAX_WALK_STEPS" and m: "retried d n r r'"
  shows "bounded_run d r'"
proof -
  let ?used = "Suc (attempts_of r (wn_id n))"
  obtain rep where rep: "rs_reports r' = rs_reports r @ [rep]" "nr_node_id rep = wn_id n" "nr_ok rep"
    and about: "(nr_detail rep = Retry_Over ?used \<and> rs_retried r' = rs_retried r \<and> rs_failed r' = rs_failed r \<and>
                rs_current r' = next_node d (wn_id n) (rs_last_ok r')) \<or>
             (\<exists>t m. nr_detail rep = Retry_Again ?used (wn_id t) \<and> rs_retried r' \<and> rs_current r' = Some t \<and>
                wf_node d (wn_id t) = Some t \<and>
                py_int (config_or (PInt 1) (wn_config n) ''max_attempts'') = Inr m \<and> int ?used \<le> m)"
    and steps: "rs_steps r' = Suc (rs_steps r)" and att: "rs_attempts r' = AList.update (wn_id n) ?used (rs_attempts r)"
    using m unfolding retried_def Let_def by blast
  have "retry_number i rep = (if i = wn_id n then Some ?used else None)" for i
    using about rep(2) by (auto simp: retry_number_def)
  moreover have "attempts_of r' i = (if i = wn_id n then ?used else attempts_of r i)" for i
    by (simp add: attempts_of_def att update_conv')
  ultimately have numbers: "[1..<Suc (attempts_of r' i)] = [1..<Suc (attempts_of r i)] @ List.map_filter (retry_number i) [rep]" for i
    by (simp add: List.map_filter_def)
  have cur: "rs_current r' = Some k \<Longrightarrow> k \<in> set (wd_nodes d)" for k
    using about next_node_known [of d "wn_id n" "rs_last_ok r'" k] wf_node_id by auto
  show ?thesis
    by (rule bounded_run_intro [OF b c steps rep(1) _ _ cur _ _ _ numbers]) (use about rep(2,3) in auto)
qed

lemma run_loop_keeps:
  assumes "run_loop d env to_number r rows = (Inr r', rows')" and "P r"
    and "\<And>n r rows r1 rows1. P r \<Longrightarrow> rs_current r = Some n \<Longrightarrow> rs_steps r < MAX_WALK_STEPS \<Longrightarrow>
      run_step d env to_number n r rows = (Inr r1, rows1) \<Longrightarrow> P r1"
  shows "P r' \<and> (rs_current r' = None \<or> MAX_WALK_STEPS \<le> rs_steps r')"
  using assms
proof (induction d env to_number r rows arbitrary: r' rows' rule: run_loop.induct)
  case (1 d env to_number r rows)
  show ?case
  proof (cases "rs_current r = None \<or> MAX_WALK_STEPS \<le> rs_steps r")
    case True
    then have "run_loop d env to_number r rows = (Inr r, rows)"
      by (subst run_loop.simps) (auto split: option.splits)
    with "1.prems"(1,2) True show ?thesis by simp
  next
    case False
    then obtain n where n: "rs_current r = Some n" and m: "\<not> MAX_WALK_STEPS \<le> rs_steps r" by auto
    obtain res rows1 where step: "run_step d env to_number n r rows = (res, rows1)" by fastforce
    then obtain r1 where res: "res = Inr r1"
      using "1.prems"(1) n m by (subst (asm) run_loop.simps) (auto split: sum.splits)
    have loop: "run_loop d env to_number r1 rows1 = (Inr r', rows')"
      using "1.prems"(1) n m step res by (subst (asm) run_loop.simps) simp
    have P: "P r1" using "1.prems"(3) [OF "1.prems"(2) n _ step [unfolded res]] m by simp
    show ?thesis
      by (rule "1.IH" [OF n m step [symmetric] res loop P "1.prems"(3)])
  qed
qed

lemma bounded_first: "bounded_run d (first_state d variables)"
proof -
  have "n \<in> set (wd_nodes d)" if "start_nodes d = n # ns" for n ns
    using that by (metis filter_is_subset list.set_intros(1) start_nodes_def subsetD)
  then show ?thesis
    by (auto simp: bounded_run_def first_state_def attempts_of_def List.map_filter_def split: list.splits)
qed

lemma run_loop_bounded:
  assumes "run_loop d env to_number (first_state d variables) rows = (Inr r, rows')"
  shows "bounded_run d r"
proof -
  have "bounded_run d r \<and> (rs_current r = None \<or> MAX_WALK_STEPS \<le> rs_steps r)"
    by (rule run_loop_keeps [where P = "bounded_run d", OF assms bounded_first])
       (metis moved_bounded retried_bounded run_step_cases)
  then show ?thesis by blast
qed

lemma subseq_map_filter: "subseq (List.map_filter f (filter P xs)) (List.map_filter f xs)"
  by (induction xs) (auto simp: map_filter_Cons List.map_filter_def split: option.splits)

lemma retries_counted:
  assumes "List.map_filter (retry_number i) reps = [1..<Suc k]"
    and "\<And>rep j t. rep \<in> set reps \<Longrightarrow> nr_node_id rep = i \<Longrightarrow> nr_detail rep = Retry_Again j t \<Longrightarrow> int j \<le> m"
  shows "length (filter (again i) reps) \<le> nat m"
proof -
  have sub: "List.map_filter (retry_number i) (filter (again i) reps) = map (the \<circ> retry_number i) (filter (again i) reps)"
    by (induction reps) (auto simp: List.map_filter_def again_def retry_number_def)
  have "subseq (List.map_filter (retry_number i) (filter (again i) reps)) (List.map_filter (retry_number i) reps)"
    by (rule subseq_map_filter)
  then have d: "distinct (map (the \<circ> retry_number i) (filter (again i) reps))"
    unfolding sub assms(1) by (auto simp: subseq_conv_nths distinct_nthsI)
  have "set (map (the \<circ> retry_number i) (filter (again i) reps)) \<subseteq> {1..nat m}"
  proof
    fix x assume "x \<in> set (map (the \<circ> retry_number i) (filter (again i) reps))"
    then obtain rep t where rep: "rep \<in> set reps" "nr_node_id rep = i" "nr_detail rep = Retry_Again x t"
      by (auto simp: again_def retry_number_def)
    then have "x \<in> set (List.map_filter (retry_number i) reps)"
      by (force simp: List.map_filter_def retry_number_def)
    with assms(1) assms(2) [OF rep] show "x \<in> {1..nat m}" by auto
  qed
  then have "card (set (map (the \<circ> retry_number i) (filter (again i) reps))) \<le> nat m"
    by (metis card_atLeastAtMost card_mono diff_Suc_1 finite_atLeastAtMost)
  with d show ?thesis by (metis distinct_card length_map)
qed

lemma run_workflow_Inr:
  assumes "run_workflow d env run_id workflow_id to_number variables campaign s = (Inr run, s')"
  obtains r where "bounded_run d r" "wr_reports run = rs_reports r" "wr_status run = run_status r"
proof -
  let ?loop = "run_loop d env (if truthy_str to_number then or_empty to_number else ''+910000000000'')
      (first_state d variables) (fst s)"
  obtain res rows where l: "?loop = (res, rows)" by fastforce
  with assms obtain r where r: "res = Inr r" "wr_reports run = rs_reports r" "wr_status run = run_status r"
    by (cases res) (auto simp: run_workflow_def Let_def simp del: or_empty_simps)
  show thesis by (rule that [OF run_loop_bounded [OF l [unfolded r(1)]] r(2,3)])
qed

text \<open>
  C33: A run that does not raise reports at most 50 steps, each about
  a node of the workflow, and a retry node sends it back at most as often as its configuration
  allows.
\<close>

theorem run_bounded:
  assumes "run_workflow d env run_id workflow_id to_number variables campaign s = (Inr run, s')"
    and "distinct (map wn_id (wd_nodes d))" and "n \<in> set (wd_nodes d)"
    and "py_int (config_or (PInt 1) (wn_config n) ''max_attempts'') = Inr m"
  shows "length (wr_reports run) \<le> MAX_WALK_STEPS \<and>
    (\<forall>rep \<in> set (wr_reports run). nr_node_id rep \<in> set (map wn_id (wd_nodes d))) \<and>
    length (filter (again (wn_id n)) (wr_reports run)) \<le> nat m"
proof -
  obtain r where b: "bounded_run d r" and reps: "wr_reports run = rs_reports r"
    by (rule run_workflow_Inr [OF assms(1)])
  have "int j \<le> m" if rep: "rep \<in> set (rs_reports r)" "nr_node_id rep = wn_id n" "nr_detail rep = Retry_Again j t" for rep j t
  proof -
    have "\<exists>n' m'. n' \<in> set (wd_nodes d) \<and> wn_id n' = nr_node_id rep \<and>
        py_int (config_or (PInt 1) (wn_config n') ''max_attempts'') = Inr m' \<and> int j \<le> m'"
      using b rep(1,3) unfolding bounded_run_def by blast
    then obtain n' m' where n': "n' \<in> set (wd_nodes d)" "wn_id n' = wn_id n"
      and m': "py_int (config_or (PInt 1) (wn_config n') ''max_attempts'') = Inr m'" "int j \<le> m'"
      using rep(2) by auto
    have "inj_on wn_id (set (wd_nodes d))" using assms(2) by (simp add: distinct_map)
    from inj_onD [OF this n'(2,1) assms(3)] have "n' = n" .
    with m' assms(4) show ?thesis by simp
  qed
  moreover have "List.map_filter (retry_number (wn_id n)) (rs_reports r) = [1..<Suc (attempts_of r (wn_id n))]"
    using b unfolding bounded_run_def by blast
  ultimately have "length (filter (again (wn_id n)) (rs_reports r)) \<le> nat m" by (intro retries_counted)
  with b show ?thesis unfolding reps bounded_run_def by auto
qed

text \<open>
  A run that stops before the step limit fails exactly
  when some call failed and no retry ever ran: one retry, of whichever call, and later failures count
  as handled.
\<close>

theorem run_status_exact:
  assumes "run_workflow d env run_id workflow_id to_number variables campaign s = (Inr run, s')"
    and "list_all (\<lambda>n. wn_type n \<in> set WORKFLOW_TYPES) (wd_nodes d)"
    and "length (wr_reports run) < MAX_WALK_STEPS"
  shows "wr_status run = ''failed'' \<longleftrightarrow>
    (\<exists>rep \<in> set (wr_reports run). \<not> nr_ok rep) \<and>
    (\<forall>rep \<in> set (wr_reports run). \<forall>k t. nr_detail rep \<noteq> Retry_Again k t)"
proof -
  obtain r where b: "bounded_run d r" and reps: "wr_reports run = rs_reports r" and st: "wr_status run = run_status r"
    by (rule run_workflow_Inr [OF assms(1)])
  have "\<not> looped r" using b assms(2,3) by (simp add: looped_def bounded_run_def reps)
  then have "wr_status run = ''failed'' \<longleftrightarrow> rs_failed r \<and> \<not> rs_retried r" by (simp add: st run_status_def)
  with b show ?thesis unfolding reps bounded_run_def by blast
qed

text \<open>
  The first call is retried once and fails again; then a second call fails and nothing retries it.
\<close>

definition wf :: "string \<Rightarrow> string \<Rightarrow> pydict \<Rightarrow> workflow_node" where
  "wf i t c = \<lparr>wn_id = i, wn_type = t, wn_config = c\<rparr>"

definition two_calls :: workflow_definition where
  "two_calls =
     \<lparr>wd_nodes = [wf ''s'' ''start'' [],
        wf ''a'' ''agent'' [(''agent_id'', PStr ''A'')],
        wf ''r'' ''retry'' [(''target_node_id'', PStr ''a''), (''max_attempts'', PInt 1)],
        wf ''b'' ''agent'' [(''agent_id'', PStr ''B'')],
        wf ''e'' ''end'' []],
      wd_edges = []\<rparr>"

definition sample_env :: run_env where
  "sample_env = \<lparr>re_fresh = (\<lambda>k. replicate (Suc k) (CHR ''x'')), re_begin = (\<lambda>k. 0), re_end = (\<lambda>k. 3)\<rparr>"

definition sample_result :: "(py_error + workflow_run) \<times> execution_rows \<times> (string \<times> workflow_run) list" where
  "sample_result =
     run_workflow two_calls sample_env ''run'' ''wf'' None [(''force_outcome'', PStr ''busy'')] None ([], [])"

lemma sample_run_returns:
  obtains run s' where "sample_result = (Inr run, s')"
    and "map (\<lambda>rep. (nr_node_id rep, nr_ok rep)) (wr_reports run) =
      [(''s'', True), (''a'', False), (''r'', True), (''a'', False), (''r'', True), (''b'', False), (''e'', True)]"
    and "wr_status run = ''completed''"
proof -
  have "map_sum (\<lambda>e. ()) (\<lambda>run. (map (\<lambda>rep. (nr_node_id rep, nr_ok rep)) (wr_reports run), wr_status run)) (fst sample_result) =
     Inr ([(''s'', True), (''a'', False), (''r'', True), (''a'', False), (''r'', True), (''b'', False), (''e'', True)],
          ''completed'')"
    by code_simp
  then obtain run where run: "fst sample_result = Inr run"
    "map (\<lambda>rep. (nr_node_id rep, nr_ok rep)) (wr_reports run) =
      [(''s'', True), (''a'', False), (''r'', True), (''a'', False), (''r'', True), (''b'', False), (''e'', True)]"
    "wr_status run = ''completed''" by (cases "fst sample_result") simp_all
  show thesis by (rule that [of run "snd sample_result", OF _ run(2,3)]) (simp add: run(1) [symmetric])
qed

lemma two_calls_typed:
  "distinct (map wn_id (wd_nodes two_calls))" "list_all (\<lambda>n. wn_type n \<in> set WORKFLOW_TYPES) (wd_nodes two_calls)"
  by code_simp+

theorem run_bounded_witness:
  "\<exists>run s'. sample_result = (Inr run, s') \<and> length (filter (again ''r'') (wr_reports run)) \<le> 1"
proof -
  obtain run s' where r: "sample_result = (Inr run, s')" by (rule sample_run_returns)
  have n: "wf ''r'' ''retry'' [(''target_node_id'', PStr ''a''), (''max_attempts'', PInt 1)] \<in> set (wd_nodes two_calls)"
    by (simp add: two_calls_def)
  have m: "py_int (config_or (PInt 1)
      (wn_config (wf ''r'' ''retry'' [(''target_node_id'', PStr ''a''), (''max_attempts'', PInt 1)])) ''max_attempts'') = Inr 1"
    by (simp add: wf_def config_or_def py_int_def)
  have "length (filter (again ''r'') (wr_reports run)) \<le> 1"
    using run_bounded [OF r [unfolded sample_result_def] two_calls_typed(1) n m] by (simp add: wf_def)
  with r show ?thesis by blast
qed

theorem run_status_exact_witness:
  "\<exists>run s'. sample_result = (Inr run, s') \<and> wr_status run = ''completed'' \<and>
     (\<exists>rep \<in> set (wr_reports run). nr_node_id rep = ''b'' \<and> \<not> nr_ok rep)"
proof -
  obtain run s' where r: "sample_result = (Inr run, s')"
    and reps: "map (\<lambda>rep. (nr_node_id rep, nr_ok rep)) (wr_reports run) =
      [(''s'', True), (''a'', False), (''r'', True), (''a'', False), (''r'', True), (''b'', False), (''e'', True)]"
    and st: "wr_status run = ''completed''" by (rule sample_run_returns)
  have "(''b'', False) \<in> set (map (\<lambda>rep. (nr_node_id rep, nr_ok rep)) (wr_reports run))" by (simp add: reps)
  then have b: "\<exists>rep \<in> set (wr_reports run). nr_node_id rep = ''b'' \<and> \<not> nr_ok rep" by auto
  have "length (wr_reports run) = 7" using arg_cong [OF reps, of length] by simp
  then have "wr_status run = ''failed'' \<longleftrightarrow> (\<exists>rep \<in> set (wr_reports run). \<not> nr_ok rep) \<and>
      (\<forall>rep \<in> set (wr_reports run). \<forall>k t. nr_detail rep \<noteq> Retry_Again k t)"
    using run_status_exact [OF r [unfolded sample_result_def] two_calls_typed(2)] by (simp add: MAX_WALK_STEPS_def)
  with r st b show ?thesis by blast
qed

section \<open>A validated workflow runs\<close>

text \<open>The types of the values that the validator does not look at.\<close>

definition config_typed :: "workflow_node \<Rightarrow> bool" where
  "config_typed n =
     (let get = dict_get (wn_config n)
      in if wn_type n = ''agent'' then
           (case get ''agent_id'' of PStr s \<Rightarrow> True | _ \<Rightarrow> False) \<and> (case get ''variables'' of PNone \<Rightarrow> True | PDict d \<Rightarrow> True | _ \<Rightarrow> False)
         else if wn_type n = ''extraction'' then
           (case get ''fields'' of PList fs \<Rightarrow> list_all (\<lambda>f. case f of PStr k \<Rightarrow> True | _ \<Rightarrow> False) fs | _ \<Rightarrow> False)
         else if wn_type n = ''retry'' then (case get ''max_attempts'' of PInt k \<Rightarrow> True | _ \<Rightarrow> False)
         else True)"

lemma field_values_typed:
  "list_all (\<lambda>f. case f of PStr k \<Rightarrow> True | _ \<Rightarrow> False) fs \<Longrightarrow> \<exists>vs. field_values variables acc fs = Some vs"
  by (induction fs arbitrary: acc) (auto simp: field_value_def split: pyval.splits)

lemma node_errors_each:
  "all_node_errors ns = Inr [] \<Longrightarrow> n \<in> set ns \<Longrightarrow> workflow_node_errors n = Inr []"
  by (induction ns) (auto split: sum.splits)

lemma wait_seconds_number:
  "py_less v (PInt 0) = Some False \<Longrightarrow> \<exists>w. wait_seconds v = Inr w"
  by (cases v) (auto simp: wait_seconds_def py_float_def is_number_def split: bool.splits)

lemma step_returns:
  assumes e: "workflow_node_errors n = Inr []" and t: "config_typed n"
  shows "\<exists>r' rows'. run_step d env to_number n r rows = (Inr r', rows')"
proof -
  let ?r = "r\<lparr>rs_steps := Suc (rs_steps r)\<rparr>"
  consider (agent) "wn_type n = ''agent''" | (retry) "wn_type n = ''retry''" | (ends) "wn_type n = ''end''"
    | (extraction) "wn_type n = ''extraction''" | (wait) "wn_type n = ''wait''"
    | (plain) "wn_type n \<notin> {''agent'', ''retry'', ''end'', ''extraction'', ''wait''}" by blast
  then show ?thesis
  proof cases
    case agent
    with t obtain s where s: "dict_get (wn_config n) ''agent_id'' = PStr s"
      by (auto simp: config_typed_def Let_def split: pyval.splits)
    with e agent have "s \<noteq> []" by (auto simp: workflow_node_errors_def Let_def)
    moreover from s have "map_of (wn_config n) ''agent_id'' = Some (PStr s)"
      by (simp add: dict_get_def split: option.splits)
    moreover have "\<exists>x. as_mapping (dict_get (wn_config n) ''variables'') = Inr x"
      using t agent by (auto simp: config_typed_def Let_def as_mapping_def split: pyval.splits)
    ultimately show ?thesis
      using agent by (auto simp: run_step_def Let_def agent_step_def py_str_def split: prod.splits)
  next
    case retry
    with t obtain k where "dict_get (wn_config n) ''max_attempts'' = PInt k"
      by (auto simp: config_typed_def Let_def split: pyval.splits)
    then have "config_or (PInt 1) (wn_config n) ''max_attempts'' = PInt k"
      by (simp add: dict_get_def config_or_def split: option.splits)
    then have "\<exists>o'. retry_target d n used ok = Inr o'" for used ok by (simp add: retry_target_def py_int_def)
    then obtain o' where "retry_target d n (Suc (attempts_of ?r (wn_id n))) (rs_last_ok ?r) = Inr o'" by blast
    then show ?thesis using retry by (cases o') (simp_all add: run_step_def retry_step_def Let_def)
  next
    case ends
    then show ?thesis by (simp add: run_step_def Let_def)
  next
    case extraction
    with t obtain fs where fs: "dict_get (wn_config n) ''fields'' = PList fs"
      and typed: "list_all (\<lambda>f. case f of PStr k \<Rightarrow> True | _ \<Rightarrow> False) fs"
      by (auto simp: config_typed_def Let_def split: pyval.splits)
    obtain vs where "field_values (rs_variables ?r) [] fs = Some vs" using field_values_typed [OF typed] by blast
    then show ?thesis
      using extraction fs by (simp add: run_step_def Let_def plain_step_def extraction_step_def iterate_def)
  next
    case wait
    have "config_or (PInt 0) (wn_config n) ''seconds'' =
        (case map_of (wn_config n) ''seconds'' of Some v \<Rightarrow> v | None \<Rightarrow> PInt 0)" by (simp add: config_or_def)
    with e wait have "py_less (config_or (PInt 0) (wn_config n) ''seconds'') (PInt 0) = Some False"
      by (auto simp: workflow_node_errors_def Let_def split: option.splits if_splits)
    from wait_seconds_number [OF this] wait show ?thesis
      by (auto simp: run_step_def Let_def plain_step_def)
  next
    case plain
    then show ?thesis by (auto simp: run_step_def Let_def plain_step_def)
  qed
qed

lemma loop_returns:
  assumes "\<And>n. n \<in> set (wd_nodes d) \<Longrightarrow> workflow_node_errors n = Inr [] \<and> config_typed n"
    and "bounded_run d r"
  shows "\<exists>r' rows'. run_loop d env to_number r rows = (Inr r', rows')"
  using assms
proof (induction d env to_number r rows rule: run_loop.induct)
  case (1 d env to_number r rows)
  show ?case
  proof (cases "rs_current r = None \<or> MAX_WALK_STEPS \<le> rs_steps r")
    case True
    then show ?thesis by (subst run_loop.simps) (auto split: option.splits)
  next
    case False
    then obtain n where n: "rs_current r = Some n" and m: "\<not> MAX_WALK_STEPS \<le> rs_steps r" by auto
    from "1.prems"(2) n have "n \<in> set (wd_nodes d)" by (simp add: bounded_run_def)
    with "1.prems"(1) step_returns obtain r1 rows1 where step: "run_step d env to_number n r rows = (Inr r1, rows1)"
      by metis
    have "bounded_run d r1"
      using run_step_cases [OF step] moved_bounded [OF "1.prems"(2) n] retried_bounded [OF "1.prems"(2) n] m
      by (metis not_le)
    from "1.IH" [OF n m step [symmetric] refl "1.prems"(1) this] show ?thesis
      using n m step by (subst run_loop.simps) simp
  qed
qed

lemma workflow_returns:
  assumes "validate_workflow d = Inr v" and "vr_valid v" and "list_all config_typed (wd_nodes d)"
  shows "\<exists>run rows. run_workflow d env run_id workflow_id to_number variables campaign s =
      (Inr run, rows, AList.update run_id run (snd s)) \<and> wr_status run \<in> {''completed'', ''failed''}"
proof -
  have none: "all_node_errors (wd_nodes d) = Inr []"
    using assms(1,2) by (auto simp: validate_workflow_def Let_def split: if_splits sum.splits)
  have "workflow_node_errors n = Inr [] \<and> config_typed n" if "n \<in> set (wd_nodes d)" for n
    using node_errors_each [OF none that] assms(3) that by (simp add: list_all_iff)
  from loop_returns [OF this bounded_first] obtain r rows where
    "run_loop d env (if truthy_str to_number then or_empty to_number else ''+910000000000'')
       (first_state d variables) (fst s) = (Inr r, rows)" by blast
  then show ?thesis by (simp add: run_workflow_def Let_def run_status_def)
qed



section \<open>A node reported unreachable is never run\<close>

lemma wf_node_known: "wf_node d i = None \<longleftrightarrow> i \<notin> set (map wn_id (wd_nodes d))"
  by (simp add: wf_node_def last_row_None)

lemma next_node_link:
  assumes "next_node d i ok = Some n" and "i \<in> set (map wn_id (wd_nodes d))"
  shows "(i, wn_id n) \<in> links (reach_targets d) (map wn_id (wd_nodes d))"
proof -
  have known: "wn_id n \<in> set (map wn_id (wd_nodes d))" using next_node_known [OF assms(1)] by simp
  have "wn_id n \<in> set (reach_targets d i)"
  proof (cases "out_edges d i = []")
    case True
    with assms(1) obtain j where "order_next (map wn_id (wd_nodes d)) i = Some j" "wf_node d j = Some n"
      by (auto simp: next_node_def split: option.splits)
    then show ?thesis using wf_node_id by (auto simp: reach_targets_def)
  next
    case False
    have "pick_edge (out_edges d i) ok \<in> set (out_edges d i)"
    proof -
      have "labelled l outs = Some e \<Longrightarrow> e \<in> set outs" for l outs e
        by (auto simp: labelled_def find_Some_iff)
      then show ?thesis using False by (auto simp: pick_edge_def Let_def split: option.splits)
    qed
    moreover have "wn_id n = we_to (pick_edge (out_edges d i) ok)"
      using assms(1) False wf_node_id by (simp add: next_node_def)
    ultimately show ?thesis by (auto simp: reach_targets_def out_edges_def)
  qed
  with assms(2) known show ?thesis by (simp add: links_def)
qed

definition inside :: "workflow_definition \<Rightarrow> string set \<Rightarrow> run_state \<Rightarrow> bool" where
  "inside d I r \<longleftrightarrow>
     (\<forall>n. rs_current r = Some n \<longrightarrow> n \<in> set (wd_nodes d) \<and> wn_id n \<in> I) \<and>
     (\<forall>rep \<in> set (rs_reports r). nr_node_id rep \<in> I)"

lemma step_inside:
  assumes "inside d I r" "rs_current r = Some n" "run_step d env to_number n r rows = (Inr r', rows')"
    and "list_all (\<lambda>n. wn_type n \<noteq> ''retry'') (wd_nodes d)"
    and "\<And>i j. i \<in> I \<Longrightarrow> (i, j) \<in> links (reach_targets d) (map wn_id (wd_nodes d)) \<Longrightarrow> j \<in> I"
  shows "inside d I r'"
proof -
  have n: "n \<in> set (wd_nodes d)" "wn_id n \<in> I" using assms(1,2) by (auto simp: inside_def)
  then have "wn_type n \<noteq> ''retry''" using assms(4) by (simp add: list_all_iff)
  with run_step_cases [OF assms(3)] have "moved d n r r'" by simp
  then obtain rep where cur: "rs_current r' = None \<or> rs_current r' = next_node d (wn_id n) (rs_last_ok r')"
    and rep: "rs_reports r' = rs_reports r @ rep" "\<forall>x \<in> set rep. nr_node_id x = wn_id n"
    unfolding moved_def by blast
  have "k \<in> set (wd_nodes d) \<and> wn_id k \<in> I" if "rs_current r' = Some k" for k
    using that cur next_node_known next_node_link n assms(5) by (metis image_eqI list.set_map option.distinct(1))
  with rep n(2) assms(1) show ?thesis by (auto simp: inside_def)
qed

text \<open>
  In a workflow without retry nodes, a node that the
  validator warns to be unreachable is reported by no run, whatever its calls return.
\<close>

theorem unreachable_never_run:
  assumes "validate_workflow d = Inr v" and "Workflow_Unreachable i \<in> set (vr_warnings v)"
    and "list_all (\<lambda>n. wn_type n \<noteq> ''retry'') (wd_nodes d)"
    and "run_workflow d env run_id workflow_id to_number variables campaign s = (Inr run, s')"
  shows "\<forall>rep \<in> set (wr_reports run). nr_node_id rep \<noteq> i"
proof -
  let ?ids = "map wn_id (wd_nodes d)"
  have "Workflow_Unreachable i \<in> set (unreachable_warnings d)"
    using assms(1,2) by (auto simp: validate_workflow_def Let_def split: if_splits sum.splits)
  then obtain st rest where st: "start_nodes d = st # rest" and i: "i \<notin> set (reach (reach_targets d) ?ids [] [wn_id st])"
    by (cases "start_nodes d") (auto simp: unreachable_warnings_def Let_def)
  have st_in: "st \<in> set (wd_nodes d)" using st by (metis filter_is_subset list.set_intros(1) start_nodes_def subsetD)
  let ?I = "(links (reach_targets d) ?ids)\<^sup>* `` {wn_id st}"
  have out: "i \<notin> ?I" using i reach_exact [of "wn_id st" ?ids "reach_targets d"] st_in by simp
  obtain r rows where r: "run_loop d env (if truthy_str to_number then or_empty to_number else ''+910000000000'')
       (first_state d variables) (fst s) = (Inr r, rows)" and reps: "wr_reports run = rs_reports r"
    using assms(4) by (auto simp: run_workflow_def Let_def split: sum.splits prod.splits)
  have first: "inside d ?I (first_state d variables)" using st st_in by (simp add: inside_def first_state_def)
  have "inside d ?I r \<and> (rs_current r = None \<or> MAX_WALK_STEPS \<le> rs_steps r)"
    by (rule run_loop_keeps [where P = "inside d ?I", OF r first])
       (rule step_inside [OF _ _ _ assms(3)], auto intro: rtrancl_into_rtrancl)
  with out show ?thesis by (auto simp: reps inside_def)
qed

definition skipping :: workflow_definition where
  "skipping =
     \<lparr>wd_nodes = [wf ''e'' ''end'' [], wf ''s'' ''start'' [], wf ''w'' ''wait'' []],
      wd_edges = []\<rparr>"

theorem unreachable_never_run_witness:
  "\<exists>run s'. run_workflow skipping sample_env ''run'' ''wf'' None [] None ([], []) = (Inr run, s') \<and>
     (\<forall>rep \<in> set (wr_reports run). nr_node_id rep \<noteq> ''e'')"
proof -
  have "map_sum (\<lambda>e. ()) (\<lambda>v. Workflow_Unreachable ''e'' \<in> set (vr_warnings v)) (validate_workflow skipping) = Inr True"
    by code_simp
  then obtain v where v: "validate_workflow skipping = Inr v" "Workflow_Unreachable ''e'' \<in> set (vr_warnings v)"
    by (cases "validate_workflow skipping") auto
  have t: "list_all (\<lambda>n. wn_type n \<noteq> ''retry'') (wd_nodes skipping)" by code_simp
  have "map_sum (\<lambda>e. ()) (\<lambda>r. ()) (fst (run_workflow skipping sample_env ''run'' ''wf'' None [] None ([], []))) = Inr ()"
    by code_simp
  then obtain run s' where r: "run_workflow skipping sample_env ''run'' ''wf'' None [] None ([], []) = (Inr run, s')"
    by (cases "run_workflow skipping sample_env ''run'' ''wf'' None [] None ([], [])";
        cases "fst (run_workflow skipping sample_env ''run'' ''wf'' None [] None ([], []))") auto
  from unreachable_never_run [OF v t r] r show ?thesis by blast
qed

end
