(* ===== verification/Campaigns.thy ===== *)
theory Campaigns
  imports Workflows
begin

text \<open>
  Driving many calls: calling hours and batches (\<open>platform/simulation.py\<close>), workflow campaigns
  (\<open>run_campaign\<close> of \<open>platform/workflows.py\<close>), the start and stop endpoints of \<open>platform/router.py\<close>,
  over the records of \<open>platform/store.py\<close>. The store hands out copies: a record that was read changes
  in the store only when it is saved.

  Other requests run at the suspension points. \<open>during k\<close> is what they do to the store while the
  call or the run of entry \<open>k\<close> is awaited. Batches dialled through Talko are not modelled. A stored
  workflow definition is held parsed.
\<close>

section \<open>Records\<close>

datatype job_status = Draft | Scheduled | Running | Paused | Completed | Stopped

record job_stats =
  js_total :: int
  js_queued :: int
  js_completed :: int
  js_failed :: int

type_synonym entry = "string \<times> pydict"

record calling_hours =
  ch_start :: string
  ch_end :: string

record batch =
  ba_batch_id :: string
  ba_agent_id :: string
  ba_status :: job_status
  ba_entries :: "entry list"
  ba_stats :: job_stats
  ba_calling_hours :: "calling_hours option"
  ba_started_at :: "rat option"
  ba_ended_at :: "rat option"

record campaign =
  ca_campaign_id :: string
  ca_workflow_id :: string
  ca_status :: job_status
  ca_entries :: "entry list"
  ca_stats :: job_stats
  ca_started_at :: "rat option"
  ca_ended_at :: "rat option"

record platform_store =
  ps_executions :: execution_rows
  ps_runs :: "(string \<times> workflow_run) list"
  ps_batches :: "(string \<times> batch) list"
  ps_campaigns :: "(string \<times> campaign) list"
  ps_workflows :: "(string \<times> workflow_definition) list"

definition get_batch :: "string \<Rightarrow> platform_store \<Rightarrow> batch option" where
  "get_batch i s = map_of (ps_batches s) i"

definition save_batch :: "batch \<Rightarrow> platform_store \<Rightarrow> platform_store" where
  "save_batch b s = s\<lparr>ps_batches := AList.update (ba_batch_id b) b (ps_batches s)\<rparr>"

definition get_campaign :: "string \<Rightarrow> platform_store \<Rightarrow> campaign option" where
  "get_campaign i s = map_of (ps_campaigns s) i"

definition save_campaign :: "campaign \<Rightarrow> platform_store \<Rightarrow> platform_store" where
  "save_campaign c s = s\<lparr>ps_campaigns := AList.update (ca_campaign_id c) c (ps_campaigns s)\<rparr>"

section \<open>Calling hours\<close>

text \<open>\<open>_minutes\<close>, on the two-digit bounds that the model's pattern admits.\<close>

definition minutes :: "string \<Rightarrow> nat" where
  "minutes hhmm = (let (hour, rest) = split_at (CHR '':'') hhmm in nat_of_digits hour * 60 + nat_of_digits (or_empty rest))"

definition is_within_calling_hours :: "nat \<Rightarrow> nat \<Rightarrow> calling_hours \<Rightarrow> bool" where
  "is_within_calling_hours hour minute window =
     (let current = hour * 60 + minute; start = minutes (ch_start window); end = minutes (ch_end window)
      in if start = end then False
         else if start < end then start \<le> current \<and> current < end
         else start \<le> current \<or> current < end)"

section \<open>Batches\<close>

definition count_outcome :: "bool \<Rightarrow> job_stats \<Rightarrow> job_stats" where
  "count_outcome ok st =
     (let st1 = st\<lparr>js_queued := js_queued st - 1\<rparr>
      in if ok then st1\<lparr>js_completed := js_completed st1 + 1\<rparr> else st1\<lparr>js_failed := js_failed st1 + 1\<rparr>)"

definition fill_stats :: "nat \<Rightarrow> job_stats \<Rightarrow> job_stats" where
  "fill_stats n st = st\<lparr>js_total := int n, js_queued := int n\<rparr>"

text \<open>The calls of a batch: the id of the call of entry \<open>k\<close> and the instants it begins and ends.\<close>

record dial_env =
  de_fresh :: "nat \<Rightarrow> string"
  de_begin :: "nat \<Rightarrow> rat"
  de_end :: "nat \<Rightarrow> rat"

definition run_entry ::
  "dial_env \<Rightarrow> string \<Rightarrow> (nat \<Rightarrow> platform_store \<Rightarrow> platform_store) \<Rightarrow> batch \<Rightarrow> nat \<Rightarrow> entry \<Rightarrow> platform_store \<Rightarrow> platform_store" where
  "run_entry env agent during b k entry s =
     (case get_batch (ba_batch_id b) s of
        None \<Rightarrow> s
      | Some current \<Rightarrow>
          (if ba_status current \<noteq> Running then s
           else let (e, rows) = run_simulated_call save_execution (de_fresh env k) (de_begin env k) (de_end env k)
                      agent (fst entry) None (snd entry) (Some (ba_batch_id b)) (ps_executions s);
                    s1 = during k (s\<lparr>ps_executions := rows\<rparr>)
                in case get_batch (ba_batch_id b) s1 of
                     None \<Rightarrow> s1
                   | Some latest \<Rightarrow>
                       save_batch (latest\<lparr>ba_stats := count_outcome (ex_status e \<in> {COMPLETED, IN_PROGRESS}) (ba_stats latest)\<rparr>) s1))"

fun run_entries ::
  "dial_env \<Rightarrow> string \<Rightarrow> (nat \<Rightarrow> platform_store \<Rightarrow> platform_store) \<Rightarrow> batch \<Rightarrow> nat \<Rightarrow> entry list \<Rightarrow> platform_store \<Rightarrow>
     batch \<times> platform_store" where
  "run_entries env agent during b k [] s = (b, s)"
| "run_entries env agent during b k (entry # entries) s =
     (case get_batch (ba_batch_id b) s of
        None \<Rightarrow> (b, s)
      | Some current \<Rightarrow>
          (if ba_status current \<noteq> Running then (current, s)
           else let s1 = run_entry env agent during b k entry s;
                    b1 = (case get_batch (ba_batch_id b) s1 of Some x \<Rightarrow> x | None \<Rightarrow> b)
                in run_entries env agent during b1 (Suc k) entries s1))"

definition run_batch ::
  "dial_env \<Rightarrow> (nat \<Rightarrow> platform_store \<Rightarrow> platform_store) \<Rightarrow> rat \<Rightarrow> rat \<Rightarrow> string \<Rightarrow> platform_store \<Rightarrow>
     batch option \<times> platform_store" where
  "run_batch env during start now i s =
     (case get_batch i s of
        None \<Rightarrow> (None, s)
      | Some b0 \<Rightarrow>
          (if ba_status b0 \<notin> {Draft, Scheduled, Running} then (Some b0, s)
           else let b1 = b0\<lparr>ba_status := Running, ba_started_at := Some start,
                            ba_stats := fill_stats (length (ba_entries b0)) (ba_stats b0)\<rparr>;
                    (b2, s2) = run_entries env (ba_agent_id b0) during b1 0 (ba_entries b1) (save_batch b1 s);
                    b3 = (if ba_status b2 = Running then b2\<lparr>ba_status := Completed, ba_ended_at := Some now\<rparr> else b2)
                in (Some b3, save_batch b3 s2)))"

definition stop_batch :: "rat \<Rightarrow> string \<Rightarrow> platform_store \<Rightarrow> platform_store" where
  "stop_batch now i s =
     (case get_batch i s of
        None \<Rightarrow> s
      | Some b \<Rightarrow>
          (if ba_status b \<notin> {Stopped, Completed}
           then save_batch (b\<lparr>ba_status := Stopped, ba_ended_at := Some now\<rparr>) s else s))"

datatype http_error = Not_Found | Conflict

definition start_batch ::
  "dial_env \<Rightarrow> (nat \<Rightarrow> platform_store \<Rightarrow> platform_store) \<Rightarrow> nat \<Rightarrow> nat \<Rightarrow> rat \<Rightarrow> rat \<Rightarrow> string \<Rightarrow> platform_store \<Rightarrow>
     (http_error + batch option) \<times> platform_store" where
  "start_batch env during hour minute start now i s =
     (case get_batch i s of
        None \<Rightarrow> (Inl Not_Found, s)
      | Some b \<Rightarrow>
          (if ba_status b \<notin> {Draft, Scheduled} then (Inl Conflict, s)
           else if (case ba_calling_hours b of None \<Rightarrow> False | Some w \<Rightarrow> \<not> is_within_calling_hours hour minute w)
             then (Inl Conflict, s)
           else let (r, s') = run_batch env during start now i s in (Inr r, s')))"

section \<open>Campaigns\<close>

record campaign_env =
  ce_run :: "nat \<Rightarrow> run_env"
  ce_run_id :: "nat \<Rightarrow> string"

fun campaign_entries ::
  "campaign_env \<Rightarrow> (nat \<Rightarrow> platform_store \<Rightarrow> platform_store) \<Rightarrow> workflow_definition \<Rightarrow> campaign \<Rightarrow> nat \<Rightarrow>
     entry list \<Rightarrow> platform_store \<Rightarrow> (py_error + campaign) \<times> platform_store" where
  "campaign_entries env during d c k [] s = (Inr c, s)"
| "campaign_entries env during d c k (entry # entries) s =
     (case get_campaign (ca_campaign_id c) s of
        None \<Rightarrow> (Inr c, s)
      | Some current \<Rightarrow>
          (if ca_status current \<noteq> Running then (Inr current, s)
           else let (res, rows, runs) = run_workflow d (ce_run env k) (ce_run_id env k) (ca_workflow_id c)
                      (Some (fst entry)) (snd entry) (Some (ca_campaign_id c)) (ps_executions s, ps_runs s);
                    s1 = during k (s\<lparr>ps_executions := rows, ps_runs := runs\<rparr>)
                in case res of
                     Inl err \<Rightarrow> (Inl err, s1)
                   | Inr run \<Rightarrow>
                       (let c1 = c\<lparr>ca_stats := count_outcome (wr_status run = ''completed'') (ca_stats c)\<rparr>
                        in campaign_entries env during d c1 (Suc k) entries (save_campaign c1 s1))))"

definition run_campaign ::
  "campaign_env \<Rightarrow> (nat \<Rightarrow> platform_store \<Rightarrow> platform_store) \<Rightarrow> rat \<Rightarrow> rat \<Rightarrow> string \<Rightarrow> platform_store \<Rightarrow>
     (py_error + campaign option) \<times> platform_store" where
  "run_campaign env during start now i s =
     (case get_campaign i s of
        None \<Rightarrow> (Inr None, s)
      | Some c0 \<Rightarrow>
          (if ca_status c0 \<notin> {Draft, Scheduled, Running} then (Inr (Some c0), s)
           else case map_of (ps_workflows s) (ca_workflow_id c0) of
                  None \<Rightarrow> (Inr (Some c0), s)
                | Some d \<Rightarrow>
                    (let c1 = c0\<lparr>ca_status := Running, ca_started_at := Some start,
                                 ca_stats := fill_stats (length (ca_entries c0)) (ca_stats c0)\<rparr>
                     in case campaign_entries env during d c1 0 (ca_entries c1) (save_campaign c1 s) of
                          (Inl err, s2) \<Rightarrow> (Inl err, s2)
                        | (Inr c2, s2) \<Rightarrow>
                            (let c3 = (if ca_status c2 = Running
                                       then c2\<lparr>ca_status := Completed, ca_ended_at := Some now\<rparr> else c2)
                             in (Inr (Some c3), save_campaign c3 s2)))))"

definition stop_campaign :: "rat \<Rightarrow> string \<Rightarrow> platform_store \<Rightarrow> platform_store" where
  "stop_campaign now i s =
     (case get_campaign i s of
        None \<Rightarrow> s
      | Some c \<Rightarrow>
          (if ca_status c \<notin> {Stopped, Completed}
           then save_campaign (c\<lparr>ca_status := Stopped, ca_ended_at := Some now\<rparr>) s else s))"

definition start_campaign ::
  "campaign_env \<Rightarrow> (nat \<Rightarrow> platform_store \<Rightarrow> platform_store) \<Rightarrow> rat \<Rightarrow> rat \<Rightarrow> string \<Rightarrow> platform_store \<Rightarrow>
     (http_error + py_error + campaign option) \<times> platform_store" where
  "start_campaign env during start now i s =
     (case get_campaign i s of
        None \<Rightarrow> (Inl Not_Found, s)
      | Some c \<Rightarrow>
          (if ca_status c \<notin> {Draft, Scheduled} then (Inl Conflict, s)
           else let (r, s') = run_campaign env during start now i s in (Inr r, s')))"

section \<open>Calling hours split the day\<close>

text \<open>
  A window whose bounds are equal is closed at any time;
  otherwise, at every minute of the day, exactly one of the window and the window with swapped
  bounds is open, so a window over midnight is the complement of the day window between its bounds.
\<close>

theorem calling_hours_split:
  "is_within_calling_hours h m \<lparr>ch_start = a, ch_end = b\<rparr> \<longleftrightarrow>
     minutes a \<noteq> minutes b \<and> \<not> is_within_calling_hours h m \<lparr>ch_start = b, ch_end = a\<rparr>"
  by (auto simp: is_within_calling_hours_def Let_def)

section \<open>A stop during a batch is honoured\<close>

lemma batch_store [simp]:
  "get_batch i (save_batch b s) = (if i = ba_batch_id b then Some b else get_batch i s)"
  "get_batch i (s\<lparr>ps_executions := x\<rparr>) = get_batch i s"
  by (simp_all add: get_batch_def save_batch_def update_conv')

lemma count_outcome_simps [simp]:
  "js_total (count_outcome ok st) = js_total st" "js_queued (count_outcome ok st) = js_queued st - 1"
  "js_completed (count_outcome ok st) + js_failed (count_outcome ok st) = js_completed st + js_failed st + 1"
  by (simp_all add: count_outcome_def Let_def)

definition stop_at :: "(rat \<Rightarrow> string \<Rightarrow> platform_store \<Rightarrow> platform_store) \<Rightarrow> nat option \<Rightarrow> rat \<Rightarrow> string \<Rightarrow>
    nat \<Rightarrow> platform_store \<Rightarrow> platform_store" where
  "stop_at stop j now i k s = (if j = Some k then stop now i s else s)"

definition settled_stats :: "job_stats \<Rightarrow> int \<Rightarrow> job_stats \<Rightarrow> bool" where
  "settled_stats st0 k st \<longleftrightarrow>
     js_total st = js_total st0 \<and> js_queued st = js_queued st0 - k \<and>
     js_completed st + js_failed st = js_completed st0 + js_failed st0 + k"

lemma settled_outcome: "settled_stats st0 k st \<Longrightarrow> settled_stats st0 (k + 1) (count_outcome ok st)"
  by (simp add: settled_stats_def)

lemma run_entry_running:
  assumes "get_batch (ba_batch_id b) s = Some b" and "ba_status b = Running"
  shows "\<exists>ok b' s'. run_entry env agent (stop_at stop_batch j now (ba_batch_id b)) b k entry s = s' \<and>
    get_batch (ba_batch_id b) s' = Some b' \<and> ba_batch_id b' = ba_batch_id b \<and>
    ba_status b' = (if j = Some k then Stopped else Running) \<and> ba_stats b' = count_outcome ok (ba_stats b)"
proof -
  obtain e rows where call: "run_simulated_call save_execution (de_fresh env k) (de_begin env k) (de_end env k)
      agent (fst entry) None (snd entry) (Some (ba_batch_id b)) (ps_executions s) = (e, rows)" by fastforce
  show ?thesis
    using assms call by (simp add: run_entry_def stop_at_def stop_batch_def Let_def) blast
qed

lemma run_entries_stop:
  assumes "get_batch i s = Some b" and "ba_batch_id b = i" and "ba_status b = Running"
    and "settled_stats st0 (int k) (ba_stats b)"
  shows "\<exists>b' s'. run_entries env agent (stop_at stop_batch j now i) b k entries s = (b', s') \<and> ba_batch_id b' = i \<and>
    (if \<exists>m. j = Some m \<and> k \<le> m \<and> m < k + length entries
     then ba_status b' = Stopped \<and> settled_stats st0 (int (Suc (the j))) (ba_stats b')
     else ba_status b' = Running \<and> settled_stats st0 (int (k + length entries)) (ba_stats b'))"
  using assms
proof (induction entries arbitrary: b k s)
  case (Cons entry entries)
  let ?during = "stop_at stop_batch j now i"
  from run_entry_running [of b s env agent j now k entry] Cons.prems obtain ok b1 s1
    where e: "run_entry env agent ?during b k entry s = s1" and g: "get_batch i s1 = Some b1" and id: "ba_batch_id b1 = i"
      and st: "ba_status b1 = (if j = Some k then Stopped else Running)" "ba_stats b1 = count_outcome ok (ba_stats b)"
    by auto
  have run: "run_entries env agent ?during b k (entry # entries) s = run_entries env agent ?during b1 (Suc k) entries s1"
    using Cons.prems e g by (simp add: Let_def)
  have settled: "settled_stats st0 (int (Suc k)) (ba_stats b1)"
    using settled_outcome [OF Cons.prems(4)] st(2) by (simp add: add.commute)
  show ?case
  proof (cases "j = Some k")
    case True
    have "run_entries env agent ?during b1 (Suc k) entries s1 = (b1, s1)"
      using g id st(1) True by (cases entries) simp_all
    then show ?thesis using run True st(1) settled id by simp
  next
    case False
    then have "ba_status b1 = Running" using st(1) by simp
    from Cons.IH [OF g id this settled] obtain b' s' where ih:
      "run_entries env agent ?during b1 (Suc k) entries s1 = (b', s')" "ba_batch_id b' = i"
      "if \<exists>m. j = Some m \<and> Suc k \<le> m \<and> m < Suc k + length entries
       then ba_status b' = Stopped \<and> settled_stats st0 (int (Suc (the j))) (ba_stats b')
       else ba_status b' = Running \<and> settled_stats st0 (int (Suc k + length entries)) (ba_stats b')" by blast
    have within: "(\<exists>m. j = Some m \<and> Suc k \<le> m \<and> m < Suc k + length entries) =
        (\<exists>m. j = Some m \<and> k \<le> m \<and> m < k + length (entry # entries))"
      using False by (auto simp: le_Suc_eq)
    have len: "Suc k + length entries = k + length (entry # entries)" by simp
    show ?thesis unfolding run using ih(1,2) ih(3) [unfolded within, unfolded len] by blast
  qed
qed simp


definition sample_batch :: batch where
  "sample_batch =
     \<lparr>ba_batch_id = ''b1'', ba_agent_id = ''a1'', ba_status = Draft,
      ba_entries = [(''+1'', []), (''+2'', [(''force_outcome'', PStr ''busy'')]), (''+3'', [])],
      ba_stats = \<lparr>js_total = 3, js_queued = 3, js_completed = 0, js_failed = 0\<rparr>, ba_calling_hours = None,
      ba_started_at = None, ba_ended_at = None\<rparr>"

definition sample_platform :: platform_store where
  "sample_platform =
     \<lparr>ps_executions = [], ps_runs = [], ps_batches = [(''b1'', sample_batch)], ps_campaigns = [], ps_workflows = []\<rparr>"

definition sample_dial :: dial_env where
  "sample_dial = \<lparr>de_fresh = (\<lambda>k. replicate (Suc k) (CHR ''x'')), de_begin = (\<lambda>k. 0), de_end = (\<lambda>k. 3)\<rparr>"


section \<open>A stop during a campaign is overwritten\<close>

lemma campaign_store [simp]:
  "get_campaign i (save_campaign c s) = (if i = ca_campaign_id c then Some c else get_campaign i s)"
  by (simp add: get_campaign_def save_campaign_def update_conv')

lemma campaign_entries_run:
  assumes v: "validate_workflow d = Inr v" "vr_valid v" "list_all config_typed (wd_nodes d)"
    and "get_campaign i s = Some c" and "ca_campaign_id c = i" and "ca_status c = Running"
    and "settled_stats st0 (int k) (ca_stats c)"
  shows "\<exists>c' s'. campaign_entries env during d c k entries s = (Inr c', s') \<and> ca_campaign_id c' = i \<and>
    ca_status c' = Running \<and> settled_stats st0 (int (k + length entries)) (ca_stats c')"
  using assms(4-)
proof (induction entries arbitrary: c k s)
  case (Cons entry entries)
  obtain run rows runs where run: "run_workflow d (ce_run env k) (ce_run_id env k) (ca_workflow_id c)
      (Some (fst entry)) (snd entry) (Some (ca_campaign_id c)) (ps_executions s, ps_runs s) = (Inr run, rows, runs)"
    using workflow_returns [OF v, of "ce_run env k" "ce_run_id env k" "ca_workflow_id c" "Some (fst entry)" "snd entry"
        "Some (ca_campaign_id c)" "(ps_executions s, ps_runs s)"] by auto
  let ?s1 = "during k (s\<lparr>ps_executions := rows, ps_runs := runs\<rparr>)"
  let ?c1 = "c\<lparr>ca_stats := count_outcome (wr_status run = ''completed'') (ca_stats c)\<rparr>"
  have step: "campaign_entries env during d c k (entry # entries) s =
      campaign_entries env during d ?c1 (Suc k) entries (save_campaign ?c1 ?s1)"
    using Cons.prems run by (simp add: Let_def)
  have settled: "settled_stats st0 (int (Suc k)) (ca_stats ?c1)"
    using settled_outcome [OF Cons.prems(4)] by (simp add: add.commute)
  have "get_campaign i (save_campaign ?c1 ?s1) = Some ?c1" "ca_campaign_id ?c1 = i" "ca_status ?c1 = Running"
    using Cons.prems by simp_all
  from Cons.IH [OF this settled] show ?case unfolding step by simp
qed simp

text \<open>
  A started campaign over a valid workflow runs
  every entry and ends completed with counters that add up, whatever other requests do to the store
  while an entry runs: a stop that arrives then is overwritten by the runner's own copy of the
  campaign.
\<close>

theorem campaign_ignores_stop:
  assumes "validate_workflow d = Inr v" and "vr_valid v" and "list_all config_typed (wd_nodes d)"
    and "get_campaign i s = Some c" and "ca_campaign_id c = i" and "ca_status c \<in> {Draft, Scheduled}"
    and "js_completed (ca_stats c) = 0" and "js_failed (ca_stats c) = 0"
    and "map_of (ps_workflows s) (ca_workflow_id c) = Some d"
  shows "\<exists>c' s'. run_campaign env during start now i s = (Inr (Some c'), s') \<and> get_campaign i s' = Some c' \<and>
    ca_status c' = Completed \<and> js_queued (ca_stats c') = 0 \<and>
    js_completed (ca_stats c') + js_failed (ca_stats c') = int (length (ca_entries c)) \<and>
    js_total (ca_stats c') = int (length (ca_entries c))"
proof -
  let ?c1 = "c\<lparr>ca_status := Running, ca_started_at := Some start,
                ca_stats := fill_stats (length (ca_entries c)) (ca_stats c)\<rparr>"
  have "get_campaign i (save_campaign ?c1 s) = Some ?c1" "ca_campaign_id ?c1 = i" "ca_status ?c1 = Running"
    using assms(5) by simp_all
  moreover have "settled_stats (ca_stats ?c1) (int 0) (ca_stats ?c1)" by (simp add: settled_stats_def)
  ultimately obtain c2 s2 where r: "campaign_entries env during d ?c1 0 (ca_entries c) (save_campaign ?c1 s) = (Inr c2, s2)"
    and c2: "ca_campaign_id c2 = i" "ca_status c2 = Running"
      "settled_stats (ca_stats ?c1) (int (0 + length (ca_entries c))) (ca_stats c2)"
    using campaign_entries_run [OF assms(1-3), of i "save_campaign ?c1 s" ?c1 "ca_stats ?c1" 0 env during "ca_entries c"]
    by blast
  let ?c3 = "c2\<lparr>ca_status := Completed, ca_ended_at := Some now\<rparr>"
  have "run_campaign env during start now i s = (Inr (Some ?c3), save_campaign ?c3 s2)"
    using assms(4,6,9) r c2(2) by (auto simp: run_campaign_def Let_def)
  then show ?thesis
    using c2 assms(7,8) by (intro exI [of _ ?c3] exI [of _ "save_campaign ?c3 s2"]) (simp add: settled_stats_def fill_stats_def)
qed

definition sample_campaign :: campaign where
  "sample_campaign =
     \<lparr>ca_campaign_id = ''c1'', ca_workflow_id = ''w1'', ca_status = Draft, ca_entries = [(''+1'', []), (''+2'', [])],
      ca_stats = \<lparr>js_total = 0, js_queued = 0, js_completed = 0, js_failed = 0\<rparr>,
      ca_started_at = None, ca_ended_at = None\<rparr>"

definition campaign_platform :: platform_store where
  "campaign_platform =
     \<lparr>ps_executions = [], ps_runs = [], ps_batches = [], ps_campaigns = [(''c1'', sample_campaign)],
      ps_workflows = [(''w1'', two_calls)]\<rparr>"

definition sample_campaign_env :: campaign_env where
  "sample_campaign_env = \<lparr>ce_run = (\<lambda>k. sample_env), ce_run_id = (\<lambda>k. replicate (Suc k) (CHR ''r''))\<rparr>"

theorem campaign_ignores_stop_witness:
  "\<exists>c' s'. run_campaign sample_campaign_env (stop_at stop_campaign (Some 0) 5 ''c1'') 0 9 ''c1'' campaign_platform =
       (Inr (Some c'), s') \<and> ca_status c' = Completed \<and> js_queued (ca_stats c') = 0"
proof -
  have "map_sum (\<lambda>e. ()) vr_valid (validate_workflow two_calls) = Inr True" by code_simp
  then obtain v where v: "validate_workflow two_calls = Inr v" "vr_valid v"
    by (cases "validate_workflow two_calls") auto
  have t: "list_all config_typed (wd_nodes two_calls)" by code_simp
  have c: "get_campaign ''c1'' campaign_platform = Some sample_campaign" "ca_campaign_id sample_campaign = ''c1''"
    "ca_status sample_campaign \<in> {Draft, Scheduled}" "js_completed (ca_stats sample_campaign) = 0"
    "js_failed (ca_stats sample_campaign) = 0"
    "map_of (ps_workflows campaign_platform) (ca_workflow_id sample_campaign) = Some two_calls"
    by (simp_all add: get_campaign_def campaign_platform_def sample_campaign_def)
  from campaign_ignores_stop [OF v t c] show ?thesis by blast
qed

end
