(* ===== verification/Typed_Rows.thy ===== *)
theory Typed_Rows
  imports Prelude
begin

text \<open>
  The in-memory backend of \<open>database/repository.py\<close> over typed rows, for the collections of the auth
  and tools modules: a dict from ids to rows in insertion order, each live or soft-deleted, with
  the bounded lookup of that backend. A collection stands for one tenant's view.
\<close>

section \<open>Collections of typed rows\<close>

datatype 'a row = Live 'a | Retired 'a

type_synonym 'a rows = "(string \<times> 'a row) list"

fun live_row :: "'a row \<Rightarrow> 'a option" where
  "live_row (Live x) = Some x"
| "live_row (Retired x) = None"

definition live_rows :: "'a rows \<Rightarrow> 'a list" where
  "live_rows c = List.map_filter (live_row \<circ> snd) c"

definition LOOKUP_LIMIT :: nat where "LOOKUP_LIMIT = 100"

definition rows_insert :: "string \<Rightarrow> 'a \<Rightarrow> 'a rows \<Rightarrow> 'a rows" where
  "rows_insert i x c = AList.update i (Live x) c"

definition rows_get :: "string \<Rightarrow> 'a rows \<Rightarrow> 'a option" where
  "rows_get i c = Option.bind (map_of c i) live_row"

definition rows_find_one :: "('a \<Rightarrow> bool) \<Rightarrow> 'a rows \<Rightarrow> 'a option" where
  "rows_find_one P c = find P (live_rows c)"

definition rows_find_many :: "('a \<Rightarrow> bool) \<Rightarrow> 'a rows \<Rightarrow> 'a list" where
  "rows_find_many P c = take LOOKUP_LIMIT (filter P (live_rows c))"

definition rows_soft_delete :: "string \<Rightarrow> 'a rows \<Rightarrow> bool \<times> 'a rows" where
  "rows_soft_delete i c =
     (case rows_get i c of
        None \<Rightarrow> (False, c)
      | Some x \<Rightarrow> (True, AList.update i (Retired x) c))"

text \<open>A collection whose rows are stored under the key they carry.\<close>

definition keyed :: "('a \<Rightarrow> string) \<Rightarrow> 'a rows \<Rightarrow> bool" where
  "keyed key c = (distinct (map fst c) \<and> list_all (\<lambda>(i, r). case r of Live x \<Rightarrow> key x = i | Retired x \<Rightarrow> True) c)"

named_theorems rows_simps

lemma rows_get_insert [rows_simps]:
  "rows_get i (rows_insert j x c) = (if i = j then Some x else rows_get i c)"
  by (simp add: rows_get_def rows_insert_def map_of_dict_update)

lemma rows_get_soft_delete [rows_simps]:
  "rows_get i (snd (rows_soft_delete j c)) = (if i = j then None else rows_get i c)"
  by (auto simp: rows_soft_delete_def rows_get_def map_of_dict_update split: option.splits)

lemma fst_rows_soft_delete [rows_simps]: "fst (rows_soft_delete j c) = (rows_get j c \<noteq> None)"
  by (simp add: rows_soft_delete_def split: option.splits)

lemma keyed_Nil [rows_simps]: "keyed key []"
  by (simp add: keyed_def)

lemma keyed_Cons [rows_simps]:
  "keyed key ((i, r) # c) \<longleftrightarrow>
     i \<notin> fst ` set c \<and> (case r of Live x \<Rightarrow> key x = i | Retired x \<Rightarrow> True) \<and> keyed key c"
  by (auto simp: keyed_def)

lemma keyed_entry: "keyed key c \<Longrightarrow> (i, Live x) \<in> set c \<Longrightarrow> key x = i"
  by (fastforce simp: keyed_def list_all_iff)

lemma keyed_update:
  assumes "keyed key c" and "case r of Live x \<Rightarrow> key x = i | Retired x \<Rightarrow> True"
  shows "keyed key (AList.update i r c)"
proof -
  have "(j, q) \<in> set (AList.update i r c) \<Longrightarrow> (j, q) = (i, r) \<or> (j, q) \<in> set c" for j q
    by (induction c) (auto split: if_splits)
  then show ?thesis
    using assms by (fastforce simp: keyed_def distinct_keys_update list_all_iff)
qed

lemma keyed_insert [rows_simps]: "keyed key c \<Longrightarrow> key x = i \<Longrightarrow> keyed key (rows_insert i x c)"
  by (simp add: rows_insert_def keyed_update)

lemma keyed_soft_delete [rows_simps]: "keyed key c \<Longrightarrow> keyed key (snd (rows_soft_delete i c))"
  by (auto simp: rows_soft_delete_def keyed_update split: option.splits)

lemma live_rows_simps [rows_simps]:
  "live_rows [] = []"
  "live_rows ((i, Live x) # c) = x # live_rows c"
  "live_rows ((i, Retired x) # c) = live_rows c"
  by (simp_all add: live_rows_def List.map_filter_def)

lemma set_live_rows: "set (live_rows c) = {x. \<exists>i. (i, Live x) \<in> set c}"
proof (induction c)
  case (Cons ir c)
  then show ?case by (cases ir; cases "snd ir") (auto simp: rows_simps)
qed (simp add: rows_simps)

lemma rows_get_Some: "keyed key c \<Longrightarrow> rows_get i c = Some x \<longleftrightarrow> (i, Live x) \<in> set c"
  by (auto simp: rows_get_def keyed_def bind_eq_Some_conv elim: live_row.elims dest: map_of_SomeD
      intro: map_of_is_SomeI exI [of _ "Live x"])

lemma rows_get_key: "keyed key c \<Longrightarrow> rows_get i c = Some x \<Longrightarrow> key x = i"
  by (simp add: rows_get_Some keyed_entry)

lemma in_live_rows: "keyed key c \<Longrightarrow> x \<in> set (live_rows c) \<longleftrightarrow> rows_get (key x) c = Some x"
  by (auto simp: set_live_rows rows_get_Some dest: keyed_entry)

lemma rows_find_one_Some:
  assumes "keyed key c" and "rows_find_one P c = Some x"
  shows "P x" and "rows_get (key x) c = Some x"
  using assms(2) in_live_rows [OF assms(1), of x] by (auto simp: rows_find_one_def find_Some_iff)

lemma rows_find_one_None: "rows_find_one P c = None \<longleftrightarrow> (\<forall>x \<in> set (live_rows c). \<not> P x)"
  by (auto simp: rows_find_one_def find_None_iff)

text \<open>A deletion removes exactly the row of its key from the listing.\<close>

lemma live_rows_other:
  assumes "keyed key c" and "i \<notin> fst ` set c"
  shows "filter (\<lambda>y. key y \<noteq> i) (live_rows c) = live_rows c"
  using assms by (force simp: filter_id_conv set_live_rows dest: keyed_entry)

lemma live_rows_retire:
  "keyed key c \<Longrightarrow> (i, Live x) \<in> set c \<Longrightarrow>
     live_rows (AList.update i (Retired x) c) = filter (\<lambda>y. key y \<noteq> i) (live_rows c)"
proof (induction c)
  case (Cons jr c)
  obtain j r where jr: "jr = (j, r)" by fastforce
  then have c: "keyed key c" and j: "j \<notin> fst ` set c"
    and r: "case r of Live y \<Rightarrow> key y = j | Retired y \<Rightarrow> True"
    using Cons.prems(1) by (simp_all add: rows_simps)
  show ?case
  proof (cases "i = j")
    case True
    then have "r = Live x" using Cons.prems(2) jr j by force
    then show ?thesis using r live_rows_other [OF c j] True jr by (simp add: rows_simps)
  next
    case False
    then have "(i, Live x) \<in> set c" using Cons.prems(2) jr by auto
    then show ?thesis using Cons.IH [OF c] r False jr by (cases r) (auto simp: rows_simps)
  qed
qed simp

lemma live_rows_soft_delete:
  assumes "keyed key c"
  shows "live_rows (snd (rows_soft_delete i c)) = filter (\<lambda>y. key y \<noteq> i) (live_rows c)"
proof (cases "rows_get i c")
  case None
  have "key y \<noteq> i" if "y \<in> set (live_rows c)" for y
    using that None in_live_rows [OF assms, of y] by auto
  then show ?thesis by (simp add: rows_soft_delete_def None filter_id_conv)
next
  case (Some x)
  moreover from this have "(i, Live x) \<in> set c" using assms by (simp add: rows_get_Some)
  ultimately show ?thesis by (simp add: rows_soft_delete_def live_rows_retire [OF assms])
qed

lemma live_rows_distinct: "keyed key c \<Longrightarrow> distinct (map key (live_rows c))"
proof (induction c)
  case (Cons ir c)
  obtain i r where ir: "ir = (i, r)" by fastforce
  then have c: "keyed key c" and i: "i \<notin> fst ` set c"
    and r: "case r of Live y \<Rightarrow> key y = i | Retired y \<Rightarrow> True"
    using Cons.prems by (simp_all add: rows_simps)
  have "i \<notin> key ` set (live_rows c)"
    using i c by (force simp: set_live_rows dest: keyed_entry)
  then show ?case using Cons.IH [OF c] r ir by (cases r) (simp_all add: rows_simps)
qed (simp add: rows_simps)

end
