(* ===== verification/Auth_Store.thy ===== *)
theory Auth_Store
  imports Typed_Rows
begin

text \<open>
  The rows of the auth module (\<open>modules/auth/models\<close>) and the store behind the auth service
  (\<open>modules/auth/repository.py\<close>), over typed collections. The revocation cache is an external
  service, given by its two operations.
\<close>

section \<open>Rows\<close>

record user =
  us_user_id :: string
  us_email :: string
  us_name :: "string option"
  us_password_hash :: string
  us_role :: string
  us_org_id :: string
  us_tenant_id :: "string option"
  us_disabled :: bool
  us_last_login_at :: "rat option"
  us_token_version :: int

record session_record =
  ss_token_hash :: string
  ss_user_id :: string
  ss_org_id :: string
  ss_tenant_id :: "string option"
  ss_kind :: string
  ss_expires_at :: rat
  ss_token_version :: int

record invite =
  iv_invite_id :: string
  iv_email :: string
  iv_name :: "string option"
  iv_role :: string
  iv_org_id :: string
  iv_tenant_id :: "string option"
  iv_token_hash :: string
  iv_expires_at :: rat
  iv_accepted :: bool
  iv_created_by :: "string option"

record api_key =
  ak_key_id :: string
  ak_name :: string
  ak_prefix :: string
  ak_key_hash :: "string option"
  ak_scopes :: "string list"
  ak_expires_at :: "rat option"
  ak_created_by :: "string option"
  ak_last_used_at :: "rat option"

record auth_event =
  ae_event_id :: string
  ae_type :: string
  ae_user_id :: "string option"
  ae_email :: "string option"
  ae_detail :: "string option"
  ae_created_at :: rat
  ae_tenant_id :: "string option"

record revoked_token =
  rv_jti :: string
  rv_user_id :: string
  rv_expires_at :: rat

record tenant_row =
  tn_tenant_id :: string
  tn_slug :: string
  tn_name :: string
  tn_plan :: string
  tn_status :: string
  tn_created_by :: "string option"

record organization =
  og_org_id :: string
  og_tenant_id :: string
  og_name :: string
  og_created_by :: "string option"

record team =
  tm_team_id :: string
  tm_org_id :: string
  tm_tenant_id :: string
  tm_name :: string
  tm_created_by :: "string option"

record membership =
  mb_membership_id :: string
  mb_user_id :: string
  mb_team_id :: string
  mb_org_id :: string
  mb_tenant_id :: string
  mb_role :: string
  mb_created_by :: "string option"

section \<open>The store\<close>

record auth_store =
  as_users :: "user rows"
  as_sessions :: "session_record rows"
  as_invites :: "invite rows"
  as_keys :: "api_key rows"
  as_events :: "auth_event rows"
  as_revoked :: "revoked_token rows"
  as_tenants :: "tenant_row rows"
  as_organizations :: "organization rows"
  as_teams :: "team rows"
  as_memberships :: "membership rows"

definition normal_email :: "string \<Rightarrow> string" where
  "normal_email e = py_lower (py_strip e)"

definition save_user :: "user \<Rightarrow> auth_store \<Rightarrow> auth_store" where
  "save_user u s = s\<lparr>as_users := rows_insert (us_user_id u) u (as_users s)\<rparr>"

definition get_user :: "string \<Rightarrow> auth_store \<Rightarrow> user option" where
  "get_user i s = rows_get i (as_users s)"

definition get_user_by_email :: "string \<Rightarrow> auth_store \<Rightarrow> user option" where
  "get_user_by_email e s = rows_find_one (\<lambda>u. us_email u = normal_email e) (as_users s)"

definition list_users_of :: "auth_store \<Rightarrow> user list" where
  "list_users_of s = live_rows (as_users s)"

definition count_users :: "auth_store \<Rightarrow> nat" where
  "count_users s = length (live_rows (as_users s))"

definition remove_user :: "string \<Rightarrow> auth_store \<Rightarrow> bool \<times> auth_store" where
  "remove_user i s =
     (let (b, c) = rows_soft_delete i (as_users s) in (b, s\<lparr>as_users := c\<rparr>))"

definition save_session :: "session_record \<Rightarrow> auth_store \<Rightarrow> auth_store" where
  "save_session r s = s\<lparr>as_sessions := rows_insert (ss_token_hash r) r (as_sessions s)\<rparr>"

definition get_session :: "string \<Rightarrow> auth_store \<Rightarrow> session_record option" where
  "get_session h s = rows_get h (as_sessions s)"

definition delete_session :: "string \<Rightarrow> auth_store \<Rightarrow> bool \<times> auth_store" where
  "delete_session h s =
     (let (b, c) = rows_soft_delete h (as_sessions s) in (b, s\<lparr>as_sessions := c\<rparr>))"

text \<open>The sweep over one bounded lookup; \<open>session.id\<close> is pinned to the token hash.\<close>

fun sweep_sessions :: "session_record list \<Rightarrow> nat \<Rightarrow> auth_store \<Rightarrow> nat \<times> auth_store" where
  "sweep_sessions [] n s = (n, s)"
| "sweep_sessions (r # rs) n s =
     (if ss_token_hash r = [] then sweep_sessions rs n s
      else let (b, s') = delete_session (ss_token_hash r) s
           in sweep_sessions rs (if b then n + 1 else n) s')"

definition list_user_sessions :: "string \<Rightarrow> auth_store \<Rightarrow> session_record list" where
  "list_user_sessions u s = rows_find_many (\<lambda>r. ss_user_id r = u) (as_sessions s)"

definition delete_user_sessions :: "string \<Rightarrow> auth_store \<Rightarrow> nat \<times> auth_store" where
  "delete_user_sessions u s = sweep_sessions (list_user_sessions u s) 0 s"

definition save_invite :: "invite \<Rightarrow> auth_store \<Rightarrow> auth_store" where
  "save_invite i s = s\<lparr>as_invites := rows_insert (iv_invite_id i) i (as_invites s)\<rparr>"

definition get_invite :: "string \<Rightarrow> auth_store \<Rightarrow> invite option" where
  "get_invite i s = rows_get i (as_invites s)"

definition get_invite_by_token_hash :: "string \<Rightarrow> auth_store \<Rightarrow> invite option" where
  "get_invite_by_token_hash h s = rows_find_one (\<lambda>i. iv_token_hash i = h) (as_invites s)"

definition list_invites_of :: "auth_store \<Rightarrow> invite list" where
  "list_invites_of s = live_rows (as_invites s)"

definition remove_invite :: "string \<Rightarrow> auth_store \<Rightarrow> bool \<times> auth_store" where
  "remove_invite i s =
     (let (b, c) = rows_soft_delete i (as_invites s) in (b, s\<lparr>as_invites := c\<rparr>))"

definition get_api_key_by_hash :: "string \<Rightarrow> auth_store \<Rightarrow> api_key option" where
  "get_api_key_by_hash h s = rows_find_one (\<lambda>k. ak_key_hash k = Some h) (as_keys s)"

definition save_api_key :: "api_key \<Rightarrow> auth_store \<Rightarrow> auth_store" where
  "save_api_key k s = s\<lparr>as_keys := rows_insert (ak_key_id k) k (as_keys s)\<rparr>"

definition delete_api_key :: "string \<Rightarrow> auth_store \<Rightarrow> bool \<times> auth_store" where
  "delete_api_key i s =
     (let (b, c) = rows_soft_delete i (as_keys s) in (b, s\<lparr>as_keys := c\<rparr>))"

definition add_auth_event :: "auth_event \<Rightarrow> auth_store \<Rightarrow> auth_store" where
  "add_auth_event e s = s\<lparr>as_events := rows_insert (ae_event_id e) e (as_events s)\<rparr>"

text \<open>The stable sort by descending time, and its first \<open>limit\<close> rows.\<close>

definition list_auth_events :: "int \<Rightarrow> auth_store \<Rightarrow> auth_event list" where
  "list_auth_events limit s =
     take (nat (max 0 limit)) (sort_key (\<lambda>e. - ae_created_at e) (live_rows (as_events s)))"

definition save_tenant :: "tenant_row \<Rightarrow> auth_store \<Rightarrow> auth_store" where
  "save_tenant t s = s\<lparr>as_tenants := rows_insert (tn_tenant_id t) t (as_tenants s)\<rparr>"

definition get_tenant :: "string \<Rightarrow> auth_store \<Rightarrow> tenant_row option" where
  "get_tenant i s = rows_get i (as_tenants s)"

definition get_tenant_by_slug :: "string \<Rightarrow> auth_store \<Rightarrow> tenant_row option" where
  "get_tenant_by_slug g s = rows_find_one (\<lambda>t. tn_slug t = g) (as_tenants s)"

definition save_organization :: "organization \<Rightarrow> auth_store \<Rightarrow> auth_store" where
  "save_organization r s = s\<lparr>as_organizations := rows_insert (og_org_id r) r (as_organizations s)\<rparr>"

definition get_organization :: "string \<Rightarrow> auth_store \<Rightarrow> organization option" where
  "get_organization i s = rows_get i (as_organizations s)"

definition save_team :: "team \<Rightarrow> auth_store \<Rightarrow> auth_store" where
  "save_team t s = s\<lparr>as_teams := rows_insert (tm_team_id t) t (as_teams s)\<rparr>"

definition get_team :: "string \<Rightarrow> auth_store \<Rightarrow> team option" where
  "get_team i s = rows_get i (as_teams s)"

definition save_membership :: "membership \<Rightarrow> auth_store \<Rightarrow> auth_store" where
  "save_membership m s = s\<lparr>as_memberships := rows_insert (mb_membership_id m) m (as_memberships s)\<rparr>"

definition list_memberships :: "string \<Rightarrow> auth_store \<Rightarrow> membership list" where
  "list_memberships u s = rows_find_many (\<lambda>m. mb_user_id m = u) (as_memberships s)"

definition delete_membership :: "string \<Rightarrow> auth_store \<Rightarrow> bool \<times> auth_store" where
  "delete_membership i s =
     (let (b, c) = rows_soft_delete i (as_memberships s) in (b, s\<lparr>as_memberships := c\<rparr>))"

section \<open>The denylist\<close>

text \<open>Denying a token and asking for it, with no cache configured.\<close>

definition save_revoked :: "revoked_token \<Rightarrow> auth_store \<Rightarrow> auth_store" where
  "save_revoked t s = s\<lparr>as_revoked := rows_insert (rv_jti t) t (as_revoked s)\<rparr>"

definition is_revoked :: "string \<Rightarrow> auth_store \<Rightarrow> bool" where
  "is_revoked j s = (rows_get j (as_revoked s) \<noteq> None)"

text \<open>
  The cache: reading a key and setting it with a lifetime in seconds. \<open>None\<close> is a call that
  raised.
\<close>

record 'c cache_ops =
  cc_get :: "rat \<Rightarrow> string \<Rightarrow> 'c \<Rightarrow> string option option"
  cc_set :: "rat \<Rightarrow> string \<Rightarrow> string \<Rightarrow> int \<Rightarrow> 'c \<Rightarrow> 'c option"

definition DENYLIST_KEY_PREFIX :: string where "DENYLIST_KEY_PREFIX = ''auth:denied:''"

definition deny_key :: "string \<Rightarrow> string" where
  "deny_key j = DENYLIST_KEY_PREFIX @ j"

text \<open>\<open>int\<close> of the remaining seconds: truncation toward zero.\<close>

definition remaining_seconds :: "rat \<Rightarrow> rat \<Rightarrow> int" where
  "remaining_seconds now ends = (if ends < now then \<lceil>ends - now\<rceil> else \<lfloor>ends - now\<rfloor>)"

definition cache_deny :: "'c cache_ops \<Rightarrow> rat \<Rightarrow> revoked_token \<Rightarrow> 'c \<Rightarrow> 'c" where
  "cache_deny ops now t c =
     (let ttl = remaining_seconds now (rv_expires_at t)
      in if ttl \<le> 0 then c
         else case cc_set ops now (deny_key (rv_jti t)) ''1'' ttl c of None \<Rightarrow> c | Some c' \<Rightarrow> c')"

definition cached_save_revoked ::
  "'c cache_ops \<Rightarrow> rat \<Rightarrow> revoked_token \<Rightarrow> auth_store \<times> 'c \<Rightarrow> auth_store \<times> 'c" where
  "cached_save_revoked ops now t sc = (save_revoked t (fst sc), cache_deny ops now t (snd sc))"

definition cache_deny_by_jti :: "'c cache_ops \<Rightarrow> rat \<Rightarrow> string \<Rightarrow> auth_store \<times> 'c \<Rightarrow> 'c" where
  "cache_deny_by_jti ops now j sc =
     (case rows_get j (as_revoked (fst sc)) of
        None \<Rightarrow> snd sc
      | Some t \<Rightarrow> cache_deny ops now t (snd sc))"

definition cached_is_revoked ::
  "'c cache_ops \<Rightarrow> rat \<Rightarrow> string \<Rightarrow> auth_store \<times> 'c \<Rightarrow> bool \<times> 'c" where
  "cached_is_revoked ops now j sc =
     (case cc_get ops now (deny_key j) (snd sc) of
        None \<Rightarrow> (is_revoked j (fst sc), snd sc)
      | Some (Some v) \<Rightarrow> (True, snd sc)
      | Some None \<Rightarrow>
          (let denied = is_revoked j (fst sc)
           in (denied, if denied then cache_deny_by_jti ops now j sc else snd sc)))"

section \<open>The cache changes no answer\<close>

text \<open>Sequences of denials and questions, with and without the cache.\<close>

datatype deny_op = Deny revoked_token | Ask string

fun plain_run :: "(rat \<times> deny_op) list \<Rightarrow> auth_store \<Rightarrow> bool list" where
  "plain_run [] st = []"
| "plain_run ((now, Deny t) # xs) st = plain_run xs (save_revoked t st)"
| "plain_run ((now, Ask j) # xs) st = is_revoked j st # plain_run xs st"

fun cached_run :: "'c cache_ops \<Rightarrow> (rat \<times> deny_op) list \<Rightarrow> auth_store \<times> 'c \<Rightarrow> bool list" where
  "cached_run ops [] sc = []"
| "cached_run ops ((now, Deny t) # xs) sc = cached_run ops xs (cached_save_revoked ops now t sc)"
| "cached_run ops ((now, Ask j) # xs) sc =
     (let (b, c) = cached_is_revoked ops now j sc in b # cached_run ops xs (fst sc, c))"

text \<open>
  What the cache is relied on for: setting a key makes no other key appear. It may forget, expire
  and fail as it likes.
\<close>

definition sets_only :: "'c cache_ops \<Rightarrow> bool" where
  "sets_only ops =
     (\<forall>now k v ttl c c' t k' w. cc_set ops now k v ttl c = Some c' \<longrightarrow>
        cc_get ops t k' c' = Some (Some w) \<longrightarrow> k' = k \<or> cc_get ops t k' c = Some (Some w))"

text \<open>Every key the cache answers for is a denied token.\<close>

definition cache_sound :: "'c cache_ops \<Rightarrow> auth_store \<times> 'c \<Rightarrow> bool" where
  "cache_sound ops sc =
     (\<forall>t j w. cc_get ops t (deny_key j) (snd sc) = Some (Some w) \<longrightarrow> is_revoked j (fst sc))"

lemma deny_key_inj [simp]: "deny_key i = deny_key j \<longleftrightarrow> i = j"
  by (simp add: deny_key_def)

lemma is_revoked_save [simp]: "is_revoked j (save_revoked t st) \<longleftrightarrow> j = rv_jti t \<or> is_revoked j st"
  by (simp add: is_revoked_def save_revoked_def rows_simps)

lemma cache_deny_sound:
  assumes "sets_only ops" and "cache_sound ops (st, c)" and "is_revoked (rv_jti t) st"
  shows "cache_sound ops (st, cache_deny ops now t c)"
proof (cases "cc_set ops now (deny_key (rv_jti t)) ''1'' (remaining_seconds now (rv_expires_at t)) c")
  case (Some c')
  then have "k' = deny_key (rv_jti t) \<or> cc_get ops m k' c = Some (Some w)"
    if "cc_get ops m k' c' = Some (Some w)" for m k' w
    using assms(1) that unfolding sets_only_def by blast
  then show ?thesis
    using assms(2,3) Some by (fastforce simp: cache_sound_def cache_deny_def Let_def)
qed (use assms in \<open>simp add: cache_deny_def Let_def\<close>)

lemma cached_save_sound:
  assumes "sets_only ops" and "cache_sound ops sc"
  shows "cache_sound ops (cached_save_revoked ops now t sc)"
  using cache_deny_sound [OF assms(1), of "save_revoked t (fst sc)" "snd sc" t now] assms(2)
  by (simp add: cached_save_revoked_def) (simp add: cache_sound_def)

lemma cached_ask:
  assumes "sets_only ops" and "cache_sound ops sc"
    and "list_all (\<lambda>(i, r). case r of Live t \<Rightarrow> rv_jti t = i | Retired t \<Rightarrow> True) (as_revoked (fst sc))"
  shows "fst (cached_is_revoked ops now j sc) = is_revoked j (fst sc)"
    and "cache_sound ops (fst sc, snd (cached_is_revoked ops now j sc))"
proof -
  have hit: "is_revoked j (fst sc)" if "cc_get ops now (deny_key j) (snd sc) = Some (Some v)" for v
    using assms(2) that by (auto simp: cache_sound_def)
  then show "fst (cached_is_revoked ops now j sc) = is_revoked j (fst sc)"
    by (auto simp: cached_is_revoked_def Let_def split: option.splits)
  have "cache_sound ops (fst sc, cache_deny_by_jti ops now j sc)"
  proof (cases "rows_get j (as_revoked (fst sc))")
    case (Some t)
    then have "rv_jti t = j"
      using assms(3) by (auto simp: rows_get_def list_all_iff bind_eq_Some_conv elim!: live_row.elims dest!: map_of_SomeD)
    then show ?thesis
      using cache_deny_sound [OF assms(1), of "fst sc" "snd sc" t now] assms(2) Some
      by (simp add: cache_deny_by_jti_def is_revoked_def)
  qed (use assms(2) in \<open>simp add: cache_deny_by_jti_def\<close>)
  then show "cache_sound ops (fst sc, snd (cached_is_revoked ops now j sc))"
    using assms(2) by (auto simp: cached_is_revoked_def Let_def split: option.splits)
qed

text \<open>
  The revocation cache changes no answer: whatever it forgets, expires or fails at, every question
  whether an access token was denied is answered as the store answers it, in any sequence of denials
  and questions that starts from a cache with nothing in it.
\<close>

theorem denylist_cache_transparent:
  assumes "sets_only ops" and "\<forall>t k. cc_get ops t k c \<in> {None, Some None}"
    and "keyed rv_jti (as_revoked st)"
  shows "cached_run ops xs (st, c) = plain_run xs st"
proof -
  have "cached_run ops xs sc = plain_run xs (fst sc)"
    if "cache_sound ops sc" and "keyed rv_jti (as_revoked (fst sc))" for sc
    using that
  proof (induction xs arbitrary: sc)
    case (Cons x xs)
    obtain now x' where x: "x = (now, x')" by fastforce
    show ?case
    proof (cases x')
      case (Deny t)
      have "keyed rv_jti (as_revoked (fst (cached_save_revoked ops now t sc)))"
        using Cons.prems(2) by (simp add: cached_save_revoked_def save_revoked_def rows_simps)
      then show ?thesis
        using Cons.IH [OF cached_save_sound [OF assms(1) Cons.prems(1)]]
        by (simp add: x Deny) (simp add: cached_save_revoked_def)
    next
      case (Ask j)
      then show ?thesis
        using Cons.IH cached_ask [OF assms(1) Cons.prems(1), of now j] Cons.prems(2)
        by (simp add: x split_def Let_def keyed_def)
    qed
  qed simp
  moreover have "cache_sound ops (st, c)"
    using assms(2) by (auto simp: cache_sound_def) (metis insertE option.distinct(1) option.inject singletonD)
  ultimately show ?thesis using assms(3) by force
qed

text \<open>A cache that keeps entries until they expire and is down at time three.\<close>

definition sample_cache :: "(string \<times> string \<times> rat) list cache_ops" where
  "sample_cache =
     \<lparr>cc_get = (\<lambda>now k c. if now = 3 then None else Some (case map_of c k of
          None \<Rightarrow> None | Some (v, ends) \<Rightarrow> if now < ends then Some v else None)),
      cc_set = (\<lambda>now k v ttl c. if now = 3 then None else Some ((k, v, now + of_int ttl) # c))\<rparr>"

theorem denylist_cache_transparent_witness:
  "let xs = [(1, Ask ''j''), (2, Deny \<lparr>rv_jti = ''j'', rv_user_id = ''u'', rv_expires_at = 5\<rparr>), (2, Ask ''j''),
             (3, Ask ''j''), (9, Ask ''j''), (9, Ask ''i'')];
       st = \<lparr>as_users = [], as_sessions = [], as_invites = [], as_keys = [], as_events = [], as_revoked = [],
             as_tenants = [], as_organizations = [], as_teams = [], as_memberships = []\<rparr>
   in cached_run sample_cache xs (st, []) = plain_run xs st \<and> plain_run xs st = [False, True, True, True, False]"
proof -
  have "sets_only sample_cache"
    by (auto simp: sets_only_def sample_cache_def split: if_splits option.splits)
  moreover have "\<forall>t k. cc_get sample_cache t k [] \<in> {None, Some None}" by (simp add: sample_cache_def)
  ultimately show ?thesis
    using denylist_cache_transparent [of sample_cache "[]"]
    by (simp add: Let_def keyed_Nil is_revoked_def rows_get_def save_revoked_def rows_insert_def)
qed

end
