(* ===== verification/Login_Limiter.thy ===== *)
theory Login_Limiter
  imports Prelude
begin

text \<open>
  The login throttles, from \<open>modules/auth/utils.py\<close>: the sliding window of a process, per client
  address, and the shared counter over redis, whose two commands are arguments.
\<close>

section \<open>The ledger of a process\<close>

definition LOGIN_WINDOW_S :: int where "LOGIN_WINDOW_S = 60"
definition LOGIN_MAX_ATTEMPTS :: int where "LOGIN_MAX_ATTEMPTS = 5"

type_synonym attempts = "(string \<times> rat list) list"

definition window_of :: "string \<Rightarrow> attempts \<Rightarrow> rat list" where
  "window_of ip l = (case map_of l ip of None \<Rightarrow> [] | Some w \<Rightarrow> w)"

text \<open>The loop that drops the attempts older than the window from the front of the deque.\<close>

fun drop_expired :: "rat \<Rightarrow> rat list \<Rightarrow> rat list" where
  "drop_expired now [] = []"
| "drop_expired now (t # ts) =
     (if now - t > of_int LOGIN_WINDOW_S then drop_expired now ts else t # ts)"

definition try_login_attempt :: "rat \<Rightarrow> string \<Rightarrow> attempts \<Rightarrow> bool \<times> attempts" where
  "try_login_attempt now ip l =
     (let w = drop_expired now (window_of ip l)
      in if int (length w) \<ge> LOGIN_MAX_ATTEMPTS then (False, AList.update ip w l)
         else (True, AList.update ip (w @ [now]) l))"

section \<open>The shared counter\<close>

datatype throttle = Allowed | Too_Many_Attempts

definition check_login_allowed :: "rat \<Rightarrow> string \<Rightarrow> attempts \<Rightarrow> throttle \<times> attempts" where
  "check_login_allowed now ip l =
     (let (b, l') = try_login_attempt now ip l in (if b then Allowed else Too_Many_Attempts, l'))"

text \<open>\<open>INCR\<close> and \<open>EXPIRE\<close>; a result of \<open>None\<close> or \<open>False\<close> is a call that raised.\<close>

record 'r throttle_redis =
  tr_incr :: "rat \<Rightarrow> string \<Rightarrow> 'r \<Rightarrow> int option \<times> 'r"
  tr_expire :: "rat \<Rightarrow> string \<Rightarrow> int \<Rightarrow> 'r \<Rightarrow> bool \<times> 'r"

definition THROTTLE_KEY_PREFIX :: string where "THROTTLE_KEY_PREFIX = ''auth:throttle:''"

definition throttle_key :: "string \<Rightarrow> string" where
  "throttle_key ip = THROTTLE_KEY_PREFIX @ ip"

definition redis_check ::
  "'r throttle_redis option \<Rightarrow> rat \<Rightarrow> string \<Rightarrow> attempts \<times> 'r \<Rightarrow> throttle \<times> attempts \<times> 'r" where
  "redis_check client now ip lr =
     (case client of
        None \<Rightarrow> (let (t, l) = check_login_allowed now ip (fst lr) in (t, l, snd lr))
      | Some c \<Rightarrow>
          (case tr_incr c now (throttle_key ip) (snd lr) of
             (None, r1) \<Rightarrow> (Allowed, fst lr, r1)
           | (Some n, r1) \<Rightarrow>
               (let (ok, r2) = (if n = 1 then tr_expire c now (throttle_key ip) LOGIN_WINDOW_S r1
                                else (True, r1))
                in (if ok \<and> n > LOGIN_MAX_ATTEMPTS then Too_Many_Attempts else Allowed, fst lr, r2))))"

section \<open>Runs of the ledger\<close>

text \<open>A sequence of attempts, each a time and an address, with the answer given to each.\<close>

fun attempt_run :: "attempts \<Rightarrow> (rat \<times> string) list \<Rightarrow> (rat \<times> string \<times> bool) list" where
  "attempt_run l [] = []"
| "attempt_run l ((now, ip) # as) =
     (let (ok, l') = try_login_attempt now ip l in (now, ip, ok) # attempt_run l' as)"

text \<open>The allowed attempts of an address in the last minute before a time.\<close>

definition recent :: "rat \<Rightarrow> string \<Rightarrow> (rat \<times> string \<times> bool) list \<Rightarrow> rat list" where
  "recent now ip past = map fst (filter (\<lambda>(t, a, ok). a = ip \<and> ok \<and> now - t \<le> 60) past)"

lemma drop_expired_suffix: "sorted w \<Longrightarrow> drop_expired now w = filter (\<lambda>t. now - t \<le> 60) w"
  by (induction now w rule: drop_expired.induct)
    (auto simp: LOGIN_WINDOW_S_def filter_id_conv intro!: filter_True [symmetric])

text \<open>The invariant: a window is sorted, old, and holds the allowed attempts of the last minute.\<close>

definition agrees :: "attempts \<Rightarrow> (rat \<times> string \<times> bool) list \<Rightarrow> rat \<Rightarrow> bool" where
  "agrees l past t =
     (\<forall>ip. sorted (window_of ip l) \<and> (\<forall>x \<in> set (window_of ip l). x \<le> t) \<and>
        (\<forall>now \<ge> t. filter (\<lambda>x. now - x \<le> 60) (window_of ip l) = recent now ip past))"

lemma window_of_update [simp]:
  "window_of ip (AList.update j w l) = (if ip = j then w else window_of ip l)"
  by (simp add: window_of_def update_conv')

lemma try_login_exact:
  assumes "agrees l past t" and "t \<le> now"
  shows "fst (try_login_attempt now ip l) = (length (recent now ip past) < 5)"
    and "agrees (snd (try_login_attempt now ip l)) (past @ [(now, ip, fst (try_login_attempt now ip l))]) now"
proof -
  have w: "drop_expired now (window_of ip l) = recent now ip past"
    using assms by (simp add: agrees_def drop_expired_suffix)
  then show ok: "fst (try_login_attempt now ip l) = (length (recent now ip past) < 5)"
    by (auto simp: try_login_attempt_def LOGIN_MAX_ATTEMPTS_def Let_def)
  have r: "recent now ip past = filter (\<lambda>x. now - x \<le> 60) (window_of ip l)"
    using assms by (simp add: agrees_def)
  have "sorted (window_of ip l)" "\<forall>x \<in> set (window_of ip l). x \<le> t"
    using assms by (simp_all add: agrees_def)
  then have rest: "sorted (recent now ip past)" "\<forall>x \<in> set (recent now ip past). x \<le> now"
    using assms(2) sorted_filter [of "\<lambda>x. x" "window_of ip l"] by (auto simp: r)
  have later: "filter (\<lambda>x. m - x \<le> 60) (recent now ip past) = recent m ip past" if "now \<le> m" for m
    using that by (auto simp: recent_def filter_map o_def intro!: arg_cong [where f = "map fst"] filter_cong)
  show "agrees (snd (try_login_attempt now ip l)) (past @ [(now, ip, fst (try_login_attempt now ip l))]) now"
    unfolding agrees_def
  proof (intro allI conjI ballI impI)
    fix j
    show "sorted (window_of j (snd (try_login_attempt now ip l)))"
      using assms rest w by (auto simp: try_login_attempt_def Let_def agrees_def sorted_append)
    show "x \<le> now" if "x \<in> set (window_of j (snd (try_login_attempt now ip l)))" for x
      using that assms rest w by (auto simp: try_login_attempt_def Let_def agrees_def split: if_splits dest: order_trans)
    show "filter (\<lambda>x. m - x \<le> 60) (window_of j (snd (try_login_attempt now ip l))) =
        recent m j (past @ [(now, ip, fst (try_login_attempt now ip l))])" if "now \<le> m" for m
      using that assms w later [OF that]
      by (auto simp: try_login_attempt_def Let_def agrees_def recent_def)
  qed
qed

lemma attempt_run_exact:
  assumes "agrees l past t" and "sorted (t # map fst as)" and "k < length as"
  shows "attempt_run l as ! k = (fst (as ! k), snd (as ! k),
    length (recent (fst (as ! k)) (snd (as ! k)) (past @ take k (attempt_run l as))) < 5)"
  using assms
proof (induction as arbitrary: l past t k)
  case (Cons a as)
  obtain now ip where a: "a = (now, ip)" by fastforce
  obtain ok l' where tried: "try_login_attempt now ip l = (ok, l')" by fastforce
  have now: "t \<le> now" using Cons.prems(2) a by simp
  note exact = try_login_exact [OF Cons.prems(1) now, of ip, unfolded tried fst_conv snd_conv]
  show ?case
  proof (cases k)
    case 0
    then show ?thesis using exact(1) by (simp add: a tried)
  next
    case (Suc j)
    have "sorted (now # map fst as)" using Cons.prems(2) a by simp
    from Cons.IH [OF exact(2) this, of j] show ?thesis
      using Suc Cons.prems(3) by (simp add: a tried)
  qed
qed simp

lemma length_filter_weaken:
  "(\<And>x. x \<in> set xs \<Longrightarrow> P x \<Longrightarrow> Q x) \<Longrightarrow> length (filter P xs) \<le> length (filter Q xs)"
  by (induction xs) (auto simp: le_SucI)

lemma length_attempt_run [simp]: "length (attempt_run l as) = length as"
  by (induction as arbitrary: l) (auto simp: split_def Let_def)

text \<open>
  The throttle of a process answers every attempt exactly: it is allowed if and only if fewer than
  five attempts of its address were allowed in the sixty seconds before it, so a refused attempt
  never prolongs a lockout; and no address is allowed more than five attempts within any sixty
  seconds.
\<close>

theorem throttle_exact:
  assumes "sorted (map fst as)"
  shows "(\<forall>k < length as. attempt_run [] as ! k = (fst (as ! k), snd (as ! k),
            length (recent (fst (as ! k)) (snd (as ! k)) (take k (attempt_run [] as))) < 5)) \<and>
         length (filter (\<lambda>(x, a, ok). a = ip \<and> ok \<and> t - 60 \<le> x \<and> x \<le> t) (attempt_run [] as)) \<le> 5"
proof
  have empty: "agrees [] [] m" for m by (simp add: agrees_def window_of_def recent_def)
  have exact: "attempt_run [] as ! k = (fst (as ! k), snd (as ! k),
      length (recent (fst (as ! k)) (snd (as ! k)) (take k (attempt_run [] as))) < 5)" if "k < length as" for k
  proof -
    have "sorted (fst (as ! 0) # map fst as)" using assms that by (cases as) auto
    from attempt_run_exact [OF empty this that] show ?thesis by simp
  qed
  then show "\<forall>k < length as. attempt_run [] as ! k = (fst (as ! k), snd (as ! k),
      length (recent (fst (as ! k)) (snd (as ! k)) (take k (attempt_run [] as))) < 5)" by blast
  let ?log = "attempt_run [] as"
  let ?in = "\<lambda>(x, a, ok). a = ip \<and> ok \<and> t - 60 \<le> x \<and> x \<le> t"
  have "length (filter ?in (take n ?log)) \<le> 5" if "n \<le> length as" for n
    using that
  proof (induction n)
    case (Suc n)
    then have n: "n < length ?log" by simp
    show ?case
    proof (cases "?in (?log ! n)")
      case True
      have e: "?log ! n = (fst (as ! n), snd (as ! n),
          length (recent (fst (as ! n)) (snd (as ! n)) (take n ?log)) < 5)" using exact Suc.prems by simp
      then have "snd (as ! n) = ip" and "fst (as ! n) \<le> t"
        and few: "length (recent (fst (as ! n)) ip (take n ?log)) < 5" using True by auto
      then have "length (filter ?in (take n ?log)) \<le> length (recent (fst (as ! n)) ip (take n ?log))"
        unfolding recent_def length_map by (intro length_filter_weaken) auto
      then show ?thesis using few n by (simp add: take_Suc_conv_app_nth)
    next
      case False
      then show ?thesis using Suc n by (simp add: take_Suc_conv_app_nth split: prod.splits)
    qed
  qed simp
  from this [of "length as"] show "length (filter ?in ?log) \<le> 5" by simp
qed

theorem throttle_exact_witness:
  "sorted (map fst [(0 :: rat, ''a''), (1, ''a''), (2, ''a''), (3, ''a''), (4, ''a''), (5, ''a''), (6, ''b''), (61, ''a'')]) \<and>
   attempt_run [] [(0, ''a''), (1, ''a''), (2, ''a''), (3, ''a''), (4, ''a''), (5, ''a''), (6, ''b''), (61, ''a'')] ! 5 =
     (5, ''a'', length (recent 5 ''a'' (take 5 (attempt_run [] [(0, ''a''), (1, ''a''), (2, ''a''), (3, ''a''), (4, ''a''),
        (5, ''a''), (6, ''b''), (61, ''a'')]))) < 5) \<and>
   \<not> snd (snd (attempt_run [] [(0, ''a''), (1, ''a''), (2, ''a''), (3, ''a''), (4, ''a''), (5, ''a''), (6, ''b''), (61, ''a'')] ! 5)) \<and>
   snd (snd (attempt_run [] [(0, ''a''), (1, ''a''), (2, ''a''), (3, ''a''), (4, ''a''), (5, ''a''), (6, ''b''), (61, ''a'')] ! 7))"
proof -
  have s: "sorted (map fst [(0 :: rat, ''a''), (1, ''a''), (2, ''a''), (3, ''a''), (4, ''a''), (5, ''a''), (6, ''b''), (61, ''a'')])"
    by simp
  moreover have "\<not> snd (snd (attempt_run [] [(0, ''a''), (1, ''a''), (2, ''a''), (3, ''a''), (4, ''a''), (5, ''a''), (6, ''b''), (61, ''a'')] ! 5))"
    and "snd (snd (attempt_run [] [(0, ''a''), (1, ''a''), (2, ''a''), (3, ''a''), (4, ''a''), (5, ''a''), (6, ''b''), (61, ''a'')] ! 7))"
    by code_simp+
  moreover note throttle_exact [OF s, THEN conjunct1, rule_format, of 5]
  ultimately show ?thesis by simp
qed

end
