(* ===== verification/Passwords.thy ===== *)
theory Passwords
  imports Expression
begin

text \<open>
  Password hashes of the auth module (\<open>hash_password\<close> and \<open>verify_password\<close> of
  \<open>modules/auth/static_methods.py\<close>): the stored reference with its four \<open>$\<close>-separated parts, the
  hexadecimal text of bytes and its reading. The key derivation of \<open>hashlib\<close> is an argument from a
  password, a salt and an iteration count to the derived bytes, \<open>None\<close> where it raises.
\<close>

section \<open>Bytes as hexadecimal text\<close>

definition nibble :: "nat \<Rightarrow> char" where
  "nibble n = char_of (if n < 10 then 48 + n else 87 + n)"

fun hex_text :: "nat list \<Rightarrow> string" where
  "hex_text [] = []"
| "hex_text (b # bs) = nibble (b div 16) # nibble (b mod 16) # hex_text bs"

definition hex_value :: "char \<Rightarrow> nat option" where
  "hex_value c =
     (let n = of_char c :: nat
      in if 48 \<le> n \<and> n \<le> 57 then Some (n - 48)
         else if 97 \<le> n \<and> n \<le> 102 then Some (n - 87)
         else if 65 \<le> n \<and> n \<le> 70 then Some (n - 55) else None)"

definition hex_blank :: "char \<Rightarrow> bool" where
  "hex_blank c = (let n = of_char c :: nat in n = 32 \<or> 9 \<le> n \<and> n \<le> 13)"

text \<open>\<open>bytes.fromhex\<close>: blanks may stand between two bytes, not inside one.\<close>

fun from_hex :: "string \<Rightarrow> nat list option" where
  "from_hex [] = Some []"
| "from_hex [c] = (if hex_blank c then Some [] else None)"
| "from_hex (c # d # s) =
     (if hex_blank c then from_hex (d # s)
      else case (hex_value c, hex_value d) of
             (Some a, Some b) \<Rightarrow> map_option (\<lambda>bs. (16 * a + b) # bs) (from_hex s)
           | _ \<Rightarrow> None)"

section \<open>Hashing and checking\<close>

type_synonym key_derivation = "string \<Rightarrow> nat list \<Rightarrow> int \<Rightarrow> nat list option"

definition PBKDF2_ITERATIONS :: int where "PBKDF2_ITERATIONS = 600000"

definition password_reference :: "int \<Rightarrow> nat list \<Rightarrow> nat list \<Rightarrow> string" where
  "password_reference n salt digest =
     ''pbkdf2_sha256$'' @ show_int n @ ''$'' @ hex_text salt @ ''$'' @ hex_text digest"

definition hash_password_with :: "key_derivation \<Rightarrow> string \<Rightarrow> nat list \<Rightarrow> string option" where
  "hash_password_with kdf password salt =
     map_option (password_reference PBKDF2_ITERATIONS salt) (kdf password salt PBKDF2_ITERATIONS)"

text \<open>\<open>int\<close> of a text.\<close>

definition int_of_text :: "string \<Rightarrow> int option" where
  "int_of_text s =
     (let (neg, t) = split_sign (py_strip s)
      in map_option (\<lambda>ds. if neg then - int (nat_of_digits ds) else int (nat_of_digits ds)) (digit_part t))"

text \<open>Any part that cannot be read, and any call that raises, is a refusal.\<close>

definition verify_password_with :: "key_derivation \<Rightarrow> string \<Rightarrow> string \<Rightarrow> bool" where
  "verify_password_with kdf password reference =
     (case py_split_on CHR ''$'' reference of
        [algo, iterations, salt_hex, digest_hex] \<Rightarrow>
          algo = ''pbkdf2_sha256'' \<and>
          (case (from_hex salt_hex, int_of_text iterations) of
             (Some salt, Some n) \<Rightarrow>
               (case kdf password salt n of None \<Rightarrow> False | Some digest \<Rightarrow> hex_text digest = digest_hex)
           | _ \<Rightarrow> False)
      | _ \<Rightarrow> False)"

text \<open>The text of the configured count, for evaluation.\<close>

lemma show_iterations: "show_int 600000 = ''600000''"
  by (simp add: show_int_def digits_of.simps char_of_eq_iff take_bit_eq_mod)

lemma password_reference_code [code]:
  "password_reference n salt digest =
     ''pbkdf2_sha256$'' @ (if n = 600000 then ''600000'' else show_int n) @ ''$'' @ hex_text salt @ ''$'' @ hex_text digest"
  by (simp add: password_reference_def show_iterations)

section \<open>A reference verifies exactly the passwords with its digest\<close>

lemma nibble_facts:
  assumes "n < 16"
  shows "hex_value (nibble n) = Some n" "\<not> hex_blank (nibble n)" "nibble n \<noteq> CHR ''$''"
proof -
  have v: "of_char (nibble n) = (if n < 10 then 48 + n else 87 + n)"
    using assms by (simp add: nibble_def)
  then show "hex_value (nibble n) = Some n" using assms by (simp add: hex_value_def Let_def)
  have "nibble n \<noteq> c" if "(of_char c :: nat) < 48" for c using that v by (auto split: if_splits)
  then show "nibble n \<noteq> CHR ''$''" by simp
  show "\<not> hex_blank (nibble n)" using v assms by (auto simp: hex_blank_def Let_def)
qed

lemma from_hex_text: "list_all (\<lambda>b. b < 256) bs \<Longrightarrow> from_hex (hex_text bs) = Some bs"
  by (induction bs) (simp_all add: nibble_facts less_mult_imp_div_less)

lemma hex_text_inj:
  "list_all (\<lambda>b. b < 256) bs \<Longrightarrow> list_all (\<lambda>b. b < 256) cs \<Longrightarrow> hex_text bs = hex_text cs \<longleftrightarrow> bs = cs"
  using from_hex_text by (metis option.inject)

lemma hex_text_dollar: "list_all (\<lambda>b. b < 256) bs \<Longrightarrow> CHR ''$'' \<notin> set (hex_text bs)"
  by (induction bs) (auto simp: less_mult_imp_div_less nibble_facts(3) dest!: sym [of "CHR ''$''"])

lemma split_on_append: "c \<notin> set a \<Longrightarrow> py_split_on c (a @ c # b) = a # py_split_on c b"
  by (induction a) auto

lemma split_on_none: "c \<notin> set a \<Longrightarrow> py_split_on c a = [a]"
  by (induction a) auto

lemma int_of_digits:
  assumes "list_all is_digit d" and "d \<noteq> []"
  shows "int_of_text d = Some (int (nat_of_digits d))"
proof -
  obtain c r where d: "d = c # r" using assms(2) by (cases d) auto
  have "py_strip d = d" using assms(1) by (intro strip_no_space) (auto simp: list_all_iff digit_chars)
  moreover have "split_sign d = (False, d)"
    using assms(1) digit_chars [of c] by (simp add: split_sign_def d)
  moreover have "digit_part d = Some d"
    using assms underscores_digits [OF assms(1)] by (simp add: digit_part_def list_all_iff)
  ultimately show ?thesis by (simp add: int_of_text_def)
qed

lemma split_reference:
  assumes "list_all (\<lambda>b. b < 256) salt" and "list_all (\<lambda>b. b < 256) digest" and "0 \<le> n"
  shows "py_split_on CHR ''$'' (password_reference n salt digest) =
    [''pbkdf2_sha256'', show_int n, hex_text salt, hex_text digest]"
proof -
  have "CHR ''$'' \<notin> set (show_int n)"
    using digits_all [of "nat n"] assms(3) by (auto simp: show_int_def list_all_iff is_digit_def)
  moreover have "password_reference n salt digest =
      ''pbkdf2_sha256'' @ CHR ''$'' # (show_int n @ CHR ''$'' # (hex_text salt @ CHR ''$'' # hex_text digest))"
    by (simp add: password_reference_def)
  ultimately show ?thesis
    using hex_text_dollar [OF assms(1)] hex_text_dollar [OF assms(2)]
    by (simp add: split_on_append split_on_none)
qed

lemma int_of_iterations: "int_of_text (show_int PBKDF2_ITERATIONS) = Some PBKDF2_ITERATIONS"
  using int_of_digits [OF digits_all digits_ne, of 600000]
  by (simp add: PBKDF2_ITERATIONS_def show_int_def nat_of_digits_of)

lemma reference_check:
  assumes "\<And>p salt n ds. kdf p salt n = Some ds \<Longrightarrow> list_all (\<lambda>b. b < 256) ds"
    and "list_all (\<lambda>b. b < 256) salt" and "kdf p salt PBKDF2_ITERATIONS = Some ds"
  shows "verify_password_with kdf q (password_reference PBKDF2_ITERATIONS salt ds) \<longleftrightarrow>
    kdf q salt PBKDF2_ITERATIONS = Some ds"
proof -
  have bytes: "list_all (\<lambda>b. b < 256) ds" using assms(1,3) by blast
  have "(0 :: int) \<le> PBKDF2_ITERATIONS" by (simp add: PBKDF2_ITERATIONS_def)
  note split = split_reference [OF assms(2) bytes this]
  show ?thesis
    using hex_text_inj [OF assms(1) bytes]
    by (auto simp: verify_password_with_def split from_hex_text [OF assms(2)] int_of_iterations split: option.splits)
qed

text \<open>
  A stored hash verifies exactly the passwords that derive the same bytes under the same salt and
  iteration count, in particular the password it was made from; and a reference with a part missing,
  with a part too many or of another algorithm verifies no password.
\<close>

theorem password_check_exact:
  assumes "\<And>p salt n ds. kdf p salt n = Some ds \<Longrightarrow> list_all (\<lambda>b. b < 256) ds"
    and "list_all (\<lambda>b. b < 256) salt" and "hash_password_with kdf p salt = Some reference"
  shows "(verify_password_with kdf q reference \<longleftrightarrow>
            kdf q salt PBKDF2_ITERATIONS \<noteq> None \<and> kdf q salt PBKDF2_ITERATIONS = kdf p salt PBKDF2_ITERATIONS) \<and>
         (length (py_split_on CHR ''$'' r) \<noteq> 4 \<or> hd (py_split_on CHR ''$'' r) \<noteq> ''pbkdf2_sha256'' \<longrightarrow>
            \<not> verify_password_with kdf q r)"
proof
  show "verify_password_with kdf q reference \<longleftrightarrow>
      kdf q salt PBKDF2_ITERATIONS \<noteq> None \<and> kdf q salt PBKDF2_ITERATIONS = kdf p salt PBKDF2_ITERATIONS"
    using assms(3) reference_check [of kdf, OF assms(1,2)] by (auto simp: hash_password_with_def)
  show "length (py_split_on CHR ''$'' r) \<noteq> 4 \<or> hd (py_split_on CHR ''$'' r) \<noteq> ''pbkdf2_sha256'' \<longrightarrow>
      \<not> verify_password_with kdf q r"
    by (auto simp: verify_password_with_def split: list.splits option.splits)
qed

text \<open>A derivation that returns the password's characters, for a positive count.\<close>

definition plain_kdf :: key_derivation where
  "plain_kdf p salt n = (if 0 < n then Some (map of_char p) else None)"

lemma plain_kdf_check:
  assumes "list_all (\<lambda>b. b < 256) salt"
  shows "verify_password_with plain_kdf q (or_empty (hash_password_with plain_kdf p salt)) \<longleftrightarrow> q = p"
proof -
  have "verify_password_with plain_kdf q (password_reference PBKDF2_ITERATIONS salt (map of_char p)) \<longleftrightarrow>
      plain_kdf q salt PBKDF2_ITERATIONS = Some (map of_char p)"
    using assms by (intro reference_check [where p = p])
      (auto simp: plain_kdf_def PBKDF2_ITERATIONS_def list_all_iff split: if_splits)
  then show ?thesis
    by (auto simp: hash_password_with_def plain_kdf_def PBKDF2_ITERATIONS_def inj_map_eq_map inj_def)
qed

theorem password_check_exact_witness:
  "\<exists>reference. hash_password_with plain_kdf ''pw'' [1, 255] = Some reference \<and>
     verify_password_with plain_kdf ''pw'' reference \<and> \<not> verify_password_with plain_kdf ''other'' reference \<and>
     \<not> verify_password_with plain_kdf ''pw'' ''pbkdf2_sha256$600000$01ff''"
proof -
  obtain reference where r: "hash_password_with plain_kdf ''pw'' [1, 255] = Some reference"
    by (auto simp: hash_password_with_def plain_kdf_def PBKDF2_ITERATIONS_def)
  have kdf: "list_all (\<lambda>b. b < 256) ds" if "plain_kdf p salt n = Some ds" for p salt n ds
    using that by (auto simp: plain_kdf_def list_all_iff split: if_splits)
  note exact = password_check_exact [of plain_kdf, OF kdf _ r]
  have "\<not> verify_password_with plain_kdf ''pw'' ''pbkdf2_sha256$600000$01ff''"
    using exact by simp
  then show ?thesis using r exact by (simp add: plain_kdf_def PBKDF2_ITERATIONS_def)
qed

end
