(* ===== verification/Auth.thy ===== *)
theory Auth
  imports Auth_Store Login_Limiter Passwords
begin

text \<open>
  The auth service of \<open>modules/auth\<close>: principals and their scopes, the kernel
  (\<open>service_base.py\<close>), the token service, the credential resolvers and entry points
  (\<open>service.py\<close>) and the directory administration (\<open>service_admin.py\<close>). A handler returns its
  outcome, an error or a value, together with the state it leaves: what was written before an error
  stays written. Time, random draws, the hashes and the JWT library are arguments.
\<close>

section \<open>Roles, scopes and principals\<close>

definition ROLE_SCOPES :: "(string \<times> string list) list" where
  "ROLE_SCOPES =
     [(''viewer'', [''agents:read'', ''calls:read'', ''batches:read'', ''platform:read'']),
      (''member'', [''agents:read'', ''agents:write'', ''calls:read'', ''calls:write'', ''batches:read'',
                    ''batches:write'', ''platform:read'', ''platform:write'']),
      (''admin'', [''agents:read'', ''agents:write'', ''calls:read'', ''calls:write'', ''batches:read'',
                   ''batches:write'', ''platform:read'', ''platform:write'', ''users:read'', ''keys:read'',
                   ''keys:write'', ''admin'']),
      (''owner'', [''*''])]"

definition ROLE_RANK :: "(string \<times> int) list" where
  "ROLE_RANK = [(''viewer'', 0), (''member'', 1), (''admin'', 2), (''owner'', 3)]"

record principal =
  pr_user_id :: "string option"
  pr_email :: "string option"
  pr_org_id :: string
  pr_tenant_id :: string
  pr_role :: string
  pr_auth_type :: string
  pr_scopes :: "string list"
  pr_teams :: "string list"
  pr_team_roles :: "(string \<times> string) list"
  pr_key_id :: "string option"
  pr_key_name :: "string option"
  pr_token_id :: "string option"

definition effective_scopes :: "principal \<Rightarrow> string list" where
  "effective_scopes p =
     (if pr_auth_type p = ''key'' then pr_scopes p
      else case map_of ROLE_SCOPES (pr_role p) of None \<Rightarrow> [] | Some xs \<Rightarrow> xs)"

definition has_scope :: "principal \<Rightarrow> string \<Rightarrow> bool" where
  "has_scope p scope = (''*'' \<in> set (effective_scopes p) \<or> scope \<in> set (effective_scopes p))"

definition role_rank :: "string \<Rightarrow> int \<Rightarrow> int" where
  "role_rank r missing = (case map_of ROLE_RANK r of None \<Rightarrow> missing | Some n \<Rightarrow> n)"

definition has_role :: "principal \<Rightarrow> string \<Rightarrow> bool" where
  "has_role p minimum =
     (if pr_auth_type p = ''key'' then ''*'' \<in> set (pr_scopes p)
      else role_rank (pr_role p) (-1) \<ge> role_rank minimum 99)"

section \<open>Errors and guards\<close>

datatype auth_error =
    Invalid_Credentials string
  | Forbidden string
  | Auth_Not_Found string
  | Conflict string
  | Invite_Invalid string
  | Invalid_Request string
  | Too_Many string

definition ensure_authenticated :: "principal option \<Rightarrow> auth_error + principal" where
  "ensure_authenticated p =
     (case p of None \<Rightarrow> Inl (Invalid_Credentials ''Authentication required'') | Some q \<Rightarrow> Inr q)"

definition ensure_role :: "string \<Rightarrow> string \<Rightarrow> principal option \<Rightarrow> auth_error + principal" where
  "ensure_role minimum msg p =
     (case ensure_authenticated p of
        Inl e \<Rightarrow> Inl e
      | Inr q \<Rightarrow> if has_role q minimum then Inr q else Inl (Forbidden msg))"

definition require_owner :: "principal option \<Rightarrow> auth_error + principal" where
  "require_owner = ensure_role ''owner'' ''Requires owner role or higher''"

definition require_admin :: "principal option \<Rightarrow> auth_error + principal" where
  "require_admin = ensure_role ''admin'' ''Requires admin role or higher''"

definition not_found :: "string \<Rightarrow> auth_error" where
  "not_found what = Auth_Not_Found (what @ '' not found'')"

definition same_org :: "string \<Rightarrow> principal \<Rightarrow> bool" where
  "same_org row_org p = (row_org = pr_org_id p)"

definition same_tenant :: "string option \<Rightarrow> principal \<Rightarrow> bool" where
  "same_tenant row_tenant p = (row_tenant = Some (pr_tenant_id p))"

section \<open>Environment and state\<close>

record jwt_settings =
  js_private_key :: string
  js_public_key :: string
  js_issuer :: string
  js_audience :: string
  js_access_ttl_s :: int
  js_refresh_ttl_s :: int

text \<open>
  What the service calls outside its own code: the token hash, the n-th random token and the n-th
  random id of a prefix, the key derivation and the n-th random salt, the JWT library
  (\<open>decode\<close> is \<open>None\<close> where the library raises), and the configured keys.
\<close>

record auth_env =
  ev_hash :: "string \<Rightarrow> string"
  ev_token :: "nat \<Rightarrow> string"
  ev_id :: "string \<Rightarrow> nat \<Rightarrow> string"
  ev_kdf :: key_derivation
  ev_salt :: "nat \<Rightarrow> nat list"
  ev_encode :: "pydict \<Rightarrow> string \<Rightarrow> string"
  ev_decode :: "rat \<Rightarrow> string \<Rightarrow> string \<Rightarrow> string \<Rightarrow> string \<Rightarrow> pydict option"
  ev_jwt :: "jwt_settings option"

record auth_state =
  st_store :: auth_store
  st_draws :: nat
  st_attempts :: attempts

type_synonym 'a outcome = "(auth_error + 'a) \<times> auth_state"

definition on_store :: "(auth_store \<Rightarrow> auth_store) \<Rightarrow> auth_state \<Rightarrow> auth_state" where
  "on_store f s = s\<lparr>st_store := f (st_store s)\<rparr>"

definition new_token :: "auth_env \<Rightarrow> auth_state \<Rightarrow> string \<times> auth_state" where
  "new_token env s = (ev_token env (st_draws s), s\<lparr>st_draws := st_draws s + 1\<rparr>)"

definition new_id :: "auth_env \<Rightarrow> string \<Rightarrow> auth_state \<Rightarrow> string \<times> auth_state" where
  "new_id env kind s = (ev_id env kind (st_draws s), s\<lparr>st_draws := st_draws s + 1\<rparr>)"

text \<open>The derivation does not raise for the configured count.\<close>

definition hash_password :: "auth_env \<Rightarrow> string \<Rightarrow> auth_state \<Rightarrow> string \<times> auth_state" where
  "hash_password env password s =
     (or_empty (hash_password_with (ev_kdf env) password (ev_salt env (st_draws s))), s\<lparr>st_draws := st_draws s + 1\<rparr>)"

section \<open>Access tokens\<close>

definition truncated :: "rat \<Rightarrow> int" where
  "truncated x = (if x < 0 then \<lceil>x\<rceil> else \<lfloor>x\<rfloor>)"

definition access_claims :: "user \<Rightarrow> string \<Rightarrow> jwt_settings \<Rightarrow> rat \<Rightarrow> pydict" where
  "access_claims u jti js now =
     (let issued = truncated now
      in [(''sub'', PStr (us_user_id u)), (''org'', PStr (us_org_id u)), (''role'', PStr (us_role u)),
          (''ver'', PInt (us_token_version u)), (''jti'', PStr jti), (''iss'', PStr (js_issuer js)),
          (''aud'', PStr (js_audience js)), (''iat'', PInt issued),
          (''exp'', PInt (issued + js_access_ttl_s js))])"

definition issue_access_token :: "auth_env \<Rightarrow> user \<Rightarrow> string \<Rightarrow> jwt_settings \<Rightarrow> rat \<Rightarrow> string" where
  "issue_access_token env u jti js now = ev_encode env (access_claims u jti js now) (js_private_key js)"

definition is_str :: "pyval \<Rightarrow> bool" where
  "is_str v = (case v of PStr s \<Rightarrow> True | _ \<Rightarrow> False)"

definition is_int :: "pyval \<Rightarrow> bool" where
  "is_int v = (case v of PInt n \<Rightarrow> True | PBool b \<Rightarrow> True | _ \<Rightarrow> False)"

definition verify_access_token :: "auth_env \<Rightarrow> jwt_settings \<Rightarrow> rat \<Rightarrow> string \<Rightarrow> pydict option" where
  "verify_access_token env js now token =
     (case ev_decode env now token (js_public_key js) (js_issuer js) (js_audience js) of
        None \<Rightarrow> None
      | Some claims \<Rightarrow>
          (if \<not> is_str (dict_get claims ''sub'') \<or> \<not> is_str (dict_get claims ''jti'') then None
           else if \<not> is_int (dict_get claims ''ver'') then None
           else Some claims))"

text \<open>\<open>str\<close> and \<open>int\<close> of a claim that passed these checks.\<close>

definition claim_str :: "pydict \<Rightarrow> string \<Rightarrow> string" where
  "claim_str claims k = (case dict_get claims k of PStr s \<Rightarrow> s | _ \<Rightarrow> [])"

definition claim_int :: "pydict \<Rightarrow> string \<Rightarrow> int" where
  "claim_int claims k = (case dict_get claims k of PInt n \<Rightarrow> n | PBool b \<Rightarrow> of_bool b | _ \<Rightarrow> 0)"

section \<open>The kernel\<close>

definition SESSION_KIND :: string where "SESSION_KIND = ''session''"
definition WS_TICKET_KIND :: string where "WS_TICKET_KIND = ''ws-ticket''"
definition REFRESH_KIND :: string where "REFRESH_KIND = ''refresh''"
definition SESSION_TTL_S :: int where "SESSION_TTL_S = 7 * 24 * 3600"
definition REMEMBER_TTL_S :: int where "REMEMBER_TTL_S = 30 * 24 * 3600"
definition WS_TICKET_TTL_S :: int where "WS_TICKET_TTL_S = 60"
definition INVITE_TTL_S :: int where "INVITE_TTL_S = 7 * 24 * 3600"
definition DEFAULT_TENANT_ID :: string where "DEFAULT_TENANT_ID = ''default''"

definition new_session ::
  "auth_env \<Rightarrow> rat \<Rightarrow> string \<Rightarrow> string \<Rightarrow> int \<Rightarrow> string \<Rightarrow> string option \<Rightarrow> auth_state \<Rightarrow> string \<times> auth_state" where
  "new_session env now user_id org_id ttl kind tenant s =
     (let (token, s1) = new_token env s
      in (token, on_store (save_session
            \<lparr>ss_token_hash = ev_hash env token, ss_user_id = user_id, ss_org_id = org_id,
             ss_tenant_id = tenant, ss_kind = kind, ss_expires_at = now + of_int ttl,
             ss_token_version = 0\<rparr>) s1))"

definition default_tenant_hex :: "auth_store \<Rightarrow> string option" where
  "default_tenant_hex st = map_option tn_tenant_id (get_tenant_by_slug ''default'' st)"

definition resolve_tenancy ::
  "user \<Rightarrow> auth_store \<Rightarrow> string \<times> string list \<times> (string \<times> string) list" where
  "resolve_tenancy u st =
     (let ms = list_memberships (us_user_id u) st
      in (if truthy_str (us_tenant_id u) then or_empty (us_tenant_id u) else DEFAULT_TENANT_ID,
          map mb_team_id ms, dict_merge [] (map (\<lambda>m. (mb_team_id m, mb_role m)) ms)))"

definition tenant_is_suspended :: "user \<Rightarrow> auth_store \<Rightarrow> bool" where
  "tenant_is_suspended u st =
     (case us_tenant_id u of
        None \<Rightarrow> False
      | Some t \<Rightarrow>
          (case get_tenant t st of None \<Rightarrow> False | Some row \<Rightarrow> tn_status row = ''suspended''))"

definition require_jwt :: "auth_env \<Rightarrow> auth_error + jwt_settings" where
  "require_jwt env =
     (case ev_jwt env of
        None \<Rightarrow> Inl (Invalid_Request ''Token pair issuance is not configured'')
      | Some js \<Rightarrow> Inr js)"

definition mint_jwt_pair :: "auth_env \<Rightarrow> rat \<Rightarrow> user \<Rightarrow> auth_state \<Rightarrow> (string \<times> string) outcome" where
  "mint_jwt_pair env now u s =
     (case require_jwt env of
        Inl e \<Rightarrow> (Inl e, s)
      | Inr js \<Rightarrow>
          (let (jti, s1) = new_token env s;
               access = issue_access_token env u jti js now;
               (refresh, s2) = new_token env s1
           in (Inr (access, refresh), on_store (save_session
                 \<lparr>ss_token_hash = ev_hash env refresh, ss_user_id = us_user_id u,
                  ss_org_id = us_org_id u, ss_tenant_id = None, ss_kind = REFRESH_KIND,
                  ss_expires_at = now + of_int (js_refresh_ttl_s js),
                  ss_token_version = us_token_version u\<rparr>) s2)))"

definition bump_version :: "user \<Rightarrow> user" where
  "bump_version u = u\<lparr>us_token_version := us_token_version u + 1\<rparr>"

text \<open>The audit row carries its subject's tenant, or its organization where it has none.\<close>

definition audit ::
  "auth_env \<Rightarrow> rat \<Rightarrow> string \<Rightarrow> string option \<Rightarrow> string option \<Rightarrow> string option \<Rightarrow> auth_state \<Rightarrow> auth_state" where
  "audit env now kind user_id email detail s =
     (let tenant = (case user_id of
                      None \<Rightarrow> None
                    | Some i \<Rightarrow> (case get_user i (st_store s) of
                                  None \<Rightarrow> None
                                | Some u \<Rightarrow> Some (if truthy_str (us_tenant_id u)
                                                then or_empty (us_tenant_id u) else us_org_id u)));
          (eid, s1) = new_id env ''evt'' s
      in on_store (add_auth_event
           \<lparr>ae_event_id = eid, ae_type = kind, ae_user_id = user_id, ae_email = email,
            ae_detail = detail, ae_created_at = now, ae_tenant_id = tenant\<rparr>) s1)"

section \<open>Resolving credentials\<close>

definition user_principal :: "user \<Rightarrow> string option \<Rightarrow> auth_store \<Rightarrow> principal" where
  "user_principal u jti st =
     (let (tenant, teams, roles) = resolve_tenancy u st
      in \<lparr>pr_user_id = Some (us_user_id u), pr_email = Some (us_email u), pr_org_id = us_org_id u,
          pr_tenant_id = tenant, pr_role = us_role u, pr_auth_type = ''session'', pr_scopes = [],
          pr_teams = teams, pr_team_roles = roles, pr_key_id = None, pr_key_name = None,
          pr_token_id = jti\<rparr>)"

text \<open>The gate every resolver ends with: the user exists, is enabled, and its tenant is not suspended.\<close>

definition active_user :: "string \<Rightarrow> auth_store \<Rightarrow> user option" where
  "active_user i st =
     (case get_user i st of
        None \<Rightarrow> None
      | Some u \<Rightarrow> if us_disabled u \<or> tenant_is_suspended u st then None else Some u)"

definition principal_from_session :: "auth_env \<Rightarrow> string option \<Rightarrow> auth_store \<Rightarrow> principal option" where
  "principal_from_session env token st =
     (if \<not> truthy_str token then None
      else case get_session (ev_hash env (or_empty token)) st of
             None \<Rightarrow> None
           | Some r \<Rightarrow>
               (if ss_kind r \<noteq> SESSION_KIND then None
                else map_option (\<lambda>u. user_principal u None st) (active_user (ss_user_id r) st)))"

definition key_principal :: "api_key \<Rightarrow> user \<Rightarrow> auth_store \<Rightarrow> principal" where
  "key_principal k u st =
     (let (tenant, teams, roles) = resolve_tenancy u st
      in \<lparr>pr_user_id = ak_created_by k, pr_email = Some (us_email u), pr_org_id = us_org_id u,
          pr_tenant_id = tenant, pr_role = ''viewer'', pr_auth_type = ''key'', pr_scopes = ak_scopes k,
          pr_teams = teams, pr_team_roles = roles, pr_key_id = Some (ak_key_id k),
          pr_key_name = Some (ak_name k), pr_token_id = None\<rparr>)"

text \<open>
  The last-used stamp is written before the owner of the key is looked at; the expiry is compared
  strictly.
\<close>

definition principal_from_api_key ::
  "auth_env \<Rightarrow> rat \<Rightarrow> string option \<Rightarrow> auth_store \<Rightarrow> principal option \<times> auth_store" where
  "principal_from_api_key env now secret st =
     (if \<not> truthy_str secret then (None, st)
      else case get_api_key_by_hash (ev_hash env (or_empty secret)) st of
             None \<Rightarrow> (None, st)
           | Some k \<Rightarrow>
               (if \<not> truthy_str (ak_key_hash k) then (None, st)
                else if (case ak_expires_at k of None \<Rightarrow> False | Some t \<Rightarrow> t < now) then (None, st)
                else let k' = k\<lparr>ak_last_used_at := Some now\<rparr>;
                         st' = save_api_key k' st
                     in if \<not> truthy_str (ak_created_by k) then (None, st')
                        else (map_option (\<lambda>u. key_principal k' u st')
                                (active_user (or_empty (ak_created_by k)) st'), st')))"

definition principal_from_jwt_token ::
  "auth_env \<Rightarrow> jwt_settings \<Rightarrow> rat \<Rightarrow> string \<Rightarrow> auth_store \<Rightarrow> principal option" where
  "principal_from_jwt_token env js now secret st =
     (case verify_access_token env js now secret of
        None \<Rightarrow> None
      | Some claims \<Rightarrow>
          (let jti = claim_str claims ''jti''
           in if is_revoked jti st then None
              else case get_user (claim_str claims ''sub'') st of
                     None \<Rightarrow> None
                   | Some u \<Rightarrow>
                       (if us_disabled u \<or> us_token_version u \<noteq> claim_int claims ''ver'' then None
                        else if tenant_is_suspended u st then None
                        else Some (user_principal u (Some jti) st))))"

text \<open>\<open>authorization.partition('' '')\<close>: the scheme and what follows the first blank.\<close>

definition scheme_and_secret :: "string \<Rightarrow> string \<times> string" where
  "scheme_and_secret a =
     (takeWhile (\<lambda>c. c \<noteq> CHR '' '') a, drop 1 (dropWhile (\<lambda>c. c \<noteq> CHR '' '') a))"

definition authenticate ::
  "auth_env \<Rightarrow> rat \<Rightarrow> string option \<Rightarrow> string option \<Rightarrow> auth_state \<Rightarrow> principal outcome" where
  "authenticate env now session_token authorization s =
     (let refused = Inl (Invalid_Credentials ''Authentication required'')
      in case principal_from_session env session_token (st_store s) of
           Some p \<Rightarrow> (Inr p, s)
         | None \<Rightarrow>
             (if \<not> truthy_str authorization then (refused, s)
              else let (scheme, rest) = scheme_and_secret (or_empty authorization)
                   in if py_lower scheme \<noteq> ''bearer'' \<or> rest = [] then (refused, s)
                      else let secret = py_strip rest
                           in if count_list secret CHR ''.'' = 2 \<and> ev_jwt env \<noteq> None then
                                (case principal_from_jwt_token env (the (ev_jwt env)) now secret (st_store s) of
                                   None \<Rightarrow> (refused, s) | Some p \<Rightarrow> (Inr p, s))
                              else (case principal_from_api_key env now (Some secret) (st_store s) of
                                      (None, st') \<Rightarrow> (refused, s\<lparr>st_store := st'\<rparr>)
                                    | (Some p, st') \<Rightarrow> (Inr p, s\<lparr>st_store := st'\<rparr>))))"

definition resolve_caller ::
  "auth_env \<Rightarrow> rat \<Rightarrow> string option \<Rightarrow> string option \<Rightarrow> auth_state \<Rightarrow> principal option \<times> auth_state" where
  "resolve_caller env now session_token authorization s =
     (case authenticate env now session_token authorization s of
        (Inl e, s') \<Rightarrow> (None, s') | (Inr p, s') \<Rightarrow> (Some p, s'))"

record tenant_context =
  tc_tenant_id :: string
  tc_request_id :: string
  tc_principal_id :: "string option"
  tc_scopes :: "string set"

definition resolve_request_identity ::
  "auth_env \<Rightarrow> rat \<Rightarrow> string option \<Rightarrow> string option \<Rightarrow> string \<Rightarrow> auth_state \<Rightarrow>
     (tenant_context \<times> principal) option \<times> auth_state" where
  "resolve_request_identity env now session_token authorization request_id s =
     (case resolve_caller env now session_token authorization s of
        (None, s') \<Rightarrow> (None, s')
      | (Some p, s') \<Rightarrow>
          (Some (\<lparr>tc_tenant_id = (if pr_tenant_id p \<noteq> [] then pr_tenant_id p else pr_org_id p),
                  tc_request_id = request_id, tc_principal_id = pr_user_id p,
                  tc_scopes = set (effective_scopes p)\<rparr>, p), s'))"

definition me :: "principal option \<Rightarrow> auth_state \<Rightarrow> auth_error + user \<times> string list" where
  "me p s =
     (case ensure_authenticated p of
        Inl e \<Rightarrow> Inl e
      | Inr q \<Rightarrow>
          (if pr_auth_type q \<noteq> ''session'' \<or> \<not> truthy_str (pr_user_id q)
           then Inl (Invalid_Credentials ''Session required'')
           else case get_user (or_empty (pr_user_id q)) (st_store s) of
                  None \<Rightarrow> Inl (Invalid_Credentials ''Session required'')
                | Some u \<Rightarrow>
                    (if us_disabled u then Inl (Invalid_Credentials ''Session required'')
                     else if us_tenant_id u \<noteq> None \<and> \<not> same_tenant (us_tenant_id u) q then Inl (not_found ''User'')
                     else if us_tenant_id u = None \<and> \<not> same_org (us_org_id u) q then Inl (not_found ''User'')
                     else Inr (u, effective_scopes q))))"

section \<open>Entry points\<close>

record session_tokens =
  tk_legacy_token :: string
  tk_access_token :: string
  tk_refresh_token :: string

text \<open>A first session and a token pair for a user; the session row stays where no keys are configured.\<close>

definition sign_in ::
  "auth_env \<Rightarrow> rat \<Rightarrow> int \<Rightarrow> user \<Rightarrow> auth_state \<Rightarrow> session_tokens outcome" where
  "sign_in env now ttl u s =
     (let (legacy, s1) = new_session env now (us_user_id u) (us_org_id u) ttl SESSION_KIND (us_tenant_id u) s
      in case mint_jwt_pair env now u s1 of
           (Inl e, s2) \<Rightarrow> (Inl e, s2)
         | (Inr (access, refresh), s2) \<Rightarrow>
             (Inr \<lparr>tk_legacy_token = legacy, tk_access_token = access, tk_refresh_token = refresh\<rparr>, s2))"

definition signup ::
  "auth_env \<Rightarrow> rat \<Rightarrow> string \<Rightarrow> string option \<Rightarrow> string \<Rightarrow> auth_state \<Rightarrow> (user \<times> session_tokens) outcome" where
  "signup env now email name password s =
     (if count_users (st_store s) > 0
      then (Inl (Forbidden ''Signup is closed, ask an admin for an invite''), s)
      else if get_user_by_email (normal_email email) (st_store s) \<noteq> None
      then (Inl (Conflict ''Email already registered''), s)
      else
        (let (uid, s1) = new_id env ''usr'' s;
             (pw, s2) = hash_password env password s1;
             u = \<lparr>us_user_id = uid, us_email = normal_email email, us_name = name, us_password_hash = pw,
                  us_role = ''owner'', us_org_id = ''default'',
                  us_tenant_id = default_tenant_hex (st_store s2), us_disabled = False,
                  us_last_login_at = None, us_token_version = 0\<rparr>
         in case sign_in env now SESSION_TTL_S u (on_store (save_user u) s2) of
              (Inl e, s3) \<Rightarrow> (Inl e, s3)
            | (Inr tokens, s3) \<Rightarrow>
                (Inr (u, tokens),
                 audit env now ''signup'' (Some uid) (Some (us_email u)) (Some ''first user (owner)'') s3)))"

definition login ::
  "auth_env \<Rightarrow> rat \<Rightarrow> string \<Rightarrow> string \<Rightarrow> bool \<Rightarrow> string \<Rightarrow> auth_state \<Rightarrow> (user \<times> session_tokens) outcome" where
  "login env now email password remember ip s =
     (let (t, l) = check_login_allowed now ip (st_attempts s);
          s0 = s\<lparr>st_attempts := l\<rparr>
      in if t = Too_Many_Attempts
         then (Inl (Too_Many ''Too many login attempts, try again shortly''), s0)
         else case get_user_by_email email (st_store s0) of
                None \<Rightarrow> (Inl (Invalid_Credentials ''Invalid email or password''),
                         audit env now ''login_failed'' None (Some (normal_email email)) None s0)
              | Some u \<Rightarrow>
                  (if us_disabled u \<or> \<not> verify_password_with (ev_kdf env) password (us_password_hash u)
                   then (Inl (Invalid_Credentials ''Invalid email or password''),
                         audit env now ''login_failed'' None (Some (normal_email email)) None s0)
                   else case sign_in env now (if remember then REMEMBER_TTL_S else SESSION_TTL_S) u s0 of
                          (Inl e, s1) \<Rightarrow> (Inl e, s1)
                        | (Inr tokens, s1) \<Rightarrow>
                            (let u' = u\<lparr>us_last_login_at := Some now\<rparr>
                             in (Inr (u', tokens),
                                 audit env now ''login'' (Some (us_user_id u)) (Some (us_email u)) None
                                   (on_store (save_user u') s1)))))"

definition quarantine_user :: "user \<Rightarrow> auth_state \<Rightarrow> auth_state" where
  "quarantine_user u s =
     on_store (\<lambda>st. snd (delete_user_sessions (us_user_id u) (save_user (bump_version u) st))) s"

definition expired_message :: auth_error where
  "expired_message = Invalid_Credentials ''Session expired, sign in again''"

definition refresh ::
  "auth_env \<Rightarrow> rat \<Rightarrow> string option \<Rightarrow> string \<Rightarrow> auth_state \<Rightarrow> (user \<times> session_tokens) outcome" where
  "refresh env now refresh_token ip s =
     (let (t, l) = check_login_allowed now ip (st_attempts s);
          s0 = s\<lparr>st_attempts := l\<rparr>
      in if t = Too_Many_Attempts
         then (Inl (Too_Many ''Too many login attempts, try again shortly''), s0)
         else if \<not> truthy_str refresh_token then (Inl expired_message, s0)
         else case get_session (ev_hash env (or_empty refresh_token)) (st_store s0) of
                None \<Rightarrow> (Inl expired_message,
                         audit env now ''refresh_failed'' None None (Some ''unknown digest'') s0)
              | Some row \<Rightarrow>
                  (if ss_kind row \<noteq> REFRESH_KIND
                   then (Inl expired_message,
                         audit env now ''refresh_failed'' None None (Some ''unknown digest'') s0)
                   else if ss_expires_at row < now
                   then (Inl expired_message, on_store (\<lambda>st. snd (delete_session (ss_token_hash row) st)) s0)
                   else case get_user (ss_user_id row) (st_store s0) of
                          None \<Rightarrow> (Inl expired_message,
                                   audit env now ''refresh_reuse_detected'' (Some (ss_user_id row)) None None s0)
                        | Some u \<Rightarrow>
                            (if us_disabled u \<or> us_token_version u \<noteq> ss_token_version row
                             then (Inl expired_message,
                                   audit env now ''refresh_reuse_detected'' (Some (ss_user_id row)) None None
                                     (quarantine_user u s0))
                             else case sign_in env now SESSION_TTL_S u
                                    (on_store (\<lambda>st. snd (delete_session (ss_token_hash row) st)) s0) of
                                    (Inl e, s1) \<Rightarrow> (Inl e, s1)
                                  | (Inr tokens, s1) \<Rightarrow>
                                      (Inr (u, tokens),
                                       audit env now ''refresh'' (Some (us_user_id u)) (Some (us_email u)) None s1))))"

definition logout ::
  "auth_env \<Rightarrow> rat \<Rightarrow> string option \<Rightarrow> string option \<Rightarrow> principal option \<Rightarrow> auth_state \<Rightarrow> auth_state" where
  "logout env now session_token refresh_token p s =
     (let drop_token = (\<lambda>tok s. if truthy_str tok
                          then on_store (\<lambda>st. snd (delete_session (ev_hash env (or_empty tok)) st)) s else s);
          s1 = drop_token refresh_token (drop_token session_token s)
      in case p of
           None \<Rightarrow> s1
         | Some q \<Rightarrow>
             (let ttl = (case ev_jwt env of None \<Rightarrow> SESSION_TTL_S | Some js \<Rightarrow> js_access_ttl_s js);
                  s2 = (if truthy_str (pr_token_id q)
                        then on_store (save_revoked
                               \<lparr>rv_jti = or_empty (pr_token_id q), rv_user_id = or_empty (pr_user_id q),
                                rv_expires_at = now + of_int ttl\<rparr>) s1
                        else s1)
              in if truthy_str (pr_user_id q)
                 then audit env now ''logout'' (pr_user_id q) (pr_email q) None s2 else s2))"

definition redeem_ticket ::
  "auth_env \<Rightarrow> rat \<Rightarrow> string option \<Rightarrow> auth_state \<Rightarrow> principal option \<times> auth_state" where
  "redeem_ticket env now ticket s =
     (if \<not> truthy_str ticket then (None, s)
      else case get_session (ev_hash env (or_empty ticket)) (st_store s) of
             None \<Rightarrow> (None, s)
           | Some r \<Rightarrow>
               (let s1 = on_store (\<lambda>st. snd (delete_session (ss_token_hash r) st)) s
                in if ss_kind r \<noteq> WS_TICKET_KIND \<or> ss_user_id r = [] then (None, s1)
                   else if ss_expires_at r < now then (None, s1)
                   else (map_option (\<lambda>u. user_principal u None (st_store s1))
                           (active_user (ss_user_id r) (st_store s1)), s1)))"

definition mint_ticket :: "auth_env \<Rightarrow> rat \<Rightarrow> principal option \<Rightarrow> auth_state \<Rightarrow> string outcome" where
  "mint_ticket env now p s =
     (case ensure_authenticated p of
        Inl e \<Rightarrow> (Inl e, s)
      | Inr q \<Rightarrow>
          (if \<not> has_scope q ''calls:write'' then (Inl (Forbidden ''Requires calls:write scope''), s)
           else let (token, s') = new_session env now (or_empty (pr_user_id q)) (pr_org_id q)
                                    WS_TICKET_TTL_S WS_TICKET_KIND (Some (pr_tenant_id q)) s
                in (Inr token, s')))"

end
