(* ===== verification/Auth_Admin.thy ===== *)
theory Auth_Admin
  imports Auth
begin

text \<open>
  The administration of the directory (\<open>modules/auth/service_admin.py\<close>) and of tenants,
  organizations, teams and memberships (\<open>modules/auth/service_identity.py\<close>).
\<close>

section \<open>Invites\<close>

definition invite_user ::
  "auth_env \<Rightarrow> rat \<Rightarrow> principal option \<Rightarrow> string \<Rightarrow> string option \<Rightarrow> string \<Rightarrow> auth_state \<Rightarrow>
     (invite \<times> string) outcome" where
  "invite_user env now p email name role s =
     (case require_admin p of
        Inl e \<Rightarrow> (Inl e, s)
      | Inr q \<Rightarrow>
          (if role \<in> {''owner'', ''admin''} \<and> pr_role q \<noteq> ''owner''
           then (Inl (Forbidden ''Only owners can invite owners or admins''), s)
           else if get_user_by_email (normal_email email) (st_store s) \<noteq> None
           then (Inl (Conflict ''Email already registered''), s)
           else
             (let (token, s1) = new_token env s;
                  (iid, s2) = new_id env ''inv'' s1;
                  i = \<lparr>iv_invite_id = iid, iv_email = normal_email email, iv_name = name, iv_role = role,
                       iv_org_id = pr_org_id q, iv_tenant_id = Some (pr_tenant_id q),
                       iv_token_hash = ev_hash env token, iv_expires_at = now + of_int INVITE_TTL_S,
                       iv_accepted = False, iv_created_by = pr_user_id q\<rparr>
              in (Inr (i, token),
                  audit env now ''invite'' (pr_user_id q) (pr_email q)
                    (Some (iv_email i @ '' as '' @ role)) (on_store (save_invite i) s2)))))"

text \<open>Grants made under the invited address before it had an account are re-keyed to the account.\<close>

fun claim_memberships :: "string \<Rightarrow> membership list \<Rightarrow> auth_store \<Rightarrow> auth_store" where
  "claim_memberships uid [] st = st"
| "claim_memberships uid (m # ms) st = claim_memberships uid ms (save_membership (m\<lparr>mb_user_id := uid\<rparr>) st)"

definition accept_invite ::
  "auth_env \<Rightarrow> rat \<Rightarrow> string \<Rightarrow> string option \<Rightarrow> string \<Rightarrow> auth_state \<Rightarrow> (user \<times> session_tokens) outcome" where
  "accept_invite env now token name password s =
     (case get_invite_by_token_hash (ev_hash env token) (st_store s) of
        None \<Rightarrow> (Inl (Invite_Invalid ''Invite invalid or expired''), s)
      | Some i \<Rightarrow>
          (if iv_accepted i \<or> iv_expires_at i < now
           then (Inl (Invite_Invalid ''Invite invalid or expired''), s)
           else if get_user_by_email (iv_email i) (st_store s) \<noteq> None
           then (Inl (Conflict ''Email already registered''), s)
           else
             (let (uid, s1) = new_id env ''usr'' s;
                  (pw, s2) = hash_password env password s1;
                  u = \<lparr>us_user_id = uid, us_email = iv_email i,
                       us_name = (if truthy_str name then name else iv_name i),
                       us_password_hash = pw, us_role = iv_role i, us_org_id = iv_org_id i,
                       us_tenant_id = iv_tenant_id i, us_disabled = False, us_last_login_at = None,
                       us_token_version = 0\<rparr>;
                  s3 = on_store (save_invite (i\<lparr>iv_accepted := True\<rparr>)) (on_store (save_user u) s2);
                  s4 = on_store (\<lambda>st. claim_memberships uid (list_memberships (iv_email i) st) st) s3
              in case sign_in env now SESSION_TTL_S u s4 of
                   (Inl e, s5) \<Rightarrow> (Inl e, s5)
                 | (Inr tokens, s5) \<Rightarrow>
                     (Inr (u, tokens),
                      audit env now ''invite_accepted'' (Some uid) (Some (us_email u))
                        (Some (''as '' @ us_role u)) s5))))"

definition list_invites :: "principal option \<Rightarrow> auth_state \<Rightarrow> auth_error + invite list" where
  "list_invites p s =
     (case require_admin p of
        Inl e \<Rightarrow> Inl e
      | Inr q \<Rightarrow> Inr (filter (\<lambda>i. \<not> iv_accepted i \<and> iv_org_id i = pr_org_id q) (list_invites_of (st_store s))))"

definition delete_invite ::
  "auth_env \<Rightarrow> rat \<Rightarrow> principal option \<Rightarrow> string \<Rightarrow> auth_state \<Rightarrow> unit outcome" where
  "delete_invite env now p iid s =
     (case require_admin p of
        Inl e \<Rightarrow> (Inl e, s)
      | Inr q \<Rightarrow>
          (case get_invite iid (st_store s) of
             None \<Rightarrow> (Inl (not_found ''Invite''), s)
           | Some i \<Rightarrow>
               (if \<not> same_org (iv_org_id i) q then (Inl (not_found ''Invite''), s)
                else (Inr (), audit env now ''invite_revoked'' (pr_user_id q) (pr_email q) (Some iid)
                        (on_store (\<lambda>st. snd (remove_invite iid st)) s)))))"

section \<open>Users\<close>

definition list_users :: "principal option \<Rightarrow> auth_state \<Rightarrow> auth_error + user list" where
  "list_users p s =
     (case require_admin p of
        Inl e \<Rightarrow> Inl e
      | Inr q \<Rightarrow> Inr (filter (\<lambda>u. us_org_id u = pr_org_id q) (list_users_of (st_store s))))"

definition active_owners :: "string \<Rightarrow> auth_store \<Rightarrow> user list" where
  "active_owners org st =
     filter (\<lambda>u. us_role u = ''owner'' \<and> \<not> us_disabled u \<and> us_org_id u = org) (list_users_of st)"

definition last_owner_safe :: "user \<Rightarrow> auth_store \<Rightarrow> bool" where
  "last_owner_safe target st =
     (us_role target \<noteq> ''owner'' \<or> us_disabled target \<or> 1 < length (active_owners (us_org_id target) st))"

definition set_user_role ::
  "auth_env \<Rightarrow> rat \<Rightarrow> principal option \<Rightarrow> string \<Rightarrow> string \<Rightarrow> auth_state \<Rightarrow> user outcome" where
  "set_user_role env now p target_id role s =
     (case require_owner p of
        Inl e \<Rightarrow> (Inl e, s)
      | Inr q \<Rightarrow>
          (case get_user target_id (st_store s) of
             None \<Rightarrow> (Inl (not_found ''User''), s)
           | Some target \<Rightarrow>
               (if \<not> same_org (us_org_id target) q then (Inl (not_found ''User''), s)
                else if Some (us_user_id target) = pr_user_id q
                then (Inl (Invalid_Request ''Cannot change your own role''), s)
                else if \<not> last_owner_safe target (st_store s)
                then (Inl (Invalid_Request ''Cannot remove the last active owner''), s)
                else
                  (let target' = bump_version (target\<lparr>us_role := role\<rparr>);
                       s1 = on_store (\<lambda>st. snd (delete_user_sessions target_id (save_user target' st))) s
                   in (Inr target',
                       audit env now ''role_change'' (pr_user_id q) (pr_email q)
                         (Some (us_email target @ '' -> '' @ role)) s1)))))"

definition delete_user ::
  "auth_env \<Rightarrow> rat \<Rightarrow> principal option \<Rightarrow> string \<Rightarrow> auth_state \<Rightarrow> unit outcome" where
  "delete_user env now p target_id s =
     (case require_owner p of
        Inl e \<Rightarrow> (Inl e, s)
      | Inr q \<Rightarrow>
          (case get_user target_id (st_store s) of
             None \<Rightarrow> (Inl (not_found ''User''), s)
           | Some target \<Rightarrow>
               (if \<not> same_org (us_org_id target) q then (Inl (not_found ''User''), s)
                else if Some (us_user_id target) = pr_user_id q
                then (Inl (Invalid_Request ''Cannot delete yourself''), s)
                else if \<not> last_owner_safe target (st_store s)
                then (Inl (Invalid_Request ''Cannot remove the last active owner''), s)
                else
                  (Inr (),
                   audit env now ''user_deleted'' (pr_user_id q) (pr_email q) (Some (us_email target))
                     (on_store (\<lambda>st. snd (remove_user target_id (snd (delete_user_sessions target_id st)))) s)))))"

definition change_password ::
  "auth_env \<Rightarrow> rat \<Rightarrow> principal option \<Rightarrow> string \<Rightarrow> string \<Rightarrow> auth_state \<Rightarrow> session_tokens outcome" where
  "change_password env now p current_password new_password s =
     (case ensure_authenticated p of
        Inl e \<Rightarrow> (Inl e, s)
      | Inr q \<Rightarrow>
          (if pr_auth_type q \<noteq> ''session'' \<or> \<not> truthy_str (pr_user_id q)
           then (Inl (Forbidden ''Password change requires a login session''), s)
           else case get_user (or_empty (pr_user_id q)) (st_store s) of
                  None \<Rightarrow> (Inl (Invalid_Credentials ''Current password is incorrect''), s)
                | Some u \<Rightarrow>
                    (if \<not> verify_password_with (ev_kdf env) current_password (us_password_hash u)
                     then (Inl (Invalid_Credentials ''Current password is incorrect''), s)
                     else
                       (let (pw, s1) = hash_password env new_password s;
                            u' = bump_version (u\<lparr>us_password_hash := pw\<rparr>);
                            s2 = on_store (\<lambda>st. snd (delete_user_sessions (us_user_id u) (save_user u' st))) s1
                        in case sign_in env now SESSION_TTL_S u' s2 of
                             (Inl e, s3) \<Rightarrow> (Inl e, s3)
                           | (Inr tokens, s3) \<Rightarrow>
                               (Inr tokens,
                                audit env now ''password_change'' (Some (us_user_id u)) (Some (us_email u))
                                  None s3)))))"

definition auth_events :: "principal option \<Rightarrow> auth_state \<Rightarrow> auth_error + auth_event list" where
  "auth_events p s =
     (case require_admin p of
        Inl e \<Rightarrow> Inl e
      | Inr q \<Rightarrow> Inr (filter (\<lambda>e. ae_tenant_id e = Some (pr_tenant_id q)) (list_auth_events 100 (st_store s))))"

section \<open>Tenants, organizations and teams\<close>

definition acting_tenant_hex :: "principal \<Rightarrow> auth_store \<Rightarrow> string" where
  "acting_tenant_hex q st =
     (case get_tenant (pr_org_id q) st of
        Some t \<Rightarrow> tn_tenant_id t
      | None \<Rightarrow> (case get_tenant_by_slug (pr_org_id q) st of
                  Some t \<Rightarrow> tn_tenant_id t
                | None \<Rightarrow> pr_org_id q))"

definition create_tenant ::
  "auth_env \<Rightarrow> principal option \<Rightarrow> string \<Rightarrow> string \<Rightarrow> string \<Rightarrow> auth_state \<Rightarrow> tenant_row outcome" where
  "create_tenant env p slug name plan s =
     (case require_owner p of
        Inl e \<Rightarrow> (Inl e, s)
      | Inr q \<Rightarrow>
          (if get_tenant_by_slug (normal_email slug) (st_store s) \<noteq> None
           then (Inl (Conflict ''Tenant slug already registered''), s)
           else let (tid, s1) = new_id env [] s;
                    t = \<lparr>tn_tenant_id = tid, tn_slug = normal_email slug, tn_name = name, tn_plan = plan,
                         tn_status = ''active'', tn_created_by = pr_user_id q\<rparr>
                in (Inr t, on_store (save_tenant t) s1)))"

definition create_organization ::
  "auth_env \<Rightarrow> principal option \<Rightarrow> string \<Rightarrow> string \<Rightarrow> auth_state \<Rightarrow> organization outcome" where
  "create_organization env p tenant_id name s =
     (case require_owner p of
        Inl e \<Rightarrow> (Inl e, s)
      | Inr q \<Rightarrow>
          (case get_tenant tenant_id (st_store s) of
             None \<Rightarrow> (Inl (not_found ''Tenant''), s)
           | Some t \<Rightarrow>
               (let (oid, s1) = new_id env ''org'' s;
                    r = \<lparr>og_org_id = oid, og_tenant_id = tn_tenant_id t, og_name = name,
                         og_created_by = pr_user_id q\<rparr>
                in (Inr r, on_store (save_organization r) s1))))"

definition create_team ::
  "auth_env \<Rightarrow> principal option \<Rightarrow> string \<Rightarrow> string \<Rightarrow> auth_state \<Rightarrow> team outcome" where
  "create_team env p org_id name s =
     (case require_admin p of
        Inl e \<Rightarrow> (Inl e, s)
      | Inr q \<Rightarrow>
          (case get_organization org_id (st_store s) of
             None \<Rightarrow> (Inl (not_found ''Organization''), s)
           | Some r \<Rightarrow>
               (let (tid, s1) = new_id env ''team'' s;
                    t = \<lparr>tm_team_id = tid, tm_org_id = og_org_id r, tm_tenant_id = og_tenant_id r,
                         tm_name = name, tm_created_by = pr_user_id q\<rparr>
                in (Inr t, on_store (save_team t) s1))))"

definition add_membership ::
  "auth_env \<Rightarrow> principal option \<Rightarrow> string \<Rightarrow> string \<Rightarrow> string \<Rightarrow> auth_state \<Rightarrow> membership outcome" where
  "add_membership env p team_id user_id role s =
     (case require_admin p of
        Inl e \<Rightarrow> (Inl e, s)
      | Inr q \<Rightarrow>
          (case get_team team_id (st_store s) of
             None \<Rightarrow> (Inl (not_found ''Team''), s)
           | Some t \<Rightarrow>
               (if tm_tenant_id t \<noteq> acting_tenant_hex q (st_store s) then (Inl (not_found ''Team''), s)
                else if list_ex (\<lambda>m. mb_team_id m = team_id) (list_memberships user_id (st_store s))
                then (Inl (Conflict ''User is already a member of this team''), s)
                else
                  (let (mid, s1) = new_id env ''mem'' s;
                       m = \<lparr>mb_membership_id = mid, mb_user_id = user_id, mb_team_id = tm_team_id t,
                            mb_org_id = tm_org_id t, mb_tenant_id = tm_tenant_id t, mb_role = role,
                            mb_created_by = pr_user_id q\<rparr>
                   in (Inr m, on_store (save_membership m) s1)))))"

text \<open>The first membership of the team decides; one of another tenant reads as missing.\<close>

definition remove_membership ::
  "principal option \<Rightarrow> string \<Rightarrow> string \<Rightarrow> auth_state \<Rightarrow> unit outcome" where
  "remove_membership p team_id user_id s =
     (case require_admin p of
        Inl e \<Rightarrow> (Inl e, s)
      | Inr q \<Rightarrow>
          (case find (\<lambda>m. mb_team_id m = team_id) (list_memberships user_id (st_store s)) of
             None \<Rightarrow> (Inl (not_found ''Membership''), s)
           | Some m \<Rightarrow>
               (if mb_tenant_id m \<noteq> acting_tenant_hex q (st_store s) then (Inl (not_found ''Membership''), s)
                else (Inr (), on_store (\<lambda>st. snd (delete_membership (mb_membership_id m) st)) s))))"

definition list_user_teams :: "principal option \<Rightarrow> string \<Rightarrow> auth_state \<Rightarrow> auth_error + team list" where
  "list_user_teams p user_id s =
     (case ensure_authenticated p of
        Inl e \<Rightarrow> Inl e
      | Inr q \<Rightarrow>
          (if pr_user_id q \<noteq> Some user_id \<and> \<not> has_role q ''admin''
           then Inl (Forbidden ''Requires admin role or higher'')
           else Inr (List.map_filter (\<lambda>m. get_team (mb_team_id m) (st_store s))
                  (filter (\<lambda>m. mb_tenant_id m = acting_tenant_hex q (st_store s))
                     (list_memberships user_id (st_store s))))))"

end
