(* ===== verification/Auth_Runs.thy ===== *)
theory Auth_Runs
  imports Auth_Admin
begin

text \<open>
  The auth service as a system: the requests of \<open>modules/auth/controller.py\<close>, each with its
  caller's credentials resolved first, and what every sequence of them keeps. A request may only
  add sessions under fresh tokens, and may only raise the version of an account: so a token that was
  spent stays spent and an access token that is stale stays refused. The sweep of a user's sessions
  is exact about the bound of its lookup; an organization never loses its last active owner.
\<close>

section \<open>Requests\<close>

text \<open>The credentials of a request: the session cookie and the \<open>Authorization\<close> header.\<close>

type_synonym creds = "string option \<times> string option"

datatype auth_request =
    Signup string "string option" string
  | Login string string bool string
  | Refresh "string option" string
  | Logout creds "string option"
  | Invite_User creds string "string option" string
  | Accept_Invite string "string option" string
  | Delete_Invite creds string
  | Set_User_Role creds string string
  | Delete_User creds string
  | Change_Password creds string string
  | Mint_Ticket creds
  | Redeem_Ticket "string option"
  | Authenticate creds
  | Create_Tenant creds string string string
  | Create_Organization creds string string
  | Create_Team creds string string
  | Add_Membership creds string string string
  | Remove_Membership creds string string

definition as_caller ::
  "auth_env \<Rightarrow> rat \<Rightarrow> creds \<Rightarrow> (principal option \<Rightarrow> auth_state \<Rightarrow> auth_state) \<Rightarrow> auth_state \<Rightarrow> auth_state" where
  "as_caller env now c handler s =
     (case resolve_caller env now (fst c) (snd c) s of (p, s') \<Rightarrow> handler p s')"

fun auth_step :: "auth_env \<Rightarrow> rat \<Rightarrow> auth_request \<Rightarrow> auth_state \<Rightarrow> auth_state" where
  "auth_step env now (Signup e n p) s = snd (signup env now e n p s)"
| "auth_step env now (Login e p r ip) s = snd (login env now e p r ip s)"
| "auth_step env now (Refresh t ip) s = snd (refresh env now t ip s)"
| "auth_step env now (Logout c t) s = as_caller env now c (logout env now (fst c) t) s"
| "auth_step env now (Invite_User c e n r) s = as_caller env now c (\<lambda>p s. snd (invite_user env now p e n r s)) s"
| "auth_step env now (Accept_Invite t n p) s = snd (accept_invite env now t n p s)"
| "auth_step env now (Delete_Invite c i) s = as_caller env now c (\<lambda>p s. snd (delete_invite env now p i s)) s"
| "auth_step env now (Set_User_Role c i r) s = as_caller env now c (\<lambda>p s. snd (set_user_role env now p i r s)) s"
| "auth_step env now (Delete_User c i) s = as_caller env now c (\<lambda>p s. snd (delete_user env now p i s)) s"
| "auth_step env now (Change_Password c a b) s = as_caller env now c (\<lambda>p s. snd (change_password env now p a b s)) s"
| "auth_step env now (Mint_Ticket c) s = as_caller env now c (\<lambda>p s. snd (mint_ticket env now p s)) s"
| "auth_step env now (Redeem_Ticket t) s = snd (redeem_ticket env now t s)"
| "auth_step env now (Authenticate c) s = snd (resolve_caller env now (fst c) (snd c) s)"
| "auth_step env now (Create_Tenant c g n pl) s = as_caller env now c (\<lambda>p s. snd (create_tenant env p g n pl s)) s"
| "auth_step env now (Create_Organization c t n) s = as_caller env now c (\<lambda>p s. snd (create_organization env p t n s)) s"
| "auth_step env now (Create_Team c og n) s = as_caller env now c (\<lambda>p s. snd (create_team env p og n s)) s"
| "auth_step env now (Add_Membership c t u r) s = as_caller env now c (\<lambda>p s. snd (add_membership env p t u r s)) s"
| "auth_step env now (Remove_Membership c t u) s = as_caller env now c (\<lambda>p s. snd (remove_membership p t u s)) s"

fun auth_run :: "auth_env \<Rightarrow> (rat \<times> auth_request) list \<Rightarrow> auth_state \<Rightarrow> auth_state" where
  "auth_run env [] s = s"
| "auth_run env ((now, r) # rs) s = auth_run env rs (auth_step env now r s)"

section \<open>What a request may change\<close>

definition fresh_token :: "auth_env \<Rightarrow> nat \<Rightarrow> string \<Rightarrow> bool" where
  "fresh_token env n h = (\<exists>k \<ge> n. h = ev_hash env (ev_token env k))"

definition fresh_user :: "auth_env \<Rightarrow> nat \<Rightarrow> string \<Rightarrow> bool" where
  "fresh_user env n i = (\<exists>k \<ge> n. i = ev_id env ''usr'' k)"

definition made_user :: "auth_env \<Rightarrow> nat \<Rightarrow> nat \<Rightarrow> string \<Rightarrow> bool" where
  "made_user env n m i = (\<exists>k \<ge> n. k < m \<and> i = ev_id env ''usr'' k)"

text \<open>Accounts, sessions and invites are stored under their ids and hashes.\<close>

definition sound :: "auth_state \<Rightarrow> bool" where
  "sound s =
     (keyed us_user_id (as_users (st_store s)) \<and> keyed ss_token_hash (as_sessions (st_store s)) \<and>
      keyed iv_invite_id (as_invites (st_store s)))"

text \<open>What of an account only an owner may change.\<close>

definition standing :: "user \<Rightarrow> string \<times> bool \<times> string \<times> string \<times> string option" where
  "standing u = (us_role u, us_disabled u, us_org_id u, us_email u, us_tenant_id u)"

text \<open>
  The progress order: live sessions were live before or are fresh, and so are accounts, whose
  versions do not fall; denied access tokens stay denied. Outside the ids \<open>T\<close> an account keeps its
  standing and is not removed; new accounts satisfy \<open>N \<circ> Inl\<close>, and invites with a new role
  \<open>N \<circ> Inr\<close>.
\<close>

definition evolves ::
  "auth_env \<Rightarrow> string set \<Rightarrow> (user + invite \<Rightarrow> bool) \<Rightarrow> auth_state \<Rightarrow> auth_state \<Rightarrow> bool" where
  "evolves env T N s s' =
     (sound s' \<and> st_draws s \<le> st_draws s' \<and>
      (\<forall>h r. get_session h (st_store s') = Some r \<longrightarrow>
         get_session h (st_store s) = Some r \<or> fresh_token env (st_draws s) h) \<and>
      (\<forall>i x'. get_user i (st_store s') = Some x' \<longrightarrow>
         (\<exists>x. get_user i (st_store s) = Some x \<and> us_token_version x \<le> us_token_version x' \<and>
              (i \<in> T \<or> standing x' = standing x)) \<or>
         made_user env (st_draws s) (st_draws s') i \<and> N (Inl x')) \<and>
      (\<forall>i. get_user i (st_store s) \<noteq> None \<longrightarrow> get_user i (st_store s') = None \<longrightarrow> i \<in> T) \<and>
      (\<forall>j. is_revoked j (st_store s) \<longrightarrow> is_revoked j (st_store s')) \<and>
      (\<forall>j v'. get_invite j (st_store s') = Some v' \<longrightarrow>
         (\<exists>v. get_invite j (st_store s) = Some v \<and> iv_role v = iv_role v') \<or> N (Inr v')))"

named_theorems evolution

lemma fresh_mono: "n \<le> m \<Longrightarrow> fresh_token env m h \<Longrightarrow> fresh_token env n h"
  "n \<le> m \<Longrightarrow> fresh_user env m i \<Longrightarrow> fresh_user env n i"
  by (auto simp: fresh_token_def fresh_user_def dest: order_trans)

lemma made_fresh: "made_user env n m i \<Longrightarrow> fresh_user env n i"
  by (auto simp: made_user_def fresh_user_def)

lemma made_mono: "n' \<le> n \<Longrightarrow> m \<le> m' \<Longrightarrow> made_user env n m i \<Longrightarrow> made_user env n' m' i"
  by (auto simp: made_user_def dest: order_trans less_le_trans)

lemma evolves_refl: "sound s \<Longrightarrow> evolves env T N s s"
  by (auto simp: evolves_def)

lemma evolves_weaken: "evolves env T N s t \<Longrightarrow> evolves env UNIV (\<lambda>_. True) s t"
  unfolding evolves_def by blast

lemma evolves_trans:
  "evolves env UNIV (\<lambda>_. True) s t \<Longrightarrow> evolves env UNIV (\<lambda>_. True) t u \<Longrightarrow> evolves env UNIV (\<lambda>_. True) s u"
  unfolding evolves_def by (simp, meson fresh_mono made_mono order_refl order_trans)

text \<open>A first part that changes no account, session or draw.\<close>

lemma evolves_after:
  assumes "evolves env T N t u" and "as_users (st_store t) = as_users (st_store s)"
    and "as_sessions (st_store t) = as_sessions (st_store s)" and "st_draws t = st_draws s"
    and "as_invites (st_store t) = as_invites (st_store s)" and "as_revoked (st_store t) = as_revoked (st_store s)"
  shows "evolves env T N s u"
  using assms by (simp add: evolves_def get_user_def get_session_def get_invite_def is_revoked_def)

lemma evolves_sound: "evolves env T N s t \<Longrightarrow> sound t"
  by (simp add: evolves_def)

lemma evolves_user:
  assumes "evolves env T N s t" and "get_user i (st_store t) = Some x'"
  obtains (kept) x where "get_user i (st_store s) = Some x" and "us_token_version x \<le> us_token_version x'"
      and "i \<in> T \<or> standing x' = standing x"
    | (made) "made_user env (st_draws s) (st_draws t) i" and "N (Inl x')"
  using assms unfolding evolves_def by blast

lemma evolves_session:
  "evolves env T N s t \<Longrightarrow> get_session h (st_store t) = Some r \<Longrightarrow> \<not> fresh_token env (st_draws s) h \<Longrightarrow>
     get_session h (st_store s) = Some r"
  by (auto simp: evolves_def)

lemma evolves_invite:
  assumes "evolves env T N s t" and "get_invite j (st_store t) = Some v'"
  obtains (kept) v where "get_invite j (st_store s) = Some v" and "iv_role v = iv_role v'" | (issued) "N (Inr v')"
  using assms unfolding evolves_def by blast

lemma evolves_revoked: "evolves env T N s t \<Longrightarrow> is_revoked j (st_store s) \<Longrightarrow> is_revoked j (st_store t)"
  by (auto simp: evolves_def)

text \<open>Writing the other collections, drawing and throttling change neither.\<close>

lemma evolves_same:
  assumes "evolves env T N s t" and "as_sessions (st_store t') = as_sessions (st_store t)"
    and "as_users (st_store t') = as_users (st_store t)" and "st_draws t \<le> st_draws t'"
    and "as_invites (st_store t') = as_invites (st_store t)" and "as_revoked (st_store t') = as_revoked (st_store t)"
  shows "evolves env T N s t'"
  using assms made_mono [of "st_draws s" "st_draws s" "st_draws t" "st_draws t'"]
  by (fastforce simp: evolves_def sound_def get_session_def get_user_def get_invite_def is_revoked_def)

lemma store_simps [simp]:
  "get_session h (save_session r st) = (if h = ss_token_hash r then Some r else get_session h st)"
  "get_session h (snd (delete_session k st)) = (if h = k then None else get_session h st)"
  "get_session h (save_user u st) = get_session h st"
  "get_session h (snd (remove_user i st)) = get_session h st"
  "get_user i (save_user u st) = (if i = us_user_id u then Some u else get_user i st)"
  "get_user i (snd (remove_user j st)) = (if i = j then None else get_user i st)"
  "get_user i (save_session r st) = get_user i st"
  "get_user i (snd (delete_session k st)) = get_user i st"
  "as_users (snd (delete_session k st)) = as_users st"
  "as_users (save_session r st) = as_users st"
  "as_sessions (save_user u st) = as_sessions st"
  "as_sessions (snd (remove_user i st)) = as_sessions st"
  "as_invites (snd (delete_session k st)) = as_invites st" "as_revoked (snd (delete_session k st)) = as_revoked st"
  "as_invites (save_session r st) = as_invites st" "as_revoked (save_session r st) = as_revoked st"
  "as_invites (save_user u st) = as_invites st" "as_revoked (save_user u st) = as_revoked st"
  "as_invites (snd (remove_user i st)) = as_invites st" "as_revoked (snd (remove_user i st)) = as_revoked st"
  by (simp_all add: get_session_def save_session_def delete_session_def get_user_def save_user_def
      remove_user_def rows_simps split_def)

lemma invites_of_same: "as_invites st' = as_invites st \<Longrightarrow> get_invite j st' = get_invite j st"
  "as_revoked st' = as_revoked st \<Longrightarrow> is_revoked j st' = is_revoked j st"
  by (simp_all add: get_invite_def is_revoked_def)

lemma store_frame [simp]:
  "get_invite j (snd (delete_session k st)) = get_invite j st" "is_revoked j (snd (delete_session k st)) = is_revoked j st"
  "get_invite j (save_session r st) = get_invite j st" "is_revoked j (save_session r st) = is_revoked j st"
  "get_invite j (save_user u st) = get_invite j st" "is_revoked j (save_user u st) = is_revoked j st"
  "get_invite j (snd (remove_user i st)) = get_invite j st" "is_revoked j (snd (remove_user i st)) = is_revoked j st"
  by (rule invites_of_same, simp)+

lemma on_store_simps [simp]:
  "st_store (on_store f s) = f (st_store s)" "st_draws (on_store f s) = st_draws s"
  "st_attempts (on_store f s) = st_attempts s"
  by (simp_all add: on_store_def)

lemma sound_save_session: "sound s \<Longrightarrow> sound (on_store (save_session r) s)"
  by (simp add: sound_def save_session_def rows_simps)

lemma sound_save_user: "sound s \<Longrightarrow> sound (on_store (save_user u) s)"
  by (simp add: sound_def save_user_def rows_simps)

lemma sound_delete_session: "sound s \<Longrightarrow> sound (on_store (\<lambda>st. snd (delete_session h st)) s)"
  by (simp add: sound_def delete_session_def rows_simps split_def)

lemma evolves_save_session [evolution]:
  assumes "evolves env T N s t" and "ss_token_hash r = ev_hash env (ev_token env k)" and "st_draws s \<le> k"
  shows "evolves env T N s (on_store (save_session r) t)"
  using assms sound_save_session [of t r] by (auto simp: evolves_def fresh_token_def)

lemma evolves_delete_session [evolution]:
  "evolves env T N s t \<Longrightarrow> evolves env T N s (on_store (\<lambda>st. snd (delete_session h st)) t)"
  using sound_delete_session [of t h] by (auto simp: evolves_def)

lemma evolves_save_user [evolution]:
  assumes "evolves env T N s t" and "get_user (us_user_id u') (st_store s) = Some u"
    and "us_token_version u \<le> us_token_version u'" and "us_user_id u' \<in> T \<or> standing u' = standing u"
  shows "evolves env T N s (on_store (save_user u') t)"
  unfolding evolves_def
proof (intro conjI allI impI)
  show "sound (on_store (save_user u') t)"
    using assms(1) by (simp add: evolves_def sound_save_user)
qed (use assms in \<open>auto simp: evolves_def split: if_splits\<close>)

lemma evolves_new_user [evolution]:
  assumes "evolves env T N s t" and "N (Inl u)" and "us_user_id u = ev_id env ''usr'' k" and "st_draws s \<le> k"
    and "k < st_draws t"
  shows "evolves env T N s (on_store (save_user u) t)"
  using assms sound_save_user [of t u] by (auto simp: evolves_def made_user_def)

lemma sound_remove_user: "sound s \<Longrightarrow> sound (on_store (\<lambda>st. snd (remove_user i st)) s)"
  by (simp add: sound_def remove_user_def rows_simps split_def)

lemma evolves_remove_user [evolution]:
  "evolves env T N s t \<Longrightarrow> i \<in> T \<Longrightarrow> evolves env T N s (on_store (\<lambda>st. snd (remove_user i st)) t)"
  using sound_remove_user [of t i] by (auto simp: evolves_def)

lemma keyed_delete_session:
  "keyed ss_token_hash (as_sessions st) \<Longrightarrow> keyed ss_token_hash (as_sessions (snd (delete_session h st)))"
  by (simp add: delete_session_def rows_simps split_def Let_def)

text \<open>The store after a sweep, without the count.\<close>

lemma sweep_sessions_fold:
  "snd (sweep_sessions rs n st) =
     fold (\<lambda>r st. if ss_token_hash r = [] then st else snd (delete_session (ss_token_hash r) st)) rs st"
  by (induction rs n st rule: sweep_sessions.induct) (simp_all add: split_def Let_def)

lemma sweep_sessions_frame:
  "as_users (snd (sweep_sessions rs n st)) = as_users st"
  "as_invites (snd (sweep_sessions rs n st)) = as_invites st"
  "as_revoked (snd (sweep_sessions rs n st)) = as_revoked st"
  "get_session h (snd (sweep_sessions rs n st)) =
     (if h \<noteq> [] \<and> h \<in> ss_token_hash ` set rs then None else get_session h st)"
  "keyed ss_token_hash (as_sessions st) \<Longrightarrow> keyed ss_token_hash (as_sessions (snd (sweep_sessions rs n st)))"
  unfolding sweep_sessions_fold
  by (induction rs arbitrary: st) (auto simp: keyed_delete_session)

lemma evolves_delete_user_sessions [evolution]:
  "evolves env T N s t \<Longrightarrow> evolves env T N s (on_store (\<lambda>st. snd (delete_user_sessions u st)) t)"
  by (auto simp: evolves_def sound_def delete_user_sessions_def sweep_sessions_frame get_user_def
      get_invite_def is_revoked_def split: if_splits)

section \<open>Every request evolves\<close>

lemma evolves_throttle [evolution]: "evolves env T N s t \<Longrightarrow> evolves env T N s (t\<lparr>st_attempts := l\<rparr>)"
  by (erule evolves_same) simp_all

lemma evolves_draw [evolution]: "evolves env T N s t \<Longrightarrow> evolves env T N s (t\<lparr>st_draws := Suc (st_draws t)\<rparr>)"
  by (erule evolves_same) simp_all

lemma evolves_audit [evolution]: "evolves env T N s t \<Longrightarrow> evolves env T N s (audit env now k u e d t)"
  by (erule evolves_same) (simp_all add: audit_def new_id_def Let_def add_auth_event_def)

lemma evolves_draws: "evolves env T N s t \<Longrightarrow> st_draws s \<le> st_draws t"
  by (simp add: evolves_def)

lemma evolves_new_session [evolution]:
  "evolves env T N s t \<Longrightarrow> evolves env T N s (snd (new_session env now u og ttl kind tn t))"
  by (auto simp: new_session_def new_token_def intro!: evolves_save_session [where k = "st_draws t"]
      evolves_draw dest: evolves_draws)

lemma evolves_mint_jwt_pair [evolution]:
  assumes "evolves env T N s t"
  shows "evolves env T N s (snd (mint_jwt_pair env now u t))"
proof (cases "ev_jwt env")
  case (Some js)
  have "evolves env T N s (t\<lparr>st_draws := Suc (Suc (st_draws t))\<rparr>)"
    using assms by (rule evolves_same) simp_all
  then show ?thesis
    using evolves_draws [OF assms] Some
    by (auto simp: mint_jwt_pair_def require_jwt_def new_token_def
        intro!: evolves_save_session [where k = "Suc (st_draws t)"])
qed (use assms in \<open>simp add: mint_jwt_pair_def require_jwt_def\<close>)

lemma evolves_sign_in [evolution]:
  assumes "evolves env T N s t"
  shows "evolves env T N s (snd (sign_in env now ttl u t))"
proof -
  have "snd (sign_in env now ttl u t) =
      snd (mint_jwt_pair env now u
        (snd (new_session env now (us_user_id u) (us_org_id u) ttl SESSION_KIND (us_tenant_id u) t)))"
    by (simp add: sign_in_def split_def Let_def split: sum.splits prod.splits)
  then show ?thesis by (simp add: evolves_mint_jwt_pair evolves_new_session assms)
qed

lemma users_of_sign_in [simp]: "get_user i (st_store (snd (sign_in env now ttl u t))) = get_user i (st_store t)"
  by (simp add: sign_in_def new_session_def mint_jwt_pair_def new_token_def require_jwt_def get_user_def
      split: sum.splits prod.splits option.splits)

lemma sign_in_result:
  assumes "sign_in env now ttl u t = (r, t')"
  shows "evolves env T N s t \<Longrightarrow> evolves env T N s t'" and "get_user i (st_store t') = get_user i (st_store t)"
  using evolves_sign_in [of env T N s t now ttl u] users_of_sign_in [of i env now ttl u t] assms by simp_all

lemma get_user_id: "sound s \<Longrightarrow> get_user i (st_store s) = Some u \<Longrightarrow> us_user_id u = i"
  by (auto simp: sound_def get_user_def dest: rows_get_key)

lemma get_user_by_email_Some:
  "sound s \<Longrightarrow> get_user_by_email e (st_store s) = Some u \<Longrightarrow> get_user (us_user_id u) (st_store s) = Some u"
  by (auto simp: sound_def get_user_by_email_def get_user_def dest: rows_find_one_Some)

lemma evolves_signup [evolution]:
  assumes "sound s" and "\<And>u. count_users (st_store s) = 0 \<Longrightarrow> N (Inl u)"
  shows "evolves env T N s (snd (signup env now e n p s))"
proof -
  have "evolves env T N s (on_store (save_user u) (s\<lparr>st_draws := Suc (Suc (st_draws s))\<rparr>))"
    if "us_user_id u = ev_id env ''usr'' (st_draws s)" and "count_users (st_store s) = 0" for u
    using that assms
    by (intro evolves_new_user [where k = "st_draws s"] evolves_same [OF evolves_refl [OF assms(1)]]) simp_all
  then show ?thesis
    using assms(1)
    by (auto simp: signup_def new_id_def hash_password_def Let_def split: prod.splits sum.splits
        dest!: sign_in_result(1) intro!: evolves_audit evolves_refl)
qed

lemma evolves_login [evolution]:
  assumes "sound s"
  shows "evolves env T N s (snd (login env now e p r ip s))"
proof -
  define s0 where "s0 = s\<lparr>st_attempts := snd (check_login_allowed now ip (st_attempts s))\<rparr>"
  have s0: "evolves env T N s s0" unfolding s0_def by (intro evolves_throttle evolves_refl assms)
  have "evolves env T N s (on_store (save_user (u\<lparr>us_last_login_at := Some now\<rparr>)) (snd (sign_in env now ttl u s0)))"
    if "get_user_by_email e (st_store s0) = Some u" for u ttl
    using that s0 get_user_by_email_Some [OF assms, of e]
    by (intro evolves_save_user [where u = u] evolves_sign_in) (simp_all add: s0_def standing_def)
  then show ?thesis
    using s0
    by (auto simp: login_def s0_def [symmetric] Let_def split_def split: option.splits sum.splits
        intro!: evolves_audit evolves_sign_in)
qed

lemma evolves_quarantine [evolution]:
  assumes "evolves env T N s t" and "get_user (us_user_id u) (st_store s) = Some u"
  shows "evolves env T N s (quarantine_user u t)"
proof -
  have "quarantine_user u t =
      on_store (\<lambda>st. snd (delete_user_sessions (us_user_id u) st)) (on_store (save_user (bump_version u)) t)"
    by (simp add: quarantine_user_def on_store_def)
  moreover have "evolves env T N s (on_store (save_user (bump_version u)) t)"
    using assms by (intro evolves_save_user [where u = u]) (simp_all add: bump_version_def standing_def)
  ultimately show ?thesis by (simp add: evolves_delete_user_sessions)
qed

lemma evolves_refresh [evolution]:
  assumes "sound s"
  shows "evolves env T N s (snd (refresh env now tok ip s))"
proof -
  define s0 where "s0 = s\<lparr>st_attempts := snd (check_login_allowed now ip (st_attempts s))\<rparr>"
  have s0: "evolves env T N s s0" unfolding s0_def by (intro evolves_throttle evolves_refl assms)
  show ?thesis
    using s0 get_user_id [OF assms]
    by (auto simp: refresh_def s0_def [symmetric] Let_def split_def split: option.splits sum.splits
        intro!: evolves_audit evolves_delete_session evolves_quarantine evolves_sign_in)
      (simp_all add: s0_def)
qed

text \<open>Handlers that write only the other collections.\<close>

lemma other_writes [simp]:
  "as_users (save_revoked t st) = as_users st" "as_sessions (save_revoked t st) = as_sessions st"
  "as_invites (save_revoked t st) = as_invites st"
  "as_users (save_invite i st) = as_users st" "as_sessions (save_invite i st) = as_sessions st"
  "as_revoked (save_invite i st) = as_revoked st"
  "as_users (snd (remove_invite j st)) = as_users st" "as_sessions (snd (remove_invite j st)) = as_sessions st"
  "as_revoked (snd (remove_invite j st)) = as_revoked st"
  by (simp_all add: save_revoked_def save_invite_def remove_invite_def split_def Let_def)

lemma directory_writes [simp]:
  "as_users (save_tenant w st) = as_users st" "as_sessions (save_tenant w st) = as_sessions st"
  "as_invites (save_tenant w st) = as_invites st" "as_revoked (save_tenant w st) = as_revoked st"
  "as_users (save_organization g st) = as_users st" "as_sessions (save_organization g st) = as_sessions st"
  "as_invites (save_organization g st) = as_invites st" "as_revoked (save_organization g st) = as_revoked st"
  "as_users (save_team q st) = as_users st" "as_sessions (save_team q st) = as_sessions st"
  "as_invites (save_team q st) = as_invites st" "as_revoked (save_team q st) = as_revoked st"
  "as_users (save_membership m st) = as_users st" "as_sessions (save_membership m st) = as_sessions st"
  "as_invites (save_membership m st) = as_invites st" "as_revoked (save_membership m st) = as_revoked st"
  "as_users (snd (delete_membership j st)) = as_users st"
  "as_sessions (snd (delete_membership j st)) = as_sessions st"
  "as_invites (snd (delete_membership j st)) = as_invites st"
  "as_revoked (snd (delete_membership j st)) = as_revoked st"
  "as_users (save_api_key k st) = as_users st" "as_sessions (save_api_key k st) = as_sessions st"
  "as_invites (save_api_key k st) = as_invites st" "as_revoked (save_api_key k st) = as_revoked st"
  by (simp_all add: save_tenant_def save_organization_def
      save_team_def save_membership_def delete_membership_def save_api_key_def split_def Let_def)

lemma revoked_writes [simp]:
  "is_revoked j (save_revoked t st) \<longleftrightarrow> j = rv_jti t \<or> is_revoked j st"
  "get_invite j (save_invite v st) = (if j = iv_invite_id v then Some v else get_invite j st)"
  "get_invite j (snd (remove_invite i st)) = (if j = i then None else get_invite j st)"
  by (simp_all add: is_revoked_def save_revoked_def get_invite_def save_invite_def remove_invite_def rows_simps
      split_def Let_def)

lemma evolves_save_revoked [evolution]:
  "evolves env T N s t \<Longrightarrow> evolves env T N s (on_store (save_revoked v) t)"
  by (auto simp: evolves_def sound_def get_user_def get_session_def get_invite_def)

lemma evolves_save_invite [evolution]:
  assumes "evolves env T N s t" and "(\<exists>v0. get_invite (iv_invite_id v) (st_store s) = Some v0 \<and> iv_role v0 = iv_role v) \<or> N (Inr v)"
  shows "evolves env T N s (on_store (save_invite v) t)"
proof -
  have "sound (on_store (save_invite v) t)"
    using evolves_sound [OF assms(1)] by (simp add: sound_def, simp add: save_invite_def rows_simps)
  then show ?thesis
    using assms by (auto simp: evolves_def get_user_def get_session_def is_revoked_def)
qed

lemma evolves_remove_invite [evolution]:
  assumes "evolves env T N s t"
  shows "evolves env T N s (on_store (\<lambda>st. snd (remove_invite j st)) t)"
proof -
  have "sound (on_store (\<lambda>st. snd (remove_invite j st)) t)"
    using evolves_sound [OF assms] by (simp add: sound_def, simp add: remove_invite_def rows_simps split_def Let_def)
  then show ?thesis
    using assms by (auto simp: evolves_def get_user_def get_session_def is_revoked_def)
qed

lemma claim_memberships_frame [simp]:
  "as_users (claim_memberships uid ms st) = as_users st"
  "as_sessions (claim_memberships uid ms st) = as_sessions st"
  "as_invites (claim_memberships uid ms st) = as_invites st"
  "as_revoked (claim_memberships uid ms st) = as_revoked st"
  by (induction uid ms st rule: claim_memberships.induct) simp_all

lemma evolves_logout [evolution]:
  assumes "sound s"
  shows "evolves env T N s (logout env now tok rtok p s)"
  unfolding logout_def Let_def
  by (auto split: option.splits intro!: evolves_audit evolves_save_revoked evolves_delete_session evolves_refl assms)

lemma evolves_invite_user [evolution]:
  assumes "sound s"
    and "\<And>q v. require_admin p = Inr q \<Longrightarrow> iv_role v = r \<Longrightarrow> r \<in> {''owner'', ''admin''} \<longrightarrow> pr_role q = ''owner'' \<Longrightarrow> N (Inr v)"
  shows "evolves env T N s (snd (invite_user env now p e n r s))"
  using assms evolves_same [OF evolves_refl [OF assms(1)], of "s\<lparr>st_draws := Suc (Suc (st_draws s))\<rparr>" env T N]
  by (auto simp: invite_user_def new_token_def new_id_def Let_def split: sum.splits
      intro!: evolves_audit evolves_save_invite evolves_refl)

definition invited :: "auth_env \<Rightarrow> rat \<Rightarrow> string \<Rightarrow> auth_state \<Rightarrow> user \<Rightarrow> bool" where
  "invited env now tok s u =
     (case get_invite_by_token_hash (ev_hash env tok) (st_store s) of
        None \<Rightarrow> False
      | Some i \<Rightarrow> \<not> iv_accepted i \<and> now \<le> iv_expires_at i \<and>
          us_role u = iv_role i \<and> us_email u = iv_email i \<and> us_tenant_id u = iv_tenant_id i)"

lemma evolves_accept_invite [evolution]:
  assumes "sound s" and "\<And>u. invited env now tok s u \<Longrightarrow> N (Inl u)"
  shows "evolves env T N s (snd (accept_invite env now tok n p s))"
proof -
  have "evolves env T N s (on_store (\<lambda>st. claim_memberships i (ms st) st) (on_store (save_invite v)
      (on_store (save_user u) (s\<lparr>st_draws := Suc (Suc (st_draws s))\<rparr>))))"
    if "us_user_id u = ev_id env ''usr'' (st_draws s)" and "invited env now tok s u"
      and "get_invite (iv_invite_id v) (st_store s) = Some v0" and "iv_role v0 = iv_role v" for u i v ms v0
  proof -
    have "evolves env T N s (on_store (save_user u) (s\<lparr>st_draws := Suc (Suc (st_draws s))\<rparr>))"
      using that assms
      by (intro evolves_new_user [where k = "st_draws s"] evolves_same [OF evolves_refl [OF assms(1)]]) simp_all
    then have "evolves env T N s (on_store (save_invite v) (on_store (save_user u) (s\<lparr>st_draws := Suc (Suc (st_draws s))\<rparr>)))"
      using that by (intro evolves_save_invite) auto
    then show ?thesis by (rule evolves_same) simp_all
  qed
  moreover have "get_invite (iv_invite_id v) (st_store s) = Some v"
    if "get_invite_by_token_hash h (st_store s) = Some v" for h v
    using that assms(1) by (auto simp: sound_def get_invite_by_token_hash_def get_invite_def dest: rows_find_one_Some)
  ultimately show ?thesis
    using assms(1)
    by (auto simp: accept_invite_def new_id_def hash_password_def Let_def split_def split: option.splits sum.splits
        intro!: evolves_audit evolves_refl evolves_sign_in simp: invited_def)
qed

lemma evolves_delete_invite [evolution]:
  "sound s \<Longrightarrow> evolves env T N s (snd (delete_invite env now p i s))"
  by (auto simp: delete_invite_def split: sum.splits option.splits
      intro!: evolves_audit evolves_remove_invite evolves_refl)

lemma evolves_resave_and_sweep:
  assumes "evolves env T N s t" and "get_user (us_user_id u') (st_store s) = Some u"
    and "us_token_version u \<le> us_token_version u'" and "us_user_id u' \<in> T \<or> standing u' = standing u"
  shows "evolves env T N s (on_store (\<lambda>st. snd (delete_user_sessions i (save_user u' st))) t)"
  using evolves_delete_user_sessions [OF evolves_save_user [OF assms]] by (simp add: on_store_def)

lemma evolves_set_user_role [evolution]:
  assumes "sound s" and "\<And>q. require_owner p = Inr q \<Longrightarrow> i \<in> T"
  shows "evolves env T N s (snd (set_user_role env now p i r s))"
  using get_user_id [OF assms(1)] assms(2)
  by (auto simp: set_user_role_def Let_def split: sum.splits option.splits
      intro!: evolves_audit evolves_resave_and_sweep evolves_refl assms(1) simp: bump_version_def)

lemma evolves_delete_user [evolution]:
  assumes "sound s" and "\<And>q. require_owner p = Inr q \<Longrightarrow> i \<in> T"
  shows "evolves env T N s (snd (delete_user env now p i s))"
proof -
  have "evolves env T N s (on_store (\<lambda>st. snd (remove_user i (snd (delete_user_sessions i st)))) s)" if "i \<in> T"
    using evolves_remove_user [OF evolves_delete_user_sessions [OF evolves_refl [OF assms(1)], where u = i] that]
    by (simp add: on_store_def)
  then show ?thesis
    using assms
    by (auto simp: delete_user_def Let_def split: sum.splits option.splits
        intro!: evolves_audit evolves_refl)
qed

lemma evolves_change_password [evolution]:
  assumes "sound s"
  shows "evolves env T N s (snd (change_password env now p a b s))"
  using get_user_id [OF assms] evolves_draw [OF evolves_refl [OF assms]]
  by (auto simp: change_password_def hash_password_def Let_def split_def split: sum.splits option.splits
      intro!: evolves_audit evolves_sign_in evolves_resave_and_sweep evolves_refl assms simp: bump_version_def standing_def)

lemma evolves_redeem_ticket [evolution]:
  "sound s \<Longrightarrow> evolves env T N s (snd (redeem_ticket env now t s))"
  by (auto simp: redeem_ticket_def Let_def split: option.splits intro!: evolves_delete_session evolves_refl)

lemma evolves_mint_ticket [evolution]:
  "sound s \<Longrightarrow> evolves env T N s (snd (mint_ticket env now p s))"
  using evolves_new_session [OF evolves_refl, of s env T N now]
  by (auto simp: mint_ticket_def split_def Let_def split: sum.splits intro!: evolves_refl)

lemma principal_from_api_key_frame [simp]:
  "as_users (snd (principal_from_api_key env now secret st)) = as_users st"
  "as_sessions (snd (principal_from_api_key env now secret st)) = as_sessions st"
  "as_invites (snd (principal_from_api_key env now secret st)) = as_invites st"
  "as_revoked (snd (principal_from_api_key env now secret st)) = as_revoked st"
  by (simp_all add: principal_from_api_key_def Let_def split: option.splits)

lemma authenticate_frame:
  "as_users (st_store (snd (authenticate env now a b s))) = as_users (st_store s)"
  "as_sessions (st_store (snd (authenticate env now a b s))) = as_sessions (st_store s)"
  "as_invites (st_store (snd (authenticate env now a b s))) = as_invites (st_store s)"
  "as_revoked (st_store (snd (authenticate env now a b s))) = as_revoked (st_store s)"
  "st_draws (snd (authenticate env now a b s)) = st_draws s"
  using principal_from_api_key_frame [of env now "Some (py_strip (snd (scheme_and_secret (or_empty b))))" "st_store s"]
  by (auto simp: authenticate_def Let_def split_def split: option.splits)

lemma snd_resolve_caller: "snd (resolve_caller env now a b s) = snd (authenticate env now a b s)"
  by (simp add: resolve_caller_def split_def split: sum.splits)

lemma evolves_resolve_caller [evolution]:
  "sound s \<Longrightarrow> evolves env T N s (snd (resolve_caller env now a b s))"
  by (rule evolves_same [OF evolves_refl]) (simp_all add: snd_resolve_caller authenticate_frame)

lemma evolves_as_caller:
  assumes "sound s"
    and "\<And>t. sound t \<Longrightarrow> as_users (st_store t) = as_users (st_store s) \<Longrightarrow>
      evolves env T N t (handler (fst (resolve_caller env now (fst c) (snd c) s)) t)"
  shows "evolves env T N s (as_caller env now c handler s)"
proof -
  let ?t = "snd (resolve_caller env now (fst c) (snd c) s)"
  have same: "as_users (st_store ?t) = as_users (st_store s)" "as_sessions (st_store ?t) = as_sessions (st_store s)"
    "st_draws ?t = st_draws s" "as_invites (st_store ?t) = as_invites (st_store s)"
    "as_revoked (st_store ?t) = as_revoked (st_store s)"
    by (simp_all add: snd_resolve_caller authenticate_frame)
  then have "sound ?t" using assms(1) by (simp add: sound_def)
  then show ?thesis
    unfolding as_caller_def split_def using evolves_after [OF assms(2)] same by blast
qed

lemma evolves_directory [evolution]:
  assumes "sound s"
  shows "evolves env T N s (snd (create_tenant env p g n pl s))"
    and "evolves env T N s (snd (create_organization env p t n s))"
    and "evolves env T N s (snd (create_team env p og n s))"
    and "evolves env T N s (snd (add_membership env p tm u r s))"
    and "evolves env T N s (snd (remove_membership p tm u s))"
  using assms
  by (auto simp: create_tenant_def create_organization_def create_team_def add_membership_def
      remove_membership_def new_id_def Let_def split: sum.splits option.splits
      intro!: evolves_same [OF evolves_refl])

text \<open>Whom a request may promote, demote or remove, and whom it may create.\<close>

definition caller :: "auth_env \<Rightarrow> rat \<Rightarrow> creds \<Rightarrow> auth_state \<Rightarrow> principal option" where
  "caller env now c s = fst (resolve_caller env now (fst c) (snd c) s)"

fun touched :: "auth_env \<Rightarrow> rat \<Rightarrow> auth_request \<Rightarrow> auth_state \<Rightarrow> string set" where
  "touched env now (Set_User_Role c i r) s = {j. j = i \<and> (\<exists>q. require_owner (caller env now c s) = Inr q)}"
| "touched env now (Delete_User c i) s = {j. j = i \<and> (\<exists>q. require_owner (caller env now c s) = Inr q)}"
| "touched env now r s = {}"

fun admitted :: "auth_env \<Rightarrow> rat \<Rightarrow> auth_request \<Rightarrow> auth_state \<Rightarrow> user + invite \<Rightarrow> bool" where
  "admitted env now (Signup e n p) s (Inl u) = (count_users (st_store s) = 0)"
| "admitted env now (Accept_Invite t n p) s (Inl u) = invited env now t s u"
| "admitted env now (Invite_User c e n r) s (Inr v) =
     (case require_admin (caller env now c s) of
        Inl err \<Rightarrow> False
      | Inr q \<Rightarrow> iv_role v = r \<and> (r \<in> {''owner'', ''admin''} \<longrightarrow> pr_role q = ''owner''))"
| "admitted env now r s x = False"

lemma evolves_step:
  assumes "sound s"
  shows "evolves env (touched env now r s) (admitted env now r s) s (auth_step env now r s)"
  using assms by (cases r) (auto intro!: evolves_as_caller evolution simp: caller_def)

lemma evolves_run: "sound s \<Longrightarrow> evolves env UNIV (\<lambda>_. True) s (auth_run env rs s)"
proof (induction rs arbitrary: s)
  case (Cons tr rs)
  obtain now r where tr: "tr = (now, r)" by fastforce
  have step: "evolves env UNIV (\<lambda>_. True) s (auth_step env now r s)"
    using evolves_step [OF Cons.prems] by (rule evolves_weaken)
  then show ?case
    using Cons.IH [OF evolves_sound [OF step]] evolves_trans by (auto simp: tr)
qed (simp add: evolves_refl)

end
