(* ===== verification/Auth_Properties.thy ===== *)
theory Auth_Properties
  imports Auth_Runs
begin

text \<open>
  What the auth service promises: revocation reaches every later state, refresh tokens are used
  once, the sweep of a user's sessions is exact about its bound, an organization keeps an owner,
  accounts with administrative roles come from where they may come from, and no resolver answers
  for an account that is disabled, gone or of a suspended tenant.
\<close>

section \<open>A sample installation\<close>

definition sample_jwt :: jwt_settings where
  "sample_jwt =
     \<lparr>js_private_key = ''priv'', js_public_key = ''pub'', js_issuer = ''iss'', js_audience = ''aud'',
      js_access_ttl_s = 900, js_refresh_ttl_s = 3600\<rparr>"

definition sample_env :: auth_env where
  "sample_env =
     \<lparr>ev_hash = (\<lambda>t. CHR ''#'' # t), ev_token = (\<lambda>k. replicate (Suc k) CHR ''t''),
      ev_id = (\<lambda>p k. p @ replicate (Suc k) CHR ''-''), ev_kdf = plain_kdf,
      ev_salt = (\<lambda>k. [k]), ev_encode = (\<lambda>c k. ''a.b.c''),
      ev_decode = (\<lambda>now t k i a. if t = ''a.b.c''
         then Some [(''sub'', PStr ''usr-''), (''jti'', PStr ''tttt''), (''ver'', PInt 0)] else None),
      ev_jwt = Some sample_jwt\<rparr>"

definition empty_store :: auth_store where
  "empty_store =
     \<lparr>as_users = [], as_sessions = [], as_invites = [], as_keys = [], as_events = [], as_revoked = [],
      as_tenants = [], as_organizations = [], as_teams = [], as_memberships = []\<rparr>"

definition blank :: auth_state where
  "blank = \<lparr>st_store = empty_store, st_draws = 0, st_attempts = []\<rparr>"

definition installed :: auth_state where
  "installed = snd (signup sample_env 0 ''Ann@Example.org'' None ''pw'' blank)"

text \<open>The principal of the first account, as its session cookie resolves it.\<close>

definition ann :: principal where
  "ann = \<lparr>pr_user_id = Some ''usr-'', pr_email = Some ''ann@example.org'', pr_org_id = ''default'',
     pr_tenant_id = ''default'', pr_role = ''owner'', pr_auth_type = ''session'', pr_scopes = [], pr_teams = [],
     pr_team_roles = [], pr_key_id = None, pr_key_name = None, pr_token_id = Some ''tttt''\<rparr>"

definition ann_user :: user where
  "ann_user = \<lparr>us_user_id = ''usr-'', us_email = ''ann@example.org'', us_name = None, us_password_hash = ''pbkdf2_sha256$600000$01$7077'',
     us_role = ''owner'', us_org_id = ''default'', us_tenant_id = None, us_disabled = False,
     us_last_login_at = None, us_token_version = 0\<rparr>"

lemma sample_password: "verify_password_with plain_kdf q ''pbkdf2_sha256$600000$01$7077'' \<longleftrightarrow> q = ''pw''"
proof -
  have "or_empty (hash_password_with plain_kdf ''pw'' [1]) = ''pbkdf2_sha256$600000$01$7077''" by code_simp
  then show ?thesis using plain_kdf_check [of "[1]" q "''pw''"] by simp
qed

lemma installed_eq:
  "installed = \<lparr>st_store = empty_store\<lparr>
     as_users := [(''usr-'', Live ann_user)],
     as_sessions := [(''#ttt'', Live \<lparr>ss_token_hash = ''#ttt'', ss_user_id = ''usr-'', ss_org_id = ''default'',
          ss_tenant_id = None, ss_kind = ''session'', ss_expires_at = 604800, ss_token_version = 0\<rparr>),
        (''#ttttt'', Live \<lparr>ss_token_hash = ''#ttttt'', ss_user_id = ''usr-'', ss_org_id = ''default'',
          ss_tenant_id = None, ss_kind = ''refresh'', ss_expires_at = 3600, ss_token_version = 0\<rparr>)],
     as_events := [(''evt------'', Live \<lparr>ae_event_id = ''evt------'', ae_type = ''signup'', ae_user_id = Some ''usr-'',
          ae_email = Some ''ann@example.org'', ae_detail = Some ''first user (owner)'', ae_created_at = 0,
          ae_tenant_id = Some ''default''\<rparr>)]\<rparr>, st_draws = 6, st_attempts = []\<rparr>"
proof -
  let ?s = "on_store (save_user ann_user) (blank\<lparr>st_draws := 2\<rparr>)"
  have "count_users (st_store blank) = 0" "normal_email ''Ann@Example.org'' = ''ann@example.org''"
    "get_user_by_email ''ann@example.org'' (st_store blank) = None"
    "new_id sample_env ''usr'' blank = (''usr-'', blank\<lparr>st_draws := 1\<rparr>)"
    "default_tenant_hex (st_store (blank\<lparr>st_draws := 2\<rparr>)) = None"
    by code_simp+
  moreover have "hash_password sample_env ''pw'' (blank\<lparr>st_draws := 1\<rparr>) =
      (''pbkdf2_sha256$600000$01$7077'', blank\<lparr>st_draws := 2\<rparr>)" by code_simp
  ultimately have start: "installed = snd (case sign_in sample_env 0 SESSION_TTL_S ann_user ?s of
       (Inl e, s3) \<Rightarrow> (Inl e, s3)
     | (Inr tokens, s3) \<Rightarrow> (Inr (ann_user, tokens),
         audit sample_env 0 ''signup'' (Some ''usr-'') (Some ''ann@example.org'') (Some ''first user (owner)'') s3))"
    by (simp add: installed_def signup_def Let_def ann_user_def cong: sum.case_cong prod.case_cong)
  show ?thesis unfolding start by code_simp
qed

text \<open>After Ann has changed her password.\<close>

definition rotated :: auth_state where
  "rotated = snd (change_password sample_env 5 (Some ann) ''pw'' ''new'' installed)"

lemma sample_user: "get_user ''usr-'' (st_store installed) = Some ann_user"
  by (simp add: installed_eq get_user_def rows_get_def)

lemma sign_in_ok:
  "ev_jwt env = Some js \<Longrightarrow> fst (sign_in env now ttl u t) =
     Inr \<lparr>tk_legacy_token = ev_token env (st_draws t),
          tk_access_token = issue_access_token env u (ev_token env (Suc (st_draws t))) js now,
          tk_refresh_token = ev_token env (Suc (Suc (st_draws t)))\<rparr>"
  by (simp add: sign_in_def new_session_def mint_jwt_pair_def new_token_def require_jwt_def Let_def)

lemma sample_change:
  "change_password sample_env 5 (Some ann) ''pw'' ''new'' installed =
     (Inr \<lparr>tk_legacy_token = replicate 8 CHR ''t'', tk_access_token = ''a.b.c'', tk_refresh_token = replicate 10 CHR ''t''\<rparr>, rotated)"
proof -
  have "fst (change_password sample_env 5 (Some ann) ''pw'' ''new'' installed) =
      Inr \<lparr>tk_legacy_token = replicate 8 CHR ''t'', tk_access_token = ''a.b.c'', tk_refresh_token = replicate 10 CHR ''t''\<rparr>"
    using sample_user
    by (simp add: change_password_def ensure_authenticated_def split_def Let_def sign_in_ok hash_password_def sample_password
        issue_access_token_def sample_env_def ann_def ann_user_def installed_eq eval_nat_numeral)
  then show ?thesis by (simp add: rotated_def prod_eq_iff)
qed

lemma sample_draws: "st_draws installed = 6" by (simp add: installed_eq)

lemma sample_sound: "sound installed" by (simp add: installed_eq sound_def empty_store_def ann_user_def rows_simps)

lemma sample_token_old: "k < n \<Longrightarrow> \<not> fresh_token sample_env n (CHR ''#'' # replicate (Suc k) CHR ''t'')"
  by (auto simp: fresh_token_def sample_env_def dest: arg_cong [where f = length])

lemma sample_token_other: "c \<noteq> CHR ''t'' \<Longrightarrow> \<not> fresh_token sample_env n (CHR ''#'' # c # cs)"
  by (auto simp: fresh_token_def sample_env_def)

lemma sample_user_old: "\<not> fresh_user sample_env 6 ''usr-''"
  by (auto simp: fresh_user_def sample_env_def dest: arg_cong [where f = length])

lemma sample_inj: "inj (\<lambda>k. ev_hash sample_env (ev_token sample_env k))" "inj (ev_id sample_env ''usr'')"
  by (auto simp: inj_def sample_env_def dest: arg_cong [where f = length])

section \<open>The sweep of a user's sessions\<close>

lemma live_sessions_sweep:
  assumes "keyed ss_token_hash (as_sessions st)" and "\<forall>r \<in> set rs. ss_token_hash r \<noteq> []"
  shows "live_rows (as_sessions (snd (sweep_sessions rs n st))) =
    filter (\<lambda>r. ss_token_hash r \<notin> ss_token_hash ` set rs) (live_rows (as_sessions st))"
  using assms unfolding sweep_sessions_fold
proof (induction rs arbitrary: st)
  case (Cons r rs)
  have "live_rows (as_sessions (snd (delete_session (ss_token_hash r) st))) =
      filter (\<lambda>q. ss_token_hash q \<noteq> ss_token_hash r) (live_rows (as_sessions st))"
    using live_rows_soft_delete [OF Cons.prems(1)] by (simp add: delete_session_def split_def Let_def)
  then show ?case
    using Cons.IH [OF keyed_delete_session [OF Cons.prems(1)]] Cons.prems
    by (auto simp: filter_filter conj_commute intro!: filter_cong)
qed simp

lemma filter_take_drop:
  assumes "distinct (map key xs)"
  shows "filter (\<lambda>x. key x \<notin> key ` set (take n xs)) xs = drop n xs"
proof -
  define p q where "p = take n xs" and "q = drop n xs"
  have xs: "xs = p @ q" by (simp add: p_def q_def)
  have "filter (\<lambda>x. key x \<notin> key ` set p) p = []" by (auto simp: filter_empty_conv)
  moreover have "filter (\<lambda>x. key x \<notin> key ` set p) q = q"
    using assms unfolding xs by (force simp: filter_id_conv)
  ultimately have "filter (\<lambda>x. key x \<notin> key ` set p) (p @ q) = q" by simp
  then show ?thesis by (simp add: p_def q_def)
qed

definition sessions_of :: "string \<Rightarrow> auth_state \<Rightarrow> session_record list" where
  "sessions_of i s = filter (\<lambda>r. ss_user_id r = i) (live_rows (as_sessions (st_store s)))"

lemma sessions_after_sweep:
  assumes "sound s" and "\<forall>r \<in> set (sessions_of i s). ss_token_hash r \<noteq> []"
  shows "sessions_of i (on_store (\<lambda>st. snd (delete_user_sessions i st)) s) = drop LOOKUP_LIMIT (sessions_of i s)"
proof -
  let ?mine = "sessions_of i s"
  have k: "keyed ss_token_hash (as_sessions (st_store s))" using assms(1) by (simp add: sound_def)
  have "distinct (map ss_token_hash ?mine)"
    using live_rows_distinct [OF k] by (simp add: sessions_of_def distinct_map_filter)
  then have "filter (\<lambda>r. ss_token_hash r \<notin> ss_token_hash ` set (take LOOKUP_LIMIT ?mine)) ?mine = drop LOOKUP_LIMIT ?mine"
    by (rule filter_take_drop)
  moreover have "live_rows (as_sessions (snd (delete_user_sessions i (st_store s)))) =
      filter (\<lambda>r. ss_token_hash r \<notin> ss_token_hash ` set (take LOOKUP_LIMIT ?mine)) (live_rows (as_sessions (st_store s)))"
    unfolding delete_user_sessions_def list_user_sessions_def rows_find_many_def sessions_of_def [symmetric]
    using assms(2) by (intro live_sessions_sweep k) (auto dest: in_set_takeD)
  ultimately show ?thesis
    by (simp add: sessions_of_def conj_commute)
qed

section \<open>Revocation\<close>

text \<open>A password change, a change of role or a deletion of the account \<open>i\<close>, carried out.\<close>

definition revokes :: "auth_env \<Rightarrow> rat \<Rightarrow> string \<Rightarrow> auth_state \<Rightarrow> auth_state \<Rightarrow> bool" where
  "revokes env now i s s' =
     ((\<exists>p a b tk. pr_user_id p = Some i \<and> change_password env now (Some p) a b s = (Inr tk, s')) \<or>
      (\<exists>p r u. set_user_role env now p i r s = (Inr u, s')) \<or>
      (\<exists>p. delete_user env now p i s = (Inr (), s')))"

lemma get_session_sweep:
  "get_session h (snd (delete_user_sessions i st)) =
     (if h \<noteq> [] \<and> h \<in> ss_token_hash ` set (list_user_sessions i st) then None else get_session h st)"
  by (simp add: delete_user_sessions_def sweep_sessions_frame)

lemma get_user_sweep [simp]: "get_user j (snd (delete_user_sessions i st)) = get_user j st"
  by (simp add: delete_user_sessions_def get_user_def sweep_sessions_frame)

lemma list_user_sessions_save_user [simp]: "list_user_sessions i (save_user u st) = list_user_sessions i st"
  by (simp add: list_user_sessions_def)

lemma audit_frame [simp]:
  "get_user i (st_store (audit env now k v e d s)) = get_user i (st_store s)"
  "get_session h (st_store (audit env now k v e d s)) = get_session h (st_store s)"
  by (simp_all add: audit_def new_id_def add_auth_event_def get_user_def get_session_def Let_def)

lemma draw_frame [simp]:
  "st_store (snd (hash_password env p s)) = st_store s" "st_store (snd (new_id env k s)) = st_store s"
  by (simp_all add: hash_password_def new_id_def)

text \<open>Signing in adds sessions under fresh tokens only.\<close>

lemma sessions_of_sign_in:
  assumes "get_session h (st_store (snd (sign_in env now ttl u t))) = Some r"
    and "\<not> fresh_token env (st_draws t) h"
  shows "get_session h (st_store t) = Some r"
  using assms
  by (auto simp: sign_in_def new_session_def mint_jwt_pair_def new_token_def require_jwt_def fresh_token_def Let_def
      split: sum.splits prod.splits option.splits if_splits)

lemma revokes_effect:
  assumes "sound s" and "revokes env now i s s'" and "get_user i (st_store s) = Some u"
  shows "get_user i (st_store s') = Some x \<Longrightarrow> us_token_version u < us_token_version x"
    and "get_session h (st_store s') = Some r \<Longrightarrow> \<not> fresh_token env (st_draws s) h \<Longrightarrow>
      get_session h (st_store s) = Some r \<and> (h = [] \<or> h \<notin> ss_token_hash ` set (list_user_sessions i (st_store s)))"
proof -
  from assms(2) consider
      (pw) p a b tk where "pr_user_id p = Some i" "change_password env now (Some p) a b s = (Inr tk, s')"
    | (role) p v y where "set_user_role env now p i v s = (Inr y, s')"
    | (del) p where "delete_user env now p i s = (Inr (), s')"
    unfolding revokes_def by blast
  then have "(\<forall>x. get_user i (st_store s') = Some x \<longrightarrow> us_token_version u < us_token_version x) \<and>
    (\<forall>h r. get_session h (st_store s') = Some r \<longrightarrow> \<not> fresh_token env (st_draws s) h \<longrightarrow>
      get_session h (st_store s) = Some r \<and> (h = [] \<or> h \<notin> ss_token_hash ` set (list_user_sessions i (st_store s))))"
  proof cases
    case pw
    define pwh s1 where "pwh = fst (hash_password env b s)" and "s1 = snd (hash_password env b s)"
    define u' where "u' = bump_version (u\<lparr>us_password_hash := pwh\<rparr>)"
    define s2 where "s2 = on_store (\<lambda>st. snd (delete_user_sessions i (save_user u' st))) s1"
    have i: "us_user_id u = i" using get_user_id [OF assms(1,3)] .
    have "i \<noteq> []" using pw assms(3) by (auto simp: change_password_def ensure_authenticated_def split: if_splits)
    then obtain tk' where out: "s' = audit env now ''password_change'' (Some i) (Some (us_email u)) None
        (snd (sign_in env now SESSION_TTL_S u' s2))"
      using pw assms(3) i
      by (auto simp: change_password_def ensure_authenticated_def Let_def split_def pwh_def s1_def u'_def s2_def
          split: if_splits sum.splits)
    have fresh: "\<not> fresh_token env (st_draws s) h \<Longrightarrow> \<not> fresh_token env (st_draws s2) h" for h
      by (auto simp: s2_def s1_def hash_password_def fresh_token_def)
    have swept: "get_session h (st_store s2) =
        (if h \<noteq> [] \<and> h \<in> ss_token_hash ` set (list_user_sessions i (st_store s)) then None
         else get_session h (st_store s))" for h
      by (simp add: s2_def s1_def get_session_sweep)
    have bumped: "get_user i (st_store s2) = Some u'" "us_token_version u < us_token_version u'"
      using i by (simp_all add: s2_def s1_def u'_def bump_version_def)
    have "get_session h (st_store s) = Some r \<and> (h = [] \<or> h \<notin> ss_token_hash ` set (list_user_sessions i (st_store s)))"
      if "get_session h (st_store s') = Some r" and "\<not> fresh_token env (st_draws s) h" for h r
      using sessions_of_sign_in [OF _ fresh, where now = now and ttl = SESSION_TTL_S and u = u'] that swept [of h] out
      by (simp split: if_split_asm)
    moreover have "us_token_version u < us_token_version x" if "get_user i (st_store s') = Some x" for x
      using that out bumped by simp
    ultimately show ?thesis by blast
  next
    case role
    then show ?thesis
      using assms(3) get_user_id [OF assms(1,3)]
      by (auto simp: set_user_role_def Let_def bump_version_def get_session_sweep split: if_splits sum.splits)
  next
    case del
    then show ?thesis
      using assms(3) by (auto simp: delete_user_def get_session_sweep split: if_splits sum.splits)
  qed
  then show "get_user i (st_store s') = Some x \<Longrightarrow> us_token_version u < us_token_version x"
    and "get_session h (st_store s') = Some r \<Longrightarrow> \<not> fresh_token env (st_draws s) h \<Longrightarrow>
      get_session h (st_store s) = Some r \<and> (h = [] \<or> h \<notin> ss_token_hash ` set (list_user_sessions i (st_store s)))"
    by blast+
qed

lemma refresh_refused:
  assumes "\<And>r u. get_session (ev_hash env tok) (st_store s) = Some r \<Longrightarrow>
      get_user (ss_user_id r) (st_store s) = Some u \<Longrightarrow> us_token_version u \<noteq> ss_token_version r"
  shows "\<exists>e. fst (refresh env now (Some tok) ip s) = Inl e"
  using assms by (auto simp: refresh_def Let_def split_def split: option.splits)

lemma stale_jwt_refused:
  assumes "\<And>x. get_user (claim_str claims ''sub'') st = Some x \<Longrightarrow> claim_int claims ''ver'' < us_token_version x"
    and "verify_access_token env js now secret = Some claims"
  shows "principal_from_jwt_token env js now secret st = None"
  using assms by (fastforce simp: principal_from_jwt_token_def Let_def split: option.splits)

text \<open>
  C17:
  A password change, a change of role and the deletion of an account reach every later state of the
  service, whatever requests follow: an access token minted before, for any version the account had
  until then, resolves to nobody; a refresh token minted before is refused; and the sessions and
  tickets among the first hundred rows of the account stay dead.
\<close>

theorem credentials_revoked:
  assumes "sound s" and "revokes env now i s s'" and "get_user i (st_store s) = Some u"
    and "\<not> fresh_user env (st_draws s) i"
  shows "(\<forall>js t secret claims. verify_access_token env js t secret = Some claims \<longrightarrow>
            claim_str claims ''sub'' = i \<longrightarrow> claim_int claims ''ver'' \<le> us_token_version u \<longrightarrow>
            principal_from_jwt_token env js t secret (st_store (auth_run env rs s')) = None) \<and>
         (\<forall>tok r t ip. get_session (ev_hash env tok) (st_store s) = Some r \<longrightarrow> ss_user_id r = i \<longrightarrow>
            ss_token_version r \<le> us_token_version u \<longrightarrow> \<not> fresh_token env (st_draws s) (ev_hash env tok) \<longrightarrow>
            (\<exists>e. fst (refresh env t (Some tok) ip (auth_run env rs s')) = Inl e)) \<and>
         (\<forall>r \<in> set (take 100 (sessions_of i s)). ss_token_hash r \<noteq> [] \<longrightarrow>
            \<not> fresh_token env (st_draws s) (ss_token_hash r) \<longrightarrow>
            get_session (ss_token_hash r) (st_store (auth_run env rs s')) = None)"
proof -
  note effect = revokes_effect [OF assms(1-3)]
  have draws: "evolves env UNIV (\<lambda>_. True) s s'"
    using assms(1,2) unfolding revokes_def
    by (elim disjE exE conjE)
      (metis UNIV_I evolves_change_password evolves_set_user_role evolves_delete_user snd_conv)+
  have later: "evolves env UNIV (\<lambda>_. True) s' (auth_run env rs s')"
    using evolves_run [OF evolves_sound [OF draws]] .
  have old: "\<not> fresh_user env (st_draws s') i"
    using assms(4) fresh_mono(2) evolves_draws [OF draws] by blast
  have version: "us_token_version u < us_token_version x"
    if "get_user i (st_store (auth_run env rs s')) = Some x" for x
    using later that old effect(1) unfolding evolves_def by (meson less_le_trans made_fresh)
  have session: "get_session h (st_store s) = Some r \<and>
      (h = [] \<or> h \<notin> ss_token_hash ` set (list_user_sessions i (st_store s)))"
    if "get_session h (st_store (auth_run env rs s')) = Some r" and "\<not> fresh_token env (st_draws s) h" for h r
    using later that effect(2) fresh_mono(1) [OF evolves_draws [OF draws]] unfolding evolves_def by blast
  have "\<exists>e. fst (refresh env t (Some tok) ip (auth_run env rs s')) = Inl e"
    if "get_session (ev_hash env tok) (st_store s) = Some r" and "ss_user_id r = i"
      and "ss_token_version r \<le> us_token_version u" and "\<not> fresh_token env (st_draws s) (ev_hash env tok)"
    for tok r t ip
    using that session version by (intro refresh_refused) fastforce
  moreover have "principal_from_jwt_token env js t secret (st_store (auth_run env rs s')) = None"
    if "verify_access_token env js t secret = Some claims" and "claim_str claims ''sub'' = i"
      and "claim_int claims ''ver'' \<le> us_token_version u" for js t secret claims
    using that version by (intro stale_jwt_refused [OF _ that(1)]) fastforce
  moreover have "get_session (ss_token_hash r) (st_store (auth_run env rs s')) = None"
    if "r \<in> set (take 100 (sessions_of i s))" and "ss_token_hash r \<noteq> []"
      and "\<not> fresh_token env (st_draws s) (ss_token_hash r)" for r
    using session [OF _ that(3)] that
    by (cases "get_session (ss_token_hash r) (st_store (auth_run env rs s'))")
      (auto simp: sessions_of_def list_user_sessions_def rows_find_many_def LOOKUP_LIMIT_def)
  ultimately show ?thesis by blast
qed

theorem credentials_revoked_witness:
  "principal_from_jwt_token sample_env sample_jwt 4 ''a.b.c'' (st_store installed) \<noteq> None \<and>
   principal_from_jwt_token sample_env sample_jwt 7 ''a.b.c''
     (st_store (auth_run sample_env [(6, Login ''ann@example.org'' ''new'' False ''ip'')] rotated)) = None \<and>
   (\<exists>e. fst (refresh sample_env 7 (Some ''ttttt'') ''ip''
     (auth_run sample_env [(6, Login ''ann@example.org'' ''new'' False ''ip'')] rotated)) = Inl e)"
proof -
  have rev: "revokes sample_env 5 ''usr-'' installed rotated"
  proof -
    have "pr_user_id ann = Some ''usr-''" by (simp add: ann_user_def ann_def)
    then show ?thesis using sample_change unfolding revokes_def by blast
  qed
  have fresh: "\<not> fresh_user sample_env (st_draws installed) ''usr-''"
    by (simp add: sample_draws sample_user_old)
  have v: "verify_access_token sample_env sample_jwt 7 ''a.b.c'' =
      Some [(''sub'', PStr ''usr-''), (''jti'', PStr ''tttt''), (''ver'', PInt 0)]" by code_simp
  have "principal_from_jwt_token sample_env sample_jwt 4 ''a.b.c'' (st_store installed) \<noteq> None" unfolding installed_eq by code_simp
  moreover have "claim_str [(''sub'', PStr ''usr-''), (''jti'', PStr ''tttt''), (''ver'', PInt 0)] ''sub'' = ''usr-''"
    and "claim_int [(''sub'', PStr ''usr-''), (''jti'', PStr ''tttt''), (''ver'', PInt 0)] ''ver'' \<le> us_token_version ann_user"
    unfolding installed_eq by code_simp+
  moreover have "get_session (ev_hash sample_env ''ttttt'') (st_store installed) =
      Some \<lparr>ss_token_hash = ''#ttttt'', ss_user_id = ''usr-'', ss_org_id = ''default'', ss_tenant_id = None,
        ss_kind = ''refresh'', ss_expires_at = 3600, ss_token_version = 0\<rparr>" and "0 \<le> us_token_version ann_user"
    unfolding installed_eq by code_simp+
  moreover have "\<not> fresh_token sample_env (st_draws installed) (ev_hash sample_env ''ttttt'')"
    using sample_token_old [of 4 6] by (simp add: sample_draws sample_env_def eval_nat_numeral)
  ultimately show ?thesis
    using credentials_revoked [OF sample_sound rev sample_user fresh,
        where rs = "[(6, Login ''ann@example.org'' ''new'' False ''ip'')]"] v
    by fastforce
qed

section \<open>Refresh tokens are used once\<close>

lemma refresh_Inr:
  assumes "refresh env now (Some tok) ip s = (Inr (u, tk), s1)"
  obtains row where "get_session (ev_hash env tok) (st_store s) = Some row" and "ss_kind row = REFRESH_KIND"
    and "now \<le> ss_expires_at row" and "get_user (ss_user_id row) (st_store s) = Some u"
    and "\<not> us_disabled u" and "us_token_version u = ss_token_version row"
    and "fst (sign_in env now SESSION_TTL_S u (on_store (\<lambda>st. snd (delete_session (ss_token_hash row) st))
           (s\<lparr>st_attempts := snd (check_login_allowed now ip (st_attempts s))\<rparr>))) = Inr tk"
    and "s1 = audit env now ''refresh'' (Some (us_user_id u)) (Some (us_email u)) None
       (snd (sign_in env now SESSION_TTL_S u (on_store (\<lambda>st. snd (delete_session (ss_token_hash row) st))
           (s\<lparr>st_attempts := snd (check_login_allowed now ip (st_attempts s))\<rparr>))))"
  using assms
  by (auto simp: refresh_def Let_def split_def split: if_splits option.splits sum.splits)

text \<open>The refresh row a sign-in leaves, and the session row unless the two tokens have one hash.\<close>

lemma sign_in_Inr:
  assumes "fst (sign_in env now ttl u t) = Inr tk"
  shows "\<exists>r. get_session (ev_hash env (tk_refresh_token tk)) (st_store (snd (sign_in env now ttl u t))) = Some r \<and>
      ss_kind r = REFRESH_KIND \<and> ss_user_id r = us_user_id u \<and> ss_token_version r = us_token_version u"
    and "ev_hash env (tk_legacy_token tk) \<noteq> ev_hash env (tk_refresh_token tk) \<Longrightarrow>
      \<exists>r. get_session (ev_hash env (tk_legacy_token tk)) (st_store (snd (sign_in env now ttl u t))) = Some r \<and>
      ss_kind r = SESSION_KIND \<and> ss_user_id r = us_user_id u"
  using assms
  by (auto simp: sign_in_def new_session_def mint_jwt_pair_def new_token_def require_jwt_def Let_def
      split: sum.splits prod.splits option.splits)

lemma refresh_replay:
  assumes "get_session (ev_hash env tok) (st_store s) = None"
  shows "\<exists>e. fst (refresh env now (Some tok) ip s) = Inl e"
    and "as_users (st_store (snd (refresh env now (Some tok) ip s))) = as_users (st_store s)"
    and "as_sessions (st_store (snd (refresh env now (Some tok) ip s))) = as_sessions (st_store s)"
  using assms
  by (auto simp: refresh_def Let_def split_def audit_def new_id_def add_auth_event_def)

text \<open>
  C21:
  A refresh token is used at most once: after a successful refresh the presented token is refused in
  every later state. The replay is not treated as a theft: it changes no account and no session, so
  the pair minted from the token stays usable.
\<close>

theorem refresh_once:
  assumes "sound s" and "refresh env now (Some tok) ip s = (Inr (u, tk), s1)"
    and "\<not> fresh_token env (st_draws s) (ev_hash env tok)"
  shows "(\<exists>r. get_session (ev_hash env (tk_refresh_token tk)) (st_store s1) = Some r \<and>
            ss_kind r = REFRESH_KIND \<and> ss_user_id r = us_user_id u \<and> ss_token_version r = us_token_version u) \<and>
         (let later = auth_run env rs s1;
              (outcome, after) = refresh env t (Some tok) ip' later
          in (\<exists>e. outcome = Inl e) \<and> as_users (st_store after) = as_users (st_store later) \<and>
             as_sessions (st_store after) = as_sessions (st_store later))"
proof -
  from assms(2) obtain row where row: "get_session (ev_hash env tok) (st_store s) = Some row"
    and signed: "fst (sign_in env now SESSION_TTL_S u (on_store (\<lambda>st. snd (delete_session (ss_token_hash row) st))
           (s\<lparr>st_attempts := snd (check_login_allowed now ip (st_attempts s))\<rparr>))) = Inr tk"
    and s1: "s1 = audit env now ''refresh'' (Some (us_user_id u)) (Some (us_email u)) None
       (snd (sign_in env now SESSION_TTL_S u (on_store (\<lambda>st. snd (delete_session (ss_token_hash row) st))
           (s\<lparr>st_attempts := snd (check_login_allowed now ip (st_attempts s))\<rparr>))))"
    by (rule refresh_Inr)
  have hash: "ss_token_hash row = ev_hash env tok"
    using row assms(1) by (auto simp: sound_def get_session_def dest: rows_get_key)
  have "get_session (ev_hash env tok) (st_store s1) = None"
    using sessions_of_sign_in [of "ev_hash env tok" env now SESSION_TTL_S u
        "on_store (\<lambda>st. snd (delete_session (ss_token_hash row) st))
           (s\<lparr>st_attempts := snd (check_login_allowed now ip (st_attempts s))\<rparr>)"] assms(3) hash s1
    by (cases "get_session (ev_hash env tok) (st_store s1)") auto
  moreover have step: "evolves env UNIV (\<lambda>_. True) s s1"
    using evolves_refresh [OF assms(1)] assms(2) by (metis snd_conv)
  moreover have "\<not> fresh_token env (st_draws s1) (ev_hash env tok)"
    using assms(3) fresh_mono(1) evolves_draws [OF step] by blast
  ultimately have "get_session (ev_hash env tok) (st_store (auth_run env rs s1)) = None"
    using evolves_run [OF evolves_sound [OF step], where rs = rs and env = env] unfolding evolves_def
    by (metis not_Some_eq)
  then show ?thesis
    using refresh_replay [of env tok "auth_run env rs s1" t ip'] sign_in_Inr(1) [OF signed] s1
    by (auto simp: split_def Let_def)
qed

theorem refresh_once_witness:
  "(let (outcome, s1) = refresh sample_env 5 (Some ''ttttt'') ''ip'' installed;
        later = auth_run sample_env [(6, Login ''ann@example.org'' ''pw'' False ''ip'')] s1
    in (\<exists>r. outcome = Inr r) \<and>
       (\<exists>e. fst (refresh sample_env 7 (Some ''ttttt'') ''ip'' later) = Inl e) \<and>
       as_sessions (st_store (snd (refresh sample_env 7 (Some ''ttttt'') ''ip'' later))) = as_sessions (st_store later))"
proof -
  define s1 where "s1 = snd (refresh sample_env 5 (Some ''ttttt'') ''ip'' installed)"
  have "fst (refresh sample_env 5 (Some ''ttttt'') ''ip'' installed) =
      Inr (ann_user, \<lparr>tk_legacy_token = replicate 7 CHR ''t'', tk_access_token = ''a.b.c'', tk_refresh_token = replicate 9 CHR ''t''\<rparr>)"
    unfolding installed_eq by code_simp
  then have r: "refresh sample_env 5 (Some ''ttttt'') ''ip'' installed =
      (Inr (ann_user, \<lparr>tk_legacy_token = replicate 7 CHR ''t'', tk_access_token = ''a.b.c'', tk_refresh_token = replicate 9 CHR ''t''\<rparr>), s1)"
    by (simp add: s1_def prod_eq_iff)
  have "\<not> fresh_token sample_env (st_draws installed) (ev_hash sample_env ''ttttt'')"
    using sample_token_old [of 4 6] by (simp add: sample_draws sample_env_def eval_nat_numeral)
  from refresh_once [OF sample_sound r this, where t = 7 and ip' = "''ip''"
      and rs = "[(6, Login ''ann@example.org'' ''pw'' False ''ip'')]"]
  show ?thesis by (auto simp: r Let_def split_def)
qed

section \<open>The bound of the sweep\<close>

lemma session_lookup:
  assumes "sound s" and "r \<in> set (sessions_of i s)"
  shows "get_session (ss_token_hash r) (st_store s) = Some r" and "ss_user_id r = i"
  using assms by (auto simp: sessions_of_def sound_def get_session_def in_live_rows)

lemma change_password_Inr:
  assumes "change_password env now (Some p) a b s = (Inr tk, s')" and "pr_user_id p = Some i"
  obtains u u' where "get_user i (st_store s) = Some u" and "u' = bump_version (u\<lparr>us_password_hash := fst (hash_password env b s)\<rparr>)"
    and "s' = audit env now ''password_change'' (Some (us_user_id u)) (Some (us_email u)) None
       (snd (sign_in env now SESSION_TTL_S u'
          (on_store (\<lambda>st. snd (delete_user_sessions (us_user_id u) (save_user u' st))) (snd (hash_password env b s)))))"
  using assms
  by (auto simp: change_password_def ensure_authenticated_def Let_def split_def split: if_splits option.splits sum.splits)

lemma sign_in_keeps:
  assumes "get_session h (st_store t) = Some r" and "\<not> fresh_token env (st_draws t) h"
  shows "get_session h (st_store (snd (sign_in env now ttl u t))) = Some r"
  using assms
  by (auto simp: sign_in_def new_session_def mint_jwt_pair_def new_token_def require_jwt_def fresh_token_def Let_def
      split: sum.splits prod.splits option.splits)

lemma in_take_or_drop:
  assumes "distinct (map key xs)" and "x \<in> set xs"
  shows "key x \<in> key ` set (take n xs) \<longleftrightarrow> x \<notin> set (drop n xs)"
proof -
  have "distinct (map key (take n xs @ drop n xs))" and "x \<in> set (take n xs @ drop n xs)" using assms by simp_all
  then show ?thesis unfolding map_append distinct_append set_append set_map by blast
qed

lemma in_swept:
  assumes "sound s" and "r \<in> set (sessions_of i s)"
  shows "ss_token_hash r \<in> ss_token_hash ` set (list_user_sessions i (st_store s)) \<longleftrightarrow>
    r \<notin> set (drop 100 (sessions_of i s))"
proof -
  have "distinct (map ss_token_hash (sessions_of i s))"
    using live_rows_distinct [of ss_token_hash "as_sessions (st_store s)"] assms(1)
    by (simp add: sessions_of_def sound_def distinct_map_filter)
  from in_take_or_drop [OF this assms(2)] show ?thesis
    by (simp add: list_user_sessions_def rows_find_many_def LOOKUP_LIMIT_def sessions_of_def [symmetric])
qed

text \<open>
  A password change ends exactly the first hundred sessions of the account, in the order they were
  stored: a later session survives it, and its token keeps resolving to the account for as long as
  the account is active.
\<close>

theorem sweep_bounded:
  assumes "sound s" and "pr_user_id p = Some i" and "change_password env now (Some p) a b s = (Inr tk, s')"
    and "r \<in> set (sessions_of i s)" and "ss_token_hash r \<noteq> []" and "\<not> fresh_token env (st_draws s) (ss_token_hash r)"
  shows "(get_session (ss_token_hash r) (st_store s') =
            (if r \<in> set (drop 100 (sessions_of i s)) then Some r else None)) \<and>
         (\<forall>tok. r \<in> set (drop 100 (sessions_of i s)) \<longrightarrow> ss_kind r = SESSION_KIND \<longrightarrow>
            ss_token_hash r = ev_hash env tok \<longrightarrow> tok \<noteq> [] \<longrightarrow>
            principal_from_session env (Some tok) (st_store s') =
              map_option (\<lambda>u. user_principal u None (st_store s')) (active_user i (st_store s')))"
proof -
  obtain u u' where u: "get_user i (st_store s) = Some u"
    and s': "s' = audit env now ''password_change'' (Some (us_user_id u)) (Some (us_email u)) None
       (snd (sign_in env now SESSION_TTL_S u'
          (on_store (\<lambda>st. snd (delete_user_sessions (us_user_id u) (save_user u' st))) (snd (hash_password env b s)))))"
    using change_password_Inr [OF assms(3,2)] by blast
  have i: "us_user_id u = i" using get_user_id [OF assms(1) u] .
  define t where "t = on_store (\<lambda>st. snd (delete_user_sessions i (save_user u' st))) (snd (hash_password env b s))"
  have fresh: "\<not> fresh_token env (st_draws t) (ss_token_hash r)"
    using assms(6) by (auto simp: t_def hash_password_def fresh_token_def)
  have mid: "get_session (ss_token_hash r) (st_store t) = (if r \<in> set (drop 100 (sessions_of i s)) then Some r else None)"
    using assms(5) in_swept [OF assms(1,4)] session_lookup [OF assms(1,4)] by (simp add: t_def get_session_sweep)
  have lookup: "get_session (ss_token_hash r) (st_store s') = get_session (ss_token_hash r) (st_store t)"
    unfolding s' i audit_frame t_def [symmetric]
    by (metis fresh not_None_eq sessions_of_sign_in sign_in_keeps)
  show ?thesis
    using mid lookup session_lookup(2) [OF assms(1,4)] by (auto simp: principal_from_session_def)
qed

text \<open>An account with a hundred and one sessions.\<close>

definition crowd_session :: "nat \<Rightarrow> session_record" where
  "crowd_session k =
     \<lparr>ss_token_hash = CHR ''#'' # CHR ''c'' # replicate k CHR ''c'', ss_user_id = ''usr-'', ss_org_id = ''default'',
      ss_tenant_id = None, ss_kind = SESSION_KIND, ss_expires_at = 604800, ss_token_version = 0\<rparr>"

definition crowded :: auth_state where
  "crowded = installed\<lparr>st_store := (st_store installed)\<lparr>as_sessions :=
     map (\<lambda>k. (ss_token_hash (crowd_session k), Live (crowd_session k))) [0..<101]\<rparr>\<rparr>"

lemma live_rows_map: "live_rows (map (\<lambda>k. (f k, Live (g k))) ks) = map g ks"
  by (induction ks) (simp_all add: rows_simps)

lemma crowded_facts:
  "sound crowded" "sessions_of ''usr-'' crowded = map crowd_session [0..<101]"
  "get_user ''usr-'' (st_store crowded) = Some ann_user"
proof -
  have "inj (\<lambda>k. ss_token_hash (crowd_session k))"
    by (auto simp: inj_def crowd_session_def dest: arg_cong [where f = length])
  then have "distinct (map (\<lambda>k. ss_token_hash (crowd_session k)) [0..<101])"
    using inj_on_subset [OF _ subset_UNIV] by (simp add: distinct_map)
  then show "sound crowded"
    using sample_sound by (simp add: sound_def crowded_def keyed_def list_all_iff o_def)
  show "sessions_of ''usr-'' crowded = map crowd_session [0..<101]"
    by (simp add: sessions_of_def crowded_def live_rows_map filter_id_conv crowd_session_def)
  show "get_user ''usr-'' (st_store crowded) = Some ann_user"
    using sample_user by (simp add: crowded_def get_user_def)
qed

theorem sweep_bounded_witness:
  "\<exists>tk s'. change_password sample_env 5 (Some ann) ''pw'' ''new'' crowded = (Inr tk, s') \<and>
     get_session (ss_token_hash (crowd_session 0)) (st_store s') = None \<and>
     get_session (ss_token_hash (crowd_session 100)) (st_store s') = Some (crowd_session 100)"
proof -
  have "\<exists>tk. fst (change_password sample_env 5 (Some ann) ''pw'' ''new'' crowded) = Inr tk"
    using crowded_facts(3)
    by (simp add: change_password_def ensure_authenticated_def split_def Let_def sign_in_ok hash_password_def sample_password
        sample_env_def ann_def ann_user_def)
  then obtain tk s' where c: "change_password sample_env 5 (Some ann) ''pw'' ''new'' crowded = (Inr tk, s')"
    by (metis prod.collapse)
  have ann: "pr_user_id ann = Some ''usr-''" by (simp add: ann_def)
  have drop: "set (drop 100 (sessions_of ''usr-'' crowded)) = {crowd_session 100}"
  proof -
    have "drop 100 (sessions_of ''usr-'' crowded) = map crowd_session [100..<101]"
      by (simp add: crowded_facts(2) drop_map del: upt_rec_numeral)
    then show ?thesis by (simp add: upt_rec)
  qed
  have result: "get_session (ss_token_hash (crowd_session k)) (st_store s') =
      (if crowd_session k \<in> set (drop 100 (sessions_of ''usr-'' crowded)) then Some (crowd_session k) else None)" if "k < 101" for k
  proof -
    have "crowd_session k \<in> set (sessions_of ''usr-'' crowded)"
      using that by (simp add: crowded_facts(2))
    moreover have "ss_token_hash (crowd_session k) \<noteq> []"
      and "\<not> fresh_token sample_env (st_draws crowded) (ss_token_hash (crowd_session k))"
      using sample_token_other [of "CHR ''c''"] by (simp_all add: crowd_session_def)
    ultimately show ?thesis using sweep_bounded [OF crowded_facts(1) ann c] by blast
  qed
  have "crowd_session 0 \<noteq> crowd_session 100" by (simp add: crowd_session_def)
  then show ?thesis using c result [of 0] result [of 100] by (auto simp: drop)
qed

section \<open>Owners\<close>

lemma as_users_get: "as_users st' = as_users st \<Longrightarrow> get_user i st' = get_user i st"
  by (simp add: get_user_def)

definition is_owner_of :: "string \<Rightarrow> user \<Rightarrow> bool" where
  "is_owner_of org u = (us_role u = ''owner'' \<and> \<not> us_disabled u \<and> us_org_id u = org)"

lemma active_owners_iff:
  assumes "sound s"
  shows "u \<in> set (active_owners org (st_store s)) \<longleftrightarrow> get_user (us_user_id u) (st_store s) = Some u \<and> is_owner_of org u"
  using assms in_live_rows [of us_user_id "as_users (st_store s)" u]
  by (auto simp: active_owners_def list_users_of_def sound_def get_user_def is_owner_of_def)

text \<open>Where the guard lets an owner go, another one remains.\<close>

lemma another_owner:
  assumes "sound s" and "get_user i (st_store s) = Some x" and "is_owner_of org x" and "last_owner_safe x (st_store s)"
  shows "\<exists>y. us_user_id y \<noteq> i \<and> get_user (us_user_id y) (st_store s) = Some y \<and> is_owner_of org y"
proof -
  let ?os = "active_owners org (st_store s)"
  have "1 < length ?os" using assms(3,4) by (auto simp: last_owner_safe_def is_owner_of_def)
  moreover have "distinct (map us_user_id ?os)"
    using live_rows_distinct [of us_user_id "as_users (st_store s)"] assms(1)
    by (simp add: active_owners_def list_users_of_def sound_def distinct_map_filter)
  ultimately obtain y z where "y \<in> set ?os" "z \<in> set ?os" "us_user_id y \<noteq> us_user_id z"
    by (cases ?os; cases "tl ?os") auto
  then show ?thesis using active_owners_iff [OF assms(1)] by metis
qed

lemma touched_safe:
  assumes "sound s" and "i \<in> touched env now r s"
  shows "as_users (st_store (auth_step env now r s)) = as_users (st_store s) \<or>
    (\<exists>x. get_user i (st_store s) = Some x \<and> last_owner_safe x (st_store s))"
proof -
  have st: "as_users (st_store (snd (resolve_caller env now a b s))) = as_users (st_store s)" for a b
    by (simp add: snd_resolve_caller authenticate_frame)
  have last: "as_users st = as_users (st_store s) \<Longrightarrow> last_owner_safe x st = last_owner_safe x (st_store s)" for x st
    by (simp add: last_owner_safe_def active_owners_def list_users_of_def)
  show ?thesis
    using assms(2) st as_users_get [OF st] last [OF st]
    by (cases r) (auto simp: as_caller_def split_def set_user_role_def delete_user_def Let_def caller_def
        split: sum.splits option.splits)
qed

text \<open>No account is stored under an id that is still to be drawn.\<close>

definition ids_fresh :: "auth_env \<Rightarrow> auth_state \<Rightarrow> bool" where
  "ids_fresh env s = (\<forall>k \<ge> st_draws s. get_user (ev_id env ''usr'' k) (st_store s) = None)"

lemma ids_fresh_step:
  assumes "evolves env T N s s'" and "ids_fresh env s" and "inj (ev_id env ''usr'')"
  shows "ids_fresh env s'"
  unfolding ids_fresh_def
proof (intro allI impI)
  fix k assume k: "st_draws s' \<le> k"
  show "get_user (ev_id env ''usr'' k) (st_store s') = None"
  proof (rule ccontr)
    assume "get_user (ev_id env ''usr'' k) (st_store s') \<noteq> None"
    then consider "get_user (ev_id env ''usr'' k) (st_store s) \<noteq> None"
      | "made_user env (st_draws s) (st_draws s') (ev_id env ''usr'' k)"
      using assms(1) unfolding evolves_def by force
    then show False
    proof cases
      case 1
      moreover have "st_draws s \<le> k" using k evolves_draws [OF assms(1)] by simp
      ultimately show False using assms(2) by (simp add: ids_fresh_def)
    next
      case 2
      then obtain m where "m < st_draws s'" "ev_id env ''usr'' k = ev_id env ''usr'' m"
        by (auto simp: made_user_def)
      then show False using k injD [OF assms(3)] by fastforce
    qed
  qed
qed

lemma owner_kept_step:
  assumes "sound s" and "ids_fresh env s" and "get_user i (st_store s) = Some x" and "is_owner_of org x"
  shows "\<exists>j y. get_user j (st_store (auth_step env now r s)) = Some y \<and> is_owner_of org y"
proof -
  let ?s' = "auth_step env now r s"
  note ev = evolves_step [OF assms(1), of env now r]
  have keep: "\<exists>y. get_user j (st_store ?s') = Some y \<and> is_owner_of org y"
    if z: "get_user j (st_store s) = Some z" and owner: "is_owner_of org z" and out: "j \<notin> touched env now r s" for j z
  proof -
    obtain y where y: "get_user j (st_store ?s') = Some y"
      using ev z out unfolding evolves_def by (metis not_None_eq)
    then have "standing y = standing z \<or> made_user env (st_draws s) (st_draws ?s') j"
      using ev z out unfolding evolves_def by force
    then have "standing y = standing z"
      using z assms(2) by (auto simp: made_user_def ids_fresh_def)
    then show ?thesis using y owner by (auto simp: standing_def is_owner_of_def)
  qed
  show ?thesis
  proof (cases "i \<in> touched env now r s")
    case True
    from touched_safe [OF assms(1) True] show ?thesis
    proof
      assume "\<exists>x. get_user i (st_store s) = Some x \<and> last_owner_safe x (st_store s)"
      then obtain y where "us_user_id y \<noteq> i" "get_user (us_user_id y) (st_store s) = Some y" "is_owner_of org y"
        using another_owner [OF assms(1,3,4)] assms(3) by auto
      moreover have "touched env now r s \<subseteq> {i}" using True by (cases r) auto
      ultimately show ?thesis using keep by blast
    qed (use assms(3,4) as_users_get in \<open>metis\<close>)
  qed (use keep assms(3,4) in blast)
qed

text \<open>
  C18:
  An organization with an active owner has one after any sequence of requests: neither a change of
  role nor a deletion removes the last one, and nothing else takes ownership away.
\<close>

theorem owner_never_lost:
  assumes "sound s" and "ids_fresh env s" and "inj (ev_id env ''usr'')" and "active_owners org (st_store s) \<noteq> []"
  shows "active_owners org (st_store (auth_run env rs s)) \<noteq> []"
proof -
  have "\<exists>i x. get_user i (st_store (auth_run env rs s)) = Some x \<and> is_owner_of org x"
    if "\<exists>i x. get_user i (st_store s) = Some x \<and> is_owner_of org x" "sound s" "ids_fresh env s" for s
    using that
  proof (induction rs arbitrary: s)
    case (Cons tr rs)
    obtain now r where tr: "tr = (now, r)" by fastforce
    note ev = evolves_step [OF Cons.prems(2), of env now r]
    show ?case
      using Cons.IH [OF _ evolves_sound [OF ev] ids_fresh_step [OF ev Cons.prems(3) assms(3)]]
        owner_kept_step [OF Cons.prems(2,3)] Cons.prems(1) by (auto simp: tr)
  qed simp
  moreover have "\<exists>i x. get_user i (st_store s) = Some x \<and> is_owner_of org x"
    using assms(4) active_owners_iff [OF assms(1)] by (metis list.set_intros(1) neq_Nil_conv)
  ultimately obtain i x where "get_user i (st_store (auth_run env rs s)) = Some x" "is_owner_of org x"
    using assms(1,2) by blast
  moreover have snd: "sound (auth_run env rs s)" using evolves_sound [OF evolves_run [OF assms(1)]] .
  ultimately have "x \<in> set (active_owners org (st_store (auth_run env rs s)))"
    using active_owners_iff [OF snd] get_user_id [OF snd] by blast
  then show ?thesis by auto
qed

theorem owner_never_lost_witness:
  "active_owners ''default'' (st_store (auth_run sample_env
     [(6, Set_User_Role (Some ''ttt'', None) ''usr-'' ''member''), (7, Delete_User (Some ''ttt'', None) ''usr-'')] installed)) \<noteq> []"
proof (rule owner_never_lost [OF sample_sound _ sample_inj(2)])
  have "get_user i (st_store installed) = None" if "i \<noteq> ''usr-''" for i
  proof -
    have "as_users (st_store installed) = [(''usr-'', Live ann_user)]" unfolding installed_eq by code_simp
    then show ?thesis using that by (simp add: get_user_def rows_get_def)
  qed
  moreover have "ev_id sample_env ''usr'' k \<noteq> ''usr-''" if "6 \<le> k" for k
    using that by (auto simp: sample_env_def dest: arg_cong [where f = length])
  ultimately show "ids_fresh sample_env installed" by (simp add: ids_fresh_def sample_draws)
  show "active_owners ''default'' (st_store installed) \<noteq> []" unfolding installed_eq by code_simp
qed

section \<open>Administrative roles\<close>

lemma set_user_role_result:
  assumes "sound s" and "get_user i (st_store (snd (set_user_role env now p i role s))) = Some x'"
  shows "(\<exists>x. get_user i (st_store s) = Some x \<and> us_role x = us_role x') \<or> us_role x' = role"
  using assms get_user_id [OF assms(1)]
  by (auto simp: set_user_role_def Let_def bump_version_def split: sum.splits option.splits if_splits)

lemma delete_user_result:
  assumes "get_user i (st_store (snd (delete_user env now p i s))) = Some x'"
  shows "get_user i (st_store s) = Some x'"
  using assms by (auto simp: delete_user_def split: sum.splits option.splits if_splits)

lemma as_caller_users:
  "as_users (st_store (snd (resolve_caller env now a b s))) = as_users (st_store s)"
  by (simp add: snd_resolve_caller authenticate_frame)

lemma touched_role:
  assumes "sound s" and "i \<in> touched env now r s" and "get_user i (st_store (auth_step env now r s)) = Some x'"
  shows "(\<exists>x. get_user i (st_store s) = Some x \<and> us_role x = us_role x') \<or>
    (\<exists>c q. r = Set_User_Role c i (us_role x') \<and> require_owner (caller env now c s) = Inr q)"
proof -
  have snd: "sound (snd (resolve_caller env now a b s))" for a b
    using evolves_sound [OF evolves_resolve_caller [OF assms(1)]] .
  have same: "get_user j (st_store (snd (resolve_caller env now a b s))) = get_user j (st_store s)" for a b j
    by (rule as_users_get [OF as_caller_users])
  from assms(2) consider
      (role) c rl q where "r = Set_User_Role c i rl" "require_owner (caller env now c s) = Inr q"
    | (del) c where "r = Delete_User c i"
    by (cases r) auto
  then show ?thesis
  proof cases
    case role
    then have "get_user i (st_store (snd (set_user_role env now (caller env now c s) i rl
        (snd (resolve_caller env now (fst c) (snd c) s))))) = Some x'"
      using assms(3) by (simp add: as_caller_def caller_def split_def)
    from set_user_role_result [OF snd this] show ?thesis using role by (auto simp: same)
  next
    case del
    then have "get_user i (st_store (snd (delete_user env now (caller env now c s) i
        (snd (resolve_caller env now (fst c) (snd c) s))))) = Some x'"
      using assms(3) by (simp add: as_caller_def caller_def split_def)
    from delete_user_result [OF this] show ?thesis by (simp add: same)
  qed
qed

text \<open>
  C20:
  An account or an invite with an administrative role (owner or admin) comes from where it may come
  from. An account gets such a role as the first account of the installation, by an owner's change of
  its role, or by accepting an invite that carries the role, is not used and not expired; and an
  invite carries it only if an owner, who also passes the admin gate, issued it.
\<close>

theorem privilege_traced:
  assumes "sound s"
  shows "(get_user i (st_store (auth_step env now r s)) = Some x' \<longrightarrow> us_role x' \<in> {''owner'', ''admin''} \<longrightarrow>
            \<not> (\<exists>x. get_user i (st_store s) = Some x \<and> us_role x = us_role x') \<longrightarrow>
            (\<exists>e n p. r = Signup e n p \<and> count_users (st_store s) = 0) \<or>
            (\<exists>c q. r = Set_User_Role c i (us_role x') \<and> require_owner (caller env now c s) = Inr q) \<or>
            (\<exists>tok n p. r = Accept_Invite tok n p \<and> invited env now tok s x')) \<and>
         (get_invite j (st_store (auth_step env now r s)) = Some v' \<longrightarrow> iv_role v' \<in> {''owner'', ''admin''} \<longrightarrow>
            \<not> (\<exists>v. get_invite j (st_store s) = Some v \<and> iv_role v = iv_role v') \<longrightarrow>
            (\<exists>c e n q. r = Invite_User c e n (iv_role v') \<and> require_admin (caller env now c s) = Inr q \<and>
               pr_role q = ''owner''))"
proof -
  note ev = evolves_step [OF assms, of env now r]
  have admitted_user: "(\<exists>e n p. r = Signup e n p \<and> count_users (st_store s) = 0) \<or>
      (\<exists>tok n p. r = Accept_Invite tok n p \<and> invited env now tok s u)"
    if "admitted env now r s (Inl u)" for u
    using that by (cases r) auto
  have admitted_invite: "\<exists>c e n q. r = Invite_User c e n (iv_role v) \<and> require_admin (caller env now c s) = Inr q \<and>
      pr_role q = ''owner''"
    if "admitted env now r s (Inr v)" and "iv_role v \<in> {''owner'', ''admin''}" for v
    using that by (cases r) (auto split: sum.splits)
  show ?thesis
  proof (intro conjI impI)
    assume x': "get_user i (st_store (auth_step env now r s)) = Some x'"
      and new: "\<not> (\<exists>x. get_user i (st_store s) = Some x \<and> us_role x = us_role x')"
    from ev x' have "i \<in> touched env now r s \<or> admitted env now r s (Inl x')"
      by (rule evolves_user) (use new in \<open>auto simp: standing_def\<close>)
    then show "(\<exists>e n p. r = Signup e n p \<and> count_users (st_store s) = 0) \<or>
        (\<exists>c q. r = Set_User_Role c i (us_role x') \<and> require_owner (caller env now c s) = Inr q) \<or>
        (\<exists>tok n p. r = Accept_Invite tok n p \<and> invited env now tok s x')"
      using touched_role [OF assms _ x'] new admitted_user [of x'] by blast
  next
    assume v': "get_invite j (st_store (auth_step env now r s)) = Some v'" and "iv_role v' \<in> {''owner'', ''admin''}"
      and new: "\<not> (\<exists>v. get_invite j (st_store s) = Some v \<and> iv_role v = iv_role v')"
    from ev v' have "admitted env now r s (Inr v')" by (rule evolves_invite) (use new in auto)
    then show "\<exists>c e n q. r = Invite_User c e n (iv_role v') \<and> require_admin (caller env now c s) = Inr q \<and>
        pr_role q = ''owner''"
      using admitted_invite \<open>iv_role v' \<in> {''owner'', ''admin''}\<close> by blast
  qed
qed

theorem privilege_traced_witness:
  "let s' = auth_step sample_env 0 (Signup ''Ann@Example.org'' None ''pw'') blank
   in get_user ''usr-'' (st_store s') = Some ann_user \<and> us_role ann_user = ''owner'' \<and> get_user ''usr-'' (st_store blank) = None \<and>
      ((\<exists>e n p. Signup ''Ann@Example.org'' None ''pw'' = Signup e n p \<and> count_users (st_store blank) = 0) \<or>
       (\<exists>tok n p. Signup ''Ann@Example.org'' None ''pw'' = Accept_Invite tok n p \<and> invited sample_env 0 tok blank ann_user))"
proof -
  have "sound blank" by (simp add: sound_def blank_def empty_store_def rows_simps)
  moreover have "get_user ''usr-'' (st_store (auth_step sample_env 0 (Signup ''Ann@Example.org'' None ''pw'') blank)) = Some ann_user"
    using sample_user by (simp add: installed_def)
  moreover have "us_role ann_user = ''owner''" by (simp add: ann_user_def ann_def)
  moreover have "get_user ''usr-'' (st_store blank) = None" by (simp add: blank_def empty_store_def get_user_def rows_get_def)
  ultimately show ?thesis
    using privilege_traced [of blank "''usr-''" sample_env 0 "Signup ''Ann@Example.org'' None ''pw''" ann_user]
    by (auto simp: Let_def)
qed

section \<open>Who a credential resolves to\<close>

lemma active_user_Some:
  "active_user i st = Some u \<longleftrightarrow> get_user i st = Some u \<and> \<not> us_disabled u \<and> \<not> tenant_is_suspended u st"
  by (auto simp: active_user_def split: option.splits)

lemma user_principal_fields [simp]:
  "pr_user_id (user_principal u j st) = Some (us_user_id u)" "pr_org_id (user_principal u j st) = us_org_id u"
  "pr_role (user_principal u j st) = us_role u" "pr_auth_type (user_principal u j st) = ''session''"
  "pr_tenant_id (user_principal u j st) = fst (resolve_tenancy u st)"
  by (simp_all add: user_principal_def split_def Let_def)

lemma key_principal_fields [simp]:
  "pr_user_id (key_principal k u st) = ak_created_by k" "pr_org_id (key_principal k u st) = us_org_id u"
  "pr_role (key_principal k u st) = ''viewer''" "pr_auth_type (key_principal k u st) = ''key''"
  "pr_tenant_id (key_principal k u st) = fst (resolve_tenancy u st)"
  "pr_scopes (key_principal k u st) = ak_scopes k"
  by (simp_all add: key_principal_def split_def Let_def)

text \<open>The account a principal stands for, and the rights it carries from it.\<close>

definition stands_for :: "principal \<Rightarrow> user \<Rightarrow> auth_store \<Rightarrow> bool" where
  "stands_for p u st =
     (pr_user_id p = Some (us_user_id u) \<and> get_user (us_user_id u) st = Some u \<and>
      \<not> us_disabled u \<and> \<not> tenant_is_suspended u st \<and>
      pr_org_id p = us_org_id u \<and> pr_tenant_id p = fst (resolve_tenancy u st) \<and>
      (pr_auth_type p = ''session'' \<and> pr_role p = us_role u \<or> pr_auth_type p = ''key'' \<and> pr_role p = ''viewer''))"

lemma stands_for_cong:
  assumes "as_users st' = as_users st" and "as_tenants st' = as_tenants st" and "as_memberships st' = as_memberships st"
  shows "stands_for p u st' = stands_for p u st"
proof -
  have "tenant_is_suspended u st' = tenant_is_suspended u st"
    using assms(2) by (cases "us_tenant_id u") (simp_all add: tenant_is_suspended_def get_tenant_def)
  moreover have "resolve_tenancy u st' = resolve_tenancy u st"
    using assms(3) by (simp add: resolve_tenancy_def list_memberships_def)
  ultimately show ?thesis using assms(1) by (simp add: stands_for_def get_user_def)
qed

lemma stands_for_session:
  assumes "sound s" and "active_user i (st_store s) = Some u"
  shows "stands_for (user_principal u j (st_store s)) u (st_store s)"
  using assms get_user_id [OF assms(1)] by (auto simp: stands_for_def active_user_Some)

lemma store_frames [simp]:
  "as_tenants (save_api_key k st) = as_tenants st" "as_memberships (save_api_key k st) = as_memberships st"
  "as_tenants (snd (delete_session h st)) = as_tenants st" "as_memberships (snd (delete_session h st)) = as_memberships st"
  by (simp_all add: save_api_key_def delete_session_def split_def Let_def)

lemma api_key_principal:
  assumes "sound s" and "principal_from_api_key env now secret (st_store s) = (Some p, st')"
  shows "\<exists>u. stands_for p u (st_store s)"
proof -
  obtain k0 where k0: "get_api_key_by_hash (ev_hash env (or_empty secret)) (st_store s) = Some k0"
    using assms(2) by (auto simp: principal_from_api_key_def split: if_splits option.splits)
  define k where "k = k0\<lparr>ak_last_used_at := Some now\<rparr>"
  obtain u where st': "st' = save_api_key k (st_store s)"
      and p: "p = key_principal k u st'" and u: "active_user (or_empty (ak_created_by k)) st' = Some u"
      and key: "truthy_str (ak_created_by k)"
    using assms(2) k0 by (auto simp: k_def principal_from_api_key_def Let_def split: if_splits)
  have "get_user (or_empty (ak_created_by k)) (st_store s) = Some u"
    using u st' by (auto simp: active_user_Some get_user_def)
  then have "us_user_id u = or_empty (ak_created_by k)" using get_user_id [OF assms(1)] by blast
  then have "stands_for p u st'" using u key by (cases "ak_created_by k") (auto simp: p stands_for_def active_user_Some)
  then show ?thesis using stands_for_cong [of st' "st_store s" p u] st' by auto
qed

lemma jwt_principal:
  assumes "sound s" and "principal_from_jwt_token env js now secret (st_store s) = Some p"
  shows "\<exists>u. stands_for p u (st_store s)"
  using assms stands_for_session [OF assms(1)]
  by (auto simp: principal_from_jwt_token_def active_user_Some Let_def split: option.splits if_splits)

lemma session_principal:
  assumes "sound s" and "principal_from_session env tok (st_store s) = Some p"
  shows "\<exists>u. stands_for p u (st_store s)"
  using assms stands_for_session [OF assms(1)]
  by (auto simp: principal_from_session_def split: option.splits if_splits)

lemma authenticate_stands_for:
  assumes "sound s" and "authenticate env now a b s = (Inr p, s')"
  shows "\<exists>u. stands_for p u (st_store s)"
proof -
  have "\<exists>u. stands_for p u (st_store s)" if "fst (principal_from_api_key env now secret (st_store s)) = Some p" for secret
    using api_key_principal [OF assms(1)] that by (metis prod.collapse)
  then show ?thesis
    using assms(2) session_principal [OF assms(1)] jwt_principal [OF assms(1)]
    by (auto simp: authenticate_def Let_def split_def split: option.splits if_splits)
qed

text \<open>
  C19:
  Whatever credential is presented (session cookie, access token, API key or websocket ticket), it
  resolves only to an account that exists, is enabled and whose tenant is not suspended, with that
  account's organization, tenant and role, or the role of a viewer for a key; and a ticket that was
  redeemed, successfully or not, is never redeemed again.
\<close>

theorem resolvers_gate:
  assumes "sound s"
  shows "(\<forall>p s'. authenticate env now a b s = (Inr p, s') \<longrightarrow> (\<exists>u. stands_for p u (st_store s))) \<and>
         (\<forall>p s'. redeem_ticket env now ticket s = (Some p, s') \<longrightarrow> (\<exists>u. stands_for p u (st_store s))) \<and>
         (\<not> fresh_token env (st_draws s) (ev_hash env (or_empty ticket)) \<longrightarrow>
            fst (redeem_ticket env later ticket (auth_run env rs (snd (redeem_ticket env now ticket s)))) = None)"
proof (intro conjI allI impI)
  show "\<exists>u. stands_for p u (st_store s)" if "authenticate env now a b s = (Inr p, s')" for p s'
    using authenticate_stands_for [OF assms that] .
next
  fix p s' assume redeemed: "redeem_ticket env now ticket s = (Some p, s')"
  then obtain r where "get_session (ev_hash env (or_empty ticket)) (st_store s) = Some r"
    by (auto simp: redeem_ticket_def split: if_splits option.splits)
  then have s': "s' = on_store (\<lambda>st. snd (delete_session (ss_token_hash r) st)) s"
    and "\<exists>u. p = user_principal u None (st_store s') \<and> active_user (ss_user_id r) (st_store s') = Some u"
    using redeemed by (auto simp: redeem_ticket_def Let_def split: if_splits)
  moreover have "sound s'" using assms sound_delete_session by (simp add: s')
  ultimately obtain u where "stands_for p u (st_store s')" using stands_for_session by blast
  then show "\<exists>u. stands_for p u (st_store s)"
    using stands_for_cong [of "st_store s'" "st_store s" p u] by (auto simp: s')
next
  assume fresh: "\<not> fresh_token env (st_draws s) (ev_hash env (or_empty ticket))"
  define s' where "s' = snd (redeem_ticket env now ticket s)"
  have ev: "evolves env UNIV (\<lambda>_. True) s s'" unfolding s'_def by (rule evolves_redeem_ticket [OF assms])
  show "fst (redeem_ticket env later ticket (auth_run env rs s')) = None"
  proof (cases "truthy_str ticket")
    case True
    have "ss_token_hash r = ev_hash env (or_empty ticket)"
      if "get_session (ev_hash env (or_empty ticket)) (st_store s) = Some r" for r
      using that assms by (auto simp: sound_def get_session_def dest: rows_get_key)
    then have "get_session (ev_hash env (or_empty ticket)) (st_store s') = None"
      using True by (auto simp: s'_def redeem_ticket_def Let_def split: option.splits)
    then have "get_session (ev_hash env (or_empty ticket)) (st_store (auth_run env rs s')) = None"
      using evolves_session [OF evolves_run [OF evolves_sound [OF ev]]] fresh fresh_mono(1) [OF evolves_draws [OF ev]]
      by (metis not_None_eq)
    then show ?thesis by (simp add: redeem_ticket_def)
  qed (simp add: redeem_ticket_def)
qed

theorem resolvers_gate_witness:
  "(\<exists>p u. fst (authenticate sample_env 5 (Some ''ttt'') None installed) = Inr p \<and> stands_for p u (st_store installed)) \<and>
   (let (token, s1) = mint_ticket sample_env 5 (Some ann) installed;
        tok = (case token of Inr t \<Rightarrow> Some t | Inl e \<Rightarrow> None);
        (first, s2) = redeem_ticket sample_env 6 tok s1
    in first \<noteq> None \<and> fst (redeem_ticket sample_env 7 tok (auth_run sample_env [] s2)) = None)"
proof -
  define s1 where "s1 = snd (mint_ticket sample_env 5 (Some ann) installed)"
  have token: "fst (mint_ticket sample_env 5 (Some ann) installed) = Inr (replicate 7 CHR ''t'')" unfolding installed_eq by code_simp
  have snd1: "sound s1"
    unfolding s1_def by (rule evolves_sound [OF evolves_mint_ticket [OF sample_sound]])
  have "st_draws s1 = 7" unfolding s1_def unfolding installed_eq by code_simp
  then have "\<not> fresh_token sample_env (st_draws s1) (ev_hash sample_env (or_empty (Some (replicate 7 CHR ''t''))))"
    using sample_token_old [of 6 7] by (simp add: sample_env_def eval_nat_numeral)
  then have "fst (redeem_ticket sample_env 7 (Some (replicate 7 CHR ''t''))
      (auth_run sample_env [] (snd (redeem_ticket sample_env 6 (Some (replicate 7 CHR ''t'')) s1)))) = None"
    using resolvers_gate [OF snd1] by blast
  moreover have "fst (redeem_ticket sample_env 6 (Some (replicate 7 CHR ''t'')) s1) \<noteq> None"
    unfolding s1_def unfolding installed_eq by code_simp
  moreover obtain p where p: "fst (authenticate sample_env 5 (Some ''ttt'') None installed) = Inr p"
  proof -
    have "fst (authenticate sample_env 5 (Some ''ttt'') None installed) = Inr (ann\<lparr>pr_token_id := None\<rparr>)" unfolding installed_eq by code_simp
    then show ?thesis using that by blast
  qed
  moreover have "\<exists>u. stands_for p u (st_store installed)"
    using resolvers_gate [OF sample_sound] p by (metis prod.collapse)
  ultimately show ?thesis
    using token by (auto simp: split_def Let_def s1_def)
qed

section \<open>From login to logout\<close>

lemma sign_in_tokens:
  assumes "fst (sign_in env now ttl u t) = Inr tk"
  shows "tk_legacy_token tk = ev_token env (st_draws t)" and "tk_refresh_token tk = ev_token env (Suc (Suc (st_draws t)))"
    and "st_draws (snd (sign_in env now ttl u t)) = Suc (Suc (Suc (st_draws t)))"
  using assms
  by (auto simp: sign_in_def new_session_def mint_jwt_pair_def new_token_def require_jwt_def Let_def
      split: sum.splits prod.splits option.splits)

lemma login_Inr:
  assumes "login env now e pw rem ip s = (Inr (u', tk), s1)"
    and "t = s\<lparr>st_attempts := snd (check_login_allowed now ip (st_attempts s))\<rparr>"
    and "ttl = (if rem then REMEMBER_TTL_S else SESSION_TTL_S)"
  obtains u where "get_user_by_email e (st_store s) = Some u" and "\<not> us_disabled u"
    and "u' = u\<lparr>us_last_login_at := Some now\<rparr>" and "fst (sign_in env now ttl u t) = Inr tk"
    and "s1 = audit env now ''login'' (Some (us_user_id u)) (Some (us_email u)) None
       (on_store (save_user u') (snd (sign_in env now ttl u t)))"
  using assms(1)
  unfolding login_def Let_def split_def assms(2) [symmetric] assms(3) [symmetric]
  by (auto simp: assms(2) split: if_splits option.splits sum.splits)

lemma drop_tokens:
  "get_session h (st_store (logout env now a b p s)) =
     (if truthy_str b \<and> h = ev_hash env (or_empty b) \<or> truthy_str a \<and> h = ev_hash env (or_empty a) then None
      else get_session h (st_store s))"
proof -
  have "get_session h (save_revoked t st) = get_session h st" for t st
    by (simp add: get_session_def)
  then show ?thesis by (auto simp: logout_def Let_def split: option.splits)
qed

lemma logout_denies:
  "pr_token_id q = Some j \<Longrightarrow> j \<noteq> [] \<Longrightarrow> is_revoked j (st_store (logout env now a b (Some q) s))"
  by (auto simp: logout_def Let_def audit_def new_id_def is_revoked_def add_auth_event_def save_revoked_def rows_simps)

lemma st_draws_logout: "st_draws s \<le> st_draws (logout env now a b p s)"
  by (auto simp: logout_def Let_def audit_def new_id_def split: option.splits)

text \<open>
  After a login the session cookie authenticates as the account that logged in; and after a logout
  that presents the session and refresh tokens of that login, neither token works in any later state,
  nor does the access token of the principal that logged out.
\<close>

theorem login_to_logout:
  assumes "sound s" and "inj (\<lambda>k. ev_hash env (ev_token env k))" and "ev_token env (st_draws s) \<noteq> []"
    and "ev_token env (Suc (Suc (st_draws s))) \<noteq> []" and "login env now e pw rem ip s = (Inr (u, tk), s1)"
    and "\<not> tenant_is_suspended u (st_store s1)"
  shows "fst (authenticate env t1 (Some (tk_legacy_token tk)) header s1) = Inr (user_principal u None (st_store s1)) \<and>
         (let later = auth_run env rs (logout env t2 (Some (tk_legacy_token tk)) (Some (tk_refresh_token tk)) (Some q) s1)
          in principal_from_session env (Some (tk_legacy_token tk)) (st_store later) = None \<and>
             (\<exists>err. fst (refresh env t3 (Some (tk_refresh_token tk)) ip' later) = Inl err) \<and>
             (\<forall>js secret claims. verify_access_token env js t3 secret = Some claims \<longrightarrow>
                pr_token_id q = Some (claim_str claims ''jti'') \<longrightarrow> claim_str claims ''jti'' \<noteq> [] \<longrightarrow>
                principal_from_jwt_token env js t3 secret (st_store later) = None))"
proof -
  define t where "t = s\<lparr>st_attempts := snd (check_login_allowed now ip (st_attempts s))\<rparr>"
  define ttl where "ttl = (if rem then REMEMBER_TTL_S else SESSION_TTL_S)"
  have t: "st_store t = st_store s" "st_draws t = st_draws s" by (simp_all add: t_def)
  obtain u0 where u0: "get_user_by_email e (st_store s) = Some u0" "\<not> us_disabled u0"
    and u: "u = u0\<lparr>us_last_login_at := Some now\<rparr>"
    and signed: "fst (sign_in env now ttl u0 t) = Inr tk"
    and s1: "s1 = audit env now ''login'' (Some (us_user_id u0)) (Some (us_email u0)) None
       (on_store (save_user u) (snd (sign_in env now ttl u0 t)))"
    using login_Inr [OF assms(5) t_def ttl_def] by blast
  note tokens = sign_in_tokens [OF signed]
  have differ: "ev_hash env (tk_legacy_token tk) \<noteq> ev_hash env (tk_refresh_token tk)"
    using tokens t injD [OF assms(2), of "st_draws t" "Suc (Suc (st_draws t))"] by auto
  obtain r where r: "get_session (ev_hash env (tk_legacy_token tk)) (st_store s1) = Some r"
    and kind: "ss_kind r = SESSION_KIND" "ss_user_id r = us_user_id u0"
    using sign_in_Inr(2) [OF signed differ] s1 by auto
  have "active_user (us_user_id u0) (st_store s1) = Some u"
    using assms(6) u0 s1 u by (auto simp: active_user_Some)
  then have cookie: "principal_from_session env (Some (tk_legacy_token tk)) (st_store s1) =
      Some (user_principal u None (st_store s1))"
    using r kind tokens t assms(3) by (simp add: principal_from_session_def)
  define s2 where "s2 = logout env t2 (Some (tk_legacy_token tk)) (Some (tk_refresh_token tk)) (Some q) s1"
  have snd1: "sound s1" using evolves_sound [OF evolves_login [OF assms(1)]] assms(5) by (metis snd_conv)
  have ev2: "evolves env UNIV (\<lambda>_. True) s1 s2" unfolding s2_def by (rule evolves_logout [OF snd1])
  have ev: "evolves env UNIV (\<lambda>_. True) s2 (auth_run env rs s2)" by (rule evolves_run [OF evolves_sound [OF ev2]])
  have draws: "Suc (Suc (Suc (st_draws s))) \<le> st_draws s2"
    using st_draws_logout [of s1 env t2 "Some (tk_legacy_token tk)" "Some (tk_refresh_token tk)" "Some q"] tokens t
    by (simp add: s2_def s1 audit_def new_id_def)
  have old: "\<not> fresh_token env (st_draws s2) (ev_hash env (ev_token env k))" if "k < st_draws s2" for k
    using that assms(2) unfolding fresh_token_def inj_def by (metis not_le)
  have gone: "get_session (ev_hash env tok) (st_store (auth_run env rs s2)) = None"
    if "tok \<in> {tk_legacy_token tk, tk_refresh_token tk}" for tok
  proof -
    have "get_session (ev_hash env tok) (st_store s2) = None"
      using that tokens t assms(3,4) by (auto simp: s2_def drop_tokens)
    moreover have "\<not> fresh_token env (st_draws s2) (ev_hash env tok)"
      using that tokens t old draws by auto
    ultimately show ?thesis using evolves_session [OF ev] by (metis not_None_eq)
  qed
  have denied: "is_revoked j (st_store (auth_run env rs s2))" if "pr_token_id q = Some j" and "j \<noteq> []" for j
    using evolves_revoked [OF ev] logout_denies [OF that] by (simp add: s2_def)
  show ?thesis
    using cookie gone refresh_replay(1) [OF gone] denied
    by (auto simp: authenticate_def Let_def s2_def [symmetric] principal_from_session_def principal_from_jwt_token_def)
qed

theorem login_to_logout_witness:
  "let (outcome, s1) = login sample_env 5 ''ann@example.org'' ''pw'' False ''ip'' installed
   in (\<exists>u tk. outcome = Inr (u, tk) \<and>
        fst (authenticate sample_env 6 (Some (tk_legacy_token tk)) None s1) = Inr (user_principal u None (st_store s1)) \<and>
        principal_from_session sample_env (Some (tk_legacy_token tk)) (st_store (auth_run sample_env []
          (logout sample_env 7 (Some (tk_legacy_token tk)) (Some (tk_refresh_token tk)) (Some ann) s1))) = None)"
proof -
  define s1 where "s1 = snd (login sample_env 5 ''ann@example.org'' ''pw'' False ''ip'' installed)"
  define tk where "tk = \<lparr>tk_legacy_token = replicate 7 CHR ''t'', tk_access_token = ''a.b.c'', tk_refresh_token = replicate 9 CHR ''t''\<rparr>"
  have "get_user_by_email ''ann@example.org'' (st_store installed) = Some ann_user"
    "fst (check_login_allowed 5 ''ip'' (st_attempts installed)) = Allowed"
    unfolding installed_eq by code_simp+
  then have "fst (login sample_env 5 ''ann@example.org'' ''pw'' False ''ip'' installed) = Inr (ann_user\<lparr>us_last_login_at := Some 5\<rparr>, tk)"
    by (simp add: login_def split_def Let_def sign_in_ok sample_draws sample_password tk_def
        issue_access_token_def sample_env_def ann_user_def eval_nat_numeral)
  then have l: "login sample_env 5 ''ann@example.org'' ''pw'' False ''ip'' installed = (Inr (ann_user\<lparr>us_last_login_at := Some 5\<rparr>, tk), s1)"
    by (simp add: s1_def prod_eq_iff)
  have "\<not> tenant_is_suspended (ann_user\<lparr>us_last_login_at := Some 5\<rparr>) (st_store s1)"
    by (simp add: tenant_is_suspended_def ann_user_def)
  moreover have "ev_token sample_env n \<noteq> []" for n by (simp add: sample_env_def)
  ultimately show ?thesis
    using login_to_logout [OF sample_sound sample_inj(1) _ _ l, where rs = "[]" and ?t1.0 = 6 and ?t2.0 = 7 and header = None and q = ann]
    by (auto simp: l Let_def)
qed

end
