(* ===== verification/Vault.thy ===== *)
theory Vault
  imports Expression
begin

text \<open>
  The credential vault of the tools module (\<open>modules/tools/vault.py\<close>): versioned envelopes around
  an authenticated cipher, with the base64 text of Python's \<open>base64\<close> (decoding with
  \<open>validate=True\<close>). The cipher of the \<open>cryptography\<close> package is an argument: its two operations
  for the one derived key, opening being \<open>None\<close> where the library raises \<open>InvalidTag\<close>. Bytes are
  numbers below 256.
\<close>

section \<open>Base64\<close>

definition b64_char :: "nat \<Rightarrow> char" where
  "b64_char n = char_of (if n < 26 then 65 + n else if n < 52 then 71 + n
     else if n < 62 then n - 4 else if n = 62 then 43 else 47)"

definition b64_value :: "char \<Rightarrow> nat option" where
  "b64_value c =
     (let n = of_char c :: nat
      in if 65 \<le> n \<and> n \<le> 90 then Some (n - 65)
         else if 97 \<le> n \<and> n \<le> 122 then Some (n - 71)
         else if 48 \<le> n \<and> n \<le> 57 then Some (n + 4)
         else if n = 43 then Some 62 else if n = 47 then Some 63 else None)"

fun b64_encode :: "nat list \<Rightarrow> string" where
  "b64_encode [] = []"
| "b64_encode [a] = [b64_char (a div 4), b64_char (a mod 4 * 16), CHR ''='', CHR ''='']"
| "b64_encode [a, b] =
     [b64_char (a div 4), b64_char (a mod 4 * 16 + b div 16), b64_char (b mod 16 * 4), CHR ''='']"
| "b64_encode (a # b # c # bs) =
     b64_char (a div 4) # b64_char (a mod 4 * 16 + b div 16) # b64_char (b mod 16 * 4 + c div 64) #
     b64_char (c mod 64) # b64_encode bs"

text \<open>Groups of four; padding closes the text, and nothing may follow it.\<close>

fun b64_decode :: "string \<Rightarrow> nat list option" where
  "b64_decode [] = Some []"
| "b64_decode (w # x # y # z # s) =
     (case (b64_value w, b64_value x) of
        (Some i, Some j) \<Rightarrow>
          (if y = CHR ''='' then (if z = CHR ''='' \<and> s = [] then Some [i * 4 + j div 16] else None)
           else case b64_value y of
                  None \<Rightarrow> None
                | Some k \<Rightarrow>
                    (if z = CHR ''=''
                     then (if s = [] then Some [i * 4 + j div 16, j mod 16 * 16 + k div 4] else None)
                     else case b64_value z of
                            None \<Rightarrow> None
                          | Some l \<Rightarrow>
                              map_option (\<lambda>bs. (i * 4 + j div 16) # (j mod 16 * 16 + k div 4) # (k mod 4 * 64 + l) # bs)
                                (b64_decode s)))
      | _ \<Rightarrow> None)"
| "b64_decode s = None"

lemma b64_value_char: "n < 64 \<Longrightarrow> b64_value (b64_char n) = Some n"
  by (auto simp: b64_value_def b64_char_def Let_def)

lemma b64_char_pad: "n < 64 \<Longrightarrow> b64_char n \<noteq> CHR ''=''"
  using b64_value_char [of n] by (auto simp: b64_value_def)

lemma b64_char_colon: "n < 64 \<Longrightarrow> b64_char n \<noteq> CHR '':''"
  using b64_value_char [of n] by (auto simp: b64_value_def)

lemma sextets:
  fixes a b c :: nat
  assumes "a < 256" "b < 256" "c < 256"
  shows "a div 4 < 64" "a mod 4 * 16 < 64" "a mod 4 * 16 + b div 16 < 64" "b mod 16 * 4 < 64"
    "b mod 16 * 4 + c div 64 < 64" "c mod 64 < 64"
proof -
  have m: "a mod 4 < 4" "b mod 16 < 16" and d: "b div 16 < 16" "c div 64 < 4" "a div 4 < 64"
    using assms by (simp_all add: less_mult_imp_div_less)
  show "a div 4 < 64" "a mod 4 * 16 < 64" "a mod 4 * 16 + b div 16 < 64" "b mod 16 * 4 < 64"
    "b mod 16 * 4 + c div 64 < 64" "c mod 64 < 64"
    using m d by simp_all
qed

lemma regroup:
  fixes a b c :: nat
  assumes "b < 256" "c < 256"
  shows "a div 4 * 4 + (a mod 4 * 16 + b div 16) div 16 = a"
    "(a mod 4 * 16 + b div 16) mod 16 * 16 + (b mod 16 * 4 + c div 64) div 4 = b"
    "(b mod 16 * 4 + c div 64) mod 4 * 64 + c mod 64 = c"
proof -
  have d: "b div 16 < 16" "c div 64 < 4" using assms by (simp_all add: less_mult_imp_div_less)
  then show "a div 4 * 4 + (a mod 4 * 16 + b div 16) div 16 = a" by simp
  show "(a mod 4 * 16 + b div 16) mod 16 * 16 + (b mod 16 * 4 + c div 64) div 4 = b" using d by simp
  show "(b mod 16 * 4 + c div 64) mod 4 * 64 + c mod 64 = c" using d by simp
qed

lemma b64_roundtrip: "list_all (\<lambda>b. b < 256) bs \<Longrightarrow> b64_decode (b64_encode bs) = Some bs"
proof (induction bs rule: b64_encode.induct)
  case (2 a)
  then show ?case
    using sextets [of a 0 0] regroup(1) [of 0 0 a] by (simp add: b64_value_char)
next
  case (3 a b)
  then show ?case
    using sextets [of a b 0] regroup(1,2) [of b 0 a] by (simp add: b64_value_char b64_char_pad)
next
  case (4 a b c bs)
  moreover from this have "b div 16 < 16" "c div 64 < 4" by (simp_all add: less_mult_imp_div_less)
  ultimately show ?case
    using sextets [of a b c] regroup(1,2) [of b c a] regroup(3) [of b c] by (simp add: b64_value_char b64_char_pad)
qed simp

section \<open>Envelopes\<close>

datatype vault_error = Configuration_Error string | Vault_Error string int

record aead =
  ae_seal :: "nat list \<Rightarrow> nat list \<Rightarrow> nat list"
  ae_open :: "nat list \<Rightarrow> nat list \<Rightarrow> nat list option"

text \<open>The constructor: without a master key the vault stays closed.\<close>

definition open_vault :: "(string \<Rightarrow> aead) \<Rightarrow> string \<Rightarrow> vault_error + aead" where
  "open_vault derive master_key =
     (if master_key = []
      then Inl (Configuration_Error ''VAULT_MASTER_KEY is not configured; the credential vault stays dark'')
      else Inr (derive master_key))"

definition envelope_head :: "int \<Rightarrow> string" where
  "envelope_head key_version = CHR ''v'' # show_int key_version"

definition ensure_valid_version :: "int \<Rightarrow> vault_error option" where
  "ensure_valid_version key_version =
     (if key_version < 1 then Some (Vault_Error ''key_version must be >= 1'' key_version) else None)"

definition vault_encrypt :: "aead \<Rightarrow> nat list \<Rightarrow> nat list \<Rightarrow> int \<Rightarrow> vault_error + string" where
  "vault_encrypt a nonce plaintext key_version =
     (case ensure_valid_version key_version of
        Some e \<Rightarrow> Inl e
      | None \<Rightarrow> Inr (envelope_head key_version @ '':'' @ b64_encode (nonce @ ae_seal a nonce plaintext)))"

definition NONCE_SIZE :: nat where "NONCE_SIZE = 12"
definition TAG_SIZE :: nat where "TAG_SIZE = 16"

definition vault_decrypt :: "aead \<Rightarrow> string \<Rightarrow> int \<Rightarrow> vault_error + nat list" where
  "vault_decrypt a envelope key_version =
     (case ensure_valid_version key_version of
        Some e \<Rightarrow> Inl e
      | None \<Rightarrow>
          (let bad = Vault_Error ''Stored credential envelope is not readable'' key_version
           in case split_at CHR '':'' envelope of
                (head, None) \<Rightarrow> Inl bad
              | (head, Some payload) \<Rightarrow>
                  (if head \<noteq> envelope_head key_version then Inl bad
                   else case b64_decode payload of
                          None \<Rightarrow> Inl bad
                        | Some raw \<Rightarrow>
                            (if length raw < NONCE_SIZE + TAG_SIZE then Inl bad
                             else case ae_open a (take NONCE_SIZE raw) (drop NONCE_SIZE raw) of
                                    None \<Rightarrow> Inl (Vault_Error ''Stored credential cannot be decrypted'' key_version)
                                  | Some plaintext \<Rightarrow> Inr plaintext))))"

section \<open>The round trip, and nothing else\<close>

lemma show_int_inj: "show_int m = show_int n \<longleftrightarrow> m = n"
proof
  have pos: "hd (digits_of k) \<noteq> CHR ''-''" for k
    using digits_all [of k] by (cases "digits_of k") (auto simp: is_digit_def)
  have neg: "hd (show_int k) = CHR ''-'' \<longleftrightarrow> k < 0" for k
    using pos by (simp add: show_int_def)
  assume eq: "show_int m = show_int n"
  then have sign: "m < 0 \<longleftrightarrow> n < 0" using neg by metis
  show "m = n"
  proof (cases "m < 0")
    case True
    then have "digits_of (nat (- m)) = digits_of (nat (- n))" using eq sign by (simp add: show_int_def)
    then have "nat (- m) = nat (- n)" using nat_of_digits_of by metis
    then show ?thesis using True sign by simp
  next
    case False
    then have "digits_of (nat m) = digits_of (nat n)" using eq sign by (simp add: show_int_def)
    then have "nat m = nat n" using nat_of_digits_of by metis
    then show ?thesis using False sign by simp
  qed
qed simp

lemma head_no_colon: "CHR '':'' \<notin> set (envelope_head v)"
  using digits_all [of "nat v"] digits_all [of "nat (- v)"]
  by (auto simp: envelope_head_def show_int_def list_all_iff is_digit_def Let_def)

lemma split_at_first:
  assumes "c \<notin> set pre"
  shows "split_at c (pre @ c # rest) = (pre, Some rest)"
proof -
  have "takeWhile (\<lambda>x. x \<noteq> c) (pre @ c # rest) = pre" using assms by (induction pre) auto
  then show ?thesis by (simp add: split_at_def Let_def)
qed

lemma split_at_Some: "split_at c s = (pre, Some rest) \<Longrightarrow> s = pre @ c # rest"
proof -
  assume a: "split_at c s = (pre, Some rest)"
  then have pre: "pre = takeWhile (\<lambda>x. x \<noteq> c) s" and l: "length pre < length s"
    and rest: "rest = drop (Suc (length pre)) s"
    by (auto simp: split_at_def Let_def split: if_splits)
  have "s ! length pre = c" using nth_length_takeWhile [of "\<lambda>x. x \<noteq> c" s] l pre by auto
  moreover have "take (length pre) s = pre" by (simp add: pre takeWhile_eq_take [symmetric])
  ultimately show ?thesis using id_take_nth_drop [OF l] by (simp add: rest)
qed

lemma vault_decrypt_Inr:
  assumes "vault_decrypt a envelope v = Inr p"
  shows "1 \<le> v \<and> (\<exists>nonce ct payload. envelope = envelope_head v @ '':'' @ payload \<and>
    b64_decode payload = Some (nonce @ ct) \<and> length nonce = NONCE_SIZE \<and> TAG_SIZE \<le> length ct \<and>
    ae_open a nonce ct = Some p)"
proof -
  obtain payload raw where p: "split_at CHR '':'' envelope = (envelope_head v, Some payload)"
      "b64_decode payload = Some raw" "\<not> length raw < NONCE_SIZE + TAG_SIZE"
      "ae_open a (take NONCE_SIZE raw) (drop NONCE_SIZE raw) = Some p" and v: "1 \<le> v"
    using assms by (auto simp: vault_decrypt_def ensure_valid_version_def Let_def split: if_splits option.splits prod.splits)
  have "envelope = envelope_head v @ '':'' @ payload" using split_at_Some [OF p(1)] by simp
  with p v show ?thesis
    by (intro conjI exI [of _ "take NONCE_SIZE raw"] exI [of _ "drop NONCE_SIZE raw"] exI [of _ payload]) auto
qed

lemma vault_decrypt_own:
  assumes "length nonce = NONCE_SIZE" and "list_all (\<lambda>b. b < 256) (nonce @ ct)" and "TAG_SIZE \<le> length ct" and "1 \<le> v"
  shows "vault_decrypt a (envelope_head u @ '':'' @ b64_encode (nonce @ ct)) v =
    (if u = v then (case ae_open a nonce ct of
        None \<Rightarrow> Inl (Vault_Error ''Stored credential cannot be decrypted'' v) | Some p \<Rightarrow> Inr p)
     else Inl (Vault_Error ''Stored credential envelope is not readable'' v))"
proof -
  have "split_at CHR '':'' (envelope_head u @ CHR '':'' # b64_encode (nonce @ ct)) =
      (envelope_head u, Some (b64_encode (nonce @ ct)))"
    by (rule split_at_first) (rule head_no_colon)
  moreover have "envelope_head u = envelope_head v \<longleftrightarrow> u = v" by (simp add: envelope_head_def show_int_inj)
  ultimately show ?thesis
    using assms b64_roundtrip [OF assms(2)] by (simp add: vault_decrypt_def ensure_valid_version_def Let_def)
qed

text \<open>
  C39: An envelope opens under the key version that sealed it, to the sealed bytes, and under no other
  version. And whatever text is offered, the vault returns bytes only for an envelope that names the
  requested version and carries, as valid base64, a nonce and a ciphertext that the cipher
  authenticates: no malformed, truncated or tampered envelope opens.
\<close>

theorem vault_roundtrip:
  assumes "length nonce = NONCE_SIZE" and "list_all (\<lambda>b. b < 256) nonce"
    and "ae_open a nonce (ae_seal a nonce p) = Some p" and "TAG_SIZE \<le> length (ae_seal a nonce p)"
    and "list_all (\<lambda>b. b < 256) (ae_seal a nonce p)"
    and "vault_encrypt a nonce p v = Inr envelope"
  shows "vault_decrypt a envelope v = Inr p \<and>
    (w \<noteq> v \<longrightarrow> (\<exists>e. vault_decrypt a envelope w = Inl e)) \<and>
    (vault_decrypt a offered w = Inr q \<longrightarrow> 1 \<le> w \<and>
       (\<exists>n ct payload. offered = envelope_head w @ '':'' @ payload \<and> b64_decode payload = Some (n @ ct) \<and>
          length n = NONCE_SIZE \<and> TAG_SIZE \<le> length ct \<and> ae_open a n ct = Some q))"
proof -
  have v: "1 \<le> v" and envelope: "envelope = envelope_head v @ '':'' @ b64_encode (nonce @ ae_seal a nonce p)"
    using assms(6) by (auto simp: vault_encrypt_def ensure_valid_version_def split: if_splits)
  have bytes: "list_all (\<lambda>b. b < 256) (nonce @ ae_seal a nonce p)" using assms(2,5) by simp
  note own = vault_decrypt_own [OF assms(1) bytes assms(4), where a = a]
  have "vault_decrypt a envelope v = Inr p" using own [OF v] assms(3) by (simp add: envelope)
  moreover have "\<exists>e. vault_decrypt a envelope w = Inl e" if "w \<noteq> v"
  proof (cases "1 \<le> w")
    case True
    from own [OF this] that show ?thesis by (simp add: envelope)
  qed (simp add: vault_decrypt_def ensure_valid_version_def)
  ultimately show ?thesis using vault_decrypt_Inr by blast
qed

text \<open>A cipher for evaluation: the plaintext reversed, behind a constant tag.\<close>

definition plain_aead :: aead where
  "plain_aead =
     \<lparr>ae_seal = (\<lambda>n p. replicate 16 7 @ rev (map (\<lambda>b. b mod 256) p)),
      ae_open = (\<lambda>n c. if take 16 c = replicate 16 7 then Some (rev (drop 16 c)) else None)\<rparr>"

theorem vault_roundtrip_witness:
  "\<exists>envelope. vault_encrypt plain_aead (replicate 12 9) (map of_char ''key'') 2 = Inr envelope \<and>
     vault_decrypt plain_aead envelope 2 = Inr (map of_char ''key'') \<and>
     (\<exists>e. vault_decrypt plain_aead envelope 1 = Inl e)"
proof -
  have p: "ae_open plain_aead (replicate 12 9) (ae_seal plain_aead (replicate 12 9) (map of_char ''key'')) = Some (map of_char ''key'')"
    "TAG_SIZE \<le> length (ae_seal plain_aead (replicate 12 9) (map of_char ''key''))"
    "list_all (\<lambda>b. b < 256) (ae_seal plain_aead (replicate 12 9) (map of_char ''key''))"
    by (simp_all add: plain_aead_def TAG_SIZE_def list_all_iff)
  obtain envelope where e: "vault_encrypt plain_aead (replicate 12 9) (map of_char ''key'') 2 = Inr envelope"
    by (simp add: vault_encrypt_def ensure_valid_version_def)
  show ?thesis
    using e vault_roundtrip [OF _ _ p e, where w = 1] by (simp add: NONCE_SIZE_def list_all_iff)
qed

end
