(* ===== verification/Tool_Vault.thy ===== *)
theory Tool_Vault
  imports Typed_Rows Vault
begin

text \<open>
  The vault state of the tools module: the rows of \<open>modules/tools/models.py\<close>, the visibility
  predicates of \<open>modules/tools/static_methods.py\<close>, the scoped reads of
  \<open>modules/tools/repository.py\<close> and \<open>org_policy_repository.py\<close>, the governance audit, and the
  credential store behind tool execution (\<open>credential_repository.py\<close>). A state holds one tenant's
  views and the system view of the templates; a row stored through a view carries its tenant.
\<close>

section \<open>Rows\<close>

record owner_scope =
  sc_partner :: string
  sc_org :: "string option"
  sc_user :: "string option"

record partner_credential =
  pc_id :: "string option"
  pc_provider :: string
  pc_type :: string
  pc_config :: pydict
  pc_envelope :: string
  pc_key_version :: int
  pc_expires_at :: "rat option"
  pc_tenant :: "string option"
  pc_owner_org :: "string option"
  pc_owner_user :: "string option"
  pc_binding :: "string option"
  pc_status :: string

record integration_template =
  it_provider :: string
  it_type :: string
  it_transport :: string
  it_tools :: "pyval list"
  it_oauth :: pydict
  it_client :: pydict
  it_tenant :: "string option"
  it_visibility :: string
  it_owner :: "string option"
  it_bindings :: "string list"
  it_suggested :: "string option"
  it_version :: int
  it_lifecycle :: string

record integration_link =
  il_id :: "string option"
  il_provider :: string
  il_agent :: string
  il_config :: pydict
  il_status :: string
  il_tenant :: "string option"
  il_org :: "string option"

record org_policy =
  op_org :: string
  op_policy :: string
  op_changed_by :: string
  op_reason :: string
  op_tenant :: "string option"

record governance_event =
  ge_partner :: string
  ge_org :: string
  ge_user :: string
  ge_action :: string
  ge_kind :: string
  ge_target :: string
  ge_reason :: string

record tool_definition =
  td_tool_id :: string
  td_kind :: string
  td_name :: string
  td_description :: string
  td_parameters :: pydict
  td_url :: "string option"
  td_method :: string
  td_auth_ref :: "string option"
  td_timeout_s :: int
  td_deprecated :: bool
  td_version :: int
  td_tenant :: "string option"
  td_owner_org :: "string option"
  td_meta :: pydict

section \<open>Who may see a row\<close>

definition SYSTEM_TENANT_ID :: string where "SYSTEM_TENANT_ID = ''system''"
definition BINDING_ORG_SHARED :: string where "BINDING_ORG_SHARED = ''org_shared''"
definition BINDING_USER_PRIVATE :: string where "BINDING_USER_PRIVATE = ''user_private''"
definition POLICY_USER_CHOICE :: string where "POLICY_USER_CHOICE = ''user_choice''"
definition POLICY_SHARED_WITH_OVERRIDE :: string where "POLICY_SHARED_WITH_OVERRIDE = ''shared_with_override''"
definition POLICY_ENFORCE_SHARED :: string where "POLICY_ENFORCE_SHARED = ''enforce_shared''"

lemmas binding_defs = BINDING_ORG_SHARED_def BINDING_USER_PRIVATE_def
lemmas policy_defs = POLICY_USER_CHOICE_def POLICY_SHARED_WITH_OVERRIDE_def POLICY_ENFORCE_SHARED_def

definition build_tool_id :: "string \<Rightarrow> string \<Rightarrow> string" where
  "build_tool_id kind name = kind @ '':'' @ name"

definition is_system_row :: "string option \<Rightarrow> bool" where
  "is_system_row t = (t = Some SYSTEM_TENANT_ID)"

definition effective_binding_set :: "string list \<Rightarrow> string \<Rightarrow> string set" where
  "effective_binding_set allowed policy =
     (let policy_set =
        (if policy = POLICY_ENFORCE_SHARED then {BINDING_ORG_SHARED}
         else if policy \<in> {POLICY_USER_CHOICE, POLICY_SHARED_WITH_OVERRIDE}
         then {BINDING_ORG_SHARED, BINDING_USER_PRIVATE} else {})
      in set allowed \<inter> policy_set)"

definition policy_allows_binding :: "string \<Rightarrow> string \<Rightarrow> bool" where
  "policy_allows_binding b policy =
     (if b = BINDING_ORG_SHARED
      then policy \<in> {POLICY_USER_CHOICE, POLICY_SHARED_WITH_OVERRIDE, POLICY_ENFORCE_SHARED}
      else if b = BINDING_USER_PRIVATE then policy \<in> {POLICY_USER_CHOICE, POLICY_SHARED_WITH_OVERRIDE}
      else False)"

definition credential_visible_to :: "partner_credential \<Rightarrow> owner_scope \<Rightarrow> bool \<Rightarrow> bool" where
  "credential_visible_to c sc for_execution =
     (case pc_binding c of
        None \<Rightarrow> \<not> for_execution
      | Some b \<Rightarrow>
          (if b = BINDING_ORG_SHARED
           then (if sc_org sc = None then \<not> for_execution else pc_owner_org c = sc_org sc)
           else if b = BINDING_USER_PRIVATE
           then (if sc_org sc = None then \<not> for_execution
                 else if for_execution then pc_owner_org c = sc_org sc \<and> pc_owner_user c = sc_user sc
                 else pc_owner_org c = sc_org sc)
           else False))"

definition template_visible_to :: "integration_template \<Rightarrow> owner_scope \<Rightarrow> bool" where
  "template_visible_to t sc =
     (if it_visibility t = ''global'' then True
      else it_owner t = None \<or> it_owner t = Some (sc_partner sc))"

definition tenant_allows :: "string option \<Rightarrow> owner_scope \<Rightarrow> bool" where
  "tenant_allows t sc = (if t = None \<or> t = Some SYSTEM_TENANT_ID then True else t = Some (sc_partner sc))"

definition link_visible_to :: "integration_link \<Rightarrow> owner_scope \<Rightarrow> bool" where
  "link_visible_to l sc = (if sc_org sc = None then True else il_org l = None \<or> il_org l = sc_org sc)"

definition tool_visible_in_org :: "tool_definition \<Rightarrow> string option \<Rightarrow> bool" where
  "tool_visible_in_org t org = (if org = None then True else td_owner_org t = None \<or> td_owner_org t = org)"

section \<open>Errors and guards\<close>

datatype tool_error =
    Tool_Error string
  | Tool_Not_Found string
  | Tool_Forbidden string
  | Tool_Denied string
  | Invalid_Tool string
  | Tool_Execution string
  | Binding_Required string
  | Policy_Conflict string
  | Tool_Conflict string nat
  | Vault_Failure vault_error

definition ensure_owner_scope :: "owner_scope \<Rightarrow> tool_error option" where
  "ensure_owner_scope sc = (if sc_partner sc = [] then Some (Tool_Error ''No partner bound for this scoped call.'') else None)"

definition ensure_binding_permitted :: "string \<Rightarrow> string \<Rightarrow> string \<Rightarrow> tool_error option" where
  "ensure_binding_permitted b policy provider =
     (if \<not> policy_allows_binding b policy then Some (Tool_Forbidden b) else None)"

definition ensure_effective_allowed :: "string list \<Rightarrow> string \<Rightarrow> string \<Rightarrow> tool_error + string set" where
  "ensure_effective_allowed allowed policy provider =
     (let effective = effective_binding_set allowed policy
      in if effective = {} then Inl (Policy_Conflict provider) else Inr effective)"

section \<open>The vault views of a tenant\<close>

record vault_state =
  vs_tenant :: string
  vs_credentials :: "partner_credential rows"
  vs_links :: "integration_link rows"
  vs_templates :: "integration_template rows"
  vs_system_templates :: "integration_template rows"
  vs_policies :: "org_policy rows"
  vs_events :: "governance_event list"
  vs_tools :: "tool_definition rows"
  vs_system_tools :: "tool_definition rows"
  vs_draws :: nat

text \<open>
  The outside of the module: the n-th drawn id and nonce, the cipher of the one master key, the
  JSON library, and the HTTP transport of the registration client (\<open>None\<close> when it fails, otherwise
  the status and the decoded body).
\<close>

record vault_env =
  ve_id :: "nat \<Rightarrow> string"
  ve_nonce :: "nat \<Rightarrow> nat list"
  ve_aead :: aead
  ve_dumps :: "pyval \<Rightarrow> string"
  ve_loads :: "string \<Rightarrow> pyval option"
  ve_url_safe :: "string \<Rightarrow> bool"
  ve_http_get :: "string \<Rightarrow> (int \<times> pyval option) option"
  ve_http_post :: "string \<Rightarrow> pyval \<Rightarrow> (int \<times> pyval option) option"

definition save_credential :: "vault_env \<Rightarrow> partner_credential \<Rightarrow> vault_state \<Rightarrow> partner_credential \<times> vault_state" where
  "save_credential env c s =
     (let (i, s1) = (if truthy_str (pc_id c) then (or_empty (pc_id c), s)
                     else (ve_id env (vs_draws s), s\<lparr>vs_draws := vs_draws s + 1\<rparr>));
          c' = c\<lparr>pc_id := Some i, pc_tenant := Some (vs_tenant s)\<rparr>
      in (c', s1\<lparr>vs_credentials := rows_insert i c' (vs_credentials s1)\<rparr>))"

definition get_credential :: "string \<Rightarrow> vault_state \<Rightarrow> partner_credential option" where
  "get_credential i s = rows_get i (vs_credentials s)"

definition find_credentials_by_provider :: "string \<Rightarrow> vault_state \<Rightarrow> partner_credential list" where
  "find_credentials_by_provider p s = rows_find_many (\<lambda>c. pc_provider c = p) (vs_credentials s)"

definition list_credential_rows :: "vault_state \<Rightarrow> partner_credential list" where
  "list_credential_rows s = live_rows (vs_credentials s)"

definition delete_credential :: "string \<Rightarrow> vault_state \<Rightarrow> bool \<times> vault_state" where
  "delete_credential i s =
     (let (b, c) = rows_soft_delete i (vs_credentials s) in (b, s\<lparr>vs_credentials := c\<rparr>))"

definition save_integration :: "vault_env \<Rightarrow> integration_link \<Rightarrow> vault_state \<Rightarrow> integration_link \<times> vault_state" where
  "save_integration env l s =
     (let (i, s1) = (if truthy_str (il_id l) then (or_empty (il_id l), s)
                     else (ve_id env (vs_draws s), s\<lparr>vs_draws := vs_draws s + 1\<rparr>));
          l' = l\<lparr>il_id := Some i, il_tenant := Some (vs_tenant s)\<rparr>
      in (l', s1\<lparr>vs_links := rows_insert i l' (vs_links s1)\<rparr>))"

definition delete_integration :: "string \<Rightarrow> vault_state \<Rightarrow> bool \<times> vault_state" where
  "delete_integration i s = (let (b, c) = rows_soft_delete i (vs_links s) in (b, s\<lparr>vs_links := c\<rparr>))"

definition save_template_row :: "integration_template \<Rightarrow> vault_state \<Rightarrow> integration_template \<times> vault_state" where
  "save_template_row t s =
     (let t' = t\<lparr>it_tenant := Some (vs_tenant s)\<rparr>
      in (t', s\<lparr>vs_templates := rows_insert (it_provider t) t' (vs_templates s)\<rparr>))"

definition delete_template_row :: "string \<Rightarrow> vault_state \<Rightarrow> bool \<times> vault_state" where
  "delete_template_row p s = (let (b, c) = rows_soft_delete p (vs_templates s) in (b, s\<lparr>vs_templates := c\<rparr>))"

section \<open>Scoped reads\<close>

definition visible_credential :: "owner_scope \<Rightarrow> bool \<Rightarrow> partner_credential \<Rightarrow> bool" where
  "visible_credential sc for_execution c =
     (tenant_allows (pc_tenant c) sc \<and> credential_visible_to c sc for_execution)"

definition get_credential_in_scope ::
  "string \<Rightarrow> owner_scope \<Rightarrow> bool \<Rightarrow> vault_state \<Rightarrow> partner_credential option" where
  "get_credential_in_scope i sc for_execution s =
     (case get_credential i s of
        None \<Rightarrow> None
      | Some c \<Rightarrow> if visible_credential sc for_execution c then Some c else None)"

definition find_credentials_for_scope ::
  "string \<Rightarrow> owner_scope \<Rightarrow> bool \<Rightarrow> vault_state \<Rightarrow> partner_credential list" where
  "find_credentials_for_scope p sc for_execution s =
     filter (visible_credential sc for_execution) (find_credentials_by_provider p s)"

definition list_credentials_for_scope :: "owner_scope \<Rightarrow> bool \<Rightarrow> vault_state \<Rightarrow> partner_credential list" where
  "list_credentials_for_scope sc for_execution s =
     filter (visible_credential sc for_execution) (list_credential_rows s)"

definition visible_template :: "owner_scope \<Rightarrow> integration_template \<Rightarrow> bool" where
  "visible_template sc t = (tenant_allows (it_tenant t) sc \<and> template_visible_to t sc)"

definition get_template_in_scope ::
  "integration_template rows \<Rightarrow> string \<Rightarrow> owner_scope \<Rightarrow> integration_template option" where
  "get_template_in_scope templates p sc =
     (case rows_get p templates of
        None \<Rightarrow> None
      | Some t \<Rightarrow> if visible_template sc t then Some t else None)"

definition list_templates_for_scope ::
  "integration_template rows \<Rightarrow> owner_scope \<Rightarrow> integration_template list" where
  "list_templates_for_scope templates sc = filter (visible_template sc) (live_rows templates)"

definition list_integrations_for_scope ::
  "owner_scope \<Rightarrow> string option \<Rightarrow> vault_state \<Rightarrow> integration_link list" where
  "list_integrations_for_scope sc agent s =
     filter (\<lambda>l. tenant_allows (il_tenant l) sc \<and> link_visible_to l sc \<and> (agent = None \<or> Some (il_agent l) = agent))
       (live_rows (vs_links s))"

definition get_policy_row :: "string \<Rightarrow> owner_scope \<Rightarrow> vault_state \<Rightarrow> org_policy option" where
  "get_policy_row org sc s =
     (case rows_get org (vs_policies s) of
        None \<Rightarrow> None
      | Some r \<Rightarrow>
          (if op_org r \<noteq> org \<or> \<not> tenant_allows (op_tenant r) sc \<or> sc_org sc \<noteq> None \<and> sc_org sc \<noteq> Some org
           then None else Some r))"

definition save_policy_row :: "org_policy \<Rightarrow> vault_state \<Rightarrow> org_policy \<times> vault_state" where
  "save_policy_row p s =
     (let p' = p\<lparr>op_tenant := Some (vs_tenant s)\<rparr>
      in (p', s\<lparr>vs_policies := rows_insert (op_org p) p' (vs_policies s)\<rparr>))"

definition append_event :: "string \<Rightarrow> string \<Rightarrow> string \<Rightarrow> owner_scope \<Rightarrow> string \<Rightarrow> vault_state \<Rightarrow> vault_state" where
  "append_event action kind target sc reason s =
     s\<lparr>vs_events := vs_events s @
        [\<lparr>ge_partner = sc_partner sc, ge_org = or_empty (sc_org sc), ge_user = or_empty (sc_user sc),
          ge_action = action, ge_kind = kind, ge_target = target, ge_reason = reason\<rparr>]\<rparr>"

text \<open>The lookup window is taken on the kind before the target is matched.\<close>

definition events_for_target :: "string \<Rightarrow> string \<Rightarrow> nat \<Rightarrow> vault_state \<Rightarrow> governance_event list" where
  "events_for_target kind target limit s =
     take limit (filter (\<lambda>e. ge_target e = target) (take limit (filter (\<lambda>e. ge_kind e = kind) (vs_events s))))"

section \<open>The credential store behind a tool call\<close>

definition AUTH_REF_PREFIX :: string where "AUTH_REF_PREFIX = ''cred:''"

definition bytes_of_text :: "string \<Rightarrow> nat list" where "bytes_of_text t = map of_char t"
definition text_of_bytes :: "nat list \<Rightarrow> string" where "text_of_bytes bs = map char_of bs"

lemma text_of_bytes_of_text [simp]: "text_of_bytes (bytes_of_text t) = t"
  by (simp add: text_of_bytes_def bytes_of_text_def comp_def)

lemma bytes_of_text_small: "list_all (\<lambda>b. b < 256) (bytes_of_text t)"
  by (simp add: bytes_of_text_def list_all_iff)

definition fetch_credential :: "vault_env \<Rightarrow> string \<Rightarrow> vault_state \<Rightarrow> pydict option" where
  "fetch_credential env auth_ref s =
     (if \<not> prefix AUTH_REF_PREFIX auth_ref then None
      else let i = drop (length AUTH_REF_PREFIX) auth_ref
           in if i = [] then None
              else case get_credential i s of
                     None \<Rightarrow> None
                   | Some row \<Rightarrow>
                       (case vault_decrypt (ve_aead env) (pc_envelope row) (pc_key_version row) of
                          Inl e \<Rightarrow> None
                        | Inr plaintext \<Rightarrow>
                            (case ve_loads env (text_of_bytes plaintext) of
                               Some (PDict material) \<Rightarrow>
                                 Some (dict_merge [(''credential_type'', PStr (pc_type row)),
                                   (''auth_config'', PDict (pc_config row))] material)
                             | _ \<Rightarrow> None)))"

text \<open>What a credential row is opened by: nothing of its ownership, status or expiry.\<close>

definition same_secret :: "partner_credential \<Rightarrow> partner_credential \<Rightarrow> bool" where
  "same_secret c d =
     (pc_type c = pc_type d \<and> pc_config c = pc_config d \<and> pc_envelope c = pc_envelope d \<and>
      pc_key_version c = pc_key_version d)"

lemma fetch_same_secret:
  assumes "get_credential i s = Some c" and "get_credential i t = Some d" and "same_secret c d"
  shows "fetch_credential env (AUTH_REF_PREFIX @ i) s = fetch_credential env (AUTH_REF_PREFIX @ i) t"
  using assms by (auto simp: fetch_credential_def same_secret_def split: option.splits sum.splits pyval.splits)

end
