(* ===== verification/Integrations.thy ===== *)
theory Integrations
  imports Tool_Vault
begin

text \<open>
  The integration service (\<open>modules/tools/integration_service.py\<close>) with the registration client it
  drives (\<open>dcr_service.py\<close>): templates, credentials and their resolution, links, organization
  policies and the synchronisation of template tools into the registry. An operation returns its
  error or its answer, and the state it leaves; rows written before an error stay written.
\<close>

type_synonym 'a served = "(tool_error + 'a) \<times> vault_state"

section \<open>Sealing a secret\<close>

definition CREDENTIAL_TYPES :: "string list" where
  "CREDENTIAL_TYPES = [''none'', ''api_key'', ''bearer'', ''basic'', ''oauth2'', ''custom'']"

definition SEALED_LOOKING_KEYS :: "string set" where
  "SEALED_LOOKING_KEYS = {''password'', ''token'', ''secret'', ''api_key'', ''headers''}"

fun is_pstr :: "pyval \<Rightarrow> bool" where
  "is_pstr (PStr t) = True"
| "is_pstr v = False"

definition seal_material :: "vault_env \<Rightarrow> string \<Rightarrow> string \<Rightarrow> tool_error + nat list" where
  "seal_material env ctype secret =
     (let bad = Inl (Invalid_Tool ''Custom auth secret must be a JSON object of headers.'');
          seal = (\<lambda>d. Inr (bytes_of_text (ve_dumps env (PDict d))))
      in if ctype = ''api_key'' then seal [(''api_key'', PStr secret)]
         else if ctype = ''bearer'' \<or> ctype = ''oauth2'' then seal [(''token'', PStr secret)]
         else if ctype = ''basic'' then seal [(''password'', PStr secret)]
         else if ctype = ''custom''
         then (case (if py_strip secret \<noteq> [] then ve_loads env secret else Some (PDict [])) of
                 Some (PDict d) \<Rightarrow> if list_all (\<lambda>(k, v). is_pstr v) d then seal [(''headers'', PDict d)] else bad
               | _ \<Rightarrow> bad)
         else seal [])"

section \<open>Policies and natural keys\<close>

definition policy_for :: "owner_scope \<Rightarrow> vault_state \<Rightarrow> string" where
  "policy_for sc s =
     (case sc_org sc of
        None \<Rightarrow> POLICY_USER_CHOICE
      | Some org \<Rightarrow> (case get_policy_row org sc s of None \<Rightarrow> POLICY_USER_CHOICE | Some r \<Rightarrow> op_policy r))"

definition same_quad :: "string \<Rightarrow> string \<Rightarrow> owner_scope \<Rightarrow> partner_credential \<Rightarrow> bool" where
  "same_quad provider b sc c =
     (pc_provider c = provider \<and> pc_binding c = Some b \<and> pc_owner_org c = sc_org sc \<and>
      \<not> (b = BINDING_USER_PRIVATE \<and> pc_owner_user c \<noteq> sc_user sc) \<and>
      \<not> (b = BINDING_ORG_SHARED \<and> pc_owner_user c \<noteq> None))"

definition replace_same_quad :: "string \<Rightarrow> string \<Rightarrow> owner_scope \<Rightarrow> vault_state \<Rightarrow> partner_credential option" where
  "replace_same_quad provider b sc s = find (same_quad provider b sc) (list_credentials_for_scope sc False s)"

section \<open>Templates\<close>

definition list_templates :: "owner_scope \<Rightarrow> vault_state \<Rightarrow> tool_error + integration_template list" where
  "list_templates sc s =
     (case ensure_owner_scope sc of
        Some e \<Rightarrow> Inl e
      | None \<Rightarrow>
          (let system = list_templates_for_scope (vs_system_templates s) sc;
               tenant = list_templates_for_scope (vs_templates s) sc;
               merged = foldl (\<lambda>m t. AList.update (it_provider t) t m) [] (system @ tenant);
               ids = set (map it_provider system);
               less = (\<lambda>p q. (p \<in> ids \<and> q \<notin> ids) \<or> ((p \<in> ids \<longleftrightarrow> q \<in> ids) \<and> str_less p q));
               ordered = foldr (\<lambda>t ts. takeWhile (\<lambda>u. less (it_provider u) (it_provider t)) ts @ t #
                            dropWhile (\<lambda>u. less (it_provider u) (it_provider t)) ts) (map snd merged) []
           in Inr ordered))"

definition save_template ::
  "owner_scope \<Rightarrow> integration_template \<Rightarrow> string list option \<Rightarrow> vault_state \<Rightarrow> (integration_template \<times> bool) served" where
  "save_template sc t allowed s =
     (case ensure_owner_scope sc of
        Some e \<Rightarrow> (Inl e, s)
      | None \<Rightarrow>
          (if it_type t \<notin> set CREDENTIAL_TYPES then (Inl (Invalid_Tool ''Unknown credential type''), s)
           else if it_transport t \<notin> {''http'', ''mcp''} then (Inl (Invalid_Tool ''Unknown transport''), s)
           else let existing = get_template_in_scope (vs_templates s) (it_provider t) sc;
                    bindings = (case allowed of None \<Rightarrow> [BINDING_USER_PRIVATE] | Some b \<Rightarrow> b)
                in if bindings = [] \<or> \<not> set bindings \<subseteq> {BINDING_ORG_SHARED, BINDING_USER_PRIVATE} \<or>
                     (case it_suggested t of None \<Rightarrow> False | Some b \<Rightarrow> b \<notin> set bindings)
                   then (Inl (Invalid_Tool ''Template binding contract is invalid.''), s)
                   else let row = t\<lparr>it_visibility := ''partner_private'', it_owner := Some (sc_partner sc),
                                    it_bindings := bindings, it_lifecycle := ''draft'',
                                    it_version := (case existing of None \<Rightarrow> 1 | Some e \<Rightarrow> it_version e)\<rparr>;
                            (saved, s') = save_template_row row s
                        in (Inr (saved, existing \<noteq> None), s')))"

definition delete_template :: "owner_scope \<Rightarrow> string \<Rightarrow> vault_state \<Rightarrow> unit served" where
  "delete_template sc provider s =
     (case ensure_owner_scope sc of
        Some e \<Rightarrow> (Inl e, s)
      | None \<Rightarrow>
          (if get_template_in_scope (vs_system_templates s) provider sc \<noteq> None
           then (Inl (Tool_Forbidden provider), s)
           else let (deleted, s') = delete_template_row provider s
                in if \<not> deleted then (Inl (Tool_Not_Found provider), s')
                   else (Inr (), append_event ''retire'' ''template'' provider sc [] s')))"

section \<open>Credentials\<close>

definition list_credentials :: "owner_scope \<Rightarrow> vault_state \<Rightarrow> tool_error + partner_credential list" where
  "list_credentials sc s =
     (case ensure_owner_scope sc of Some e \<Rightarrow> Inl e | None \<Rightarrow> Inr (list_credentials_for_scope sc False s))"

definition blocked :: "string \<Rightarrow> bool" where "blocked st = (st = ''suspended'' \<or> st = ''revoked'')"

definition resolve_credential ::
  "string \<Rightarrow> owner_scope \<Rightarrow> vault_state \<Rightarrow> tool_error + partner_credential option" where
  "resolve_credential provider sc s =
     (case ensure_owner_scope sc of
        Some e \<Rightarrow> Inl e
      | None \<Rightarrow>
          (let rows = find_credentials_for_scope provider sc True s;
               own_private = filter (\<lambda>c. pc_binding c = Some BINDING_USER_PRIVATE \<and> pc_owner_user c = sc_user sc) rows;
               shared = filter (\<lambda>c. pc_binding c = Some BINDING_ORG_SHARED) rows
           in Inr (find (\<lambda>c. \<not> blocked (pc_status c)) (own_private @ shared))))"

text \<open>The row both ways of connecting store, under the id of the row they replace.\<close>

definition store_credential ::
  "vault_env \<Rightarrow> owner_scope \<Rightarrow> string \<Rightarrow> string \<Rightarrow> string \<Rightarrow> pydict \<Rightarrow> string \<Rightarrow> rat option \<Rightarrow> string \<Rightarrow>
     vault_state \<Rightarrow> (partner_credential \<times> bool) \<times> vault_state" where
  "store_credential env sc provider b ctype config envelope expires status s =
     (let same = replace_same_quad provider b sc s;
          row = \<lparr>pc_id = Option.bind same pc_id, pc_provider = provider, pc_type = ctype, pc_config = config,
                 pc_envelope = envelope, pc_key_version = 1, pc_expires_at = expires, pc_tenant = None,
                 pc_owner_org = sc_org sc,
                 pc_owner_user = (if b = BINDING_USER_PRIVATE then sc_user sc else None),
                 pc_binding = Some b, pc_status = status\<rparr>;
          (saved, s1) = save_credential env row s
      in ((saved, same \<noteq> None), append_event ''connect'' ''credential'' (or_empty (pc_id saved)) sc [] s1))"

definition draw_nonce :: "vault_env \<Rightarrow> vault_state \<Rightarrow> nat list \<times> vault_state" where
  "draw_nonce env s = (ve_nonce env (vs_draws s), s\<lparr>vs_draws := vs_draws s + 1\<rparr>)"

text \<open>What a connect checks before it seals: the template of either view and the organization's policy.\<close>

definition connect_refusal ::
  "string \<Rightarrow> string \<Rightarrow> string option \<Rightarrow> owner_scope \<Rightarrow> pydict \<Rightarrow> vault_state \<Rightarrow> tool_error + string" where
  "connect_refusal provider ctype bnd sc config s =
     (case ensure_owner_scope sc of
        Some e \<Rightarrow> Inl e
      | None \<Rightarrow>
          (case bnd of
             None \<Rightarrow> Inl (Binding_Required provider)
           | Some b \<Rightarrow>
               (let policy = policy_for sc s
                in case ensure_binding_permitted b policy provider of
                     Some e \<Rightarrow> Inl e
                   | None \<Rightarrow>
                       (if b = BINDING_USER_PRIVATE \<and> \<not> truthy_str (sc_user sc)
                        then Inl (Invalid_Tool ''Private credentials need a user login'')
                        else let template = (case get_template_in_scope (vs_system_templates s) provider sc of
                                    None \<Rightarrow> get_template_in_scope (vs_templates s) provider sc | Some t \<Rightarrow> Some t)
                             in case (case template of None \<Rightarrow> Inr {}
                                      | Some t \<Rightarrow> ensure_effective_allowed (it_bindings t) policy provider) of
                                  Inl e \<Rightarrow> Inl e
                                | Inr effective \<Rightarrow>
                                    (if ctype \<notin> set CREDENTIAL_TYPES then Inl (Invalid_Tool ''Unknown credential type'')
                                     else if set (map fst config) \<inter> SEALED_LOOKING_KEYS \<noteq> {}
                                     then Inl (Invalid_Tool ''auth_config carries secret material'')
                                     else Inr b)))))"

definition connect_credential ::
  "vault_env \<Rightarrow> string \<Rightarrow> string \<Rightarrow> string option \<Rightarrow> owner_scope \<Rightarrow> string \<Rightarrow> pydict \<Rightarrow> rat option \<Rightarrow>
     vault_state \<Rightarrow> (partner_credential \<times> bool) served" where
  "connect_credential env provider ctype bnd sc secret config expires s =
     (case connect_refusal provider ctype bnd sc config s of
        Inl e \<Rightarrow> (Inl e, s)
      | Inr b \<Rightarrow>
          (case seal_material env ctype secret of
             Inl e \<Rightarrow> (Inl e, s)
           | Inr material \<Rightarrow>
               (let (nonce, s1) = draw_nonce env s
                in case vault_encrypt (ve_aead env) nonce material 1 of
                     Inl e \<Rightarrow> (Inl (Vault_Failure e), s1)
                   | Inr envelope \<Rightarrow>
                       (let (r, s2) = store_credential env sc provider b ctype config envelope expires ''active'' s1
                        in (Inr r, s2)))))"

definition revoke_credential :: "string \<Rightarrow> owner_scope \<Rightarrow> vault_state \<Rightarrow> unit served" where
  "revoke_credential i sc s =
     (case ensure_owner_scope sc of
        Some e \<Rightarrow> (Inl e, s)
      | None \<Rightarrow>
          (if get_credential_in_scope i sc False s = None then (Inl (Tool_Not_Found i), s)
           else let (deleted, s') = delete_credential i s
                in if \<not> deleted then (Inl (Tool_Not_Found i), s')
                   else (Inr (), append_event ''revoke'' ''credential'' i sc [] s')))"

section \<open>Links\<close>

definition list_integrations :: "owner_scope \<Rightarrow> string option \<Rightarrow> vault_state \<Rightarrow> tool_error + integration_link list" where
  "list_integrations sc agent s =
     (case ensure_owner_scope sc of Some e \<Rightarrow> Inl e | None \<Rightarrow> Inr (list_integrations_for_scope sc agent s))"

definition link_integration ::
  "vault_env \<Rightarrow> string \<Rightarrow> string \<Rightarrow> pydict \<Rightarrow> owner_scope \<Rightarrow> vault_state \<Rightarrow> integration_link served" where
  "link_integration env provider agent config sc s =
     (case ensure_owner_scope sc of
        Some e \<Rightarrow> (Inl e, s)
      | None \<Rightarrow>
          (case sc_org sc of
             None \<Rightarrow> (Inl (Invalid_Tool ''Links belong to an org''), s)
           | Some org \<Rightarrow>
               (case resolve_credential provider sc s of
                  Inl e \<Rightarrow> (Inl e, s)
                | Inr None \<Rightarrow> (Inl (Invalid_Tool ''Provider has no connected credential.''), s)
                | Inr (Some live) \<Rightarrow>
                    (let (saved, s1) = save_integration env
                           \<lparr>il_id = None, il_provider = provider, il_agent = agent, il_config = config,
                            il_status = ''active'', il_tenant = None, il_org = Some org\<rparr> s
                     in (Inr saved, append_event ''link'' ''link'' (or_empty (il_id saved)) sc [] s1)))))"

definition unlink_integration :: "string \<Rightarrow> owner_scope \<Rightarrow> vault_state \<Rightarrow> unit served" where
  "unlink_integration i sc s =
     (case ensure_owner_scope sc of
        Some e \<Rightarrow> (Inl e, s)
      | None \<Rightarrow>
          (if find (\<lambda>l. il_id l = Some i) (list_integrations_for_scope sc None s) = None
           then (Inl (Tool_Not_Found i), s)
           else let (deleted, s') = delete_integration i s
                in if \<not> deleted then (Inl (Tool_Not_Found i), s')
                   else (Inr (), append_event ''unlink'' ''link'' i sc [] s')))"

section \<open>Organization policies\<close>

definition get_policy :: "string \<Rightarrow> owner_scope \<Rightarrow> vault_state \<Rightarrow> tool_error + org_policy" where
  "get_policy org sc s =
     (case ensure_owner_scope sc of
        Some e \<Rightarrow> Inl e
      | None \<Rightarrow> (case get_policy_row org sc s of None \<Rightarrow> Inl (Tool_Not_Found org) | Some r \<Rightarrow> Inr r))"

definition barred :: "string \<Rightarrow> partner_credential \<Rightarrow> bool" where
  "barred org c =
     (pc_binding c = Some BINDING_USER_PRIVATE \<and> pc_owner_org c = Some org \<and> pc_status c = ''active'' \<and> pc_id c \<noteq> None)"

fun suspend_rows ::
  "vault_env \<Rightarrow> owner_scope \<Rightarrow> string \<Rightarrow> string \<Rightarrow> partner_credential list \<Rightarrow> vault_state \<Rightarrow> string list \<times> vault_state" where
  "suspend_rows env sc org reason [] s = ([], s)"
| "suspend_rows env sc org reason (c # cs) s =
     (if barred org c
      then let s1 = snd (save_credential env (c\<lparr>pc_status := ''suspended''\<rparr>) s);
               s2 = append_event ''suspend'' ''credential'' (or_empty (pc_id c)) sc reason s1;
               (is, s3) = suspend_rows env sc org reason cs s2
           in (or_empty (pc_id c) # is, s3)
      else suspend_rows env sc org reason cs s)"

definition set_policy ::
  "vault_env \<Rightarrow> string \<Rightarrow> string \<Rightarrow> string \<Rightarrow> string \<Rightarrow> owner_scope \<Rightarrow> vault_state \<Rightarrow> (org_policy \<times> string list) served" where
  "set_policy env org policy changed_by reason sc s =
     (case ensure_owner_scope sc of
        Some e \<Rightarrow> (Inl e, s)
      | None \<Rightarrow>
          (if sc_org sc \<noteq> Some org then (Inl (Tool_Forbidden org), s)
           else if policy \<notin> {POLICY_USER_CHOICE, POLICY_SHARED_WITH_OVERRIDE, POLICY_ENFORCE_SHARED}
           then (Inl (Invalid_Tool policy), s)
           else let (suspended, s1) =
                      (if policy = POLICY_ENFORCE_SHARED
                       then suspend_rows env sc org reason (list_credentials_for_scope sc False s) s else ([], s));
                    (saved, s2) = save_policy_row \<lparr>op_org = org, op_policy = policy, op_changed_by = changed_by,
                        op_reason = reason, op_tenant = None\<rparr> s1
                in (Inr (saved, suspended), append_event ''policy_flip'' ''org_policy'' org sc reason s2)))"

end
