(* ===== verification/Mcp_Client.thy ===== *)
theory Mcp_Client
  imports Tool_Vault
begin

text \<open>
  The JSON-RPC client for one MCP server (\<open>modules/tools/adapters/mcp/client.py\<close>): headers, the
  decoding of JSON and event-stream answers, the handshake, paginated discovery and the tool call.
  The server is a function from the requests sent so far to its answer to the last one, \<open>None\<close> when
  the transport fails; \<open>json.loads\<close> is an argument.
\<close>

type_synonym headers = "(string \<times> string) list"

record mcp_request =
  mr_url :: string
  mr_headers :: headers
  mr_payload :: pydict

record mcp_response =
  mp_session :: "string option"
  mp_content_type :: string
  mp_text :: string
  mp_json :: "pyval option"

type_synonym mcp_server = "mcp_request list \<Rightarrow> mcp_response option"

record mcp_client =
  mc_url :: string
  mc_token :: "string option"
  mc_extra :: headers
  mc_session :: "string option"

definition new_client :: "string \<Rightarrow> string option \<Rightarrow> headers \<Rightarrow> mcp_client" where
  "new_client url token extra =
     \<lparr>mc_url = rev (dropWhile (\<lambda>c. c = CHR ''/'') (rev url)), mc_token = token, mc_extra = extra, mc_session = None\<rparr>"

section \<open>Event streams\<close>

text \<open>The characters \<open>str.splitlines\<close> splits at; a carriage return and a line feed are one end.\<close>

definition line_end :: "char \<Rightarrow> bool" where
  "line_end c = (let n = of_char c :: nat in 10 \<le> n \<and> n \<le> 13 \<or> 28 \<le> n \<and> n \<le> 30 \<or> n = 133)"

fun split_lines :: "string \<Rightarrow> string \<Rightarrow> string list" where
  "split_lines line [] = (if line = [] then [] else [line])"
| "split_lines line [c] = (if line_end c then [line] else [line @ [c]])"
| "split_lines line (c # d # s) =
     (if of_char c = (13 :: nat) \<and> of_char d = (10 :: nat) then line # split_lines [] s
      else if line_end c then line # split_lines [] (d # s)
      else split_lines (line @ [c]) (d # s))"

definition sse_payload :: "(string \<Rightarrow> pyval option) \<Rightarrow> string \<Rightarrow> pyval option" where
  "sse_payload loads line =
     (let stripped = py_strip line
      in if \<not> prefix ''data:'' stripped then None
         else let raw = py_strip (drop 5 stripped) in if raw = [] then None else loads raw)"

definition parse_sse_events :: "(string \<Rightarrow> pyval option) \<Rightarrow> string \<Rightarrow> pyval list" where
  "parse_sse_events loads body = List.map_filter (sse_payload loads) (split_lines [] body)"

section \<open>Requests\<close>

definition request_headers :: "mcp_client \<Rightarrow> headers" where
  "request_headers c =
     (let h = AList.update ''Content-Type'' ''application/json'' (mc_extra c);
          h = (if truthy_str (mc_token c) then AList.update ''Authorization'' (''Bearer '' @ or_empty (mc_token c)) h else h)
      in if truthy_str (mc_session c) then AList.update ''Mcp-Session-Id'' (or_empty (mc_session c)) h else h)"

definition mcp_send :: "mcp_server \<Rightarrow> mcp_client \<Rightarrow> pydict \<Rightarrow> mcp_request list \<Rightarrow> mcp_response option \<times> mcp_request list" where
  "mcp_send server c payload sent =
     (let sent' = sent @ [\<lparr>mr_url = mc_url c, mr_headers = request_headers c, mr_payload = payload\<rparr>]
      in (server sent', sent'))"

definition mcp_post ::
  "(string \<Rightarrow> pyval option) \<Rightarrow> mcp_server \<Rightarrow> pydict \<Rightarrow> mcp_client \<Rightarrow> mcp_request list \<Rightarrow>
     (tool_error + pyval) \<times> mcp_client \<times> mcp_request list" where
  "mcp_post loads server payload c sent =
     (case mcp_send server c payload sent of
        (None, sent') \<Rightarrow> (Inl (Tool_Execution ''MCP server unreachable.''), c, sent')
      | (Some r, sent') \<Rightarrow>
          (let c' = (if truthy_str (mp_session r) then c\<lparr>mc_session := mp_session r\<rparr> else c)
           in ((if py_contains ''text/event-stream'' (mp_content_type r)
                then Inr (PList (parse_sse_events loads (mp_text r)))
                else case mp_json r of
                       None \<Rightarrow> Inl (Tool_Execution ''MCP server returned a non-JSON response.'')
                     | Some (PDict d) \<Rightarrow>
                         (case map_of d ''error'' of
                            Some e \<Rightarrow> Inl (Tool_Execution ''MCP server refused the request.'')
                          | None \<Rightarrow> Inr (case map_of d ''result'' of Some v \<Rightarrow> v | None \<Rightarrow> PDict d))
                     | Some v \<Rightarrow> Inr v), c', sent')))"

definition rpc :: "int \<Rightarrow> string \<Rightarrow> pydict \<Rightarrow> pydict" where
  "rpc i m params = [(''jsonrpc'', PStr ''2.0''), (''id'', PInt i), (''method'', PStr m), (''params'', PDict params)]"

definition INITIALIZED :: pydict where
  "INITIALIZED = [(''jsonrpc'', PStr ''2.0''), (''method'', PStr ''notifications/initialized'')]"

definition MCP_PROTOCOL_VERSION :: string where "MCP_PROTOCOL_VERSION = ''2026-07-28''"

definition mcp_initialize ::
  "(string \<Rightarrow> pyval option) \<Rightarrow> mcp_server \<Rightarrow> string \<Rightarrow> mcp_client \<Rightarrow> mcp_request list \<Rightarrow>
     (tool_error + pydict) \<times> mcp_client \<times> mcp_request list" where
  "mcp_initialize loads server version c sent =
     (case mcp_post loads server (rpc 1 ''initialize'' [(''protocolVersion'', PStr version), (''capabilities'', PDict [])]) c sent of
        (Inl e, c', sent') \<Rightarrow> (Inl e, c', sent')
      | (Inr v, c', sent') \<Rightarrow>
          (let (ignored, sent'') = mcp_send server c' INITIALIZED sent'
           in (Inr (case v of PDict d \<Rightarrow> d | _ \<Rightarrow> []), c', sent'')))"

fun dict_items :: "pyval list \<Rightarrow> pydict list" where
  "dict_items [] = []"
| "dict_items (PDict d # vs) = d # dict_items vs"
| "dict_items (v # vs) = dict_items vs"

text \<open>
  \<open>result["tools"]\<close> is iterated: a dict or a text holds no dict, and another value than a container
  raises.
\<close>

fun listed_tools :: "pyval option \<Rightarrow> pydict list option" where
  "listed_tools None = Some []"
| "listed_tools (Some (PList vs)) = Some (dict_items vs)"
| "listed_tools (Some (PDict d)) = Some []"
| "listed_tools (Some (PStr t)) = Some []"
| "listed_tools (Some v) = None"

definition list_tools ::
  "(string \<Rightarrow> pyval option) \<Rightarrow> mcp_server \<Rightarrow> string option \<Rightarrow> mcp_client \<Rightarrow> mcp_request list \<Rightarrow>
     (tool_error + pydict list \<times> string option) \<times> mcp_client \<times> mcp_request list" where
  "list_tools loads server cursor c sent =
     (case mcp_post loads server (rpc 2 ''tools/list''
             (if truthy_str cursor then [(''cursor'', PStr (or_empty cursor))] else [])) c sent of
        (Inl e, c', sent') \<Rightarrow> (Inl e, c', sent')
      | (Inr (PDict d), c', sent') \<Rightarrow>
          ((case listed_tools (map_of d ''tools'') of
              None \<Rightarrow> Inl (Tool_Error ''TypeError'')
            | Some tools \<Rightarrow>
                (let nxt = dict_get d ''nextCursor''
                 in Inr (tools, if truthy nxt then Some (py_str nxt) else None))), c', sent')
      | (Inr v, c', sent') \<Rightarrow> (Inr ([], None), c', sent'))"

fun list_pages ::
  "(string \<Rightarrow> pyval option) \<Rightarrow> mcp_server \<Rightarrow> nat \<Rightarrow> string option \<Rightarrow> mcp_client \<Rightarrow> mcp_request list \<Rightarrow>
     (tool_error + pydict list) \<times> mcp_client \<times> mcp_request list" where
  "list_pages loads server 0 cursor c sent = (Inr [], c, sent)"
| "list_pages loads server (Suc n) cursor c sent =
     (case list_tools loads server cursor c sent of
        (Inl e, c', sent') \<Rightarrow> (Inl e, c', sent')
      | (Inr (page, nxt), c', sent') \<Rightarrow>
          (if \<not> truthy_str nxt then (Inr page, c', sent')
           else case list_pages loads server n nxt c' sent' of
                  (Inl e, c'', sent'') \<Rightarrow> (Inl e, c'', sent'')
                | (Inr rest, c'', sent'') \<Rightarrow> (Inr (page @ rest), c'', sent'')))"

definition PAGE_LIMIT :: nat where "PAGE_LIMIT = 50"

definition list_all_tools ::
  "(string \<Rightarrow> pyval option) \<Rightarrow> mcp_server \<Rightarrow> mcp_client \<Rightarrow> mcp_request list \<Rightarrow>
     (tool_error + pydict list) \<times> mcp_client \<times> mcp_request list" where
  "list_all_tools loads server c sent = list_pages loads server PAGE_LIMIT None c sent"

definition call_tool ::
  "(string \<Rightarrow> pyval option) \<Rightarrow> mcp_server \<Rightarrow> string \<Rightarrow> pydict \<Rightarrow> mcp_client \<Rightarrow> mcp_request list \<Rightarrow>
     (tool_error + pyval) \<times> mcp_client \<times> mcp_request list" where
  "call_tool loads server name arguments c sent =
     mcp_post loads server (rpc 3 ''tools/call'' [(''name'', PStr name), (''arguments'', PDict arguments)]) c sent"

section \<open>What a session sends\<close>

text \<open>A request of the client: to its address, with its static headers and its credential.\<close>

definition sent_by :: "mcp_client \<Rightarrow> mcp_request \<Rightarrow> bool" where
  "sent_by c r =
     (mr_url r = mc_url c \<and> (\<exists>session. mr_headers r = request_headers (c\<lparr>mc_session := session\<rparr>)))"

named_theorems mcp_simps

lemma sent_by_session [mcp_simps]: "sent_by (c\<lparr>mc_session := session\<rparr>) r = sent_by c r"
  by (simp add: sent_by_def)

lemma session_same [simp]: "c\<lparr>mc_session := mc_session c\<rparr> = (c :: mcp_client)"
  by (cases c) simp

lemma own_request [mcp_simps]:
  "sent_by c \<lparr>mr_url = mc_url c, mr_headers = request_headers c, mr_payload = p\<rparr>"
  unfolding sent_by_def by (auto intro: exI [of _ "mc_session c"])

lemma mcp_post_client:
  assumes "mcp_post loads server payload c sent = (v, c', sent')"
  shows "(\<exists>session. c' = c\<lparr>mc_session := session\<rparr>) \<and> (\<exists>r. sent' = sent @ [r] \<and> sent_by c r)"
proof
  show "\<exists>session. c' = c\<lparr>mc_session := session\<rparr>"
    using assms by (auto simp: mcp_post_def mcp_send_def Let_def split: option.splits if_splits
        intro: exI [of _ "mc_session c"])
  show "\<exists>r. sent' = sent @ [r] \<and> sent_by c r"
    using assms by (auto simp: mcp_post_def mcp_send_def Let_def mcp_simps split: option.splits)
qed

lemma mcp_initialize_client:
  assumes "mcp_initialize loads server version c sent = (v, c', sent')"
  shows "(\<exists>session. c' = c\<lparr>mc_session := session\<rparr>) \<and>
    (\<exists>rs. sent' = sent @ rs \<and> length rs \<le> 2 \<and> (\<forall>r \<in> set rs. sent_by c r))"
proof -
  obtain u sent1 where u: "mcp_post loads server (rpc 1 ''initialize''
      [(''protocolVersion'', PStr version), (''capabilities'', PDict [])]) c sent = (u, c', sent1)"
    and sent': "sent' = sent1 \<or>
      sent' = sent1 @ [\<lparr>mr_url = mc_url c', mr_headers = request_headers c', mr_payload = INITIALIZED\<rparr>]"
    using assms by (auto simp: mcp_initialize_def mcp_send_def Let_def split: prod.splits sum.splits)
  from mcp_post_client [OF u] obtain session r where c': "c' = c\<lparr>mc_session := session\<rparr>"
    and r: "sent1 = sent @ [r]" "sent_by c r" by blast
  have "sent_by c \<lparr>mr_url = mc_url c', mr_headers = request_headers c', mr_payload = INITIALIZED\<rparr>"
    using own_request [of c'] by (simp add: c' mcp_simps)
  then show ?thesis using sent' c' r by auto
qed

lemma list_tools_client:
  assumes "list_tools loads server cursor c sent = (v, c', sent')"
  shows "(\<exists>session. c' = c\<lparr>mc_session := session\<rparr>) \<and> (\<exists>r. sent' = sent @ [r] \<and> sent_by c r)"
proof -
  obtain w where "mcp_post loads server (rpc 2 ''tools/list''
      (if truthy_str cursor then [(''cursor'', PStr (or_empty cursor))] else [])) c sent = (w, c', sent')"
    using assms by (auto simp: list_tools_def split: prod.splits sum.splits pyval.splits)
  from mcp_post_client [OF this] show ?thesis by blast
qed

lemma list_pages_client:
  "list_pages loads server n cursor c sent = (v, c', sent') \<Longrightarrow>
     (\<exists>session. c' = c\<lparr>mc_session := session\<rparr>) \<and>
     (\<exists>rs. sent' = sent @ rs \<and> length rs \<le> n \<and> (\<forall>r \<in> set rs. sent_by c r))"
proof (induction n arbitrary: cursor c sent v)
  case 0
  then show ?case by (auto intro: exI [of _ "mc_session c"])
next
  case (Suc n)
  obtain w c1 sent1 where t: "list_tools loads server cursor c sent = (w, c1, sent1)" by (metis prod_cases3)
  obtain session r where c1: "c1 = c\<lparr>mc_session := session\<rparr>" and r: "sent1 = sent @ [r]" "sent_by c r"
    using list_tools_client [OF t] by blast
  show ?case
  proof (cases "\<exists>page nxt. w = Inr (page, nxt) \<and> truthy_str nxt")
    case True
    then obtain page nxt where w: "w = Inr (page, nxt)" "truthy_str nxt" by blast
    then obtain v' where "list_pages loads server n nxt c1 sent1 = (v', c', sent')"
      using Suc.prems by (auto simp: t split: prod.splits sum.splits)
    from Suc.IH [OF this] obtain session' rs where "c' = c1\<lparr>mc_session := session'\<rparr>"
      "sent' = sent1 @ rs" "length rs \<le> n" "\<forall>r \<in> set rs. sent_by c1 r" by blast
    then show ?thesis
      using c1 r by (auto simp: mcp_simps intro!: exI [of _ "r # rs"])
  next
    case False
    then have "c' = c1" "sent' = sent1" using Suc.prems by (auto simp: t split: sum.splits prod.splits if_splits)
    then show ?thesis using c1 r by (auto intro!: exI [of _ "[r]"])
  qed
qed


text \<open>A server that hands out a session and streams its listing.\<close>

definition streaming_server :: mcp_server where
  "streaming_server sent =
     (if dict_get (mr_payload (last sent)) ''method'' = PStr ''tools/list''
      then Some \<lparr>mp_session = None, mp_content_type = ''text/event-stream'', mp_text = ''data: {}'', mp_json = None\<rparr>
      else Some \<lparr>mp_session = Some ''s1'', mp_content_type = ''application/json'', mp_text = ''{}'', mp_json = Some (PDict [])\<rparr>)"


end
