(* ===== verification/Tool_Registry.thy ===== *)
theory Tool_Registry
  imports Integrations Mcp_Client
begin

text \<open>
  The tool registry (\<open>modules/tools/service.py\<close>), the registration of OAuth clients
  (\<open>dcr_service.py\<close> and \<open>dcr_register\<close> of the integration service) and the synchronisation of a
  template's tools into the registry (\<open>sync_tools\<close>), over HTTP entries or by discovery on an MCP
  server.
\<close>

section \<open>Rows\<close>

definition get_tool_row :: "string \<Rightarrow> vault_state \<Rightarrow> tool_definition option" where
  "get_tool_row i s = rows_get i (vs_tools s)"

definition get_system_tool :: "string \<Rightarrow> vault_state \<Rightarrow> tool_definition option" where
  "get_system_tool i s = rows_get i (vs_system_tools s)"

definition save_tool :: "tool_definition \<Rightarrow> vault_state \<Rightarrow> tool_definition \<times> vault_state" where
  "save_tool t s =
     (let t' = t\<lparr>td_tenant := Some (vs_tenant s)\<rparr>
      in (t', s\<lparr>vs_tools := rows_insert (td_tool_id t) t' (vs_tools s)\<rparr>))"

definition save_system_tool :: "tool_definition \<Rightarrow> vault_state \<Rightarrow> vault_state" where
  "save_system_tool t s =
     s\<lparr>vs_system_tools := rows_insert (td_tool_id t) (t\<lparr>td_tenant := Some SYSTEM_TENANT_ID\<rparr>) (vs_system_tools s)\<rparr>"

definition delete_tool_row :: "string \<Rightarrow> vault_state \<Rightarrow> bool \<times> vault_state" where
  "delete_tool_row i s = (let (b, c) = rows_soft_delete i (vs_tools s) in (b, s\<lparr>vs_tools := c\<rparr>))"

definition list_tools_for_org :: "string option \<Rightarrow> vault_state \<Rightarrow> tool_definition list" where
  "list_tools_for_org org s = filter (\<lambda>t. tool_visible_in_org t org) (live_rows (vs_tools s))"

section \<open>The registry\<close>

text \<open>
  The index of the agents that refer to a tool, when it is wired: how many, and how many are
  materialised again.
\<close>

type_synonym agent_links = "((string \<Rightarrow> nat) \<times> (string \<Rightarrow> nat)) option"

definition list_registry :: "string option \<Rightarrow> vault_state \<Rightarrow> tool_definition list" where
  "list_registry kind s =
     (let wanted = (\<lambda>t. kind = None \<or> Some (td_kind t) = kind);
          system = filter wanted (live_rows (vs_system_tools s));
          tenant = filter wanted (live_rows (vs_tools s));
          merged = foldl (\<lambda>m t. AList.update (td_tool_id t) t m) [] (system @ tenant);
          ids = set (map td_tool_id system);
          less = (\<lambda>p q. (p \<in> ids \<and> q \<notin> ids) \<or> ((p \<in> ids \<longleftrightarrow> q \<in> ids) \<and> str_less p q))
      in foldr (\<lambda>t ts. takeWhile (\<lambda>u. less (td_tool_id u) (td_tool_id t)) ts @ t #
                 dropWhile (\<lambda>u. less (td_tool_id u) (td_tool_id t)) ts) (map snd merged) [])"

definition get_tool :: "string \<Rightarrow> vault_state \<Rightarrow> tool_error + tool_definition" where
  "get_tool i s =
     (case (case get_tool_row i s of None \<Rightarrow> get_system_tool i s | Some t \<Rightarrow> Some t) of
        None \<Rightarrow> Inl (Tool_Not_Found i) | Some t \<Rightarrow> Inr t)"

definition get_tool_for_attach :: "string \<Rightarrow> vault_state \<Rightarrow> tool_error + tool_definition" where
  "get_tool_for_attach i s =
     (case get_tool i s of
        Inl e \<Rightarrow> Inl e | Inr t \<Rightarrow> if td_deprecated t then Inl (Invalid_Tool i) else Inr t)"

definition ensure_writable_kind :: "string \<Rightarrow> tool_error option" where
  "ensure_writable_kind kind = (if kind = ''internal'' then Some (Invalid_Tool kind) else None)"

definition create_tool :: "tool_definition \<Rightarrow> vault_state \<Rightarrow> tool_definition served" where
  "create_tool t s =
     (case ensure_writable_kind (td_kind t) of
        Some e \<Rightarrow> (Inl e, s)
      | None \<Rightarrow> (let (saved, s') = save_tool (t\<lparr>td_tool_id := build_tool_id (td_kind t) (td_name t)\<rparr>) s in (Inr saved, s')))"

definition propagate_tool_change :: "agent_links \<Rightarrow> string \<Rightarrow> nat" where
  "propagate_tool_change links i = (case links of None \<Rightarrow> 0 | Some (refs, remat) \<Rightarrow> remat i)"

definition count_references :: "agent_links \<Rightarrow> string \<Rightarrow> nat" where
  "count_references links i = (case links of None \<Rightarrow> 0 | Some (refs, remat) \<Rightarrow> refs i)"

definition update_tool :: "agent_links \<Rightarrow> string \<Rightarrow> tool_definition \<Rightarrow> vault_state \<Rightarrow> (tool_definition \<times> nat) served" where
  "update_tool links i t s =
     (if get_system_tool i s \<noteq> None then (Inl (Tool_Forbidden i), s)
      else case get_tool_row i s of
             None \<Rightarrow> (Inl (Tool_Not_Found i), s)
           | Some stored \<Rightarrow>
               (case ensure_writable_kind (td_kind t) of
                  Some e \<Rightarrow> (Inl e, s)
                | None \<Rightarrow>
                    (let (saved, s') = save_tool (t\<lparr>td_tool_id := i, td_version := td_version stored + 1\<rparr>) s
                     in (Inr (saved, propagate_tool_change links i), s'))))"

definition delete_tool :: "agent_links \<Rightarrow> string \<Rightarrow> vault_state \<Rightarrow> unit served" where
  "delete_tool links i s =
     (if get_system_tool i s \<noteq> None then (Inl (Tool_Forbidden i), s)
      else if get_tool_row i s = None then (Inl (Tool_Not_Found i), s)
      else let references = count_references links i
           in if references > 0 then (Inl (Tool_Conflict i references), s)
              else let (deleted, s') = delete_tool_row i s
                   in if deleted then (Inr (), s') else (Inl (Tool_Not_Found i), s'))"

text \<open>The boot synchronisation with the seed: new rows, rows of an older revision, rows found.\<close>

fun seed_rows :: "tool_definition list \<Rightarrow> vault_state \<Rightarrow> vault_state \<Rightarrow> (nat \<times> nat) \<times> vault_state" where
  "seed_rows [] s0 s = ((0, 0), s)"
| "seed_rows (e # es) s0 s =
     (case get_system_tool (td_tool_id e) s0 of
        None \<Rightarrow> (let ((i, u), s') = seed_rows es s0 (save_system_tool e s) in ((i + 1, u), s'))
      | Some t \<Rightarrow>
          (if td_version t < td_version e
           then (let ((i, u), s') = seed_rows es s0 (save_system_tool e s) in ((i, u + 1), s'))
           else seed_rows es s0 s))"

definition ensure_seeded :: "tool_definition list \<Rightarrow> vault_state \<Rightarrow> (nat \<times> nat \<times> nat) \<times> vault_state" where
  "ensure_seeded entries s =
     (let ((i, u), s') = seed_rows entries s s in ((i, u, length (live_rows (vs_system_tools s))), s'))"

section \<open>Registration of OAuth clients\<close>

record client_record =
  cr_issuer_url :: string
  cr_client_id :: string
  cr_client_secret :: "string option"
  cr_authorization_endpoint :: "string option"
  cr_token_endpoint :: "string option"

definition fetch_json :: "vault_env \<Rightarrow> string \<Rightarrow> pydict option" where
  "fetch_json env url =
     (case ve_http_get env url of
        None \<Rightarrow> None
      | Some (status, body) \<Rightarrow>
          (if status \<ge> 400 then None else case body of Some (PDict d) \<Rightarrow> Some d | _ \<Rightarrow> None))"

definition WELL_KNOWN :: "string list" where
  "WELL_KNOWN = [''/.well-known/oauth-protected-resource'', ''/.well-known/oauth-authorization-server'',
     ''/.well-known/openid-configuration'']"

fun first_metadata :: "vault_env \<Rightarrow> string \<Rightarrow> string list \<Rightarrow> pydict option" where
  "first_metadata env base [] = None"
| "first_metadata env base (path # rest) =
     (case fetch_json env (base @ path) of
        Some d \<Rightarrow>
          (if map_of d ''authorization_endpoint'' \<noteq> None \<or> map_of d ''token_endpoint'' \<noteq> None \<or>
              map_of d ''registration_endpoint'' \<noteq> None
           then Some d else first_metadata env base rest)
      | None \<Rightarrow> first_metadata env base rest)"

definition strip_slashes :: "string \<Rightarrow> string" where
  "strip_slashes u = rev (dropWhile (\<lambda>c. c = CHR ''/'') (rev u))"

definition discover :: "vault_env \<Rightarrow> string \<Rightarrow> pydict option" where
  "discover env issuer =
     (if \<not> ve_url_safe env issuer then None else first_metadata env (strip_slashes issuer) WELL_KNOWN)"

definition text_or_none :: "pyval \<Rightarrow> string option" where
  "text_or_none v = (case v of PStr t \<Rightarrow> Some t | _ \<Rightarrow> None)"

definition register_client :: "vault_env \<Rightarrow> string list \<Rightarrow> string \<Rightarrow> tool_error + client_record" where
  "register_client env redirect_uris issuer =
     (case discover env issuer of
        None \<Rightarrow> Inl (Tool_Execution ''OAuth issuer metadata is undiscoverable.'')
      | Some metadata \<Rightarrow>
          (case dict_get metadata ''registration_endpoint'' of
             PStr endpoint \<Rightarrow>
               (if endpoint = [] then Inl (Tool_Execution ''Issuer requires manual client credentials.'')
                else if \<not> ve_url_safe env endpoint
                then Inl (Tool_Execution ''Registration endpoint failed safety validation.'')
                else case ve_http_post env endpoint (PDict
                    ([(''client_name'', PStr ''otobaai-tools''),
                      (''grant_types'', PList [PStr ''authorization_code'', PStr ''refresh_token''])] @
                     (if redirect_uris = [] then [] else [(''redirect_uris'', PList (map PStr redirect_uris))]))) of
                  None \<Rightarrow> Inl (Tool_Execution ''Client registration unreachable.'')
                | Some (status, body) \<Rightarrow>
                    (if status \<ge> 400 then Inl (Tool_Execution ''Client registration refused.'')
                     else case body of
                       None \<Rightarrow> Inl (Tool_Execution ''Registration endpoint returned a non-JSON response.'')
                     | Some (PDict d) \<Rightarrow>
                         (case dict_get d ''client_id'' of
                            PStr cid \<Rightarrow>
                              (if cid = [] then Inl (Tool_Execution ''Registration endpoint returned an invalid record.'')
                               else Inr \<lparr>cr_issuer_url = issuer, cr_client_id = cid,
                                 cr_client_secret = text_or_none (dict_get d ''client_secret''),
                                 cr_authorization_endpoint = text_or_none (dict_get metadata ''authorization_endpoint''),
                                 cr_token_endpoint = text_or_none (dict_get metadata ''token_endpoint'')\<rparr>)
                          | _ \<Rightarrow> Inl (Tool_Execution ''Registration endpoint returned an invalid record.''))
                     | Some v \<Rightarrow> Inl (Tool_Execution ''Registration endpoint returned an invalid record.'')))
           | _ \<Rightarrow> Inl (Tool_Execution ''Issuer requires manual client credentials.'')))"

definition optional_entry :: "string \<Rightarrow> string option \<Rightarrow> pydict" where
  "optional_entry k v = (if truthy_str v then [(k, PStr (or_empty v))] else [])"

definition dcr_register ::
  "vault_env \<Rightarrow> string list \<Rightarrow> string \<Rightarrow> string \<Rightarrow> string option \<Rightarrow> owner_scope \<Rightarrow> vault_state \<Rightarrow> partner_credential served" where
  "dcr_register env redirect_uris issuer provider bnd sc s =
     (case ensure_owner_scope sc of
        Some e \<Rightarrow> (Inl e, s)
      | None \<Rightarrow>
          (case bnd of
             None \<Rightarrow> (Inl (Binding_Required provider), s)
           | Some b \<Rightarrow>
               (case ensure_binding_permitted b (policy_for sc s) provider of
                  Some e \<Rightarrow> (Inl e, s)
                | None \<Rightarrow>
                    (case register_client env redirect_uris issuer of
                       Inl e \<Rightarrow> (Inl e, s)
                     | Inr r \<Rightarrow>
                         (let (nonce, s1) = draw_nonce env s;
                              config = [(''client_id'', PStr (cr_client_id r)), (''issuer_url'', PStr issuer)] @
                                optional_entry ''authorization_endpoint'' (cr_authorization_endpoint r) @
                                optional_entry ''token_endpoint'' (cr_token_endpoint r)
                          in case vault_encrypt (ve_aead env) nonce (bytes_of_text (ve_dumps env
                                 (PDict [(''client_secret'', PStr (or_empty (cr_client_secret r)))]))) 1 of
                               Inl e \<Rightarrow> (Inl (Vault_Failure e), s1)
                             | Inr envelope \<Rightarrow>
                                 (let ((saved, replaced), s2) =
                                        store_credential env sc provider b ''oauth2'' config envelope None ''pending'' s1
                                  in (Inr saved, s2)))))))"

section \<open>Synchronising a template's tools\<close>

record sync_counters =
  sy_created :: nat
  sy_updated :: nat
  sy_skipped :: "string list"
  sy_tool_ids :: "string list"

definition no_counters :: sync_counters where
  "no_counters = \<lparr>sy_created = 0, sy_updated = 0, sy_skipped = [], sy_tool_ids = []\<rparr>"

text \<open>The pointer to the credential of a template: the first live row of its provider.\<close>

definition sync_auth_ref :: "integration_template \<Rightarrow> vault_state \<Rightarrow> tool_error + string option" where
  "sync_auth_ref t s =
     (if it_type t = ''none'' then Inr None
      else case find_credentials_by_provider (it_provider t) s of
             [] \<Rightarrow> Inl (Invalid_Tool ''Provider has no connected credential.'')
           | live # rest \<Rightarrow>
               (case pc_id live of
                  None \<Rightarrow> Inl (Invalid_Tool ''Provider has no connected credential.'')
                | Some i \<Rightarrow> Inr (Some (AUTH_REF_PREFIX @ i))))"

definition store_synced_row ::
  "string \<Rightarrow> tool_definition \<Rightarrow> pydict \<Rightarrow> sync_counters \<times> vault_state \<Rightarrow> sync_counters \<times> vault_state" where
  "store_synced_row provider t extra cs =
     (let (c, s) = cs; existing = get_tool_row (td_tool_id t) s
      in case existing of
           Some e \<Rightarrow>
             (if dict_get (td_meta e) ''synced_from'' \<noteq> PStr provider
              then (c\<lparr>sy_skipped := sy_skipped c @ [td_tool_id t]\<rparr>, s)
              else (c\<lparr>sy_tool_ids := sy_tool_ids c @ [td_tool_id t], sy_updated := sy_updated c + 1\<rparr>,
                    snd (save_tool (t\<lparr>td_timeout_s := td_timeout_s e,
                      td_meta := dict_merge [(''synced_from'', PStr provider)] extra\<rparr>) s)))
         | None \<Rightarrow>
             (c\<lparr>sy_tool_ids := sy_tool_ids c @ [td_tool_id t], sy_created := sy_created c + 1\<rparr>,
              snd (save_tool (t\<lparr>td_meta := dict_merge [(''synced_from'', PStr provider)] extra\<rparr>) s)))"

definition synced_tool :: "string \<Rightarrow> string \<Rightarrow> pydict \<Rightarrow> string option \<Rightarrow> string \<Rightarrow> string option \<Rightarrow> tool_definition" where
  "synced_tool name description parameters url meth auth_ref =
     \<lparr>td_tool_id = build_tool_id ''function'' name, td_kind = ''function'', td_name = name,
      td_description = description, td_parameters = parameters, td_url = url, td_method = meth,
      td_auth_ref = auth_ref, td_timeout_s = 10, td_deprecated = False, td_version = 1, td_tenant = None,
      td_owner_org = None, td_meta = []\<rparr>"

definition good_name :: "pyval \<Rightarrow> string option" where
  "good_name v =
     (case v of
        PStr n \<Rightarrow> if n = [] \<or> CHR ''/'' \<in> set n \<or> CHR '':'' \<in> set n \<or> CHR '' '' \<in> set n then None else Some n
      | _ \<Rightarrow> None)"

definition entry_at :: "nat \<Rightarrow> string" where
  "entry_at position = ''tools_template['' @ show_int (int position) @ '']''"

text \<open>One HTTP entry: its problem, or the row it asks for.\<close>

definition http_entry :: "string \<Rightarrow> string option \<Rightarrow> nat \<Rightarrow> pyval \<Rightarrow> string + tool_definition" where
  "http_entry base_url auth_ref position v =
     (let here = entry_at position
      in case v of
           PDict d \<Rightarrow>
             (case good_name (dict_get d ''name'') of
                None \<Rightarrow> Inl (here @ '': bad tool name'')
              | Some name \<Rightarrow>
                  (let meth = (case map_of d ''method'' of None \<Rightarrow> PStr ''POST'' | Some m \<Rightarrow> m);
                       parameters = (case map_of d ''parameters'' of None \<Rightarrow> PDict [] | Some p \<Rightarrow> p);
                       path = (case map_of d ''path'' of None \<Rightarrow> PStr [] | Some p \<Rightarrow> p);
                       description = (case dict_get d ''description'' of PStr t \<Rightarrow> t | _ \<Rightarrow> [])
                   in case meth of
                        PStr m \<Rightarrow>
                          (if py_upper m \<notin> {''GET'', ''POST'', ''PUT'', ''PATCH'', ''DELETE''}
                           then Inl (here @ '': bad method for '' @ repr_str name)
                           else case parameters of
                             PDict ps \<Rightarrow>
                               (if truthy path \<and> \<not> (case path of PStr p \<Rightarrow> prefix ''/'' p | _ \<Rightarrow> False)
                                then Inl (here @ '': path must start with / for '' @ repr_str name)
                                else if truthy path \<and> base_url = []
                                then Inl (here @ '': path without base_url for '' @ repr_str name)
                                else Inr (synced_tool name description ps
                                  (case path of PStr p \<Rightarrow> if p = [] then None else Some (base_url @ p) | _ \<Rightarrow> None)
                                  (py_upper m) auth_ref))
                           | _ \<Rightarrow> Inl (here @ '': parameters must be an object for '' @ repr_str name))
                      | _ \<Rightarrow> Inl (here @ '': bad method for '' @ repr_str name)))
         | _ \<Rightarrow> Inl (here @ '': entry must be an object''))"

fun sync_entries ::
  "string \<Rightarrow> string \<Rightarrow> string option \<Rightarrow> nat \<Rightarrow> pyval list \<Rightarrow> sync_counters \<times> vault_state \<Rightarrow>
     string list \<times> sync_counters \<times> vault_state" where
  "sync_entries provider base_url auth_ref n [] cs = ([], cs)"
| "sync_entries provider base_url auth_ref n (v # vs) cs =
     (case http_entry base_url auth_ref n v of
        Inl problem \<Rightarrow>
          (let (ps, cs') = sync_entries provider base_url auth_ref (Suc n) vs cs in (problem # ps, cs'))
      | Inr t \<Rightarrow>
          sync_entries provider base_url auth_ref (Suc n) vs
            (store_synced_row provider t [(''transport'', PStr ''http'')] cs))"

definition base_url_of :: "integration_template \<Rightarrow> string" where
  "base_url_of t = (case dict_get (it_client t) ''base_url'' of PStr u \<Rightarrow> strip_slashes u | _ \<Rightarrow> [])"

text \<open>The credential an MCP discovery sends: a bearer token, or static headers.\<close>

definition string_items :: "pydict \<Rightarrow> headers" where
  "string_items d = List.map_filter (\<lambda>(k, v). case v of PStr t \<Rightarrow> Some (k, t) | _ \<Rightarrow> None) d"

definition discovery_auth ::
  "vault_env \<Rightarrow> integration_template \<Rightarrow> vault_state \<Rightarrow> tool_error + string option \<times> headers" where
  "discovery_auth env t s =
     (if it_type t = ''none'' then Inr (None, [])
      else case find_credentials_by_provider (it_provider t) s of
             [] \<Rightarrow> Inl (Invalid_Tool ''Provider has no connected credential.'')
           | live # rest \<Rightarrow>
               (let closed = Inl (Invalid_Tool ''Stored credential cannot be opened for discovery.'')
                in case vault_decrypt (ve_aead env) (pc_envelope live) (pc_key_version live) of
                     Inl e \<Rightarrow> closed
                   | Inr plaintext \<Rightarrow>
                       (case ve_loads env (text_of_bytes plaintext) of
                          Some (PDict material) \<Rightarrow>
                            (if it_type t = ''bearer'' \<or> it_type t = ''oauth2''
                             then (case dict_get material ''token'' of
                                     PStr token \<Rightarrow>
                                       (if token = [] then Inl (Invalid_Tool ''Stored credential carries no token for discovery.'')
                                        else Inr (Some token, []))
                                   | _ \<Rightarrow> Inl (Invalid_Tool ''Stored credential carries no token for discovery.''))
                             else if it_type t = ''custom''
                             then (case dict_get material ''headers'' of
                                     PDict hs \<Rightarrow>
                                       (if hs = [] then Inl (Invalid_Tool ''Stored credential carries no headers for discovery.'')
                                        else Inr (None, string_items hs))
                                   | _ \<Rightarrow> Inl (Invalid_Tool ''Stored credential carries no headers for discovery.''))
                             else Inl (Invalid_Tool ''Credential type cannot ride MCP discovery''))
                        | _ \<Rightarrow> closed)))"

fun sync_discovered ::
  "string \<Rightarrow> string \<Rightarrow> string option \<Rightarrow> pydict list \<Rightarrow> sync_counters \<times> vault_state \<Rightarrow>
     string list \<times> sync_counters \<times> vault_state" where
  "sync_discovered provider endpoint auth_ref [] cs = ([], cs)"
| "sync_discovered provider endpoint auth_ref (d # ds) cs =
     (case good_name (dict_get d ''name'') of
        None \<Rightarrow>
          (let (ps, cs') = sync_discovered provider endpoint auth_ref ds cs
           in (''discovered tool with a bad name (skipped)'' # ps, cs'))
      | Some name \<Rightarrow>
          sync_discovered provider endpoint auth_ref ds
            (store_synced_row provider
               (synced_tool name (case dict_get d ''description'' of PStr t \<Rightarrow> t | _ \<Rightarrow> [])
                  (case dict_get d ''inputSchema'' of PDict p \<Rightarrow> p | _ \<Rightarrow> []) (Some endpoint) ''POST'' auth_ref)
               [(''transport'', PStr ''mcp''), (''mcp_tool'', PStr name)] cs))"

type_synonym sync_report = "sync_counters \<times> string list"

definition sync_mcp_tools ::
  "vault_env \<Rightarrow> mcp_server \<Rightarrow> integration_template \<Rightarrow> vault_state \<Rightarrow> sync_report served" where
  "sync_mcp_tools env server t s =
     (let endpoint = base_url_of t
      in if endpoint = [] then (Inl (Invalid_Tool ''MCP templates need a server URL in client_config.base_url.''), s)
         else if \<not> ve_url_safe env endpoint then (Inl (Invalid_Tool ''Template server URL failed safety validation.''), s)
         else case discovery_auth env t s of
                Inl e \<Rightarrow> (Inl e, s)
              | Inr (token, extra) \<Rightarrow>
                  (let failed = Inl (Invalid_Tool ''MCP discovery failed for the server.'')
                   in case mcp_initialize (ve_loads env) server MCP_PROTOCOL_VERSION (new_client endpoint token extra) [] of
                        (Inl e, c, sent) \<Rightarrow> (failed, s)
                      | (Inr caps, c, sent) \<Rightarrow>
                          (case list_all_tools (ve_loads env) server c sent of
                             (Inl e, c', sent') \<Rightarrow> (failed, s)
                           | (Inr discovered, c', sent') \<Rightarrow>
                               (case sync_auth_ref t s of
                                  Inl e \<Rightarrow> (Inl e, s)
                                | Inr auth_ref \<Rightarrow>
                                    (let (ps, c, s') = sync_discovered (it_provider t) endpoint auth_ref discovered (no_counters, s)
                                     in (Inr (c, map (\<lambda>n. entry_at n @ '': ignored'') [0..<length (it_tools t)] @ ps), s'))))))"

definition sync_tools ::
  "vault_env \<Rightarrow> mcp_server \<Rightarrow> string \<Rightarrow> vault_state \<Rightarrow> sync_report served" where
  "sync_tools env server provider s =
     (case (case rows_get provider (vs_system_templates s) of
              None \<Rightarrow> rows_get provider (vs_templates s) | Some t \<Rightarrow> Some t) of
        None \<Rightarrow> (Inl (Tool_Not_Found provider), s)
      | Some t \<Rightarrow>
          (if it_transport t = ''mcp'' then sync_mcp_tools env server t s
           else let base_url = base_url_of t
                in if base_url \<noteq> [] \<and> \<not> ve_url_safe env base_url
                   then (Inl (Invalid_Tool ''Template base URL failed safety validation.''), s)
                   else case sync_auth_ref t s of
                          Inl e \<Rightarrow> (Inl e, s)
                        | Inr auth_ref \<Rightarrow>
                            (let (ps, c, s') = sync_entries provider base_url auth_ref 0 (it_tools t) (no_counters, s)
                             in (Inr (c, ps), s'))))"

end
