(* ===== verification/Tool_Auth.thy ===== *)
theory Tool_Auth
  imports Mcp_Client
begin

text \<open>
  What a tool call is checked and signed with: the redaction of secrets (\<open>common/security.py\<close>), the
  argument check and the name space of \<open>modules/tools/static_methods.py\<close>, and the resolution of a
  tool's credential pointer into headers and query parameters, cache first
  (\<open>modules/tools/auth_resolver.py\<close>). The cache is an external service given by its operations,
  each of which may fail; the credential store is a function from a pointer to its envelope.
\<close>

section \<open>Redaction\<close>

definition SECRET_WORDS :: "string list" where
  "SECRET_WORDS = [''api_key'', ''apikey'', ''token'', ''secret'', ''password'', ''authorization'', ''credential'']"

definition secret_key :: "string \<Rightarrow> bool" where
  "secret_key k = list_ex (\<lambda>w. py_contains w (py_lower k)) SECRET_WORDS"

fun redact_item :: "pyval \<Rightarrow> pyval" and redact_items :: "pyval list \<Rightarrow> pyval list" and redact_secrets :: "pydict \<Rightarrow> pydict" where
  "redact_item (PDict d) = PDict (redact_secrets d)"
| "redact_item (PList vs) = PList (redact_items vs)"
| "redact_item v = v"
| "redact_items [] = []"
| "redact_items (v # vs) = redact_item v # redact_items vs"
| "redact_secrets [] = []"
| "redact_secrets ((k, v) # d) = (k, if secret_key k then PStr ''***'' else redact_item v) # redact_secrets d"

text \<open>Another choice of the values below secret-looking keys, at any depth.\<close>

fun reseal_item :: "(pyval \<Rightarrow> pyval) \<Rightarrow> pyval \<Rightarrow> pyval"
  and reseal_items :: "(pyval \<Rightarrow> pyval) \<Rightarrow> pyval list \<Rightarrow> pyval list"
  and reseal :: "(pyval \<Rightarrow> pyval) \<Rightarrow> pydict \<Rightarrow> pydict" where
  "reseal_item f (PDict d) = PDict (reseal f d)"
| "reseal_item f (PList vs) = PList (reseal_items f vs)"
| "reseal_item f v = v"
| "reseal_items f [] = []"
| "reseal_items f (v # vs) = reseal_item f v # reseal_items f vs"
| "reseal f [] = []"
| "reseal f ((k, v) # d) = (k, if secret_key k then f v else reseal_item f v) # reseal f d"

fun veiled_item :: "pyval \<Rightarrow> bool" and veiled_items :: "pyval list \<Rightarrow> bool" and veiled :: "pydict \<Rightarrow> bool" where
  "veiled_item (PDict d) = veiled d"
| "veiled_item (PList vs) = veiled_items vs"
| "veiled_item v = True"
| "veiled_items [] = True"
| "veiled_items (v # vs) = (veiled_item v \<and> veiled_items vs)"
| "veiled [] = True"
| "veiled ((k, v) # d) = ((if secret_key k then v = PStr ''***'' else veiled_item v) \<and> veiled d)"

lemma redact_reseal:
  "redact_item (reseal_item f v) = redact_item v"
  "redact_items (reseal_items f vs) = redact_items vs"
  "redact_secrets (reseal f d) = redact_secrets d"
  by (induction v and vs and d rule: redact_item_redact_items_redact_secrets.induct) auto

lemma redact_veiled: "veiled_item (redact_item v)" "veiled_items (redact_items vs)" "veiled (redact_secrets d)"
  by (induction v and vs and d rule: redact_item_redact_items_redact_secrets.induct) auto

lemma redact_veiled_id:
  "veiled_item v \<Longrightarrow> redact_item v = v" "veiled_items vs \<Longrightarrow> redact_items vs = vs" "veiled d \<Longrightarrow> redact_secrets d = d"
  by (induction v and vs and d rule: redact_item_redact_items_redact_secrets.induct) (auto split: if_splits)

lemma redact_keys: "map fst (redact_secrets d) = map fst d"
  by (induction d) auto

text \<open>
  C38: The redacted copy of a mapping does not depend on what stands below a secret-looking key, in
  nested dicts and lists at any depth; it carries the mask under every such key, keeps all keys and
  their order, and is its own redaction.
\<close>

theorem redaction_hides:
  "redact_secrets (reseal f d) = redact_secrets d \<and> veiled (redact_secrets d) \<and>
   map fst (redact_secrets d) = map fst d \<and> redact_secrets (redact_secrets d) = redact_secrets d"
  using redact_reseal(3) redact_veiled(3) redact_keys redact_veiled_id(3) [OF redact_veiled(3)] by blast

section \<open>Arguments and names\<close>

fun matches_json_type :: "pyval \<Rightarrow> string \<Rightarrow> bool" where
  "matches_json_type v expected =
     (if expected = ''boolean'' then (case v of PBool b \<Rightarrow> True | _ \<Rightarrow> False)
      else if expected = ''integer'' then (case v of PInt n \<Rightarrow> True | _ \<Rightarrow> False)
      else if expected = ''number''
      then (case v of PInt n \<Rightarrow> True | PFloat r \<Rightarrow> True | PInf neg \<Rightarrow> True | PNan \<Rightarrow> True | _ \<Rightarrow> False)
      else if expected = ''string'' then (case v of PStr t \<Rightarrow> True | _ \<Rightarrow> False)
      else if expected = ''array'' then (case v of PList vs \<Rightarrow> True | _ \<Rightarrow> False)
      else if expected = ''object'' then (case v of PDict d \<Rightarrow> True | _ \<Rightarrow> False)
      else if expected = ''null'' then v = PNone else True)"

fun missing_required :: "pyval list \<Rightarrow> pydict \<Rightarrow> string list" where
  "missing_required [] args = []"
| "missing_required (PStr n # vs) args =
     (if map_of args n = None then (''missing required: '' @ n) # missing_required vs args
      else missing_required vs args)"
| "missing_required (v # vs) args = missing_required vs args"

fun type_problems :: "pydict \<Rightarrow> pydict \<Rightarrow> string list" where
  "type_problems [] args = []"
| "type_problems ((n, sub) # ps) args =
     (case (map_of args n, sub) of
        (Some v, PDict d) \<Rightarrow>
          (case dict_get d ''type'' of
             PStr expected \<Rightarrow>
               (if matches_json_type v expected then type_problems ps args
                else (n @ '': expected '' @ expected) # type_problems ps args)
           | _ \<Rightarrow> type_problems ps args)
      | _ \<Rightarrow> type_problems ps args)"

definition validate_arguments :: "pydict \<Rightarrow> pydict \<Rightarrow> string list" where
  "validate_arguments schema args =
     (case dict_get schema ''required'' of PList vs \<Rightarrow> missing_required vs args | _ \<Rightarrow> []) @
     (case dict_get schema ''properties'' of PDict ps \<Rightarrow> type_problems ps args | _ \<Rightarrow> [])"

definition strip_mcp_prefix :: "string \<Rightarrow> string" where
  "strip_mcp_prefix i =
     (if \<not> prefix ''mcp:'' i then i
      else case split_at CHR '':'' (drop 4 i) of (server, Some canonical) \<Rightarrow> canonical | (rest, None) \<Rightarrow> rest)"

section \<open>Credentials as headers and query parameters\<close>

record auth_params =
  ap_headers :: headers
  ap_query :: headers

definition no_auth :: auth_params where "no_auth = \<lparr>ap_headers = [], ap_query = []\<rparr>"

definition header_auth :: "headers \<Rightarrow> auth_params" where "header_auth h = \<lparr>ap_headers = h, ap_query = []\<rparr>"

definition string_entries :: "pydict \<Rightarrow> headers" where
  "string_entries d = List.map_filter (\<lambda>(k, v). case v of PStr t \<Rightarrow> Some (k, t) | _ \<Rightarrow> None) d"

definition nonempty_str :: "pyval \<Rightarrow> string option" where
  "nonempty_str v = (case v of PStr t \<Rightarrow> if t = [] then None else Some t | _ \<Rightarrow> None)"

definition no_secret_shape :: "string \<Rightarrow> tool_error" where
  "no_secret_shape ref = Tool_Execution (''Credential '' @ repr_str ref @ '' carries no usable secret shape.'')"

definition custom_headers :: "pydict \<Rightarrow> string \<Rightarrow> tool_error + auth_params" where
  "custom_headers material ref =
     (case dict_get material ''headers'' of
        PDict d \<Rightarrow> if string_entries d \<noteq> [] then Inr (header_auth (string_entries d)) else Inl (no_secret_shape ref)
      | _ \<Rightarrow> Inl (no_secret_shape ref))"

definition legacy_auth_params :: "pydict \<Rightarrow> string \<Rightarrow> tool_error + auth_params" where
  "legacy_auth_params material ref =
     (case nonempty_str (dict_get material ''token'') of
        Some token \<Rightarrow> Inr (header_auth [(''Authorization'', ''Bearer '' @ token)])
      | None \<Rightarrow>
          (case nonempty_str (dict_get material ''api_key'') of
             Some key \<Rightarrow> Inr (header_auth [(''API-KEY'', key)])
           | None \<Rightarrow> custom_headers material ref))"

definition auth_params_for :: "string option \<Rightarrow> pydict \<Rightarrow> pydict \<Rightarrow> string \<Rightarrow> tool_error + auth_params" where
  "auth_params_for ctype config material ref =
     (case ctype of
        None \<Rightarrow> legacy_auth_params material ref
      | Some t \<Rightarrow>
          (if t = ''none'' then Inr no_auth
           else if t = ''bearer'' \<or> t = ''oauth2''
           then (case nonempty_str (dict_get material ''token'') of
                   Some token \<Rightarrow> Inr (header_auth [(''Authorization'', ''Bearer '' @ token)])
                 | None \<Rightarrow> Inl (no_secret_shape ref))
           else if t = ''api_key''
           then (case nonempty_str (dict_get material ''api_key'') of
                   Some key \<Rightarrow>
                     (let name = (case map_of config ''name'' of None \<Rightarrow> ''X-API-Key''
                                  | Some v \<Rightarrow> (case nonempty_str v of None \<Rightarrow> ''X-API-Key'' | Some n \<Rightarrow> n))
                      in if dict_get config ''location'' = PStr ''query''
                         then Inr \<lparr>ap_headers = [], ap_query = [(name, key)]\<rparr>
                         else Inr (header_auth [(name, key)]))
                 | None \<Rightarrow> Inl (no_secret_shape ref))
           else if t = ''basic''
           then (case (case map_of config ''username'' of None \<Rightarrow> PStr [] | Some v \<Rightarrow> v,
                       nonempty_str (dict_get material ''password'')) of
                   (PStr username, Some password) \<Rightarrow>
                     Inr (header_auth [(''Authorization'', ''Basic '' @
                       b64_encode (bytes_of_text (username @ '':'' @ password)))])
                 | _ \<Rightarrow> Inl (no_secret_shape ref))
           else if t = ''custom'' then custom_headers material ref
           else Inl (no_secret_shape ref)))"

text \<open>An envelope of the store: its type, its placement, and the rest as material.\<close>

definition envelope_auth :: "pydict \<Rightarrow> string \<Rightarrow> tool_error + auth_params" where
  "envelope_auth credential ref =
     auth_params_for (case dict_get credential ''credential_type'' of PStr t \<Rightarrow> Some t | _ \<Rightarrow> None)
       (case dict_get credential ''auth_config'' of PDict d \<Rightarrow> d | _ \<Rightarrow> [])
       (filter (\<lambda>(k, v). k \<notin> {''credential_type'', ''auth_config''}) credential) ref"

definition headers_for_credential :: "pydict \<Rightarrow> string \<Rightarrow> tool_error + headers" where
  "headers_for_credential credential ref = map_sum id ap_headers (envelope_auth credential ref)"

section \<open>The cache\<close>

text \<open>
  A read raises (\<open>None\<close>), misses or returns a text; a write and a deletion raise or leave the cache
  changed. An operation that exceeds its time counts as raising.
\<close>

record 'c auth_cache =
  ac_get :: "string \<Rightarrow> 'c \<Rightarrow> string option option"
  ac_setex :: "string \<Rightarrow> int \<Rightarrow> string \<Rightarrow> 'c \<Rightarrow> 'c option"
  ac_delete :: "string \<Rightarrow> 'c \<Rightarrow> 'c option"

record 'c tool_auth_env =
  ae_cache :: "'c auth_cache option"
  ae_store :: "(string \<Rightarrow> pydict option) option"
  ae_dumps :: "pyval \<Rightarrow> string"
  ae_loads :: "string \<Rightarrow> pyval option"

definition cache_key :: "string \<Rightarrow> string" where "cache_key ref = ''tools:auth:'' @ ref"

definition AUTH_CACHE_TTL_S :: int where "AUTH_CACHE_TTL_S = 300"

text \<open>Both shapes an entry may have: the two halves, or a flat mapping of headers.\<close>

definition cached_params :: "pyval option \<Rightarrow> auth_params option" where
  "cached_params parsed =
     (case parsed of
        Some (PDict d) \<Rightarrow>
          (let hs = map_of d ''headers''; qs = map_of d ''query'';
               part = (\<lambda>v. case v of Some (PDict e) \<Rightarrow> string_entries e | _ \<Rightarrow> [])
           in if (case hs of Some (PDict e) \<Rightarrow> True | _ \<Rightarrow> False) \<or> (case qs of Some (PDict e) \<Rightarrow> True | _ \<Rightarrow> False)
              then (let p = \<lparr>ap_headers = part hs, ap_query = part qs\<rparr>
                    in if ap_headers p \<noteq> [] \<or> ap_query p \<noteq> [] then Some p else None)
              else (let h = string_entries d in if h = [] then None else Some (header_auth h)))
      | _ \<Rightarrow> None)"

definition cache_read :: "'c tool_auth_env \<Rightarrow> string \<Rightarrow> 'c \<Rightarrow> auth_params option" where
  "cache_read env ref c =
     (case ae_cache env of
        None \<Rightarrow> None
      | Some ops \<Rightarrow>
          (case ac_get ops (cache_key ref) c of
             Some (Some raw) \<Rightarrow> if raw = [] then None else cached_params (ae_loads env raw)
           | _ \<Rightarrow> None))"

definition cache_write :: "'c tool_auth_env \<Rightarrow> string \<Rightarrow> auth_params \<Rightarrow> 'c \<Rightarrow> 'c" where
  "cache_write env ref p c =
     (case ae_cache env of
        None \<Rightarrow> c
      | Some ops \<Rightarrow>
          (case ac_setex ops (cache_key ref) AUTH_CACHE_TTL_S
                  (ae_dumps env (PDict [(''headers'', PDict (map (\<lambda>(k, v). (k, PStr v)) (ap_headers p))),
                     (''query'', PDict (map (\<lambda>(k, v). (k, PStr v)) (ap_query p)))])) c of
             None \<Rightarrow> c | Some c' \<Rightarrow> c'))"

definition invalidate_credential_cache :: "'c tool_auth_env \<Rightarrow> string \<Rightarrow> 'c \<Rightarrow> 'c" where
  "invalidate_credential_cache env ref c =
     (case ae_cache env of
        None \<Rightarrow> c
      | Some ops \<Rightarrow> (case ac_delete ops (cache_key ref) c of None \<Rightarrow> c | Some c' \<Rightarrow> c'))"

definition load_credential :: "'c tool_auth_env \<Rightarrow> string \<Rightarrow> tool_error + pydict" where
  "load_credential env ref =
     (case ae_store env of
        None \<Rightarrow> Inl (Tool_Execution (''Credential '' @ repr_str ref @ '' has no store in this deployment.''))
      | Some fetch \<Rightarrow>
          (case fetch ref of
             None \<Rightarrow> Inl (Tool_Execution (''Credential '' @ repr_str ref @ '' is unknown.''))
           | Some credential \<Rightarrow> Inr credential))"

definition resolve_auth :: "'c tool_auth_env \<Rightarrow> string option \<Rightarrow> bool \<Rightarrow> 'c \<Rightarrow> (tool_error + auth_params) \<times> 'c" where
  "resolve_auth env auth_ref force_refresh c =
     (case auth_ref of
        None \<Rightarrow> (Inr no_auth, c)
      | Some ref \<Rightarrow>
          (case (if force_refresh then None else cache_read env ref c) of
             Some hit \<Rightarrow> (Inr hit, c)
           | None \<Rightarrow>
               (case load_credential env ref of
                  Inl e \<Rightarrow> (Inl e, c)
                | Inr credential \<Rightarrow>
                    (case envelope_auth credential ref of
                       Inl e \<Rightarrow> (Inl e, c)
                     | Inr p \<Rightarrow> (Inr p, cache_write env ref p c)))))"

definition resolve_headers :: "'c tool_auth_env \<Rightarrow> string option \<Rightarrow> bool \<Rightarrow> 'c \<Rightarrow> (tool_error + headers) \<times> 'c" where
  "resolve_headers env auth_ref force_refresh c =
     map_prod (map_sum id ap_headers) id (resolve_auth env auth_ref force_refresh c)"

text \<open>
  What a pointer may resolve to: the secret the store holds for it, or what the cache answers for it
  in some state.
\<close>

definition authorised :: "'c tool_auth_env \<Rightarrow> string option \<Rightarrow> auth_params \<Rightarrow> bool" where
  "authorised env auth_ref p =
     (case auth_ref of
        None \<Rightarrow> p = no_auth
      | Some ref \<Rightarrow> (\<exists>credential. load_credential env ref = Inr credential \<and> envelope_auth credential ref = Inr p) \<or>
          (\<exists>c. cache_read env ref c = Some p))"

lemma resolve_auth_authorised: "resolve_auth env auth_ref force c = (Inr p, c') \<Longrightarrow> authorised env auth_ref p"
  by (auto simp: resolve_auth_def authorised_def split: option.splits sum.splits if_splits)

text \<open>A resolved credential is never empty, unless its type is \<open>none\<close>.\<close>

lemma header_auth_simps [simp]: "ap_headers (header_auth h) = h" "ap_query (header_auth h) = []"
  by (simp_all add: header_auth_def)

lemma custom_headers_Inr: "custom_headers material ref = Inr p \<Longrightarrow> ap_headers p \<noteq> []"
  by (auto simp: custom_headers_def split: pyval.splits if_splits)

lemma auth_params_nonempty:
  assumes "auth_params_for ctype config material ref = Inr p" and "ctype \<noteq> Some ''none''"
  shows "ap_headers p \<noteq> [] \<or> ap_query p \<noteq> []"
  using assms custom_headers_Inr
  by (fastforce simp: auth_params_for_def legacy_auth_params_def Let_def
      split: option.splits if_splits prod.splits pyval.splits)

lemma cached_params_nonempty: "cached_params v = Some p \<Longrightarrow> ap_headers p \<noteq> [] \<or> ap_query p \<noteq> []"
  by (auto simp: cached_params_def Let_def split: option.splits pyval.splits if_splits)

end
