(* ===== verification/Tool_Executor.thy ===== *)
theory Tool_Executor
  imports Tool_Auth
begin

text \<open>
  The guarded execution of one tool call (\<open>modules/tools/executor.py\<close>): the guards in their order,
  the internal, HTTP and MCP routes, the one retry after a refused credential, and the audit row of
  every call. The endpoint is a function from the requests sent so far to what happens to the last
  one; the SSRF verdict, the fingerprint of a call, the drawn error ids and the elapsed milliseconds
  are arguments. One call reads one elapsed time.
\<close>

section \<open>Requests, results and the audit\<close>

record http_request =
  hr_method :: string
  hr_url :: string
  hr_headers :: headers
  hr_params :: pydict
  hr_json :: "pydict option"

text \<open>A response is its status, its JSON body if it has one, and its text.\<close>

datatype http_outcome = Response int "pyval option" string | Timed_Out | Unreachable

record tool_result =
  rs_tool_id :: string
  rs_agent_id :: string
  rs_success :: bool
  rs_summary :: string
  rs_data :: pydict
  rs_fingerprint :: string
  rs_ms :: nat
  rs_error_id :: "string option"

record tool_log =
  lg_tool_id :: string
  lg_agent_id :: string
  lg_arguments :: pydict
  lg_summary :: string
  lg_success :: bool
  lg_ms :: nat
  lg_error_id :: "string option"
  lg_tenant :: string

record 'c exec_env =
  xe_auth :: "'c tool_auth_env"
  xe_tools :: "string \<Rightarrow> tool_definition option"
  xe_url_guard :: "string \<Rightarrow> bool"
  xe_http :: "http_request list \<Rightarrow> http_outcome"
  xe_mcp :: mcp_server
  xe_fingerprint :: "string \<Rightarrow> pydict \<Rightarrow> string"
  xe_error_id :: "nat \<Rightarrow> string"

record 'c exec_state =
  es_cache :: 'c
  es_sent :: "http_request list"
  es_mcp_sent :: "mcp_request list"
  es_logs :: "tool_log list"
  es_draws :: nat

definition draw_error_id :: "'c exec_env \<Rightarrow> 'c exec_state \<Rightarrow> string \<times> 'c exec_state" where
  "draw_error_id env s = (xe_error_id env (es_draws s), s\<lparr>es_draws := es_draws s + 1\<rparr>)"

definition on_cache :: "('c \<Rightarrow> 'a \<times> 'c) \<Rightarrow> 'c exec_state \<Rightarrow> 'a \<times> 'c exec_state" where
  "on_cache f s = (case f (es_cache s) of (v, c) \<Rightarrow> (v, s\<lparr>es_cache := c\<rparr>))"

definition SUMMARY_MAX_CHARS :: nat where "SUMMARY_MAX_CHARS = 500"
definition RESPONSE_MAX_CHARS :: nat where "RESPONSE_MAX_CHARS = 2000"

definition clamp_timeout :: "int \<Rightarrow> int" where "clamp_timeout t = max 1 (min t 120)"

section \<open>The routes\<close>

definition show_ms :: "nat \<Rightarrow> string" where "show_ms ms = show_int (int ms) @ ''ms''"

definition execute_internal ::
  "tool_definition \<Rightarrow> string \<Rightarrow> pydict \<Rightarrow> string \<Rightarrow> nat \<Rightarrow> tool_result" where
  "execute_internal t agent args fingerprint ms =
     \<lparr>rs_tool_id = td_tool_id t, rs_agent_id = agent, rs_success = True,
      rs_summary = ''internal:'' @ td_name t @ '' in '' @ show_ms ms,
      rs_data = [(''tool'', PStr (td_name t)), (''arguments'', PDict (redact_secrets args)),
        (''call_fingerprint'', PStr fingerprint)],
      rs_fingerprint = fingerprint, rs_ms = ms, rs_error_id = None\<rparr>"

definition call_once ::
  "'c exec_env \<Rightarrow> tool_definition \<Rightarrow> string \<Rightarrow> auth_params \<Rightarrow> pydict \<Rightarrow> 'c exec_state \<Rightarrow> http_outcome \<times> 'c exec_state" where
  "call_once env t url auth args s =
     (let m = py_upper (if td_method t = [] then ''POST'' else td_method t);
          query = map (\<lambda>(k, v). (k, PStr v)) (ap_query auth);
          r = \<lparr>hr_method = m, hr_url = url, hr_headers = ap_headers auth,
               hr_params = (if m = ''GET'' then dict_merge query args else query),
               hr_json = (if m = ''GET'' then None else Some args)\<rparr>;
          sent = es_sent s @ [r]
      in (xe_http env sent, s\<lparr>es_sent := sent\<rparr>))"

definition call_with_auth_retry ::
  "'c exec_env \<Rightarrow> tool_definition \<Rightarrow> string \<Rightarrow> auth_params \<Rightarrow> pydict \<Rightarrow> 'c exec_state \<Rightarrow>
     (tool_error + http_outcome) \<times> 'c exec_state" where
  "call_with_auth_retry env t url auth args s =
     (case call_once env t url auth args s of
        (Response status json body, s1) \<Rightarrow>
          (case td_auth_ref t of
             None \<Rightarrow> (Inr (Response status json body), s1)
           | Some ref \<Rightarrow>
               (if status \<noteq> 401 then (Inr (Response status json body), s1)
                else let s2 = s1\<lparr>es_cache := invalidate_credential_cache (xe_auth env) ref (es_cache s1)\<rparr>
                     in case on_cache (resolve_auth (xe_auth env) (Some ref) True) s2 of
                          (Inl e, s3) \<Rightarrow> (Inl e, s3)
                        | (Inr auth', s3) \<Rightarrow> (case call_once env t url auth' args s3 of (r, s4) \<Rightarrow> (Inr r, s4))))
      | (outcome, s1) \<Rightarrow> (Inr outcome, s1))"

definition failed_result ::
  "'c exec_env \<Rightarrow> tool_definition \<Rightarrow> string \<Rightarrow> string \<Rightarrow> nat \<Rightarrow> string \<Rightarrow> 'c exec_state \<Rightarrow> tool_result \<times> 'c exec_state" where
  "failed_result env t agent fingerprint ms summary s =
     (case draw_error_id env s of
        (i, s') \<Rightarrow> (\<lparr>rs_tool_id = td_tool_id t, rs_agent_id = agent, rs_success = False, rs_summary = summary,
                   rs_data = [], rs_fingerprint = fingerprint, rs_ms = ms, rs_error_id = Some i\<rparr>, s'))"

definition UNREACHABLE_SUMMARY :: string where "UNREACHABLE_SUMMARY = ''tool endpoint unreachable''"

definition response_data :: "pyval option \<Rightarrow> string \<Rightarrow> pydict" where
  "response_data json body =
     (case json of
        None \<Rightarrow> [(''text'', PStr (take RESPONSE_MAX_CHARS body))]
      | Some (PDict d) \<Rightarrow> d
      | Some v \<Rightarrow> [(''text'', PStr (take RESPONSE_MAX_CHARS (py_str v)))])"

definition result_from_response ::
  "'c exec_env \<Rightarrow> tool_definition \<Rightarrow> string \<Rightarrow> string \<Rightarrow> nat \<Rightarrow> int \<Rightarrow> pyval option \<Rightarrow> string \<Rightarrow>
     'c exec_state \<Rightarrow> tool_result \<times> 'c exec_state" where
  "result_from_response env t agent fingerprint ms status json body s =
     (let success = (200 \<le> status \<and> status \<le> 299);
          (i, s') = (if success then (None, s) else case draw_error_id env s of (i, s1) \<Rightarrow> (Some i, s1))
      in (\<lparr>rs_tool_id = td_tool_id t, rs_agent_id = agent, rs_success = success,
           rs_summary = ''HTTP '' @ show_int status @ '' in '' @ show_ms ms, rs_data = response_data json body,
           rs_fingerprint = fingerprint, rs_ms = ms, rs_error_id = i\<rparr>, s'))"

definition unsafe_endpoint :: "string \<Rightarrow> tool_error" where
  "unsafe_endpoint i = Tool_Execution (''Tool '' @ repr_str i @ '' endpoint failed safety validation.'')"

definition execute_http ::
  "'c exec_env \<Rightarrow> tool_definition \<Rightarrow> string \<Rightarrow> pydict \<Rightarrow> string \<Rightarrow> nat \<Rightarrow> 'c exec_state \<Rightarrow>
     (tool_error + tool_result) \<times> 'c exec_state" where
  "execute_http env t agent args fingerprint ms s =
     (let url = or_empty (td_url t)
      in if \<not> xe_url_guard env url then (Inl (unsafe_endpoint (td_tool_id t)), s)
         else case on_cache (resolve_auth (xe_auth env) (td_auth_ref t) False) s of
                (Inl e, s1) \<Rightarrow> (Inl e, s1)
              | (Inr auth, s1) \<Rightarrow>
                  (case call_with_auth_retry env t url auth args s1 of
                     (Inl e, s2) \<Rightarrow> (Inl e, s2)
                   | (Inr Timed_Out, s2) \<Rightarrow>
                       map_prod Inr id (failed_result env t agent fingerprint ms
                         (''tool timed out after '' @ show_float (of_int (clamp_timeout (td_timeout_s t))) @ ''s'') s2)
                   | (Inr Unreachable, s2) \<Rightarrow>
                       map_prod Inr id (failed_result env t agent fingerprint ms UNREACHABLE_SUMMARY s2)
                   | (Inr (Response status json body), s2) \<Rightarrow>
                       map_prod Inr id (result_from_response env t agent fingerprint ms status json body s2)))"

definition query_refused :: tool_error where
  "query_refused = Tool_Execution ''Query-placed keys cannot ride MCP calls''"

definition mcp_attempt ::
  "'c exec_env \<Rightarrow> string \<Rightarrow> headers \<Rightarrow> string \<Rightarrow> pydict \<Rightarrow> 'c exec_state \<Rightarrow> (tool_error + pyval) \<times> 'c exec_state" where
  "mcp_attempt env url hdrs remote args s =
     (case mcp_initialize (ae_loads (xe_auth env)) (xe_mcp env) MCP_PROTOCOL_VERSION (new_client url None hdrs) (es_mcp_sent s) of
        (Inl e, c, sent) \<Rightarrow> (Inl e, s\<lparr>es_mcp_sent := sent\<rparr>)
      | (Inr caps, c, sent) \<Rightarrow>
          (case call_tool (ae_loads (xe_auth env)) (xe_mcp env) remote args c sent of
             (v, c', sent') \<Rightarrow> (v, s\<lparr>es_mcp_sent := sent'\<rparr>)))"

definition mcp_result ::
  "tool_definition \<Rightarrow> string \<Rightarrow> string \<Rightarrow> nat \<Rightarrow> pyval \<Rightarrow> tool_result" where
  "mcp_result t agent fingerprint ms v =
     \<lparr>rs_tool_id = td_tool_id t, rs_agent_id = agent, rs_success = True,
      rs_summary = ''mcp '' @ td_name t @ '' in '' @ show_ms ms,
      rs_data = (case v of PDict d \<Rightarrow> d | _ \<Rightarrow> [(''text'', PStr (take RESPONSE_MAX_CHARS (py_str v)))]),
      rs_fingerprint = fingerprint, rs_ms = ms, rs_error_id = None\<rparr>"

text \<open>The attempts left; the answer is an error, no success, or the value.\<close>

fun mcp_attempts ::
  "'c exec_env \<Rightarrow> tool_definition \<Rightarrow> string \<Rightarrow> string \<Rightarrow> pydict \<Rightarrow> nat \<Rightarrow> auth_params \<Rightarrow> 'c exec_state \<Rightarrow>
     (tool_error + pyval option) \<times> 'c exec_state" where
  "mcp_attempts env t url remote args 0 auth s = (Inr None, s)"
| "mcp_attempts env t url remote args (Suc n) auth s =
     (case mcp_attempt env url (ap_headers auth) remote args s of
        (Inr v, s1) \<Rightarrow> (Inr (Some v), s1)
      | (Inl e, s1) \<Rightarrow>
          (case td_auth_ref t of
             None \<Rightarrow> (Inr None, s1)
           | Some ref \<Rightarrow>
               (let s2 = s1\<lparr>es_cache := invalidate_credential_cache (xe_auth env) ref (es_cache s1)\<rparr>
                in case on_cache (resolve_auth (xe_auth env) (Some ref) True) s2 of
                     (Inl e', s3) \<Rightarrow> (Inr None, s3)
                   | (Inr auth', s3) \<Rightarrow>
                       (if ap_query auth' \<noteq> [] then (Inl query_refused, s3)
                        else mcp_attempts env t url remote args n auth' s3))))"

definition RETRY_ONCE :: nat where "RETRY_ONCE = 1"

definition remote_name :: "tool_definition \<Rightarrow> string" where
  "remote_name t =
     (case (case map_of (td_meta t) ''mcp_tool'' of None \<Rightarrow> PStr (td_name t) | Some v \<Rightarrow> v) of
        PStr n \<Rightarrow> if n = [] then td_name t else n
      | _ \<Rightarrow> td_name t)"

definition execute_mcp ::
  "'c exec_env \<Rightarrow> tool_definition \<Rightarrow> string \<Rightarrow> pydict \<Rightarrow> string \<Rightarrow> nat \<Rightarrow> 'c exec_state \<Rightarrow>
     (tool_error + tool_result) \<times> 'c exec_state" where
  "execute_mcp env t agent args fingerprint ms s =
     (let url = or_empty (td_url t)
      in if \<not> xe_url_guard env url then (Inl (unsafe_endpoint (td_tool_id t)), s)
         else case on_cache (resolve_auth (xe_auth env) (td_auth_ref t) False) s of
                (Inl e, s1) \<Rightarrow> (Inl e, s1)
              | (Inr auth, s1) \<Rightarrow>
                  (if ap_query auth \<noteq> [] then (Inl query_refused, s1)
                   else case mcp_attempts env t url (remote_name t) args (RETRY_ONCE + 1) auth s1 of
                          (Inl e, s2) \<Rightarrow> (Inl e, s2)
                        | (Inr (Some v), s2) \<Rightarrow> (Inr (mcp_result t agent fingerprint ms v), s2)
                        | (Inr None, s2) \<Rightarrow> map_prod Inr id (failed_result env t agent fingerprint ms UNREACHABLE_SUMMARY s2)))"

section \<open>Guards, dispatch and the audit\<close>

definition execute_checked ::
  "'c exec_env \<Rightarrow> string \<Rightarrow> pydict \<Rightarrow> string \<Rightarrow> string list \<Rightarrow> nat \<Rightarrow> 'c exec_state \<Rightarrow>
     (tool_error + tool_result) \<times> 'c exec_state" where
  "execute_checked env canonical args agent refs ms s =
     (if canonical \<notin> set refs
      then (Inl (Tool_Denied (''Tool '' @ repr_str canonical @ '' is not attached to agent '' @ repr_str agent @ ''.'')), s)
      else case xe_tools env canonical of
             None \<Rightarrow> (Inl (Tool_Not_Found (''Tool '' @ repr_str canonical @ '' not found.'')), s)
           | Some t \<Rightarrow>
               (if validate_arguments (td_parameters t) args \<noteq> []
                then (Inl (Tool_Execution (''Tool '' @ repr_str canonical @ '' arguments failed validation.'')), s)
                else let fingerprint = xe_fingerprint env canonical args
                     in if td_url t = None \<or> td_kind t = ''internal''
                        then (Inr (execute_internal t agent args fingerprint ms), s)
                        else if dict_get (td_meta t) ''transport'' = PStr ''mcp''
                        then execute_mcp env t agent args fingerprint ms s
                        else execute_http env t agent args fingerprint ms s))"

text \<open>The text a refusal may show; an internal error shows its reference only.\<close>

fun public_message :: "tool_error \<Rightarrow> string \<Rightarrow> string" where
  "public_message (Tool_Error m) i = ''Something went wrong (ref '' @ i @ '')''"
| "public_message (Vault_Failure e) i = ''Something went wrong (ref '' @ i @ '')''"
| "public_message (Tool_Not_Found m) i = m"
| "public_message (Tool_Forbidden m) i = m"
| "public_message (Tool_Denied m) i = m"
| "public_message (Invalid_Tool m) i = m"
| "public_message (Tool_Execution m) i = m"
| "public_message (Binding_Required m) i = m"
| "public_message (Policy_Conflict m) i = m"
| "public_message (Tool_Conflict m n) i = m"

definition record_call :: "tool_result \<Rightarrow> pydict \<Rightarrow> string \<Rightarrow> 'c exec_state \<Rightarrow> 'c exec_state" where
  "record_call r redacted tenant s =
     s\<lparr>es_logs := es_logs s @
        [\<lparr>lg_tool_id = rs_tool_id r, lg_agent_id = rs_agent_id r, lg_arguments = redacted,
          lg_summary = take SUMMARY_MAX_CHARS (rs_summary r), lg_success = rs_success r, lg_ms = rs_ms r,
          lg_error_id = rs_error_id r, lg_tenant = tenant\<rparr>]\<rparr>"

definition execute_tool ::
  "'c exec_env \<Rightarrow> string \<Rightarrow> pydict \<Rightarrow> string \<Rightarrow> string list \<Rightarrow> string \<Rightarrow> nat \<Rightarrow> 'c exec_state \<Rightarrow>
     (tool_error + tool_result) \<times> 'c exec_state" where
  "execute_tool env tool_id args agent refs tenant ms s =
     (let canonical = strip_mcp_prefix tool_id; redacted = redact_secrets args
      in case execute_checked env canonical args agent refs ms s of
           (Inl e, s1) \<Rightarrow>
             (case draw_error_id env s1 of
                (i, s2) \<Rightarrow>
                  (Inl e, record_call \<lparr>rs_tool_id = canonical, rs_agent_id = agent, rs_success = False,
                     rs_summary = take SUMMARY_MAX_CHARS (public_message e i), rs_data = [], rs_fingerprint = [],
                     rs_ms = ms, rs_error_id = Some i\<rparr> redacted tenant s2))
         | (Inr r, s1) \<Rightarrow> (Inr r, record_call r redacted tenant s1))"

end
