(* ===== verification/Tool_Calls.thy ===== *)
theory Tool_Calls
  imports Tool_Executor
begin

text \<open>
  What a tool call sends and what it leaves in the audit: nothing leaves the process before every
  guard has passed, at most one retry follows, every request is signed with what the tool's
  credential pointer resolves to, and each call files exactly one redacted audit row.
\<close>

section \<open>What is sent\<close>

definition may_call :: "'c exec_env \<Rightarrow> string \<Rightarrow> pydict \<Rightarrow> string list \<Rightarrow> tool_definition \<Rightarrow> string \<Rightarrow> bool" where
  "may_call env canonical args refs t url =
     (canonical \<in> set refs \<and> xe_tools env canonical = Some t \<and> validate_arguments (td_parameters t) args = [] \<and>
      td_kind t \<noteq> ''internal'' \<and> td_url t = Some url \<and> xe_url_guard env url)"

text \<open>An HTTP request of a tool: its address, the resolved headers, and the resolved query parameters.\<close>

definition signed :: "'c exec_env \<Rightarrow> tool_definition \<Rightarrow> string \<Rightarrow> pydict \<Rightarrow> http_request \<Rightarrow> bool" where
  "signed env t url args h =
     (\<exists>p. authorised (xe_auth env) (td_auth_ref t) p \<and> hr_url h = url \<and> hr_headers h = ap_headers p \<and>
        (let query = map (\<lambda>(k, v). (k, PStr v)) (ap_query p)
         in if hr_method h = ''GET'' then hr_params h = dict_merge query args \<and> hr_json h = None
            else hr_params h = query \<and> hr_json h = Some args))"

definition mcp_signed :: "'c exec_env \<Rightarrow> tool_definition \<Rightarrow> string \<Rightarrow> mcp_request \<Rightarrow> bool" where
  "mcp_signed env t url r =
     (\<exists>p. authorised (xe_auth env) (td_auth_ref t) p \<and> ap_query p = [] \<and>
        sent_by (new_client url None (ap_headers p)) r)"

text \<open>A step that sends at most so many requests of a kind, and leaves the audit alone.\<close>

definition sends :: "(http_request \<Rightarrow> bool) \<Rightarrow> (mcp_request \<Rightarrow> bool) \<Rightarrow> nat \<Rightarrow> nat \<Rightarrow> 'c exec_state \<Rightarrow> 'c exec_state \<Rightarrow> bool" where
  "sends P Q n m s s' =
     (es_logs s' = es_logs s \<and>
      (\<exists>hs. es_sent s' = es_sent s @ hs \<and> length hs \<le> n \<and> (\<forall>h \<in> set hs. P h)) \<and>
      (\<exists>rs. es_mcp_sent s' = es_mcp_sent s @ rs \<and> length rs \<le> m \<and> (\<forall>r \<in> set rs. Q r)))"

named_theorems sends_intros

lemma sends_refl [sends_intros]: "sends P Q n m s s"
  by (simp add: sends_def)

lemma sends_trans:
  assumes "sends P Q n m s s'" and "sends P Q n' m' s' s''"
  shows "sends P Q (n + n') (m + m') s s''"
proof -
  obtain hs rs hs' rs' where "es_sent s' = es_sent s @ hs" "length hs \<le> n" "\<forall>h \<in> set hs. P h"
    "es_mcp_sent s' = es_mcp_sent s @ rs" "length rs \<le> m" "\<forall>r \<in> set rs. Q r"
    "es_sent s'' = es_sent s' @ hs'" "length hs' \<le> n'" "\<forall>h \<in> set hs'. P h"
    "es_mcp_sent s'' = es_mcp_sent s' @ rs'" "length rs' \<le> m'" "\<forall>r \<in> set rs'. Q r"
    using assms unfolding sends_def by blast
  then show ?thesis
    using assms unfolding sends_def
    by (intro conjI exI [of _ "hs @ hs'"] exI [of _ "rs @ rs'"]) auto
qed

lemma sends_mono: "sends P Q n m s s' \<Longrightarrow> n \<le> n' \<Longrightarrow> m \<le> m' \<Longrightarrow> sends P Q n' m' s s'"
  unfolding sends_def by (meson order_trans)

lemma sends_quiet:
  "es_sent s' = es_sent s \<Longrightarrow> es_mcp_sent s' = es_mcp_sent s \<Longrightarrow> es_logs s' = es_logs s \<Longrightarrow> sends P Q n m s s'"
  by (simp add: sends_def)

lemma on_cache_quiet: "on_cache f s = (v, s') \<Longrightarrow> sends P Q n m s s'"
  by (auto simp: on_cache_def intro!: sends_quiet split: prod.splits)

lemma draw_quiet: "draw_error_id env s = (i, s') \<Longrightarrow> sends P Q n m s s'"
  by (auto simp: draw_error_id_def intro!: sends_quiet)

lemma failed_result_facts:
  "failed_result env t agent fp ms summary s = (r, s') \<Longrightarrow>
     sends P Q n m s s' \<and> rs_tool_id r = td_tool_id t \<and> \<not> rs_success r \<and> rs_error_id r \<noteq> None"
  by (auto simp: failed_result_def dest: draw_quiet split: prod.splits)

lemma result_from_response_facts:
  "result_from_response env t agent fp ms status json body s = (r, s') \<Longrightarrow>
     sends P Q n m s s' \<and> rs_tool_id r = td_tool_id t \<and> (rs_success r \<longleftrightarrow> rs_error_id r = None)"
  by (auto simp: result_from_response_def Let_def intro: sends_refl dest: draw_quiet split: prod.splits if_splits)

lemma resolve_on_cache:
  "on_cache (resolve_auth env ref force) s = (Inr p, s') \<Longrightarrow> authorised env ref p"
  by (auto simp: on_cache_def dest: resolve_auth_authorised split: prod.splits)

lemma call_once_sends:
  assumes "authorised (xe_auth env) (td_auth_ref t) p"
  shows "call_once env t url p args s = (r, s') \<Longrightarrow> sends (signed env t url args) Q 1 0 s s'"
  using assms by (auto simp: call_once_def sends_def signed_def Let_def)

lemma call_with_auth_retry_sends:
  assumes "authorised (xe_auth env) (td_auth_ref t) p" and "call_with_auth_retry env t url p args s = (r, s')"
  shows "sends (signed env t url args) Q 2 0 s s'"
proof -
  obtain out s1 where c: "call_once env t url p args s = (out, s1)" by fastforce
  note first = call_once_sends [OF assms(1) c, of Q]
  show ?thesis
  proof (cases "s' = s1")
    case True
    then show ?thesis using first by (auto elim: sends_mono)
  next
    case False
    then obtain status json body ref where out: "out = Response status json body" and ref: "td_auth_ref t = Some ref"
      and "status = 401"
      using assms(2) by (auto simp: call_with_auth_retry_def c split: http_outcome.splits option.splits if_splits)
    define s2 where "s2 = s1\<lparr>es_cache := invalidate_credential_cache (xe_auth env) ref (es_cache s1)\<rparr>"
    obtain v s3 where r: "on_cache (resolve_auth (xe_auth env) (Some ref) True) s2 = (v, s3)" by fastforce
    have "sends (signed env t url args) Q 0 0 s1 s2" by (rule sends_quiet) (simp_all add: s2_def)
    from sends_trans [OF this on_cache_quiet [OF r]]
    have quiet: "sends (signed env t url args) Q 0 0 s1 s3" by simp
    have "sends (signed env t url args) Q 1 0 s3 s'"
    proof (cases v)
      case (Inl e)
      then have "s' = s3" using assms(2) out ref \<open>status = 401\<close> r
        by (simp add: call_with_auth_retry_def c s2_def [symmetric] Let_def)
      then show ?thesis by (simp add: sends_refl)
    next
      case (Inr p')
      then obtain out' where "call_once env t url p' args s3 = (out', s')"
        using assms(2) out ref \<open>status = 401\<close> r
        by (auto simp: call_with_auth_retry_def c s2_def [symmetric] Let_def split: prod.splits)
      from call_once_sends [OF _ this] show ?thesis using resolve_on_cache r Inr ref by metis
    qed
    from sends_trans [OF first sends_trans [OF quiet this]] show ?thesis by (simp add: numeral_2_eq_2)
  qed
qed

text \<open>The tool and the success of an outcome agree with its error id.\<close>

definition faithful :: "tool_definition \<Rightarrow> tool_error + tool_result \<Rightarrow> bool" where
  "faithful t out = (\<forall>r. out = Inr r \<longrightarrow> rs_tool_id r = td_tool_id t \<and> (rs_success r \<longleftrightarrow> rs_error_id r = None))"

lemma faithful_simps [simp]: "faithful t (Inl e)"
  by (simp add: faithful_def)

lemma map_prod_Inr: "map_prod Inr id x = (out, s') \<longleftrightarrow> (\<exists>r. out = Inr r \<and> x = (r, s'))"
  by (cases x) auto

lemma execute_http_sends:
  assumes "execute_http env t agent args fp ms s = (out, s')"
  shows "faithful t out \<and> (if xe_url_guard env (or_empty (td_url t))
      then sends (signed env t (or_empty (td_url t)) args) Q 2 0 s s' else s' = s)"
proof (cases "xe_url_guard env (or_empty (td_url t))")
  case True
  obtain v s1 where v: "on_cache (resolve_auth (xe_auth env) (td_auth_ref t) False) s = (v, s1)" by fastforce
  note quiet = on_cache_quiet [OF v, of "signed env t (or_empty (td_url t)) args" Q 0 0]
  show ?thesis
  proof (cases v)
    case (Inl e)
    then show ?thesis using assms True v quiet by (auto simp: execute_http_def elim: sends_mono)
  next
    case (Inr p)
    obtain w s2 where w: "call_with_auth_retry env t (or_empty (td_url t)) p args s1 = (w, s2)" by fastforce
    have sent: "sends (signed env t (or_empty (td_url t)) args) Q 2 0 s1 s2"
      using call_with_auth_retry_sends [OF _ w] resolve_on_cache v Inr by blast
    have last: "faithful t out \<and> sends (signed env t (or_empty (td_url t)) args) Q 0 0 s2 s'"
      using assms True v Inr w
      by (auto simp: execute_http_def faithful_def Let_def sends_refl map_prod_Inr dest: failed_result_facts result_from_response_facts
          split: sum.splits http_outcome.splits prod.splits)
    from sends_trans [OF quiet sends_trans [OF sent conjunct2 [OF last]]] show ?thesis using last True by (simp add: numeral_2_eq_2)
  qed
qed (use assms in \<open>auto simp: execute_http_def\<close>)

lemma mcp_attempt_sends:
  assumes "authorised (xe_auth env) (td_auth_ref t) p" and "ap_query p = []"
    and "mcp_attempt env url (ap_headers p) remote args s = (v, s')"
  shows "sends P (mcp_signed env t url) 0 3 s s'"
proof -
  obtain u c sent where i: "mcp_initialize (ae_loads (xe_auth env)) (xe_mcp env) MCP_PROTOCOL_VERSION
      (new_client url None (ap_headers p)) (es_mcp_sent s) = (u, c, sent)" by (metis prod_cases3)
  obtain session rs where c: "c = new_client url None (ap_headers p)\<lparr>mc_session := session\<rparr>"
    and rs: "sent = es_mcp_sent s @ rs" "length rs \<le> 2" "\<forall>r \<in> set rs. sent_by (new_client url None (ap_headers p)) r"
    using mcp_initialize_client [OF i] by blast
  have one: "\<exists>r. sent' = sent @ [r] \<and> sent_by (new_client url None (ap_headers p)) r"
    if "call_tool (ae_loads (xe_auth env)) (xe_mcp env) remote args c sent = (v, c', sent')" for v c' sent'
    using mcp_post_client [OF that [unfolded call_tool_def]] by (auto simp: c mcp_simps)
  have signed: "sent_by (new_client url None (ap_headers p)) r \<Longrightarrow> mcp_signed env t url r" for r
    using assms(1,2) by (auto simp: mcp_signed_def)
  show ?thesis
  proof (cases u)
    case (Inl e)
    then have "s' = s\<lparr>es_mcp_sent := sent\<rparr>" using assms(3) by (simp add: mcp_attempt_def i)
    then show ?thesis using rs signed by (auto simp: sends_def)
  next
    case (Inr caps)
    obtain w c' sent' where w: "call_tool (ae_loads (xe_auth env)) (xe_mcp env) remote args c sent = (w, c', sent')"
      by (metis prod_cases3)
    then have s': "s' = s\<lparr>es_mcp_sent := sent'\<rparr>" using assms(3) Inr by (simp add: mcp_attempt_def i)
    obtain r where "sent' = sent @ [r]" "sent_by (new_client url None (ap_headers p)) r" using one [OF w] by blast
    then show ?thesis using rs signed by (auto simp: sends_def s' intro!: exI [of _ "rs @ [r]"])
  qed
qed

lemma mcp_attempts_sends:
  "authorised (xe_auth env) (td_auth_ref t) p \<Longrightarrow> ap_query p = [] \<Longrightarrow>
     mcp_attempts env t url remote args n p s = (v, s') \<Longrightarrow> sends P (mcp_signed env t url) 0 (3 * n) s s'"
proof (induction n arbitrary: p s)
  case 0
  then show ?case by (simp add: sends_refl)
next
  case (Suc n)
  obtain w s1 where w: "mcp_attempt env url (ap_headers p) remote args s = (w, s1)" by fastforce
  note first = mcp_attempt_sends [OF Suc.prems(1,2) w, of P]
  show ?case
  proof (cases "\<exists>e ref. w = Inl e \<and> td_auth_ref t = Some ref")
    case False
    then have "s' = s1" using Suc.prems(3) by (auto simp: w split: sum.splits option.splits)
    then show ?thesis using first by (auto elim: sends_mono)
  next
    case True
    then obtain e ref where e: "w = Inl e" and ref: "td_auth_ref t = Some ref" by blast
    define s2 where "s2 = s1\<lparr>es_cache := invalidate_credential_cache (xe_auth env) ref (es_cache s1)\<rparr>"
    obtain u s3 where u: "on_cache (resolve_auth (xe_auth env) (Some ref) True) s2 = (u, s3)" by fastforce
    have "sends P (mcp_signed env t url) 0 0 s1 s2" by (rule sends_quiet) (simp_all add: s2_def)
    from sends_trans [OF this on_cache_quiet [OF u]]
    have quiet: "sends P (mcp_signed env t url) 0 0 s1 s3" by simp
    have "sends P (mcp_signed env t url) 0 (3 * n) s3 s'"
    proof (cases "\<exists>p'. u = Inr p' \<and> ap_query p' = []")
      case True
      then obtain p' where p': "u = Inr p'" "ap_query p' = []" by blast
      then have "mcp_attempts env t url remote args n p' s3 = (v, s')"
        using Suc.prems(3) by (simp add: w e ref s2_def [symmetric] u)
      from Suc.IH [OF _ p'(2) this] show ?thesis using resolve_on_cache u p'(1) ref by metis
    next
      case False
      then have "s' = s3" using Suc.prems(3) by (auto simp: w e ref s2_def [symmetric] u split: sum.splits)
      then show ?thesis by (simp add: sends_refl)
    qed
    from sends_trans [OF first sends_trans [OF quiet this]] show ?thesis by simp
  qed
qed

lemma execute_mcp_sends:
  assumes "execute_mcp env t agent args fp ms s = (out, s')"
  shows "faithful t out \<and> (if xe_url_guard env (or_empty (td_url t))
      then sends P (mcp_signed env t (or_empty (td_url t))) 0 6 s s' else s' = s)"
proof (cases "xe_url_guard env (or_empty (td_url t))")
  case True
  let ?Q = "mcp_signed env t (or_empty (td_url t))"
  obtain v s1 where v: "on_cache (resolve_auth (xe_auth env) (td_auth_ref t) False) s = (v, s1)" by fastforce
  note quiet = on_cache_quiet [OF v, of P ?Q 0 0]
  show ?thesis
  proof (cases "\<exists>p. v = Inr p \<and> ap_query p = []")
    case False
    then have "s' = s1 \<and> faithful t out" using assms True v by (auto simp: execute_mcp_def split: sum.splits)
    then show ?thesis using quiet True by (auto elim: sends_mono)
  next
    case True
    note p = this
    then obtain p where p: "v = Inr p" "ap_query p = []" by blast
    obtain w s2 where w: "mcp_attempts env t (or_empty (td_url t)) (remote_name t) args (RETRY_ONCE + 1) p s1 = (w, s2)" by fastforce
    have sent: "sends P ?Q 0 6 s1 s2"
      using mcp_attempts_sends [OF _ p(2) w, of P] resolve_on_cache v p(1) by (fastforce simp: RETRY_ONCE_def)
    have last: "faithful t out \<and> sends P ?Q 0 0 s2 s'"
      using assms \<open>xe_url_guard env (or_empty (td_url t))\<close> v p w
      by (auto simp: execute_mcp_def faithful_def Let_def mcp_result_def sends_refl map_prod_Inr simp del: mcp_attempts.simps
          dest: failed_result_facts
          split: sum.splits option.splits prod.splits)
    from sends_trans [OF quiet sends_trans [OF sent conjunct2 [OF last]]] show ?thesis
      using last \<open>xe_url_guard env (or_empty (td_url t))\<close> by simp
  qed
qed (use assms in \<open>auto simp: execute_mcp_def\<close>)

lemma execute_checked_sends:
  assumes "execute_checked env canonical args agent refs ms s = (out, s')"
    and "\<And>i t. xe_tools env i = Some t \<Longrightarrow> td_tool_id t = i"
  shows "(\<forall>r. out = Inr r \<longrightarrow> rs_tool_id r = canonical \<and> (rs_success r \<longleftrightarrow> rs_error_id r = None)) \<and>
    (s' = s \<or> (\<exists>t url. may_call env canonical args refs t url \<and>
       (sends (signed env t url args) (mcp_signed env t url) 2 0 s s' \<or>
        sends (signed env t url args) (mcp_signed env t url) 0 6 s s')))"
proof (cases "canonical \<in> set refs \<and> (\<exists>t. xe_tools env canonical = Some t \<and> validate_arguments (td_parameters t) args = [])")
  case False
  then show ?thesis using assms(1) by (auto simp: execute_checked_def split: option.splits if_splits)
next
  case True
  then obtain t where t: "canonical \<in> set refs" "xe_tools env canonical = Some t"
    "validate_arguments (td_parameters t) args = []" by blast
  note i = assms(2) [OF t(2)]
  let ?fp = "xe_fingerprint env canonical args"
  show ?thesis
  proof (cases "td_url t = None \<or> td_kind t = ''internal''")
    case True
    then show ?thesis using assms(1) t i by (auto simp: execute_checked_def Let_def execute_internal_def)
  next
    case False
    then obtain url where url: "td_url t = Some url" by auto
    have may: "may_call env canonical args refs t url" if "xe_url_guard env url"
      using t False url that by (simp add: may_call_def)
    show ?thesis
    proof (cases "dict_get (td_meta t) ''transport'' = PStr ''mcp''")
      case True
      then have "execute_mcp env t agent args ?fp ms s = (out, s')"
        using assms(1) t False by (simp add: execute_checked_def Let_def)
      from execute_mcp_sends [OF this, of "signed env t url args"] show ?thesis
        using may i by (auto simp: url faithful_def split: if_splits)
    next
      case no: False
      then have "execute_http env t agent args ?fp ms s = (out, s')"
        using assms(1) t False by (simp add: execute_checked_def Let_def)
      from execute_http_sends [OF this, of "mcp_signed env t url"] show ?thesis
        using may i by (auto simp: url faithful_def split: if_splits)
    qed
  qed
qed

section \<open>The guards and the audit\<close>



section \<open>A sample deployment\<close>

text \<open>
  One tool with a bearer token, whose endpoint refuses the first request; no cache.
\<close>

definition sample_tool :: tool_definition where
  "sample_tool =
     \<lparr>td_tool_id = ''function:ping'', td_kind = ''function'', td_name = ''ping'', td_description = [],
      td_parameters = [(''required'', PList [PStr ''q''])], td_url = Some ''https://x/y'', td_method = ''post'',
      td_auth_ref = Some ''cred:1'', td_timeout_s = 10, td_deprecated = False, td_version = 1, td_tenant = None,
      td_owner_org = None, td_meta = []\<rparr>"

definition sample_exec :: "unit exec_env" where
  "sample_exec =
     \<lparr>xe_auth = \<lparr>ae_cache = None,
         ae_store = Some (\<lambda>r. if r = ''cred:1'' then Some [(''token'', PStr ''k'')] else None),
         ae_dumps = (\<lambda>v. []), ae_loads = (\<lambda>t. None)\<rparr>,
      xe_tools = (\<lambda>i. if i = ''function:ping'' then Some sample_tool else None), xe_url_guard = (\<lambda>u. True),
      xe_http = (\<lambda>sent. if length sent = 1 then Response 401 None [] else Response 200 (Some (PDict [])) []),
      xe_mcp = (\<lambda>sent. None), xe_fingerprint = (\<lambda>i a. i), xe_error_id = (\<lambda>n. ''err'')\<rparr>"

definition sample_idle :: "unit exec_state" where
  "sample_idle = \<lparr>es_cache = (), es_sent = [], es_mcp_sent = [], es_logs = [], es_draws = 0\<rparr>"

lemma sample_exec_tools: "xe_tools sample_exec i = Some t \<Longrightarrow> td_tool_id t = i"
  by (auto simp: sample_exec_def sample_tool_def split: if_splits)



end
