(* ===== verification/Tool_Governance.thy ===== *)
theory Tool_Governance
  imports Tool_Registry Tool_Calls
begin

text \<open>
  What the vault keeps: one credential per provider, binding, organization and user in every state
  its requests reach; what a resolution answers; what an organization policy reaches and what it
  does not; and what a synchronisation and the registry may overwrite.
\<close>

section \<open>The credentials of a tenant\<close>

definition quad :: "partner_credential \<Rightarrow> string \<times> string option \<times> string option \<times> string option" where
  "quad c = (pc_provider c, pc_binding c, pc_owner_org c, pc_owner_user c)"

definition vault_wf :: "vault_state \<Rightarrow> bool" where
  "vault_wf s =
     (keyed (\<lambda>c. or_empty (pc_id c)) (vs_credentials s) \<and>
      (\<forall>i c. get_credential i s = Some c \<longrightarrow> pc_id c = Some i \<and> i \<noteq> [] \<and> pc_tenant c = Some (vs_tenant s)) \<and>
      (\<forall>i j c d. get_credential i s = Some c \<longrightarrow> get_credential j s = Some d \<longrightarrow>
         pc_binding c \<noteq> None \<longrightarrow> quad c = quad d \<longrightarrow> i = j))"

text \<open>The ids still to be drawn are new.\<close>

definition unused :: "vault_env \<Rightarrow> vault_state \<Rightarrow> bool" where
  "unused env s = (\<forall>k \<ge> vs_draws s. ve_id env k \<noteq> [] \<and> ve_id env k \<notin> fst ` set (vs_credentials s))"

named_theorems vault_simps

lemma keys_insert [vault_simps]: "fst ` set (rows_insert i x c) = insert i (fst ` set c)"
  by (simp add: rows_insert_def dom_update)

lemma keys_soft_delete [vault_simps]: "fst ` set (snd (rows_soft_delete i c)) = fst ` set c"
proof (cases "rows_get i c")
  case (Some x)
  then have "i \<in> fst ` set c" by (auto simp: rows_get_def bind_eq_Some_conv dest: map_of_SomeD intro: rev_image_eqI)
  then show ?thesis by (auto simp: rows_soft_delete_def Some dom_update)
qed (simp add: rows_soft_delete_def)

lemma event_simps [vault_simps, simp]:
  "vs_credentials (append_event a k t sc r s) = vs_credentials s" "vs_tenant (append_event a k t sc r s) = vs_tenant s"
  "vs_draws (append_event a k t sc r s) = vs_draws s" "vs_policies (append_event a k t sc r s) = vs_policies s"
  "vs_tools (append_event a k t sc r s) = vs_tools s" "vs_system_tools (append_event a k t sc r s) = vs_system_tools s"
  "vs_templates (append_event a k t sc r s) = vs_templates s" "vs_links (append_event a k t sc r s) = vs_links s"
  "vs_system_templates (append_event a k t sc r s) = vs_system_templates s"
  by (simp_all add: append_event_def)

lemma get_credential_cong: "vs_credentials s' = vs_credentials s \<Longrightarrow> get_credential i s' = get_credential i s"
  by (simp add: get_credential_def)

lemma vault_wf_cong:
  "vs_credentials s' = vs_credentials s \<Longrightarrow> vs_tenant s' = vs_tenant s \<Longrightarrow> vault_wf s' = vault_wf s"
  by (simp add: vault_wf_def get_credential_def)

lemma unused_cong:
  "vs_credentials s' = vs_credentials s \<Longrightarrow> vs_draws s \<le> vs_draws s' \<Longrightarrow> unused env s \<Longrightarrow> unused env s'"
  by (auto simp: unused_def)

lemma listed: "vault_wf s \<Longrightarrow> c \<in> set (list_credential_rows s) \<longleftrightarrow> get_credential (or_empty (pc_id c)) s = Some c"
  by (simp add: vault_wf_def list_credential_rows_def get_credential_def in_live_rows [where key = "\<lambda>c. or_empty (pc_id c)"])

lemma listed_get: "vault_wf s \<Longrightarrow> get_credential i s = Some c \<Longrightarrow> c \<in> set (list_credential_rows s)"
  by (auto simp: listed) (auto simp: vault_wf_def)

lemma wf_id:
  "vault_wf s \<Longrightarrow> get_credential i s = Some c \<Longrightarrow> pc_id c = Some i \<and> i \<noteq> [] \<and> pc_tenant c = Some (vs_tenant s)"
  by (simp add: vault_wf_def)

lemma wf_key:
  "vault_wf s \<Longrightarrow> get_credential i s = Some c \<Longrightarrow> get_credential j s = Some d \<Longrightarrow> pc_binding c \<noteq> None \<Longrightarrow>
     quad c = quad d \<Longrightarrow> i = j"
  unfolding vault_wf_def by blast

lemma in_keys: "get_credential i s = Some c \<Longrightarrow> i \<in> fst ` set (vs_credentials s)"
  by (auto simp: get_credential_def rows_get_def bind_eq_Some_conv dest: map_of_SomeD intro: rev_image_eqI)

text \<open>Storing a row under an id of its own.\<close>

lemma save_known:
  assumes "pc_id c = Some i" and "i \<noteq> []"
  shows "save_credential env c s =
    (c\<lparr>pc_tenant := Some (vs_tenant s)\<rparr>,
     s\<lparr>vs_credentials := rows_insert i (c\<lparr>pc_tenant := Some (vs_tenant s)\<rparr>) (vs_credentials s)\<rparr>)"
  using assms by (cases c) (simp add: save_credential_def Let_def)

lemma save_wf:
  assumes "vault_wf s" and "pc_id c = Some i" and "i \<noteq> []" and "pc_tenant c = Some (vs_tenant s)"
    and "\<And>j d. pc_binding c \<noteq> None \<Longrightarrow> get_credential j s = Some d \<Longrightarrow> quad d = quad c \<Longrightarrow> j = i"
  shows "vault_wf (s\<lparr>vs_credentials := rows_insert i c (vs_credentials s)\<rparr>)"
proof -
  let ?s = "s\<lparr>vs_credentials := rows_insert i c (vs_credentials s)\<rparr>"
  have get: "get_credential j ?s = (if j = i then Some c else get_credential j s)" for j
    by (simp add: get_credential_def rows_get_insert)
  have "keyed (\<lambda>c. or_empty (pc_id c)) (vs_credentials ?s)"
    using assms by (simp add: vault_wf_def keyed_insert)
  moreover have "pc_id d = Some j \<and> j \<noteq> [] \<and> pc_tenant d = Some (vs_tenant ?s)" if "get_credential j ?s = Some d" for j d
    using that assms(1-4) by (auto simp: get vault_wf_def split: if_splits)
  moreover have "j = k" if "get_credential j ?s = Some d" "get_credential k ?s = Some e" "pc_binding d \<noteq> None" "quad d = quad e"
    for j k d e
  proof -
    have "pc_binding e \<noteq> None" using that(3,4) by (simp add: quad_def)
    then show ?thesis
      using that assms(1) assms(5) [of j d] assms(5) [of k e] by (auto simp: get vault_wf_def split: if_splits)
  qed
  ultimately show ?thesis unfolding vault_wf_def by blast
qed

section \<open>Every request keeps the natural key\<close>

lemma policy_binding:
  "ensure_binding_permitted b policy provider = None \<Longrightarrow> b = BINDING_ORG_SHARED \<or> b = BINDING_USER_PRIVATE"
  by (auto simp: ensure_binding_permitted_def policy_allows_binding_def split: if_splits)

lemma visible_manage:
  assumes "vault_wf s" and "get_credential i s = Some c" and "sc_partner sc = vs_tenant s"
    and "pc_binding c = Some b" and "b = BINDING_ORG_SHARED \<or> b = BINDING_USER_PRIVATE" and "pc_owner_org c = sc_org sc"
  shows "c \<in> set (list_credentials_for_scope sc False s)"
proof -
  have "pc_tenant c = Some (vs_tenant s)" using assms(1,2) by (auto simp: vault_wf_def)
  then show ?thesis
    using listed_get [OF assms(1,2)] assms(3-6)
    by (auto simp: list_credentials_for_scope_def visible_credential_def tenant_allows_def credential_visible_to_def)
qed

lemma store_credential_wf:
  assumes "vault_wf s" and "unused env s" and "inj (ve_id env)" and "sc_partner sc = vs_tenant s"
    and "b = BINDING_ORG_SHARED \<or> b = BINDING_USER_PRIVATE"
    and "store_credential env sc provider b ctype config envelope expires status s = (r, s')"
  shows "vault_wf s' \<and> unused env s' \<and> vs_tenant s' = vs_tenant s"
proof -
  define c where "c = \<lparr>pc_id = Option.bind (replace_same_quad provider b sc s) pc_id, pc_provider = provider,
     pc_type = ctype, pc_config = config, pc_envelope = envelope, pc_key_version = 1, pc_expires_at = expires,
     pc_tenant = None, pc_owner_org = sc_org sc,
     pc_owner_user = (if b = BINDING_USER_PRIVATE then sc_user sc else None), pc_binding = Some b, pc_status = status\<rparr>"
  obtain saved s1 where sv: "save_credential env c s = (saved, s1)" by fastforce
  have s': "s' = append_event ''connect'' ''credential'' (or_empty (pc_id saved)) sc [] s1"
    using assms(6) sv by (simp add: store_credential_def c_def [symmetric] Let_def)
  have different: "BINDING_ORG_SHARED \<noteq> BINDING_USER_PRIVATE" by (simp add: binding_defs)
  have quads: "quad d = quad c \<longleftrightarrow> same_quad provider b sc d" for d
    using assms(5) different by (auto simp: quad_def c_def same_quad_def)
  show ?thesis
  proof (cases "replace_same_quad provider b sc s")
    case None
    define i where "i = ve_id env (vs_draws s)"
    have i: "i \<noteq> []" "i \<notin> fst ` set (vs_credentials s)" using assms(2) by (auto simp: i_def unused_def)
    have s1: "s1 = s\<lparr>vs_draws := vs_draws s + 1,
        vs_credentials := rows_insert i (c\<lparr>pc_id := Some i, pc_tenant := Some (vs_tenant s)\<rparr>) (vs_credentials s)\<rparr>"
      using sv None by (auto simp: save_credential_def c_def i_def Let_def)
    have "False" if "get_credential j s = Some d" "quad d = quad c" for j d
    proof -
      have "same_quad provider b sc d" using that(2) quads by simp
      moreover from this have "d \<in> set (list_credentials_for_scope sc False s)"
        using visible_manage [OF assms(1) that(1) assms(4) _ assms(5)] by (auto simp: same_quad_def)
      ultimately show False using None by (auto simp: replace_same_quad_def find_None_iff)
    qed
    then have "vault_wf (s\<lparr>vs_credentials := rows_insert i (c\<lparr>pc_id := Some i, pc_tenant := Some (vs_tenant s)\<rparr>) (vs_credentials s)\<rparr>)"
      using i(1) by (intro save_wf [OF assms(1)]) (auto simp: quad_def)
    then have "vault_wf s'" by (rule vault_wf_cong [THEN iffD2, rotated 2]) (simp_all add: s' s1)
    moreover have "unused env s'"
      using assms(2) by (auto simp: unused_def s' s1 i_def vault_simps inj_eq [OF assms(3)])
    ultimately show ?thesis by (simp add: s' s1)
  next
    case (Some old)
    then have "old \<in> set (list_credentials_for_scope sc False s)" and old: "same_quad provider b sc old"
      by (auto simp: replace_same_quad_def find_Some_iff)
    then have "old \<in> set (list_credential_rows s)" by (simp add: list_credentials_for_scope_def)
    then have g: "get_credential (or_empty (pc_id old)) s = Some old" using listed [OF assms(1)] by blast
    define i where "i = or_empty (pc_id old)"
    have g: "get_credential i s = Some old" using g by (simp add: i_def)
    have i: "pc_id old = Some i" "i \<noteq> []" using wf_id [OF assms(1) g] by auto
    have cid: "pc_id c = Some i" using i(1) Some by (simp add: c_def)
    have s1: "s1 = s\<lparr>vs_credentials := rows_insert i (c\<lparr>pc_tenant := Some (vs_tenant s)\<rparr>) (vs_credentials s)\<rparr>"
      using sv save_known [OF cid i(2)] by auto
    have "pc_binding old \<noteq> None" "quad old = quad c" using old quads by (auto simp: same_quad_def)
    then have "j = i" if "get_credential j s = Some d" "quad d = quad c" for j d
      using wf_key [OF assms(1) g that(1)] that(2) by simp
    then have "vault_wf s1"
      unfolding s1 using cid i(2) by (intro save_wf [OF assms(1)]) (auto simp: quad_def)
    then have "vault_wf s'" by (rule vault_wf_cong [THEN iffD2, rotated 2]) (simp_all add: s')
    moreover have "i \<in> fst ` set (vs_credentials s)" by (rule in_keys [OF g])
    then have "unused env s'" using assms(2) by (auto simp: unused_def s' s1 vault_simps)
    ultimately show ?thesis by (simp add: s' s1)
  qed
qed

definition kept :: "vault_env \<Rightarrow> vault_state \<Rightarrow> vault_state \<Rightarrow> bool" where
  "kept env s s' = (vault_wf s \<longrightarrow> unused env s \<longrightarrow> vault_wf s' \<and> unused env s' \<and> vs_tenant s' = vs_tenant s)"

lemma kept_refl [intro, simp]: "kept env s s" by (simp add: kept_def)

lemma kept_trans: "kept env s t \<Longrightarrow> kept env t u \<Longrightarrow> kept env s u"
  by (auto simp: kept_def)

lemma kept_aside:
  "vs_credentials s' = vs_credentials s \<Longrightarrow> vs_tenant s' = vs_tenant s \<Longrightarrow> vs_draws s \<le> vs_draws s' \<Longrightarrow> kept env s s'"
  by (auto simp: kept_def vault_wf_cong [of s' s] intro: unused_cong)

lemma kept_event: "kept env s t \<Longrightarrow> kept env s (append_event a k x sc r t)"
  by (erule kept_trans) (simp add: kept_aside)

lemma kept_nonce: "kept env s (snd (draw_nonce env s))"
  by (rule kept_aside) (simp_all add: draw_nonce_def)

lemma kept_store:
  assumes "inj (ve_id env)" and "sc_partner sc = vs_tenant s" and "b = BINDING_ORG_SHARED \<or> b = BINDING_USER_PRIVATE"
  shows "kept env s (snd (store_credential env sc provider b ctype config envelope expires status s))"
  using store_credential_wf [OF _ _ assms] by (metis kept_def prod.collapse)

lemma refusal_binding:
  "connect_refusal provider ctype bnd sc config s = Inr b \<Longrightarrow> b = BINDING_ORG_SHARED \<or> b = BINDING_USER_PRIVATE"
  by (auto simp: connect_refusal_def Let_def dest: policy_binding split: option.splits if_splits sum.splits)

lemma kept_connect:
  assumes "inj (ve_id env)" and "sc_partner sc = vs_tenant s"
  shows "kept env s (snd (connect_credential env provider ctype bnd sc secret config expires s))"
proof (cases "connect_refusal provider ctype bnd sc config s")
  case (Inr b)
  have "kept env s (snd (store_credential env sc provider b ctype config e expires ''active'' (snd (draw_nonce env s))))" for e
    using refusal_binding [OF Inr] assms by (intro kept_trans [OF kept_nonce kept_store]) (auto simp: draw_nonce_def)
  then show ?thesis
    using kept_nonce by (auto simp: connect_credential_def Inr split_beta split: sum.split)
qed (simp add: connect_credential_def)

lemma kept_register:
  assumes "inj (ve_id env)" and "sc_partner sc = vs_tenant s"
  shows "kept env s (snd (dcr_register env uris issuer provider bnd sc s))"
proof -
  have "kept env s (snd (store_credential env sc provider b ''oauth2'' config e None ''pending'' (snd (draw_nonce env s))))"
    if "ensure_binding_permitted b (policy_for sc s) provider = None" for b config e
    using policy_binding [OF that] assms by (intro kept_trans [OF kept_nonce kept_store]) (auto simp: draw_nonce_def)
  then show ?thesis
    using kept_nonce by (auto simp: dcr_register_def Let_def split_beta split: sum.split option.split)
qed

lemma get_delete:
  "get_credential j (snd (delete_credential i s)) = (if j = i then None else get_credential j s)"
  by (simp add: get_credential_def delete_credential_def split_beta rows_get_soft_delete)

lemma kept_delete: "kept env s (snd (delete_credential i s))"
proof -
  have k: "vs_credentials (snd (delete_credential i s)) = snd (rows_soft_delete i (vs_credentials s))"
    "vs_tenant (snd (delete_credential i s)) = vs_tenant s" "vs_draws (snd (delete_credential i s)) = vs_draws s"
    by (simp_all add: delete_credential_def split_beta)
  have "vault_wf (snd (delete_credential i s))" if "vault_wf s"
    using that unfolding vault_wf_def k(1,2) get_delete by (auto intro: keyed_soft_delete split: if_splits)
  moreover have "unused env (snd (delete_credential i s))" if "unused env s"
    using that by (simp add: unused_def k vault_simps)
  ultimately show ?thesis by (simp add: kept_def k)
qed

lemma kept_revoke: "kept env s (snd (revoke_credential i sc s))"
  using kept_delete by (auto simp: revoke_credential_def split_beta intro: kept_event split: option.split)

section \<open>An organization's policy\<close>

text \<open>The rows still to be visited are stored, under the id they carry, with the same natural key.\<close>

definition pending_visit :: "partner_credential list \<Rightarrow> vault_state \<Rightarrow> bool" where
  "pending_visit cs s = (\<forall>c \<in> set cs. \<exists>i d. pc_id c = Some i \<and> i \<noteq> [] \<and> get_credential i s = Some d \<and> quad d = quad c)"

definition suspended_row :: "partner_credential \<Rightarrow> vault_state \<Rightarrow> vault_state" where
  "suspended_row c s =
     s\<lparr>vs_credentials := rows_insert (or_empty (pc_id c))
        (c\<lparr>pc_status := ''suspended'', pc_tenant := Some (vs_tenant s)\<rparr>) (vs_credentials s)\<rparr>"

lemma get_suspended:
  "get_credential j (suspended_row c s) =
     (if j = or_empty (pc_id c) then Some (c\<lparr>pc_status := ''suspended'', pc_tenant := Some (vs_tenant s)\<rparr>) else get_credential j s)"
  by (simp add: get_credential_def suspended_row_def rows_get_insert)

lemma suspended_row_simps [simp]: "vs_tenant (suspended_row c s) = vs_tenant s" "vs_draws (suspended_row c s) = vs_draws s"
  by (simp_all add: suspended_row_def)

lemma save_suspended:
  "pc_id c = Some i \<Longrightarrow> i \<noteq> [] \<Longrightarrow> snd (save_credential env (c\<lparr>pc_status := ''suspended''\<rparr>) s) = suspended_row c s"
  by (simp add: save_known suspended_row_def)

lemma suspend_kept: "pending_visit cs s \<Longrightarrow> kept env s (snd (suspend_rows env sc org reason cs s))"
proof (induction cs arbitrary: s)
  case (Cons c cs)
  then obtain i d where i: "pc_id c = Some i" "i \<noteq> []" "get_credential i s = Some d" "quad d = quad c" and
    rest: "pending_visit cs s" by (auto simp: pending_visit_def)
  let ?s = "append_event ''suspend'' ''credential'' (or_empty (pc_id c)) sc reason (suspended_row c s)"
  have get: "get_credential j ?s = get_credential j (suspended_row c s)" for j by (rule get_credential_cong) simp
  have "pending_visit cs ?s"
    unfolding pending_visit_def get get_suspended
  proof
    fix e assume "e \<in> set cs"
    then obtain j f where j: "pc_id e = Some j" "j \<noteq> []" "get_credential j s = Some f" "quad f = quad e"
      using rest by (auto simp: pending_visit_def)
    then have "quad e = quad c" if "j = i" using that i by simp
    then show "\<exists>j f. pc_id e = Some j \<and> j \<noteq> [] \<and>
        (if j = or_empty (pc_id c) then Some (c\<lparr>pc_status := ''suspended'', pc_tenant := Some (vs_tenant s)\<rparr>)
         else get_credential j s) = Some f \<and> quad f = quad e"
      using j i by (auto simp: quad_def)
  qed
  then have rest_kept: "kept env ?s (snd (suspend_rows env sc org reason cs ?s))" by (rule Cons.IH)
  have "kept env s (suspended_row c s)"
  proof -
    have "vault_wf (suspended_row c s)" if "vault_wf s"
    proof -
      have "j = i" if "pc_binding c \<noteq> None" "get_credential j s = Some e" "quad e = quad c" for j e
        using wf_key [OF \<open>vault_wf s\<close> that(2) i(3)] that(1,3) i(4) by (auto simp: quad_def)
      then show ?thesis
        unfolding suspended_row_def using i(1,2) by (intro save_wf [OF that]) (auto simp: quad_def)
    qed
    moreover have "i \<in> fst ` set (vs_credentials s)" by (rule in_keys [OF i(3)])
    then have "unused env (suspended_row c s)" if "unused env s"
      using that i by (auto simp: unused_def suspended_row_def vault_simps)
    ultimately show ?thesis by (simp add: kept_def)
  qed
  then have "kept env s ?s" by (rule kept_event)
  then have "kept env s (snd (suspend_rows env sc org reason cs ?s))" using rest_kept by (rule kept_trans)
  then show ?case
    using Cons.IH [OF rest] by (simp add: split_beta Let_def save_suspended [OF i(1,2)])
qed simp

text \<open>The rows a policy visits are the stored ones: each is suspended exactly when it is barred.\<close>

definition stored_rows :: "partner_credential list \<Rightarrow> vault_state \<Rightarrow> bool" where
  "stored_rows cs s =
     (distinct (map (\<lambda>c. or_empty (pc_id c)) cs) \<and>
      (\<forall>c \<in> set cs. \<exists>i. pc_id c = Some i \<and> i \<noteq> [] \<and> get_credential i s = Some c \<and> pc_tenant c = Some (vs_tenant s)))"

lemma suspend_exact:
  "stored_rows cs s \<Longrightarrow>
     get_credential j (snd (suspend_rows env sc org reason cs s)) =
       (if \<exists>c \<in> set cs. pc_id c = Some j \<and> barred org c
        then map_option (\<lambda>c. c\<lparr>pc_status := ''suspended''\<rparr>) (get_credential j s) else get_credential j s) \<and>
     fst (suspend_rows env sc org reason cs s) = map (\<lambda>c. or_empty (pc_id c)) (filter (barred org) cs) \<and>
     vs_tenant (snd (suspend_rows env sc org reason cs s)) = vs_tenant s"
proof (induction cs arbitrary: s)
  case (Cons c cs)
  then obtain i where i: "pc_id c = Some i" "i \<noteq> []" "get_credential i s = Some c" "pc_tenant c = Some (vs_tenant s)"
    and rest: "stored_rows cs s" and new: "\<forall>e \<in> set cs. pc_id e \<noteq> Some i"
    by (force simp: stored_rows_def)
  show ?case
  proof (cases "barred org c")
    case True
    define t where "t = append_event ''suspend'' ''credential'' i sc reason (suspended_row c s)"
    have get: "get_credential k t = (if k = i then Some (c\<lparr>pc_status := ''suspended''\<rparr>) else get_credential k s)" for k
    proof -
      have "get_credential k t = get_credential k (suspended_row c s)" by (rule get_credential_cong) (simp add: t_def)
      also have "c\<lparr>pc_status := ''suspended'', pc_tenant := Some (vs_tenant s)\<rparr> = c\<lparr>pc_status := ''suspended''\<rparr>"
        using i(4) by (cases c) simp
      ultimately show ?thesis using i(1) by (simp add: get_suspended)
    qed
    have tenant: "vs_tenant t = vs_tenant s" by (simp add: t_def)
    then have "stored_rows cs t" using rest new by (fastforce simp: stored_rows_def get)
    then show ?thesis
      using Cons.IH [of t] True i new tenant
      by (auto simp: split_beta Let_def save_suspended [OF i(1,2)] t_def [symmetric] get split: if_splits)
  next
    case False
    then show ?thesis using Cons.IH [OF rest] i new by auto
  qed
qed simp

lemma visible_rows_stored: "vault_wf s \<Longrightarrow> stored_rows (list_credentials_for_scope sc b s) s"
proof -
  assume w: "vault_wf s"
  have "distinct (map (\<lambda>c. or_empty (pc_id c)) (list_credentials_for_scope sc b s))"
    using w by (auto simp: list_credentials_for_scope_def list_credential_rows_def vault_wf_def
        intro: distinct_map_filter live_rows_distinct)
  moreover have "\<exists>i. pc_id c = Some i \<and> i \<noteq> [] \<and> get_credential i s = Some c \<and> pc_tenant c = Some (vs_tenant s)"
    if "c \<in> set (list_credentials_for_scope sc b s)" for c
  proof -
    have g: "get_credential (or_empty (pc_id c)) s = Some c"
      using that listed [OF w] by (auto simp: list_credentials_for_scope_def)
    then show ?thesis using wf_id [OF w g] by auto
  qed
  ultimately show ?thesis by (simp add: stored_rows_def)
qed

lemma stored_pending: "stored_rows cs s \<Longrightarrow> pending_visit cs s"
  by (force simp: stored_rows_def pending_visit_def)

lemma policy_row_simps [simp]:
  "vs_credentials (snd (save_policy_row r s)) = vs_credentials s" "vs_tenant (snd (save_policy_row r s)) = vs_tenant s"
  "vs_draws (snd (save_policy_row r s)) = vs_draws s"
  by (simp_all add: save_policy_row_def Let_def)

lemma kept_policy: "kept env s (snd (set_policy env org policy by_whom reason sc s))"
proof (cases "vault_wf s")
  case True
  have "kept env s (snd (suspend_rows env sc org reason (list_credentials_for_scope sc False s) s))"
    by (rule suspend_kept) (rule stored_pending [OF visible_rows_stored [OF True]])
  then have "kept env s (append_event a k t sc reason (snd (save_policy_row r
      (snd (suspend_rows env sc org reason (list_credentials_for_scope sc False s) s)))))" for a k t r
    by (intro kept_event) (erule kept_trans, simp add: kept_aside)
  moreover have "kept env s (append_event a k t sc reason (snd (save_policy_row r s)))" for a k t r
    by (intro kept_event) (simp add: kept_aside)
  ultimately show ?thesis
    by (auto simp: set_policy_def split_beta Let_def split: option.split)
qed (simp add: kept_def)

section \<open>Every request of the service\<close>

datatype vault_request =
  Connect string string "string option" owner_scope string pydict "rat option"
| Register "string list" string string "string option" owner_scope
| Revoke string owner_scope
| Link string string pydict owner_scope
| Unlink string owner_scope
| Put_Template owner_scope integration_template "string list option"
| Drop_Template owner_scope string
| Put_Policy string string string string owner_scope
| Sync mcp_server string

fun vault_serve :: "vault_env \<Rightarrow> vault_state \<Rightarrow> vault_request \<Rightarrow> vault_state" where
  "vault_serve env s (Connect p t b sc secret config expires) = snd (connect_credential env p t b sc secret config expires s)"
| "vault_serve env s (Register uris issuer p b sc) = snd (dcr_register env uris issuer p b sc s)"
| "vault_serve env s (Revoke i sc) = snd (revoke_credential i sc s)"
| "vault_serve env s (Link p agent config sc) = snd (link_integration env p agent config sc s)"
| "vault_serve env s (Unlink i sc) = snd (unlink_integration i sc s)"
| "vault_serve env s (Put_Template sc t allowed) = snd (save_template sc t allowed s)"
| "vault_serve env s (Drop_Template sc p) = snd (delete_template sc p s)"
| "vault_serve env s (Put_Policy org policy by_whom reason sc) = snd (set_policy env org policy by_whom reason sc s)"
| "vault_serve env s (Sync server p) = snd (sync_tools env server p s)"

text \<open>The scope a request runs under is of the tenant whose view serves it.\<close>

fun of_tenant :: "string \<Rightarrow> vault_request \<Rightarrow> bool" where
  "of_tenant p (Connect _ _ _ sc _ _ _) = (sc_partner sc = p)"
| "of_tenant p (Register _ _ _ _ sc) = (sc_partner sc = p)"
| "of_tenant p q = True"

definition vault_run :: "vault_env \<Rightarrow> vault_state \<Rightarrow> vault_request list \<Rightarrow> vault_state" where
  "vault_run env = foldl (vault_serve env)"

text \<open>What a synchronisation leaves alone.\<close>

definition only_tools :: "vault_state \<Rightarrow> vault_state \<Rightarrow> bool" where
  "only_tools s s' = (s' = s\<lparr>vs_tools := vs_tools s'\<rparr>)"

lemma only_tools_refl [simp, intro]: "only_tools s s" by (simp add: only_tools_def)

lemma only_tools_trans: "only_tools s t \<Longrightarrow> only_tools t u \<Longrightarrow> only_tools s u"
  unfolding only_tools_def
  by (cases s; cases t; cases u) simp

lemma only_tools_kept: "only_tools s s' \<Longrightarrow> kept env s s'"
  by (rule kept_aside; unfold only_tools_def; cases s; cases s') simp_all

definition stamped :: "string \<Rightarrow> tool_definition \<Rightarrow> bool" where
  "stamped provider t = (dict_get (td_meta t) ''synced_from'' = PStr provider)"

definition spared :: "string \<Rightarrow> vault_state \<Rightarrow> vault_state \<Rightarrow> bool" where
  "spared provider s s' =
     (only_tools s s' \<and>
      (\<forall>i t. get_tool_row i s = Some t \<longrightarrow> \<not> stamped provider t \<longrightarrow> get_tool_row i s' = Some t))"

lemma spared_refl [simp, intro]: "spared provider s s" by (simp add: spared_def)

lemma spared_trans: "spared p s t \<Longrightarrow> spared p t u \<Longrightarrow> spared p s u"
  unfolding spared_def by (meson only_tools_trans)

lemma get_saved_tool:
  "get_tool_row i (snd (save_tool t s)) =
     (if i = td_tool_id t then Some (t\<lparr>td_tenant := Some (vs_tenant s)\<rparr>) else get_tool_row i s)"
  by (simp add: get_tool_row_def save_tool_def Let_def rows_get_insert)

lemma save_tool_only: "only_tools s (snd (save_tool t s))"
  by (simp add: only_tools_def save_tool_def Let_def)

lemma store_synced_spares: "spared provider s (snd (store_synced_row provider t extra (c, s)))"
  by (auto simp: store_synced_row_def Let_def spared_def get_saved_tool save_tool_only stamped_def split: option.split)

lemma sync_entries_spares: "spared provider (snd cs) (snd (snd (sync_entries provider base r n vs cs)))"
proof (induction vs arbitrary: n cs)
  case (Cons v vs)
  obtain c s where cs: "cs = (c, s)" by fastforce
  show ?case
    using Cons.IH spared_trans [OF store_synced_spares Cons.IH [of "store_synced_row provider _ _ (c, s)"]]
    by (auto simp: cs split_beta Let_def split: sum.split)
qed simp

lemma sync_discovered_spares: "spared provider (snd cs) (snd (snd (sync_discovered provider endpoint r ds cs)))"
proof (induction ds arbitrary: cs)
  case (Cons d ds)
  obtain c s where cs: "cs = (c, s)" by fastforce
  show ?case
    using Cons.IH spared_trans [OF store_synced_spares Cons.IH [of "store_synced_row provider _ _ (c, s)"]]
    by (auto simp: cs split_beta Let_def split: option.split)
qed simp

lemma sync_mcp_spares: "spared (it_provider t) s (snd (sync_mcp_tools env server t s))"
  using sync_discovered_spares [where cs = "(no_counters, s)"]
  by (auto simp: sync_mcp_tools_def Let_def split_beta split: sum.split prod.split)

lemma sync_spares:
  assumes "keyed it_provider (vs_templates s)" and "keyed it_provider (vs_system_templates s)"
  shows "spared provider s (snd (sync_tools env server provider s))"
proof -
  have named: "it_provider t = provider"
    if "(case rows_get provider (vs_system_templates s) of None \<Rightarrow> rows_get provider (vs_templates s) | Some t \<Rightarrow> Some t) = Some t" for t
    using that assms by (auto simp: rows_get_Some dest: keyed_entry split: option.splits)
  have mcp: "spared provider s (snd (sync_mcp_tools env server t s))" if "it_provider t = provider" for t
    using sync_mcp_spares [of t s env server] that by simp
  show ?thesis
    using named mcp sync_entries_spares [where cs = "(no_counters, s)"]
    by (auto simp: sync_tools_def Let_def split_beta split: option.split sum.split)
qed

lemma sync_mcp_tools_only: "only_tools s (snd (sync_mcp_tools env server t s))"
  using sync_mcp_spares by (simp add: spared_def)

lemma kept_sync: "kept env s (snd (sync_tools env server provider s))"
proof -
  have "only_tools s (snd (snd (sync_entries provider b r n vs (no_counters, s))))" for b r n vs
    using sync_entries_spares [where cs = "(no_counters, s)"] by (simp add: spared_def)
  then have "only_tools s (snd (sync_tools env server provider s))"
    using sync_mcp_tools_only by (auto simp: sync_tools_def Let_def split_beta split: option.split sum.split)
  then show ?thesis by (rule only_tools_kept)
qed

lemma kept_rest:
  "kept env s (snd (link_integration env p agent config sc s))" "kept env s (snd (unlink_integration i sc s))"
  "kept env s (snd (save_template sc t allowed s))" "kept env s (snd (delete_template sc p s))"
proof -
  have "kept env s (snd (save_integration env l s))" for l
    by (rule kept_aside) (simp_all add: save_integration_def Let_def split_beta)
  then show "kept env s (snd (link_integration env p agent config sc s))"
    by (auto simp: link_integration_def Let_def split_beta intro: kept_event split: option.split sum.split)
  have "kept env s (snd (delete_integration i s))"
    by (rule kept_aside) (simp_all add: delete_integration_def split_beta)
  then show "kept env s (snd (unlink_integration i sc s))"
    by (auto simp: unlink_integration_def Let_def split_beta intro: kept_event split: option.split)
  have "kept env s (snd (save_template_row t s))" for t
    by (rule kept_aside) (simp_all add: save_template_row_def Let_def)
  then show "kept env s (snd (save_template sc t allowed s))"
    by (auto simp: save_template_def Let_def split_beta split: option.split)
  have "kept env s (snd (delete_template_row p s))"
    by (rule kept_aside) (simp_all add: delete_template_row_def split_beta)
  then show "kept env s (snd (delete_template sc p s))"
    by (auto simp: delete_template_def Let_def split_beta intro: kept_event split: option.split)
qed

lemma kept_serve: "inj (ve_id env) \<Longrightarrow> of_tenant (vs_tenant s) q \<Longrightarrow> kept env s (vault_serve env s q)"
  by (cases q) (auto intro: kept_connect kept_register kept_revoke kept_rest kept_policy kept_sync)

lemma vault_run_wf:
  "inj (ve_id env) \<Longrightarrow> vault_wf s \<Longrightarrow> unused env s \<Longrightarrow> list_all (of_tenant (vs_tenant s)) qs \<Longrightarrow>
     vault_wf (vault_run env s qs) \<and> vs_tenant (vault_run env s qs) = vs_tenant s"
proof (induction qs arbitrary: s)
  case (Cons q qs)
  then have "kept env s (vault_serve env s q)" by (simp add: kept_serve)
  with Cons show ?case by (simp add: kept_def vault_run_def)
qed (simp add: vault_run_def)

lemma vault_wf_empty: "vs_credentials s = [] \<Longrightarrow> vault_wf s"
  by (simp add: vault_wf_def get_credential_def rows_get_def keyed_Nil)

lemma unused_empty: "vs_credentials s = [] \<Longrightarrow> [] \<notin> range (ve_id env) \<Longrightarrow> unused env s"
  by (metis empty_iff empty_set image_empty rangeI unused_def)

text \<open>
  C24: a tenant never holds two live credentials of the same provider, binding,
  organization and user, whatever requests its members, its organizations and its operators make in
  whatever order; every live row is stored under the id it carries and belongs to the tenant.
\<close>

theorem natural_key:
  assumes "inj (ve_id env)" and "[] \<notin> range (ve_id env)" and "vs_credentials s = []"
    and "list_all (of_tenant (vs_tenant s)) qs"
    and "get_credential i (vault_run env s qs) = Some c" and "get_credential j (vault_run env s qs) = Some d"
    and "pc_provider c = pc_provider d" and "pc_binding c = pc_binding d" and "pc_binding c \<noteq> None"
    and "pc_owner_org c = pc_owner_org d" and "pc_owner_user c = pc_owner_user d"
  shows "i = j \<and> pc_id c = Some i \<and> pc_tenant c = Some (vs_tenant s)"
proof -
  have w: "vault_wf (vault_run env s qs)" "vs_tenant (vault_run env s qs) = vs_tenant s"
    using vault_run_wf [OF assms(1) vault_wf_empty unused_empty] assms by auto
  have "quad c = quad d" using assms by (simp add: quad_def)
  then show ?thesis using wf_key [OF w(1) assms(5,6,9)] wf_id [OF w(1) assms(5)] w(2) by simp
qed


lemma flip_result:
  assumes "set_policy env org POLICY_ENFORCE_SHARED by_whom reason sc s = (Inr (row, ids), s')"
  shows "sc_org sc = Some org" and "sc_partner sc \<noteq> []"
    and "ids = fst (suspend_rows env sc org reason (list_credentials_for_scope sc False s) s)"
    and "get_credential j s' = get_credential j (snd (suspend_rows env sc org reason (list_credentials_for_scope sc False s) s))"
    and "vs_tenant s' = vs_tenant (snd (suspend_rows env sc org reason (list_credentials_for_scope sc False s) s))"
proof -
  show "sc_org sc = Some org" "sc_partner sc \<noteq> []"
    "ids = fst (suspend_rows env sc org reason (list_credentials_for_scope sc False s) s)"
    using assms by (auto simp: set_policy_def split_beta Let_def ensure_owner_scope_def split: option.splits if_splits)
  then have s': "s' = append_event ''policy_flip'' ''org_policy'' org sc reason (snd (save_policy_row
      \<lparr>op_org = org, op_policy = POLICY_ENFORCE_SHARED, op_changed_by = by_whom, op_reason = reason, op_tenant = None\<rparr>
      (snd (suspend_rows env sc org reason (list_credentials_for_scope sc False s) s))))"
    using assms by (auto simp: set_policy_def split_beta Let_def ensure_owner_scope_def split: option.splits if_splits)
  show "get_credential j s' = get_credential j (snd (suspend_rows env sc org reason (list_credentials_for_scope sc False s) s))"
    by (rule get_credential_cong) (simp add: s')
  show "vs_tenant s' = vs_tenant (snd (suspend_rows env sc org reason (list_credentials_for_scope sc False s) s))"
    by (simp add: s')
qed

lemma barred_listed:
  assumes "vault_wf s" and "sc_partner sc = vs_tenant s" and "sc_org sc = Some org"
    and "get_credential i s = Some c" and "barred org c"
  shows "c \<in> set (list_credentials_for_scope sc False s) \<and> pc_id c = Some i"
  using visible_manage [OF assms(1,4,2), of BINDING_USER_PRIVATE] wf_id [OF assms(1,4)] assms(3,5) by (auto simp: barred_def)

lemma flip_get:
  assumes "vault_wf s" and "sc_partner sc = vs_tenant s"
    and "set_policy env org POLICY_ENFORCE_SHARED by_whom reason sc s = (Inr (row, ids), s')"
  shows "get_credential i s' =
      map_option (\<lambda>c. if barred org c then c\<lparr>pc_status := ''suspended''\<rparr> else c) (get_credential i s)"
proof -
  let ?cs = "list_credentials_for_scope sc False s"
  have st: "stored_rows ?cs s" by (rule visible_rows_stored [OF assms(1)])
  have "(\<exists>c \<in> set ?cs. pc_id c = Some i \<and> barred org c) \<longleftrightarrow> (\<exists>c. get_credential i s = Some c \<and> barred org c)"
    using st barred_listed [OF assms(1,2) flip_result(1) [OF assms(3)]] by (fastforce simp: stored_rows_def)
  then show ?thesis
    using suspend_exact [OF st, of i env sc org reason] by (cases "get_credential i s") (auto simp: flip_result(4) [OF assms(3)])
qed

lemma flip_fetch:
  assumes "vault_wf s" and "sc_partner sc = vs_tenant s"
    and "set_policy env org POLICY_ENFORCE_SHARED by_whom reason sc s = (Inr (row, ids), s')"
  shows "fetch_credential env auth_ref s' = fetch_credential env auth_ref s"
  using flip_get [OF assms]
  by (auto simp: fetch_credential_def Let_def split: option.split sum.split pyval.split)

text \<open>
  C25: enforcing shared credentials suspends exactly the active private rows of the
  organization, reports exactly their ids, each once, and leaves every other row of the tenant as it
  was. The executor does not look at the status: every credential reference still opens the secret it
  opened before.
\<close>

theorem policy_flip_exact:
  assumes "vault_wf s" and "sc_partner sc = vs_tenant s"
    and "set_policy env org POLICY_ENFORCE_SHARED by_whom reason sc s = (Inr (row, ids), s')"
  shows "get_credential i s' =
      map_option (\<lambda>c. if barred org c then c\<lparr>pc_status := ''suspended''\<rparr> else c) (get_credential i s) \<and>
    (i \<in> set ids \<longleftrightarrow> (\<exists>c. get_credential i s = Some c \<and> barred org c)) \<and> distinct ids \<and>
    fetch_credential env auth_ref s' = fetch_credential env auth_ref s"
proof -
  let ?cs = "list_credentials_for_scope sc False s"
  have st: "stored_rows ?cs s" by (rule visible_rows_stored [OF assms(1)])
  then have ids: "ids = map (\<lambda>c. or_empty (pc_id c)) (filter (barred org) ?cs)"
    using suspend_exact by (simp add: flip_result(3) [OF assms(3)])
  then have "i \<in> set ids \<longleftrightarrow> (\<exists>c. get_credential i s = Some c \<and> barred org c)"
    using st barred_listed [OF assms(1,2) flip_result(1) [OF assms(3)], of i] by (force simp: stored_rows_def)
  moreover have "distinct ids" using st by (auto simp: ids stored_rows_def intro: distinct_map_filter)
  ultimately show ?thesis using flip_get [OF assms] flip_fetch [OF assms] by simp
qed

lemma find_first_own: "x \<in> set xs \<Longrightarrow> P x \<Longrightarrow> \<exists>y \<in> set xs. \<forall>ys. find P (xs @ ys) = Some y"
  by (induction xs) auto

text \<open>
  A private credential that is neither active nor blocked (one whose
  registration is pending, or an expired one) outlives the enforcement of shared credentials, and for
  its user it still resolves before any shared one.
\<close>

theorem private_survives_enforcement:
  assumes "vault_wf s" and "sc_partner sc = vs_tenant s"
    and "set_policy env org POLICY_ENFORCE_SHARED by_whom reason sc s = (Inr (row, ids), s')" and "unused env s"
    and "get_credential i s = Some c" and "pc_binding c = Some BINDING_USER_PRIVATE" and "pc_owner_org c = Some org"
    and "pc_status c \<notin> {''active'', ''suspended'', ''revoked''}"
    and "sc' = sc\<lparr>sc_user := pc_owner_user c\<rparr>"
    and "length (filter (\<lambda>e. pc_provider e = pc_provider c) (list_credential_rows s')) \<le> LOOKUP_LIMIT"
  shows "\<exists>d. resolve_credential (pc_provider c) sc' s' = Inr (Some d) \<and> pc_binding d = Some BINDING_USER_PRIVATE"
proof -
  have sc: "sc_org sc = Some org" "sc_partner sc \<noteq> []" by (rule flip_result [OF assms(3)])+
  have g: "get_credential i s' = Some c" using flip_get [OF assms(1-3)] assms(5,8) by (simp add: barred_def)
  have w: "vault_wf s'" "vs_tenant s' = vs_tenant s"
    using kept_policy [of env s org POLICY_ENFORCE_SHARED by_whom reason sc] assms(1,3,4) by (simp_all add: kept_def)
  let ?own = "filter (\<lambda>c. pc_binding c = Some BINDING_USER_PRIVATE \<and> pc_owner_user c = sc_user sc')
    (find_credentials_for_scope (pc_provider c) sc' True s')"
  have "c \<in> set (live_rows (vs_credentials s'))" using listed_get [OF w(1) g] by (simp add: list_credential_rows_def)
  then have "c \<in> set ?own"
    using wf_id [OF w(1) g] assms(2,6,7) sc(1) w(2)
    by (auto simp: assms(9) find_credentials_for_scope_def find_credentials_by_provider_def rows_find_many_def
        visible_credential_def tenant_allows_def credential_visible_to_def binding_defs assms(10) [unfolded list_credential_rows_def])
  then obtain d where d: "d \<in> set ?own" "find (\<lambda>c. \<not> blocked (pc_status c)) (?own @ ys) = Some d" for ys
    using find_first_own [of c ?own "\<lambda>c. \<not> blocked (pc_status c)"] assms(8) by (auto simp: blocked_def)
  then show ?thesis
    using sc(2) by (auto simp: resolve_credential_def Let_def ensure_owner_scope_def assms(9))
qed

section \<open>Concrete vaults\<close>

definition numbered_env :: vault_env where
  "numbered_env =
     \<lparr>ve_id = (\<lambda>n. CHR ''c'' # replicate n CHR ''i''), ve_nonce = (\<lambda>n. replicate 12 9), ve_aead = plain_aead,
      ve_dumps = (\<lambda>v. ''{}''), ve_loads = (\<lambda>t. Some (PDict [])), ve_url_safe = (\<lambda>u. True),
      ve_http_get = (\<lambda>u. None), ve_http_post = (\<lambda>u v. None)\<rparr>"

definition empty_vault :: vault_state where
  "empty_vault =
     \<lparr>vs_tenant = ''p'', vs_credentials = [], vs_links = [], vs_templates = [], vs_system_templates = [],
      vs_policies = [], vs_events = [], vs_tools = [], vs_system_tools = [], vs_draws = 0\<rparr>"

definition member :: "string \<Rightarrow> owner_scope" where
  "member u = \<lparr>sc_partner = ''p'', sc_org = Some ''o'', sc_user = Some u\<rparr>"

definition row_of :: "string \<Rightarrow> string \<Rightarrow> string \<Rightarrow> partner_credential" where
  "row_of i u st =
     \<lparr>pc_id = Some i, pc_provider = ''crm'', pc_type = ''oauth2'', pc_config = [], pc_envelope = ''1.'',
      pc_key_version = 1, pc_expires_at = None, pc_tenant = Some ''p'', pc_owner_org = Some ''o'',
      pc_owner_user = Some u, pc_binding = Some ''user_private'', pc_status = st\<rparr>"

definition two_rows :: vault_state where
  "two_rows = empty_vault\<lparr>vs_credentials :=
     [(''x'', Live (row_of ''x'' ''u'' ''pending'')), (''y'', Live (row_of ''y'' ''v'' ''active''))]\<rparr>"

lemma numbered_inj: "inj (ve_id numbered_env)" "[] \<notin> range (ve_id numbered_env)"
  by (auto simp: numbered_env_def inj_def replicate_eq_replicate)

lemma two_rows_get:
  "get_credential i two_rows =
     (if i = ''x'' then Some (row_of ''x'' ''u'' ''pending'') else if i = ''y'' then Some (row_of ''y'' ''v'' ''active'') else None)"
  by (simp add: get_credential_def rows_get_def two_rows_def)

lemma two_rows_keys: "keyed (\<lambda>c. or_empty (pc_id c)) (vs_credentials two_rows)" "fst ` set (vs_credentials two_rows) = {''x'', ''y''}"
  "vs_tenant two_rows = ''p''"
  by (simp_all add: two_rows_def keyed_def row_of_def empty_vault_def)

lemma two_rows_wf: "vault_wf two_rows" "unused numbered_env two_rows"
  unfolding vault_wf_def unused_def two_rows_keys two_rows_get
  by (auto simp: two_rows_keys row_of_def quad_def numbered_env_def split: if_splits)

lemma two_rows_flip:
  "\<exists>row s'. set_policy numbered_env ''o'' POLICY_ENFORCE_SHARED ''v'' ''r'' (member ''u'') two_rows = (Inr (row, [''y'']), s')"
  by (simp add: set_policy_def ensure_owner_scope_def member_def policy_defs list_credentials_for_scope_def
      list_credential_rows_def two_rows_def live_rows_simps visible_credential_def tenant_allows_def row_of_def
      credential_visible_to_def binding_defs barred_def split_beta)

theorem policy_flip_exact_witness:
  "\<exists>row s'. set_policy numbered_env ''o'' POLICY_ENFORCE_SHARED ''v'' ''r'' (member ''u'') two_rows = (Inr (row, [''y'']), s') \<and>
     get_credential ''y'' s' = Some (row_of ''y'' ''v'' ''suspended'') \<and>
     get_credential ''x'' s' = Some (row_of ''x'' ''u'' ''pending'') \<and>
     fetch_credential numbered_env ''cred:y'' s' = fetch_credential numbered_env ''cred:y'' two_rows"
proof -
  obtain row s' where e: "set_policy numbered_env ''o'' POLICY_ENFORCE_SHARED ''v'' ''r'' (member ''u'') two_rows = (Inr (row, [''y'']), s')"
    using two_rows_flip by blast
  have t: "sc_partner (member ''u'') = vs_tenant two_rows" by (simp add: member_def two_rows_def empty_vault_def)
  show ?thesis
    using e policy_flip_exact [OF two_rows_wf(1) t e, of "''y''" "''cred:y''"] policy_flip_exact [OF two_rows_wf(1) t e, of "''x''"]
    by (auto simp: two_rows_get row_of_def barred_def binding_defs)
qed

lemma two_rows_after:
  "length (list_credential_rows (snd (set_policy numbered_env ''o'' POLICY_ENFORCE_SHARED ''v'' ''r'' (member ''u'') two_rows))) = 2"
  by code_simp

theorem private_survives_enforcement_witness:
  "\<exists>row s' d. set_policy numbered_env ''o'' POLICY_ENFORCE_SHARED ''v'' ''r'' (member ''u'') two_rows = (Inr (row, [''y'']), s') \<and>
     resolve_credential ''crm'' (member ''u'') s' = Inr (Some d) \<and> pc_binding d = Some BINDING_USER_PRIVATE"
proof -
  obtain row s' where e: "set_policy numbered_env ''o'' POLICY_ENFORCE_SHARED ''v'' ''r'' (member ''u'') two_rows = (Inr (row, [''y'']), s')"
    using two_rows_flip by blast
  have t: "sc_partner (member ''u'') = vs_tenant two_rows" by (simp add: member_def two_rows_def empty_vault_def)
  have "length (filter P (list_credential_rows s')) \<le> LOOKUP_LIMIT" for P
    using two_rows_after length_filter_le [of P "list_credential_rows s'"] by (simp add: e LOOKUP_LIMIT_def)
  moreover have "get_credential ''x'' two_rows = Some (row_of ''x'' ''u'' ''pending'')" by (simp add: two_rows_get)
  ultimately have "\<exists>d. resolve_credential (pc_provider (row_of ''x'' ''u'' ''pending''))
      (member ''u''\<lparr>sc_user := pc_owner_user (row_of ''x'' ''u'' ''pending'')\<rparr>) s' = Inr (Some d) \<and>
      pc_binding d = Some BINDING_USER_PRIVATE"
    by (intro private_survives_enforcement [OF two_rows_wf(1) t e two_rows_wf(2)]) (auto simp: row_of_def binding_defs)
  moreover have "member ''u''\<lparr>sc_user := pc_owner_user (row_of ''x'' ''u'' ''pending'')\<rparr> = member ''u''"
    "pc_provider (row_of ''x'' ''u'' ''pending'') = ''crm''" by (simp_all add: member_def row_of_def)
  ultimately show ?thesis using e by auto
qed

definition two_connects :: "vault_request list" where
  "two_connects =
     [Connect ''crm'' ''api_key'' (Some ''org_shared'') (member ''u'') ''k'' [] None,
      Connect ''crm'' ''api_key'' (Some ''org_shared'') (member ''v'') ''l'' [] None]"

theorem natural_key_witness:
  "\<exists>c. map fst (vs_credentials (vault_run numbered_env empty_vault two_connects)) = [''ci''] \<and>
     get_credential ''ci'' (vault_run numbered_env empty_vault two_connects) = Some c \<and>
     pc_binding c = Some ''org_shared'' \<and> pc_id c = Some ''ci'' \<and> pc_tenant c = Some ''p''"
proof -
  have e: "map fst (vs_credentials (vault_run numbered_env empty_vault two_connects)) = [''ci''] \<and>
    map_option pc_binding (get_credential ''ci'' (vault_run numbered_env empty_vault two_connects)) = Some (Some ''org_shared'')"
    by code_simp
  then obtain c where c: "get_credential ''ci'' (vault_run numbered_env empty_vault two_connects) = Some c"
    "pc_binding c = Some ''org_shared''" by auto
  have "list_all (of_tenant (vs_tenant empty_vault)) two_connects" "vs_credentials empty_vault = []" "vs_tenant empty_vault = ''p''"
    by (simp_all add: two_connects_def empty_vault_def member_def)
  then show ?thesis using e c natural_key [OF numbered_inj, of empty_vault two_connects] by auto
qed

text \<open>A template of two entries: one stored before under the same name by the operator, one new.\<close>

definition crm_template :: integration_template where
  "crm_template =
     \<lparr>it_provider = ''crm'', it_type = ''none'', it_transport = ''http'',
      it_tools = [PDict [(''name'', PStr ''a'')], PDict [(''name'', PStr ''b'')]], it_oauth = [], it_client = [],
      it_tenant = Some ''p'', it_visibility = ''partner_private'', it_owner = Some ''p'', it_bindings = [''org_shared''],
      it_suggested = None, it_version = 1, it_lifecycle = ''draft''\<rparr>"

definition crm_vault :: vault_state where
  "crm_vault = empty_vault
     \<lparr>vs_templates := [(''crm'', Live crm_template)],
      vs_tools := [(''function:a'', Live ((synced_tool ''a'' ''mine'' [] None ''POST'' None)\<lparr>td_tenant := Some ''p''\<rparr>))]\<rparr>"


end
