(* ===== verification/Language_Detector.thy ===== *)
theory Language_Detector
  imports Output_Loop Expression
begin

text \<open>
  The language detector's turn buffer (\<open>lid/base.py\<close>), the readers of its evidence and the playback
  gate that holds a turn's audio while a language switch is being decided
  (\<open>modules/voice/session/language/lid_gate.py\<close>), with the two text heuristics of
  \<open>modules/voice/static_methods.py\<close> the decision uses. The detector's socket and reconnects are not
  modelled. A decision task is a number; which tasks have ended is part of the state.
\<close>

section \<open>The detector's buffer\<close>

record lid_segment =
  ls_lang :: "string option"
  ls_prob :: "rat option"
  ls_text :: string
  ls_audio_s :: rat
  ls_ts :: rat

record lid_buffer =
  lb_text :: string
  lb_lang :: "string option"
  lb_streak :: nat
  lb_max :: rat
  lb_last :: "rat option"
  lb_prob :: "rat option"
  lb_segments :: "lid_segment list"
  lb_event :: bool

definition empty_buffer :: lid_buffer where
  "empty_buffer =
     \<lparr>lb_text = [], lb_lang = None, lb_streak = 0, lb_max = 0, lb_last = None, lb_prob = None,
      lb_segments = [], lb_event = False\<rparr>"

definition BUFFER_SEGMENT_MAX_AGE_S :: rat where "BUFFER_SEGMENT_MAX_AGE_S = 30"

text \<open>\<open>max(..., default=0.0)\<close>: the first of the largest values.\<close>

definition longest :: "rat list \<Rightarrow> rat" where
  "longest xs = (case xs of [] \<Rightarrow> 0 | x # ys \<Rightarrow> foldl max x ys)"

definition accumulate ::
  "rat \<Rightarrow> rat \<Rightarrow> string \<Rightarrow> string option \<Rightarrow> rat \<Rightarrow> rat option \<Rightarrow> lid_buffer \<Rightarrow> lid_buffer" where
  "accumulate monotonic wall transcript lang audio_s prob b =
     (if transcript = [] then b
      else let new = \<lparr>ls_lang = lang, ls_prob = prob, ls_text = transcript, ls_audio_s = py_round 3 audio_s, ls_ts = wall\<rparr>;
               segments = filter (\<lambda>g. wall - BUFFER_SEGMENT_MAX_AGE_S \<le> ls_ts g) (lb_segments b @ [new]);
               b1 = b\<lparr>lb_last := Some monotonic, lb_event := True, lb_segments := segments,
                      lb_text := py_join '' '' (filter (\<lambda>t. t \<noteq> []) (map ls_text segments)),
                      lb_max := longest (map ls_audio_s segments)\<rparr>
           in if truthy_str lang
              then b1\<lparr>lb_streak := (if lang = lb_lang b then lb_streak b + 1 else 1), lb_lang := lang, lb_prob := prob\<rparr>
              else b1)"

definition buffer_age_seconds :: "rat \<Rightarrow> lid_buffer \<Rightarrow> rat option" where
  "buffer_age_seconds monotonic b =
     (if py_strip (lb_text b) = [] then None else map_option (\<lambda>t. monotonic - t) (lb_last b))"

definition take_turn_transcript :: "lid_buffer \<Rightarrow> (string \<times> string option) \<times> lid_buffer" where
  "take_turn_transcript b = ((py_strip (lb_text b), lb_lang b), empty_buffer)"

section \<open>Evidence\<close>

definition short_language :: "string option \<Rightarrow> string" where
  "short_language l = py_lower (hd (py_split_on CHR ''-'' (or_empty l)))"

definition detector_corroborates :: "rat \<Rightarrow> rat \<Rightarrow> lid_segment list \<Rightarrow> string \<Rightarrow> bool" where
  "detector_corroborates min_prob min_segment segments target =
     (target \<noteq> [] \<and>
      list_ex (\<lambda>g. short_language (ls_lang g) = short_language (Some target) \<and>
                   (case ls_prob g of None \<Rightarrow> False | Some p \<Rightarrow> min_prob \<le> p) \<and> min_segment \<le> ls_audio_s g) segments)"

fun evidence :: "string \<Rightarrow> lid_segment list \<Rightarrow> bool \<times> string list \<times> rat \<Rightarrow> bool \<times> string list \<times> rat" where
  "evidence active [] acc = acc"
| "evidence active (g # gs) (saw, foreign, longest_s) =
     (let lang = short_language (ls_lang g)
      in if lang = [] then evidence active gs (saw, foreign, longest_s)
         else if lang = active then evidence active gs (True, foreign, longest_s)
         else evidence active gs (True, if lang \<in> set foreign then foreign else foreign @ [lang], max longest_s (ls_audio_s g)))"

definition buffered_language_evidence :: "lid_segment list \<Rightarrow> string \<Rightarrow> bool \<times> string list \<times> rat" where
  "buffered_language_evidence segments active = evidence active segments (False, [], 0)"

text \<open>The mismatch probe: which pools there are, and their labels (\<open>None\<close>: not a pool).\<close>

definition detector_language_mismatch ::
  "rat \<Rightarrow> string list option \<Rightarrow> string list option \<Rightarrow> string \<Rightarrow> lid_segment list \<Rightarrow> bool" where
  "detector_language_mismatch min_segment labels synth_labels language segments =
     (case labels of
        None \<Rightarrow> False
      | Some ls \<Rightarrow>
          (let (saw, foreign, foreign_s) = buffered_language_evidence segments (short_language (Some language))
           in case find (\<lambda>l. l \<in> set ls) foreign of
                None \<Rightarrow> False
              | Some detected \<Rightarrow>
                  \<not> foreign_s < min_segment \<and> (case synth_labels of None \<Rightarrow> True | Some sl \<Rightarrow> detected \<in> set sl)))"

text \<open>The longest segment of a foreign language, as the decision computes it.\<close>

definition foreign_max_segment :: "string \<Rightarrow> lid_segment list \<Rightarrow> rat" where
  "foreign_max_segment active segments =
     longest (map ls_audio_s (filter (\<lambda>g. short_language (ls_lang g) \<notin> {[], active}) segments))"

definition word_char :: "char \<Rightarrow> bool" where
  "word_char c =
     (let n = of_char c :: nat
      in (48 \<le> n \<and> n \<le> 57) \<or> (65 \<le> n \<and> n \<le> 90) \<or> n = 95 \<or> (97 \<le> n \<and> n \<le> 122) \<or>
         n \<in> {170, 178, 179, 181, 185, 186, 188, 189, 190} \<or> (192 \<le> n \<and> n \<noteq> 215 \<and> n \<noteq> 247))"

definition digit_char :: "char \<Rightarrow> bool" where
  "digit_char c = (let n = of_char c :: nat in (48 \<le> n \<and> n \<le> 57) \<or> n \<in> {178, 179, 185})"

fun word_tokens :: "string \<Rightarrow> string \<Rightarrow> string list" where
  "word_tokens acc [] = (if acc = [] then [] else [rev acc])"
| "word_tokens acc (c # s) =
     (if word_char c then word_tokens (c # acc) s
      else if acc = [] then word_tokens [] s else rev acc # word_tokens [] s)"

definition is_alphanumeric_readout :: "string \<Rightarrow> bool" where
  "is_alphanumeric_readout s =
     (let tokens = word_tokens [] s; codes = filter (list_ex digit_char) tokens
      in tokens \<noteq> [] \<and> 1 \<le> length codes \<and> length tokens - length codes \<le> 2)"

text \<open>The caller's last utterance, over the segments newest first.\<close>

fun utterance_tail :: "rat option \<Rightarrow> string option \<Rightarrow> lid_segment list \<Rightarrow> string list" where
  "utterance_tail prev lang [] = []"
| "utterance_tail prev lang (g # gs) =
     (case prev of
        Some p \<Rightarrow>
          (if p - ls_ts g > 4 \<or> (truthy_str lang \<and> truthy_str (ls_lang g) \<and> ls_lang g \<noteq> lang) then []
           else if ls_text g \<noteq> []
           then utterance_tail (Some (ls_ts g - ls_audio_s g)) (if truthy_str lang then lang else ls_lang g) gs @ [ls_text g]
           else utterance_tail (Some (ls_ts g - ls_audio_s g)) lang gs)
      | None \<Rightarrow>
          (if ls_text g \<noteq> []
           then utterance_tail (Some (ls_ts g - ls_audio_s g)) (if truthy_str lang then lang else ls_lang g) gs @ [ls_text g]
           else utterance_tail (Some (ls_ts g - ls_audio_s g)) lang gs))"

definition trailing_utterance_text :: "lid_segment list \<Rightarrow> string" where
  "trailing_utterance_text segments = py_strip (py_join '' '' (utterance_tail None None (rev segments)))"

section \<open>The playback gate\<close>

record playback_gate =
  pg_sequence :: int
  pg_task :: nat
  pg_armed_at :: rat
  pg_language :: string
  pg_deadline :: rat
  pg_recorded :: bool

text \<open>What is written to the detector's event list.\<close>

record lid_decision =
  dr_outcome :: string
  dr_path :: string
  dr_active :: string
  dr_transcript :: string
  dr_tag :: "string option"
  dr_target :: pyval
  dr_switched_to :: "string option"
  dr_note :: "string option"

datatype lid_event =
  Gate_Event string rat int string
| Decision_Event lid_decision
| Handoff_Event string

record lid_session =
  la_call :: call_state
  la_language :: string
  la_gate :: "playback_gate option"
  la_switcher :: bool
  la_done :: "nat list"
  la_buffer :: lid_buffer
  la_events :: "lid_event list"
  la_transcriber :: "(string list \<times> string) option"
  la_synthesizer :: "(string list \<times> string) option"
  la_prompts :: "(string \<times> string) list"
  la_system_prompt :: string
  la_hangup :: bool
  la_ended :: bool
  la_end_call :: bool
  la_transfer :: bool
  la_function_call :: bool
  la_function_task :: bool
  la_user_spoke :: bool
  la_switches :: "(string \<times> string \<times> string \<times> rat) list"

definition should_ignore_transcriber_input :: "lid_session \<Rightarrow> bool" where
  "should_ignore_transcriber_input s = (la_hangup s \<or> la_end_call s \<or> la_transfer s)"

definition LANGUAGE_SWITCH_MAX_HOLD_S :: rat where "LANGUAGE_SWITCH_MAX_HOLD_S = 4"

definition arm_lid_playback_gate :: "rat \<Rightarrow> rat \<Rightarrow> int option \<Rightarrow> nat \<Rightarrow> lid_session \<Rightarrow> lid_session" where
  "arm_lid_playback_gate max_hold now sequence task s =
     (case sequence of
        None \<Rightarrow> s
      | Some i \<Rightarrow>
          (if i = -1 then s
           else s\<lparr>la_gate := Some \<lparr>pg_sequence = i, pg_task = task, pg_armed_at = now, pg_language = la_language s,
                    pg_deadline = now + max_hold, pg_recorded = False\<rparr>\<rparr>))"

definition record_lid_event :: "lid_event \<Rightarrow> lid_session \<Rightarrow> lid_session" where
  "record_lid_event e s = (if la_transcriber s = None then s else s\<lparr>la_events := la_events s @ [e]\<rparr>)"

text \<open>
  A gate is released by the callers only while it is the session's gate, so marking the gate's dict
  is an update of the session.
\<close>

definition release_lid_playback_gate :: "rat \<Rightarrow> playback_gate \<Rightarrow> string \<Rightarrow> bool \<Rightarrow> lid_session \<Rightarrow> lid_session" where
  "release_lid_playback_gate now g outcome clear s =
     (let s1 = (if clear then s\<lparr>la_gate := None\<rparr> else s)
      in if pg_recorded g then s1
         else record_lid_event (Gate_Event outcome (py_round 1 ((now - pg_armed_at g) * 1000)) (pg_sequence g) (pg_language g))
                (if clear then s1 else s1\<lparr>la_gate := Some (g\<lparr>pg_recorded := True\<rparr>)\<rparr>))"

definition lid_playback_gate_holds :: "rat \<Rightarrow> int option \<Rightarrow> lid_session \<Rightarrow> bool \<times> lid_session" where
  "lid_playback_gate_holds now sequence s =
     (case la_gate s of
        None \<Rightarrow> (False, s)
      | Some g \<Rightarrow>
          (if \<not> la_switcher s then (False, s)
           else if sequence = None \<or> sequence = Some (-1) \<or> sequence \<noteq> Some (pg_sequence g) then (False, s)
           else if la_hangup s \<or> la_ended s \<or> should_ignore_transcriber_input s
           then (False, release_lid_playback_gate now g ''teardown'' True s)
           else if pg_task g \<in> set (la_done s) then (False, release_lid_playback_gate now g ''decided'' True s)
           else if pg_deadline g \<le> now then (False, release_lid_playback_gate now g ''expired'' True s)
           else (True, s)))"

end
