(* ===== verification/Language_Switch.thy ===== *)
theory Language_Switch
  imports Language_Detector
begin

text \<open>
  The language-switch decision of a turn (\<open>modules/voice/session/language/switcher.py\<close> and the
  handoff line of \<open>handoff.py\<close>). The judge (an LLM) is a function of what it is asked; what the other
  tasks of the call do while the decision waits is a function of the session at each wait; the
  speculative follow-up is a given text. Raised exceptions are values: the handler logs them. The
  generation of the follow-up itself, the provider labels and the pre-rendered clips are not modelled.
\<close>

section \<open>Settings and surroundings\<close>

record switch_settings =
  st_min_confidence :: rat
  st_corroborated :: rat
  st_explicit :: rat
  st_detector_prob :: rat
  st_min_segment :: rat
  st_max_hold :: rat
  st_settle_ms :: rat
  st_audio_gap_s :: rat
  st_explicit_only :: bool
  st_speculates :: bool

record judge_question =
  jq_detector :: string
  jq_live :: string
  jq_active :: string
  jq_last_agent :: "string option"

text \<open>
  The surroundings of one decision: the clock, the task it runs in, the judge (\<open>None\<close> when it times
  out), the inputs of the barge-in cleanup, the text of the speculative follow-up (\<open>None\<close> when it
  times out or fails), the configured handoff line, and what happens meanwhile at each wait.
\<close>

record switch_world =
  sw_now :: rat
  sw_task :: nat
  sw_judge :: "judge_question \<Rightarrow> pyval option"
  sw_clear_ok :: bool
  sw_turn_text :: "(int \<times> string) list"
  sw_speculation :: "string option"
  sw_handoff :: "string \<Rightarrow> string"
  sw_wording :: "string \<Rightarrow> string"
  sw_settle :: "lid_session \<Rightarrow> lid_session"
  sw_deciding :: "lid_session \<Rightarrow> lid_session"
  sw_cleaning :: "lid_session \<Rightarrow> lid_session"
  sw_gap :: "lid_session \<Rightarrow> lid_session"
  sw_reconnects :: "string \<Rightarrow> bool"

definition history_of :: "lid_session \<Rightarrow> conversation" where
  "history_of s = sg_history (cl_staging (la_call s))"

definition on_history :: "(conversation \<Rightarrow> conversation) \<Rightarrow> lid_session \<Rightarrow> lid_session" where
  "on_history f s =
     s\<lparr>la_call := (la_call s)\<lparr>cl_staging := (cl_staging (la_call s))\<lparr>sg_history := f (history_of s)\<rparr>\<rparr>\<rparr>"

section \<open>The language note\<close>

definition LANGUAGE_NOTE :: string where "LANGUAGE_NOTE = ''## Language note:''"

text \<open>The order's wording beyond its opening is the argument \<open>wording\<close>.\<close>

definition language_directive :: "(string \<Rightarrow> string) \<Rightarrow> string \<Rightarrow> string" where
  "language_directive wording label = LANGUAGE_NOTE @ wording label"

definition note_marker :: string where "note_marker = [CHR 0x0A, CHR 0x0A] @ LANGUAGE_NOTE"

definition without_note :: "string \<Rightarrow> string" where
  "without_note p = (case py_find note_marker p of None \<Rightarrow> p | Some i \<Rightarrow> take i p)"

definition apply_language_directive :: "string \<Rightarrow> string \<Rightarrow> lid_session \<Rightarrow> lid_session" where
  "apply_language_directive label note s =
     (let base = (case map_of (la_prompts s) label of Some b \<Rightarrow> b | None \<Rightarrow> without_note (la_system_prompt s));
          new_prompt = base @ [CHR 0x0A, CHR 0x0A] @ note
      in (on_history (update_system_prompt new_prompt) s)\<lparr>la_system_prompt := new_prompt\<rparr>)"

section \<open>Flipping the pools\<close>

text \<open>One pool: nothing when it is already there, an exception for an unknown label or a failed reconnect.\<close>

definition pool_switch :: "bool \<Rightarrow> string \<Rightarrow> string list \<times> string \<Rightarrow> py_error + string list \<times> string" where
  "pool_switch reconnects label p =
     (if label = snd p then Inr p
      else if label \<notin> set (fst p) then Inl ValueError
      else if \<not> reconnects then Inl TypeError
      else Inr (fst p, label))"

definition switch_language ::
  "(string \<Rightarrow> bool) \<Rightarrow> rat \<Rightarrow> string \<Rightarrow> string \<Rightarrow> string \<Rightarrow> lid_session \<Rightarrow> py_error option \<times> lid_session" where
  "switch_language reconnects now label triggered_by note s =
     (let s1 = s\<lparr>la_switches := la_switches s @ [(label, la_language s, triggered_by, now)]\<rparr>
      in case (case la_transcriber s of None \<Rightarrow> Inr None
               | Some p \<Rightarrow> map_sum id Some (pool_switch (reconnects label) label p)) of
           Inl e \<Rightarrow> (Some e, s1)
         | Inr t \<Rightarrow>
             (let s2 = s1\<lparr>la_transcriber := t\<rparr>
              in case (case la_synthesizer s of None \<Rightarrow> Inr None
                       | Some p \<Rightarrow> map_sum id Some (pool_switch True label p)) of
                   Inl e \<Rightarrow> (Some e, s2)
                 | Inr y \<Rightarrow>
                     (let b = la_buffer s2;
                          s3 = s2\<lparr>la_synthesizer := y, la_language := label,
                                  la_call := (la_call s2)\<lparr>cl_last_transmitted := now, cl_asked_if_still_there := False\<rparr>,
                                  la_buffer := (if t \<noteq> None \<and> buffer_age_seconds now b \<noteq> None then b\<lparr>lb_event := True\<rparr> else b)\<rparr>
                      in (None, apply_language_directive label note s3))))"

section \<open>The verdict\<close>

text \<open>\<open>as_float\<close>: \<open>None\<close> for what \<open>float\<close> refuses.\<close>

definition as_float :: "pyval \<Rightarrow> pyval option" where
  "as_float v = (case py_float v of Inl e \<Rightarrow> None | Inr f \<Rightarrow> Some f)"

definition listed_confidence :: "string \<Rightarrow> pyval \<Rightarrow> py_error + pyval" where
  "listed_confidence short v =
     (let languages = (if truthy v then v else PList [])
      in case languages of
           PList vs \<Rightarrow>
             Inr (case find (\<lambda>v. case v of PDict d \<Rightarrow>
                         (let l = dict_get d ''language''
                          in short_language (Some (py_str (if truthy l then l else PStr []))) = short)
                       | _ \<Rightarrow> False) vs of
                    Some (PDict d) \<Rightarrow> dict_get d ''confidence''
                  | _ \<Rightarrow> PNone)
         | PStr t \<Rightarrow> Inr PNone
         | PDict d \<Rightarrow> Inr PNone
         | _ \<Rightarrow> Inl TypeError)"

definition target_confidence :: "pydict \<Rightarrow> string \<Rightarrow> py_error + pyval option" where
  "target_confidence d target =
     (case as_float (dict_get d ''target_confidence'') of
        Some f \<Rightarrow> Inr (Some f)
      | None \<Rightarrow> map_sum id as_float (listed_confidence (short_language (Some target)) (dict_get d ''languages'')))"

text \<open>\<open>x < m\<close> and \<open>(x or 0.0) >= m\<close> on a float that may be missing or NaN.\<close>

definition below :: "pyval option \<Rightarrow> rat \<Rightarrow> bool" where
  "below c m = (case c of None \<Rightarrow> True | Some f \<Rightarrow> num_less f (PFloat m))"

definition reaches :: "pyval option \<Rightarrow> rat \<Rightarrow> bool" where
  "reaches c m = (let f = (case c of None \<Rightarrow> PFloat 0 | Some f \<Rightarrow> f) in f \<noteq> PNan \<and> \<not> num_less f (PFloat m))"

text \<open>
  The gates of a decision the judge made: an outcome that keeps the language, or the target. \<open>synth\<close>
  are the synthesizer pool's labels, \<open>longest_foreign\<close> the longest foreign segment drained.
\<close>

definition switch_verdict ::
  "switch_settings \<Rightarrow> string \<Rightarrow> string list \<Rightarrow> string list option \<Rightarrow> lid_segment list \<Rightarrow> string \<Rightarrow> rat \<Rightarrow>
     pydict \<Rightarrow> py_error + (string + string)" where
  "switch_verdict st current labels synth segments transcript longest_foreign d =
     (let t = dict_get d ''target_language''
      in if \<not> truthy t \<or> t = PStr current then Inr (Inl ''stay'')
         else case t of
           PStr target \<Rightarrow>
             (if target \<notin> set labels then Inr (Inl ''gated:unsupported'')
              else if (case synth of None \<Rightarrow> False | Some ls \<Rightarrow> target \<notin> set ls) then Inr (Inl ''gated:no_synth'')
              else case target_confidence d target of
                Inl e \<Rightarrow> Inl e
              | Inr conf \<Rightarrow>
                  (if st_explicit_only st
                   then (if dict_get d ''request_status'' \<noteq> PStr ''switch'' \<or> \<not> truthy (dict_get d ''explicit_request'')
                         then Inr (Inl ''gated:not_explicit'') else Inr (Inr target))
                   else
                     (let corroborated = detector_corroborates (st_detector_prob st) (st_min_segment st) segments target;
                          bar = (if corroborated then st_corroborated st else st_min_confidence st);
                          bypass = truthy (dict_get d ''explicit_request'') \<and> reaches conf (st_explicit st)
                      in if below conf bar then Inr (Inl ''gated:low_confidence'')
                         else if \<not> bypass \<and> longest_foreign < st_min_segment st then Inr (Inl ''gated:short_audio'')
                         else if \<not> bypass \<and> is_alphanumeric_readout transcript then Inr (Inl ''gated:alphanumeric_readout'')
                         else Inr (Inr target))))
         | _ \<Rightarrow> Inr (Inl ''gated:unsupported''))"

section \<open>The decision\<close>

definition inflight_response_activity :: "lid_session \<Rightarrow> bool \<times> bool" where
  "inflight_response_activity s =
     (let c = la_call s; playing = in_playing (cl_input c)
      in (cl_response_in_pipeline c \<or> playing \<or> has_interruptible_mark_activity (cl_ledger c) \<or>
          has_pending_responses_excluding None (cl_im c) \<or> cl_llm_running c \<or> la_function_task s,
          playing))"

datatype switch_result = Skipped | Stayed string | Switched string "message list option"

definition emit_lid_decision ::
  "string \<Rightarrow> string \<Rightarrow> string \<Rightarrow> string option \<Rightarrow> pyval \<Rightarrow> string option \<Rightarrow> string option \<Rightarrow>
     lid_session \<Rightarrow> lid_session" where
  "emit_lid_decision outcome live active tag target switched_to note s =
     s\<lparr>la_events := la_events s @ [Decision_Event
        \<lparr>dr_outcome = outcome, dr_path = (if live \<noteq> [] then ''turn_boundary'' else ''idle_flush''), dr_active = active,
         dr_transcript = live, dr_tag = tag, dr_target = target, dr_switched_to = switched_to, dr_note = note\<rparr>]\<rparr>"

definition handoff_event :: "string \<Rightarrow> lid_event" where "handoff_event target = Handoff_Event target"

definition play_switch_handoff :: "switch_world \<Rightarrow> string \<Rightarrow> lid_session \<Rightarrow> lid_session" where
  "play_switch_handoff w target s =
     (if la_hangup s \<or> la_ended s \<or> sw_handoff w target = [] then s
      else record_lid_event (handoff_event target)
             (on_history (append_assistant (Some (sw_handoff w target)) None None None (Some ''handoff'') False) s))"

definition prepare_followup_generation :: "lid_session \<Rightarrow> message list option \<times> lid_session" where
  "prepare_followup_generation s =
     (if la_ended s \<or> la_hangup s then (None, s)
      else let (msgs, c) = get_copy (history_of s) in (Some msgs, on_history (\<lambda>_. c) s))"

definition directive_for :: "switch_world \<Rightarrow> string \<Rightarrow> string" where
  "directive_for w target = language_directive (sw_wording w) target"

definition correct_transcript ::
  "string \<Rightarrow> string \<Rightarrow> string \<Rightarrow> nat \<times> string option \<Rightarrow> lid_session \<Rightarrow> py_error + (bool \<times> lid_session)" where
  "correct_transcript live detector idle_text signature s =
     (if live \<noteq> []
      then (case replace_last_user (Some live) detector (history_of s) of
              Inl e \<Rightarrow> Inl e
            | Inr (replaced, c) \<Rightarrow> Inr (replaced, on_history (\<lambda>_. c) s))
      else if user_turn_signature (history_of s) \<noteq> signature then Inr (False, s)
      else Inr (True, on_history (append_user idle_text None) (s\<lparr>la_user_spoke := True\<rparr>)))"

text \<open>After the flip: the caller's words, the handoff line, and the ready or still to be generated reply.\<close>

definition finish_switch ::
  "switch_world \<Rightarrow> string \<Rightarrow> string \<Rightarrow> string \<Rightarrow> string \<Rightarrow> nat \<times> string option \<Rightarrow> string option \<Rightarrow>
     lid_session \<Rightarrow> (py_error + switch_result) \<times> lid_session" where
  "finish_switch w target live detector idle_text signature spec s =
     (case correct_transcript live detector idle_text signature s of
        Inl e \<Rightarrow> (Inl e, s)
      | Inr (corrected, s1) \<Rightarrow>
          (let s2 = play_switch_handoff w target s1;
               (followup, s3) = prepare_followup_generation s2
           in if spec = Some target \<and> corrected
              then (if la_hangup s2 \<or> la_ended s2 then (Inr (Switched target None), s2)
                    else case sw_speculation w of
                      None \<Rightarrow> (Inr (Switched target followup), s3)
                    | Some reply \<Rightarrow>
                        (if reply = [] then (Inr (Switched target followup), s3)
                         else (Inr (Switched target None),
                               on_history (append_assistant (Some reply) None None None
                                 (Some ''language_switch_followup'') False) s2)))
              else (Inr (Switched target followup), s3)))"

definition truncate_reply :: "switch_world \<Rightarrow> lid_session \<Rightarrow> lid_session" where
  "truncate_reply w s =
     (let c = (la_call s)\<lparr>cl_input := update_is_audio_being_played (sw_now w) False (cl_input (la_call s))\<rparr>
      in s\<lparr>la_call := cleanup_downstream_tasks (sw_now w) (sw_clear_ok w) (sw_turn_text w) c\<rparr>)"

text \<open>
  The flip itself, and what an applied switch writes; \<open>rest\<close> is what follows the record.
\<close>

definition flip_language ::
  "switch_world \<Rightarrow> string \<Rightarrow> (string \<Rightarrow> string option \<Rightarrow> string option \<Rightarrow> lid_session \<Rightarrow> lid_session) \<Rightarrow>
     (lid_session \<Rightarrow> (py_error + switch_result) \<times> lid_session) \<Rightarrow> lid_session \<Rightarrow>
     (py_error + switch_result) \<times> lid_session" where
  "flip_language w target emit rest s =
     (if target = la_language s
      then (Inr (Stayed ''gated:concurrent_switch''), emit ''gated:concurrent_switch'' None None s)
      else let note = directive_for w target
           in case switch_language (sw_reconnects w) (sw_now w) target ''lid_llm'' note s of
                (Some e, s1) \<Rightarrow> (Inl e, s1)
              | (None, s1) \<Rightarrow> rest (emit ''switched'' (Some target) (Some note) s1))"

definition apply_switch ::
  "switch_settings \<Rightarrow> switch_world \<Rightarrow> string \<Rightarrow> (string \<Rightarrow> string option \<Rightarrow> string option \<Rightarrow> lid_session \<Rightarrow> lid_session) \<Rightarrow>
     (lid_session \<Rightarrow> (py_error + switch_result) \<times> lid_session) \<Rightarrow> lid_session \<Rightarrow>
     (py_error + switch_result) \<times> lid_session" where
  "apply_switch st w target emit rest s =
     (let (busy, playing) = inflight_response_activity s;
          s1 = (case la_gate s of None \<Rightarrow> s | Some g \<Rightarrow> release_lid_playback_gate (sw_now w) g ''decided'' False s)
      in if la_function_call s1
         then flip_language w target emit (\<lambda>s. (Inr (Switched target None), s)) (s1\<lparr>la_gate := None\<rparr>)
         else let s2 = (if busy then (sw_cleaning w (truncate_reply w s1))\<lparr>la_gate := None\<rparr> else s1);
                  pause = (busy \<and> playing \<and> 0 < st_audio_gap_s st);
                  s3 = (if pause then sw_gap w s2 else s2)
              in if pause \<and> (la_ended s3 \<or> should_ignore_transcriber_input s3)
                 then (Inr (Stayed ''gated:hangup''), emit ''gated:hangup'' None None s3)
                 else flip_language w target emit rest (s3\<lparr>la_gate := None\<rparr>))"

definition late_arm ::
  "switch_settings \<Rightarrow> switch_world \<Rightarrow> int option \<Rightarrow> string option \<Rightarrow> string list \<Rightarrow> rat \<Rightarrow> lid_session \<Rightarrow> lid_session" where
  "late_arm st w sequence tag labels longest_foreign s =
     (let s1 = (case la_gate s of
                  Some g \<Rightarrow> if pg_task g \<in> set (la_done s) then release_lid_playback_gate (sw_now w) g ''decided'' True s else s
                | None \<Rightarrow> s)
      in if la_gate s1 = None \<and> truthy_str tag \<and> tag \<noteq> Some (la_language s1) \<and> or_empty tag \<in> set labels \<and>
            st_min_segment st \<le> longest_foreign \<and>
            (case la_synthesizer s1 of None \<Rightarrow> True | Some p \<Rightarrow> or_empty tag \<in> set (fst p))
         then arm_lid_playback_gate (st_max_hold st) (sw_now w) sequence (sw_task w) s1 else s1)"

definition speculation_target :: "switch_settings \<Rightarrow> string option \<Rightarrow> string list \<Rightarrow> lid_session \<Rightarrow> string option" where
  "speculation_target st tag labels s =
     (if st_speculates st \<and> \<not> st_explicit_only st \<and> truthy_str tag \<and> tag \<noteq> Some (la_language s) \<and>
         or_empty tag \<in> set labels \<and> map_of (la_prompts s) (or_empty tag) \<noteq> None \<and>
         (case la_synthesizer s of None \<Rightarrow> True | Some p \<Rightarrow> or_empty tag \<in> set (fst p))
      then tag else None)"

fun is_text :: "pyval \<Rightarrow> bool" where
  "is_text (PStr t) = True"
| "is_text v = False"

text \<open>From the judge's answer on: \<open>s\<close> is the session when the answer arrives.\<close>

definition judge_answer ::
  "switch_settings \<Rightarrow> switch_world \<Rightarrow> string list \<Rightarrow> string \<Rightarrow> string \<Rightarrow> string option \<Rightarrow> lid_segment list \<Rightarrow>
     string \<Rightarrow> nat \<times> string option \<Rightarrow> string option \<Rightarrow> pyval option \<Rightarrow> lid_session \<Rightarrow>
     (py_error + switch_result) \<times> lid_session" where
  "judge_answer st w labels live active tag segments transcript signature spec answer s =
     (let stay = (\<lambda>outcome target. (Inr (Stayed outcome), emit_lid_decision outcome live active tag target None None s))
      in case answer of
           None \<Rightarrow> stay ''timeout'' PNone
         | Some v \<Rightarrow>
             (if \<not> truthy v then stay ''no_decision'' PNone
              else case v of
                PDict d \<Rightarrow>
                  (let target = dict_get d ''target_language''; reasoning = dict_get d ''reasoning''
                   in if truthy reasoning \<and> \<not> is_text reasoning then (Inl AttributeError, s)
                      else if la_ended s \<or> should_ignore_transcriber_input s then stay ''gated:hangup'' target
                      else case switch_verdict st (la_language s) labels (map_option fst (la_synthesizer s)) segments
                                  transcript (foreign_max_segment (short_language (Some active)) segments) d of
                        Inl e \<Rightarrow> (Inl e, s)
                      | Inr (Inl outcome) \<Rightarrow> stay outcome target
                      | Inr (Inr label) \<Rightarrow>
                          apply_switch st w label
                            (\<lambda>outcome switched_to note. emit_lid_decision outcome live active tag target switched_to note)
                            (finish_switch w label live transcript
                               (if trailing_utterance_text segments = [] then transcript else trailing_utterance_text segments)
                               signature spec) s)
              | _ \<Rightarrow> (Inl AttributeError, s)))"

definition run_language_switch ::
  "switch_settings \<Rightarrow> switch_world \<Rightarrow> string \<Rightarrow> int option \<Rightarrow> string option \<Rightarrow> lid_session \<Rightarrow>
     (py_error + switch_result) \<times> lid_session" where
  "run_language_switch st w live sequence spawn s =
     (if \<not> la_switcher s \<or> la_ended s \<or> should_ignore_transcriber_input s then (Inr Skipped, s)
      else case la_transcriber s of
        None \<Rightarrow> (Inr Skipped, s)
      | Some (labels, listening) \<Rightarrow>
          (if length labels < 2 \<or> (spawn \<noteq> None \<and> spawn \<noteq> Some (la_language s)) then (Inr Skipped, s)
           else let settles = 0 < st_settle_ms st \<and> live \<noteq> [] \<and>
                      (case buffer_age_seconds (sw_now w) (la_buffer s) of None \<Rightarrow> True | Some a \<Rightarrow> a < st_settle_ms st / 1000);
                    s1 = (if settles then sw_settle w s else s);
                    segments = lb_segments (la_buffer s1);
                    ((transcript, tag), drained) = take_turn_transcript (la_buffer s1);
                    s2 = s1\<lparr>la_buffer := drained\<rparr>
                in if transcript = [] then (Inr Skipped, s2)
                   else let active = la_language s2;
                            s3 = late_arm st w sequence tag labels (foreign_max_segment (short_language (Some active)) segments) s2;
                            question = \<lparr>jq_detector = transcript, jq_live = live, jq_active = active,
                                        jq_last_agent = last_assistant_content (history_of s3)\<rparr>
                        in judge_answer st w labels live active tag segments transcript (user_turn_signature (history_of s2))
                             (speculation_target st tag labels s3) (sw_judge w question) (sw_deciding w s3)))"

text \<open>The handler logs an exception; what it returns is the follow-up it generates outside the lock.\<close>

definition handle_language_switch ::
  "switch_settings \<Rightarrow> switch_world \<Rightarrow> string \<Rightarrow> int option \<Rightarrow> string option \<Rightarrow> lid_session \<Rightarrow>
     message list option \<times> lid_session" where
  "handle_language_switch st w live sequence spawn s =
     (case run_language_switch st w live sequence spawn s of
        (Inr (Switched target followup), s') \<Rightarrow> (followup, s')
      | (_, s') \<Rightarrow> (None, s'))"

text \<open>The hook of a turn: no task without the feature; a mismatch arms the gate with the new task.\<close>

definition spawn_language_switch_decision ::
  "switch_settings \<Rightarrow> rat \<Rightarrow> nat \<Rightarrow> int option \<Rightarrow> lid_session \<Rightarrow> nat option \<times> lid_session" where
  "spawn_language_switch_decision st now task sequence s =
     (if \<not> la_switcher s then (None, s)
      else if detector_language_mismatch (st_min_segment st) (map_option fst (la_transcriber s))
                (map_option fst (la_synthesizer s)) (la_language s) (lb_segments (la_buffer s))
      then (Some task, arm_lid_playback_gate (st_max_hold st) now sequence task s)
      else (Some task, s))"

end
