(* ===== verification/Language_Runs.thy ===== *)
theory Language_Runs
  imports Language_Switch
begin

text \<open>
  What a language switch rests on and leaves behind, what every decision records, how long the
  playback gate can hold a turn's audio, and the language note of the system prompt.
\<close>

section \<open>A switch and its evidence\<close>

text \<open>What a switch decides about a session, and what its bookkeeping leaves alone.\<close>

definition switch_core ::
  "lid_session \<Rightarrow> string \<times> playback_gate option \<times> (string list \<times> string) option \<times> (string list \<times> string) option \<times> string" where
  "switch_core s = (la_language s, la_gate s, la_transcriber s, la_synthesizer s, la_system_prompt s)"

lemma core_simps [simp]:
  "switch_core (on_history f s) = switch_core s"
  "switch_core (emit_lid_decision a b c d e f' g s) = switch_core s"
  "switch_core (record_lid_event e' s) = switch_core s"
  "switch_core (s\<lparr>la_user_spoke := x\<rparr>) = switch_core s"
  by (simp_all add: switch_core_def on_history_def emit_lid_decision_def record_lid_event_def)

lemma core_followup [simp]: "switch_core (snd (prepare_followup_generation s)) = switch_core s"
  by (simp add: prepare_followup_generation_def split_beta)

lemma core_handoff [simp]: "switch_core (play_switch_handoff w t s) = switch_core s"
  by (simp add: play_switch_handoff_def)

lemma core_correct: "correct_transcript live x i sig s = Inr (b, s') \<Longrightarrow> switch_core s' = switch_core s"
  by (auto simp: correct_transcript_def split: if_splits sum.splits)

lemma finish_core:
  assumes "finish_switch w target live x i sig spec s = (Inr r, s')"
  shows "switch_core s' = switch_core s \<and> (\<exists>fu. r = Switched target fu)"
  using assms core_followup
  by (auto simp: finish_switch_def Let_def split_beta dest!: core_correct split: sum.splits option.splits if_splits)

lemma switch_language_core:
  assumes "switch_language reconnects now label by_whom note s = (None, s')"
  shows "\<exists>base. switch_core s' = (label, la_gate s, map_option (\<lambda>p. (fst p, label)) (la_transcriber s),
    map_option (\<lambda>p. (fst p, label)) (la_synthesizer s), base @ [CHR 0x0A, CHR 0x0A] @ note)"
proof -
  have pool: "map_sum id Some (pool_switch r label p) = Inr q \<Longrightarrow> q = Some (fst p, label)" for r p q
    by (auto simp: pool_switch_def split: if_splits)
  show ?thesis
    using assms
    by (cases "la_transcriber s"; cases "la_synthesizer s")
      (auto simp: switch_language_def switch_core_def apply_language_directive_def Let_def on_history_def
        dest!: pool split: sum.splits)
qed

text \<open>The bookkeeping of a decision: the record, and what follows it.\<close>

definition plain_emit :: "(string \<Rightarrow> string option \<Rightarrow> string option \<Rightarrow> lid_session \<Rightarrow> lid_session) \<Rightarrow> bool" where
  "plain_emit emit = (\<forall>a b c s. switch_core (emit a b c s) = switch_core s)"

definition plain_rest :: "string \<Rightarrow> (lid_session \<Rightarrow> (py_error + switch_result) \<times> lid_session) \<Rightarrow> bool" where
  "plain_rest target rest =
     (\<forall>s r s'. rest s = (Inr r, s') \<longrightarrow> switch_core s' = switch_core s \<and> (\<exists>fu. r = Switched target fu))"

lemma flip_core:
  assumes "flip_language w target emit rest s = (Inr (Switched t fu), s')" and "plain_emit emit" and "plain_rest target rest"
  shows "t = target \<and> la_language s \<noteq> target \<and>
    (\<exists>base. switch_core s' = (target, la_gate s, map_option (\<lambda>p. (fst p, target)) (la_transcriber s),
       map_option (\<lambda>p. (fst p, target)) (la_synthesizer s), base @ [CHR 0x0A, CHR 0x0A] @ directive_for w target))"
proof -
  have ne: "target \<noteq> la_language s" using assms(1) by (auto simp: flip_language_def)
  then obtain s1 where s1: "switch_language (sw_reconnects w) (sw_now w) target ''lid_llm'' (directive_for w target) s = (None, s1)"
    and r: "rest (emit ''switched'' (Some target) (Some (directive_for w target)) s1) = (Inr (Switched t fu), s')"
    using assms(1) by (auto simp: flip_language_def Let_def split: prod.splits option.splits)
  have "switch_core s' = switch_core s1 \<and> t = target"
    using r assms(2,3) by (fastforce simp: plain_rest_def plain_emit_def)
  then show ?thesis using switch_language_core [OF s1] ne by auto
qed

text \<open>What other tasks do while a decision waits never replaces the pools.\<close>

definition same_pools :: "lid_session \<Rightarrow> lid_session \<Rightarrow> bool" where
  "same_pools s s' =
     (map_option fst (la_transcriber s') = map_option fst (la_transcriber s) \<and>
      map_option fst (la_synthesizer s') = map_option fst (la_synthesizer s))"

definition steady :: "switch_world \<Rightarrow> bool" where
  "steady w = (\<forall>s. same_pools s (sw_settle w s) \<and> same_pools s (sw_deciding w s) \<and>
                    same_pools s (sw_cleaning w s) \<and> same_pools s (sw_gap w s))"

lemma same_pools_simps [simp]:
  "same_pools s s" "same_pools s (s\<lparr>la_gate := g\<rparr>)" "same_pools s (s\<lparr>la_buffer := b\<rparr>)"
  "same_pools s (release_lid_playback_gate now p why c s)" "same_pools s (truncate_reply w s)"
  "same_pools s (arm_lid_playback_gate mh now i k s)"
  by (simp_all add: same_pools_def release_lid_playback_gate_def record_lid_event_def truncate_reply_def Let_def
      arm_lid_playback_gate_def split: option.split)

lemma same_pools_trans: "same_pools s t \<Longrightarrow> same_pools t u \<Longrightarrow> same_pools s u"
  by (simp add: same_pools_def)

lemma late_arm_pools: "same_pools s (late_arm st w i tag labels x s)"
proof -
  have "same_pools s (arm_lid_playback_gate mh now i k (release_lid_playback_gate now' p o' c s))" for mh now k now' p o' c
    by (rule same_pools_trans [OF same_pools_simps(4) same_pools_simps(6)])
  then show ?thesis by (simp add: late_arm_def Let_def split: option.split)
qed

lemma apply_core:
  assumes "apply_switch st w target emit rest s = (Inr (Switched t fu), s')" and "plain_emit emit" and "plain_rest target rest"
    and "steady w"
  shows "t = target \<and> (\<exists>u base. same_pools s u \<and> la_language u \<noteq> target \<and>
    switch_core s' = (target, None, map_option (\<lambda>p. (fst p, target)) (la_transcriber u),
       map_option (\<lambda>p. (fst p, target)) (la_synthesizer u), base @ [CHR 0x0A, CHR 0x0A] @ directive_for w target))"
proof -
  define s1 where "s1 = (case la_gate s of None \<Rightarrow> s | Some g \<Rightarrow> release_lid_playback_gate (sw_now w) g ''decided'' False s)"
  have p1: "same_pools s s1" by (simp add: s1_def split: option.split)
  obtain busy playing where bp: "inflight_response_activity s = (busy, playing)" by fastforce
  show ?thesis
  proof (cases "la_function_call s1")
    case True
    then have "flip_language w target emit (\<lambda>s. (Inr (Switched target None), s)) (s1\<lparr>la_gate := None\<rparr>) = (Inr (Switched t fu), s')"
      using assms(1) by (simp add: apply_switch_def bp s1_def)
    from flip_core [OF this assms(2)] show ?thesis
      using p1 by (auto simp: plain_rest_def intro!: exI [of _ s1])
  next
    case False
    define s2 where "s2 = (if busy then (sw_cleaning w (truncate_reply w s1))\<lparr>la_gate := None\<rparr> else s1)"
    define s3 where "s3 = (if busy \<and> playing \<and> 0 < st_audio_gap_s st then sw_gap w s2 else s2)"
    have "same_pools s1 s2"
      using assms(4) by (auto simp: s2_def steady_def intro: same_pools_trans [OF _ same_pools_simps(2)] same_pools_trans [OF same_pools_simps(5)])
    then have "same_pools s s3" using assms(4) p1 by (auto simp: s3_def steady_def intro: same_pools_trans)
    then have p3: "same_pools s (s3\<lparr>la_gate := None\<rparr>)" by (rule same_pools_trans) simp
    have "flip_language w target emit rest (s3\<lparr>la_gate := None\<rparr>) = (Inr (Switched t fu), s')"
      using assms(1) False by (auto simp: apply_switch_def bp s1_def [symmetric] s2_def s3_def Let_def split: if_splits)
    from flip_core [OF this assms(2,3)] show ?thesis using p3 by auto
  qed
qed

text \<open>The positive form of the gates, over the drained segments.\<close>

definition explicit_verdict :: "pydict \<Rightarrow> bool" where
  "explicit_verdict d = (dict_get d ''request_status'' = PStr ''switch'' \<and> truthy (dict_get d ''explicit_request''))"

definition ambient_evidence :: "switch_settings \<Rightarrow> string \<Rightarrow> lid_segment list \<Rightarrow> string \<Rightarrow> pydict \<Rightarrow> string \<Rightarrow> bool" where
  "ambient_evidence st active segments transcript d target =
     (\<exists>c. target_confidence d target = Inr (Some c) \<and>
       (c = PNan \<or> \<not> num_less c (PFloat (st_min_confidence st)) \<or>
        (\<not> num_less c (PFloat (st_corroborated st)) \<and>
         (\<exists>g \<in> set segments. short_language (ls_lang g) = short_language (Some target) \<and> st_min_segment st \<le> ls_audio_s g \<and>
            (\<exists>p. ls_prob g = Some p \<and> st_detector_prob st \<le> p)))) \<and>
       ((truthy (dict_get d ''explicit_request'') \<and> c \<noteq> PNan \<and> \<not> num_less c (PFloat (st_explicit st))) \<or>
        ((\<exists>g \<in> set segments. short_language (ls_lang g) \<notin> {[], active} \<and> st_min_segment st \<le> ls_audio_s g) \<and>
         \<not> is_alphanumeric_readout transcript)))"

lemma longest_in: "0 < m \<Longrightarrow> m \<le> longest xs \<Longrightarrow> \<exists>x \<in> set xs. m \<le> x"
proof -
  have "foldl max x ys \<in> set (x # ys)" for x :: rat and ys
  proof (induction ys arbitrary: x)
    case (Cons y ys)
    then show ?case using Cons [of "max x y"] by (auto simp: max_def split: if_splits)
  qed simp
  then have pick: "longest xs \<in> set xs" if "xs \<noteq> []" using that by (cases xs) (simp_all add: longest_def)
  assume "0 < m" and "m \<le> longest xs"
  then show ?thesis using pick by (cases "xs = []") (auto simp: longest_def)
qed

lemma verdict_evidence:
  assumes "switch_verdict st current labels synth segments transcript (foreign_max_segment active segments) d = Inr (Inr target)"
    and "0 < st_min_segment st"
  shows "dict_get d ''target_language'' = PStr target \<and> target \<in> set labels \<and> (\<forall>ls. synth = Some ls \<longrightarrow> target \<in> set ls) \<and>
    (if st_explicit_only st then explicit_verdict d else ambient_evidence st active segments transcript d target)"
proof -
  have sub: "\<exists>g \<in> set segments. short_language (ls_lang g) \<notin> {[], active} \<and> st_min_segment st \<le> ls_audio_s g"
    if "\<not> foreign_max_segment active segments < st_min_segment st"
    using longest_in [OF assms(2), of "map ls_audio_s (filter (\<lambda>g. short_language (ls_lang g) \<notin> {[], active}) segments)"] that
    by (auto simp: foreign_max_segment_def)
  have target: "dict_get d ''target_language'' = PStr target" "target \<in> set labels" "\<forall>ls. synth = Some ls \<longrightarrow> target \<in> set ls"
    using assms(1) by (auto simp: switch_verdict_def Let_def split: if_splits pyval.splits option.splits sum.splits)
  obtain conf where conf: "target_confidence d target = Inr conf"
    using assms(1) target by (auto simp: switch_verdict_def Let_def split: if_splits sum.splits)
  show ?thesis
  proof (cases "st_explicit_only st")
    case True
    then show ?thesis using assms(1) target by (auto simp: switch_verdict_def Let_def explicit_verdict_def conf split: if_splits)
  next
    case False
    let ?co = "detector_corroborates (st_detector_prob st) (st_min_segment st) segments target"
    let ?by = "truthy (dict_get d ''explicit_request'') \<and> reaches conf (st_explicit st)"
    have open_gates: "\<not> below conf (if ?co then st_corroborated st else st_min_confidence st)"
      "?by \<or> \<not> foreign_max_segment active segments < st_min_segment st \<and> \<not> is_alphanumeric_readout transcript"
      using assms(1) target False by (auto simp: switch_verdict_def Let_def conf split: if_splits)
    then obtain c where c: "conf = Some c" by (auto simp: below_def split: option.splits)
    have "?co \<Longrightarrow> \<exists>g \<in> set segments. short_language (ls_lang g) = short_language (Some target) \<and> st_min_segment st \<le> ls_audio_s g \<and>
            (\<exists>p. ls_prob g = Some p \<and> st_detector_prob st \<le> p)"
      by (auto simp: detector_corroborates_def list_ex_iff split: option.splits)
    then have "c = PNan \<or> \<not> num_less c (PFloat (st_min_confidence st)) \<or>
        (\<not> num_less c (PFloat (st_corroborated st)) \<and>
         (\<exists>g \<in> set segments. short_language (ls_lang g) = short_language (Some target) \<and> st_min_segment st \<le> ls_audio_s g \<and>
            (\<exists>p. ls_prob g = Some p \<and> st_detector_prob st \<le> p)))"
      using open_gates(1) by (auto simp: c below_def split: if_splits)
    moreover have "(truthy (dict_get d ''explicit_request'') \<and> c \<noteq> PNan \<and> \<not> num_less c (PFloat (st_explicit st))) \<or>
        ((\<exists>g \<in> set segments. short_language (ls_lang g) \<notin> {[], active} \<and> st_min_segment st \<le> ls_audio_s g) \<and>
         \<not> is_alphanumeric_readout transcript)"
      using open_gates(2) sub by (auto simp: c reaches_def Let_def)
    ultimately have "ambient_evidence st active segments transcript d target" using conf c by (auto simp: ambient_evidence_def)
    then show ?thesis using target False by simp
  qed
qed

lemma answer_core:
  assumes "judge_answer st w labels live active tag segments x sig spec answer s = (Inr (Switched t fu), s')"
    and "steady w" and "0 < st_min_segment st" and "map_option fst (la_transcriber s) = Some labels"
  shows "(\<exists>d. answer = Some (PDict d) \<and> dict_get d ''target_language'' = PStr t \<and>
      (if st_explicit_only st then explicit_verdict d
       else ambient_evidence st (short_language (Some active)) segments x d t)) \<and>
    \<not> la_ended s \<and> \<not> should_ignore_transcriber_input s \<and>
    la_language s' = t \<and> la_gate s' = None \<and> la_transcriber s' = Some (labels, t) \<and> t \<in> set labels \<and>
    (\<forall>ls a. la_synthesizer s' = Some (ls, a) \<longrightarrow> a = t \<and> t \<in> set ls) \<and>
    (\<exists>base. la_system_prompt s' = base @ [CHR 0x0A, CHR 0x0A] @ directive_for w t)"
proof -
  obtain d where d: "answer = Some (PDict d)" "\<not> la_ended s" "\<not> should_ignore_transcriber_input s"
    using assms(1) by (auto simp: judge_answer_def Let_def split: option.splits if_splits pyval.splits)
  obtain target rest emit where
    v: "switch_verdict st (la_language s) labels (map_option fst (la_synthesizer s)) segments x
          (foreign_max_segment (short_language (Some active)) segments) d = Inr (Inr target)"
    and a: "apply_switch st w target emit rest s = (Inr (Switched t fu), s')"
    and e: "plain_emit emit" and r: "plain_rest target rest"
  proof -
    obtain target where v: "switch_verdict st (la_language s) labels (map_option fst (la_synthesizer s)) segments x
          (foreign_max_segment (short_language (Some active)) segments) d = Inr (Inr target)"
      using assms(1) d by (auto simp: judge_answer_def Let_def split: if_splits sum.splits)
    moreover have "plain_rest target (finish_switch w target live x idle sig spec)" for idle
      using finish_core by (auto simp: plain_rest_def)
    moreover have "plain_emit (\<lambda>outcome switched_to note. emit_lid_decision outcome live active tag p switched_to note)" for p
      by (simp add: plain_emit_def)
    ultimately show ?thesis
      using assms(1) d that by (fastforce simp: judge_answer_def Let_def split: if_splits)
  qed
  from apply_core [OF a e r assms(2)] obtain u base where t: "t = target" and u: "same_pools s u"
    and core: "switch_core s' = (target, None, map_option (\<lambda>p. (fst p, target)) (la_transcriber u),
       map_option (\<lambda>p. (fst p, target)) (la_synthesizer u), base @ [CHR 0x0A, CHR 0x0A] @ directive_for w target)"
    by blast
  have pools: "la_transcriber s' = Some (labels, t)" "la_synthesizer s' = map_option (\<lambda>p. (fst p, t)) (la_synthesizer u)"
    using core u assms(4) t by (auto simp: switch_core_def same_pools_def)
  have synth: "\<forall>ls. map_option fst (la_synthesizer u) = Some ls \<longrightarrow> t \<in> set ls"
    using verdict_evidence [OF v assms(3)] u t by (simp add: same_pools_def)
  then have "\<forall>ls a. la_synthesizer s' = Some (ls, a) \<longrightarrow> a = t \<and> t \<in> set ls" using pools(2) by auto
  then show ?thesis
    using core verdict_evidence [OF v assms(3)] d pools t by (auto simp: switch_core_def split: if_splits)
qed

lemma wait_pools:
  assumes "steady w" and "map_option fst (la_transcriber s) = Some labels"
  shows "map_option fst (la_transcriber (sw_settle w s)) = Some labels" "map_option fst (la_transcriber (sw_deciding w s)) = Some labels"
  using assms by (simp_all add: steady_def same_pools_def)


section \<open>The system prompt's language note\<close>

text \<open>The marker has no proper overlap with itself, so the first note starts where it was written.\<close>

lemma note_marker_length: "length note_marker = 19"
  by code_simp

lemma find_marker: "py_find note_marker b = None \<Longrightarrow> py_find note_marker (b @ note_marker @ r) = Some (length b)"
proof (induction b)
  case Nil
  then show ?case by (cases "note_marker @ r") (auto simp: note_marker_def LANGUAGE_NOTE_def)
next
  case (Cons c b)
  have n: "\<not> prefix note_marker (c # b)" "py_find note_marker b = None" using Cons.prems by (auto split: if_splits)
  have "\<not> prefix note_marker (c # b @ note_marker @ r)"
  proof
    assume p: "prefix note_marker (c # b @ note_marker @ r)"
    have len: "length (c # b) < length note_marker"
    proof (rule ccontr)
      assume "\<not> length (c # b) < length note_marker"
      then have "prefix note_marker (c # b)" using p prefix_length_prefix [of note_marker "c # b @ note_marker @ r" "c # b"] by simp
      then show False using n by simp
    qed
    define k where "k = length (c # b)"
    have k: "0 < k" "k < 19" using len note_marker_length by (simp_all add: k_def)
    have "take (19 - k) note_marker = drop k note_marker"
    proof -
      obtain zs where zs: "(c # b) @ note_marker @ r = note_marker @ zs" using p by (auto simp: prefix_def)
      have "take 19 ((c # b) @ note_marker @ r) = note_marker" unfolding zs by (simp add: note_marker_length)
      then have "drop k note_marker = drop k (take 19 ((c # b) @ note_marker @ r))" by simp
      also have "\<dots> = take (19 - k) (note_marker @ r)" by (simp only: drop_take) (simp add: k_def)
      also have "\<dots> = take (19 - k) note_marker" by (simp add: note_marker_length)
      finally show ?thesis by simp
    qed
    moreover have "\<forall>k \<in> set [1..<19]. take (19 - k) note_marker \<noteq> drop k note_marker" by code_simp
    ultimately show False using k by auto
  qed
  then show ?case using Cons.IH [OF n(2)] by simp
qed

text \<open>Whatever was installed before, one note stands at the end.\<close>

definition noted :: "switch_world \<Rightarrow> string \<Rightarrow> string \<Rightarrow> string" where
  "noted w base label = base @ [CHR 0x0A, CHR 0x0A] @ directive_for w label"

lemma without_noted: "py_find note_marker base = None \<Longrightarrow> without_note (noted w base label) = base"
  using find_marker [of base "sw_wording w label"]
  by (simp add: without_note_def noted_def directive_for_def language_directive_def note_marker_def)

lemma note_free: "py_find note_marker (without_note p) = None"
proof (cases "py_find note_marker p")
  case (Some i)
  show ?thesis
  proof (rule ccontr)
    assume "py_find note_marker (without_note p) \<noteq> None"
    then obtain j where j: "py_find note_marker (take i p) = Some j" by (auto simp: without_note_def Some)
    have "take (length note_marker) (drop j (take i p)) = note_marker" "j + length note_marker \<le> i"
      using py_find_Some [OF j] by auto
    then have "take (length note_marker) (drop j p) = note_marker" by (simp add: drop_take)
    then have "prefix note_marker (drop j p)" by (metis take_is_prefix)
    moreover have "j < i" using \<open>j + length note_marker \<le> i\<close> note_marker_length by simp
    ultimately show False using py_find_least [OF Some] by blast
  qed
qed (simp add: without_note_def)

definition note_languages :: "switch_world \<Rightarrow> string list \<Rightarrow> lid_session \<Rightarrow> lid_session" where
  "note_languages w = fold (\<lambda>l s. apply_language_directive l (directive_for w l) s)"

lemma note_one:
  "la_prompts (apply_language_directive l n s) = la_prompts s"
  "la_system_prompt (apply_language_directive l (directive_for w l) s) =
     noted w (case map_of (la_prompts s) l of Some b \<Rightarrow> b | None \<Rightarrow> without_note (la_system_prompt s)) l"
  by (simp_all add: apply_language_directive_def Let_def on_history_def noted_def)

lemma note_prompts: "la_prompts (note_languages w ls s) = la_prompts s"
  by (induction ls arbitrary: s) (simp_all add: note_languages_def note_one)

lemma note_base:
  "\<forall>l \<in> set ls. map_of (la_prompts s) l = None \<Longrightarrow> without_note (la_system_prompt (note_languages w ls s)) = without_note (la_system_prompt s)"
proof (induction ls arbitrary: s)
  case (Cons l ls)
  have "without_note (la_system_prompt (apply_language_directive l (directive_for w l) s)) = without_note (la_system_prompt s)"
    using Cons.prems by (simp add: note_one without_noted note_free)
  then show ?case
    using Cons.IH [of "apply_language_directive l (directive_for w l) s"] Cons.prems by (simp add: note_languages_def note_one)
qed (simp add: note_languages_def)

lemma note_history:
  assumes "messages (history_of s) \<noteq> []" and "msg_role (messages (history_of s) ! 0) = SYSTEM"
  shows "msg_content (messages (history_of (apply_language_directive l n s)) ! 0) =
    Some (la_system_prompt (apply_language_directive l n s))"
  using assms
  by (cases "messages (history_of s)")
    (simp_all add: apply_language_directive_def Let_def on_history_def history_of_def update_system_prompt_def update_nth_def)

lemma note_rows:
  "map msg_role (messages (history_of (note_languages w ls s))) = map msg_role (messages (history_of s))"
proof (induction ls arbitrary: s)
  case (Cons l ls)
  have "map msg_role (messages (history_of (apply_language_directive l n s))) = map msg_role (messages (history_of s))" for n
    by (cases "messages (history_of s)")
      (simp_all add: apply_language_directive_def Let_def on_history_def history_of_def update_system_prompt_def update_nth_def)
  then show ?case using Cons.IH by (simp add: note_languages_def)
qed (simp add: note_languages_def)


section \<open>One record per decision\<close>

fun is_decision :: "lid_event \<Rightarrow> bool" where
  "is_decision (Decision_Event r) = True"
| "is_decision e = False"

definition decisions :: "lid_session \<Rightarrow> lid_event list" where
  "decisions s = filter is_decision (la_events s)"

text \<open>What other tasks do while a decision waits: they may record gates, not decisions.\<close>

definition quiet :: "switch_world \<Rightarrow> bool" where
  "quiet w = (\<forall>s. decisions (sw_settle w s) = decisions s \<and> decisions (sw_deciding w s) = decisions s \<and>
                   decisions (sw_cleaning w s) = decisions s \<and> decisions (sw_gap w s) = decisions s)"

lemma decisions_simps [simp]:
  "decisions (on_history f s) = decisions s" "decisions (s\<lparr>la_gate := g\<rparr>) = decisions s"
  "decisions (s\<lparr>la_buffer := b\<rparr>) = decisions s" "decisions (s\<lparr>la_user_spoke := x\<rparr>) = decisions s"
  "decisions (truncate_reply w s) = decisions s"
  "decisions (release_lid_playback_gate now p why c s) = decisions s"
  "decisions (arm_lid_playback_gate mh now i k s) = decisions s"
  "decisions (snd (prepare_followup_generation s)) = decisions s"
  "decisions (play_switch_handoff w t s) = decisions s"
  by (simp_all add: decisions_def on_history_def truncate_reply_def Let_def release_lid_playback_gate_def record_lid_event_def
      arm_lid_playback_gate_def prepare_followup_generation_def play_switch_handoff_def handoff_event_def split_beta
      split: option.split)

lemma decisions_emit [simp]:
  "decisions (emit_lid_decision a b c d e f g s) = decisions s @ [Decision_Event
     \<lparr>dr_outcome = a, dr_path = (if b \<noteq> [] then ''turn_boundary'' else ''idle_flush''), dr_active = c,
      dr_transcript = b, dr_tag = d, dr_target = e, dr_switched_to = f, dr_note = g\<rparr>]"
  by (simp add: decisions_def emit_lid_decision_def)

lemma decisions_switch: "decisions (snd (switch_language r now l b n s)) = decisions s"
  by (simp add: switch_language_def Let_def decisions_def apply_language_directive_def on_history_def split: option.split sum.split)

lemma decisions_correct: "correct_transcript live x i sig s = Inr (b, s') \<Longrightarrow> decisions s' = decisions s"
  by (auto simp: correct_transcript_def split: if_splits sum.splits)

lemma decisions_finish: "decisions (snd (finish_switch w t live x i sig spec s)) = decisions s"
  by (auto simp: finish_switch_def Let_def split_beta decisions_correct split: sum.split option.split)

lemma decisions_late_arm: "decisions (late_arm st w i tag labels x s) = decisions s"
  by (simp add: late_arm_def Let_def split: option.split)

text \<open>The record a result stands for.\<close>

fun recorded :: "switch_result \<Rightarrow> lid_decision \<Rightarrow> bool" where
  "recorded Skipped r = False"
| "recorded (Stayed outcome) r = (dr_outcome r = outcome \<and> dr_switched_to r = None)"
| "recorded (Switched t followup) r = (dr_outcome r = ''switched'' \<and> dr_switched_to r = Some t)"

definition one_more :: "string \<Rightarrow> lid_session \<Rightarrow> switch_result \<Rightarrow> lid_session \<Rightarrow> bool" where
  "one_more live s r s' = (\<exists>d. decisions s' = decisions s @ [Decision_Event d] \<and> recorded r d \<and> dr_transcript d = live)"

lemma flip_one:
  assumes "flip_language w target (\<lambda>o' t n. emit_lid_decision o' live c tg p t n) rest s = (Inr r, s')"
    and "\<And>x q x'. rest x = (Inr q, x') \<Longrightarrow> decisions x' = decisions x \<and> (\<exists>fu. q = Switched target fu)"
  shows "one_more live s r s'"
proof (cases "target = la_language s")
  case True
  then show ?thesis using assms(1) by (auto simp: flip_language_def one_more_def)
next
  case False
  then obtain s1 where "switch_language (sw_reconnects w) (sw_now w) target ''lid_llm'' (directive_for w target) s = (None, s1)"
    "rest (emit_lid_decision ''switched'' live c tg p (Some target) (Some (directive_for w target)) s1) = (Inr r, s')"
    using assms(1) by (auto simp: flip_language_def Let_def split: prod.splits option.splits)
  then show ?thesis
    using assms(2) decisions_switch [of "sw_reconnects w" "sw_now w" target "''lid_llm''" "directive_for w target" s]
    by (fastforce simp: one_more_def)
qed

lemma apply_one:
  assumes "apply_switch st w target (\<lambda>o' t n. emit_lid_decision o' live c tg p t n) rest s = (Inr r, s')" and "quiet w"
    and rest: "\<And>x q x'. rest x = (Inr q, x') \<Longrightarrow> decisions x' = decisions x \<and> (\<exists>fu. q = Switched target fu)"
  shows "one_more live s r s'"
proof -
  let ?emit = "\<lambda>o' t n. emit_lid_decision o' live c tg p t n"
  define s1 where "s1 = (case la_gate s of None \<Rightarrow> s | Some g \<Rightarrow> release_lid_playback_gate (sw_now w) g ''decided'' False s)"
  have d1: "decisions s1 = decisions s" by (simp add: s1_def split: option.split)
  obtain busy playing where bp: "inflight_response_activity s = (busy, playing)" by fastforce
  define s2 where "s2 = (if busy then (sw_cleaning w (truncate_reply w s1))\<lparr>la_gate := None\<rparr> else s1)"
  define s3 where "s3 = (if busy \<and> playing \<and> 0 < st_audio_gap_s st then sw_gap w s2 else s2)"
  have d3: "decisions s3 = decisions s" using assms(2) d1 by (simp add: s3_def s2_def quiet_def)
  consider (call) "flip_language w target ?emit (\<lambda>s. (Inr (Switched target None), s)) (s1\<lparr>la_gate := None\<rparr>) = (Inr r, s')"
    | (hangup) "r = Stayed ''gated:hangup''" "s' = ?emit ''gated:hangup'' None None s3"
    | (flip) "flip_language w target ?emit rest (s3\<lparr>la_gate := None\<rparr>) = (Inr r, s')"
    using assms(1) by (auto simp: apply_switch_def bp s1_def [symmetric] s2_def s3_def Let_def split: if_splits)
  then show ?thesis
  proof cases
    case call
    then show ?thesis using flip_one [OF call] d1 by (simp add: one_more_def)
  next
    case hangup
    then show ?thesis by (simp add: one_more_def d3)
  next
    case flip
    then show ?thesis using flip_one [OF flip rest] d3 by (simp add: one_more_def)
  qed
qed

lemma answer_one:
  assumes "judge_answer st w labels live active tag segments x sig spec answer s = (Inr r, s')" and "quiet w"
  shows "one_more live s r s'"
proof -
  have "decisions b = decisions a \<and> (\<exists>fu. q = Switched t fu)" if "finish_switch w t live x i sig spec a = (Inr q, b)" for a b q t i
    using finish_core [OF that] decisions_finish [of w t live x i sig spec a] that by simp
  note app = apply_one [OF _ assms(2) this]
  show ?thesis
    using assms(1)
    by (auto simp: judge_answer_def Let_def one_more_def [of _ _ "Stayed _"] dest: app
        split: option.splits if_splits pyval.splits sum.splits)
qed


section \<open>How long the gate holds\<close>

datatype gate_step =
  Arm "int option" nat
| Poll "int option"
| Record_Held
| Open_Gate
| Task_Ends nat
| Elsewhere "lid_session \<Rightarrow> lid_session"

text \<open>A step at a clock reading; what happens elsewhere leaves the gate and the event list alone.\<close>

fun gate_do :: "switch_settings \<Rightarrow> rat \<times> gate_step \<Rightarrow> lid_session \<Rightarrow> lid_session" where
  "gate_do st (now, Arm i task) s = arm_lid_playback_gate (st_max_hold st) now i task s"
| "gate_do st (now, Poll i) s = snd (lid_playback_gate_holds now i s)"
| "gate_do st (now, Record_Held) s =
     (case la_gate s of None \<Rightarrow> s | Some g \<Rightarrow> release_lid_playback_gate now g ''decided'' False s)"
| "gate_do st (now, Open_Gate) s = s\<lparr>la_gate := None\<rparr>"
| "gate_do st (now, Task_Ends task) s = s\<lparr>la_done := task # la_done s\<rparr>"
| "gate_do st (now, Elsewhere f) s = (f s)\<lparr>la_gate := la_gate s, la_events := la_events s\<rparr>"

definition gate_run :: "switch_settings \<Rightarrow> (rat \<times> gate_step) list \<Rightarrow> lid_session \<Rightarrow> lid_session" where
  "gate_run st = fold (gate_do st)"

fun is_gate :: "lid_event \<Rightarrow> bool" where
  "is_gate (Gate_Event a b c d) = True"
| "is_gate e = False"

fun is_arm :: "rat \<times> gate_step \<Rightarrow> bool" where
  "is_arm (t, Arm i k) = True"
| "is_arm x = False"

definition gate_records :: "lid_session \<Rightarrow> nat" where
  "gate_records s = length (filter is_gate (la_events s))"

definition gate_due :: "lid_session \<Rightarrow> nat" where
  "gate_due s = (case la_gate s of None \<Rightarrow> 0 | Some g \<Rightarrow> if pg_recorded g then 0 else 1)"

definition gate_armed :: "switch_settings \<Rightarrow> (rat \<times> gate_step) list \<Rightarrow> lid_session \<Rightarrow> bool" where
  "gate_armed st steps s =
     (\<forall>g. la_gate s = Some g \<longrightarrow> pg_sequence g \<noteq> -1 \<and>
        (\<exists>t. (t, Arm (Some (pg_sequence g)) (pg_task g)) \<in> set steps \<and> pg_deadline g = t + st_max_hold st))"

lemma release_gate:
  assumes "la_gate s = Some g" and "s' = release_lid_playback_gate now g why c s"
  shows "gate_records s' + gate_due s' \<le> gate_records s + gate_due s"
    and "la_gate s' = (if c then None else Some (g\<lparr>pg_recorded := True\<rparr>))"
  using assms by (auto simp: release_lid_playback_gate_def record_lid_event_def Let_def gate_records_def gate_due_def split: if_splits)

lemma armed_release:
  "gate_armed st steps s \<Longrightarrow> la_gate s = Some g \<Longrightarrow> gate_armed st steps (release_lid_playback_gate now g why c s)"
  using release_gate(2) [OF _ refl, of s g now why c] by (auto simp: gate_armed_def split: if_splits)

lemma gate_step_counts:
  assumes "gate_armed st steps s"
  shows "gate_armed st (steps @ [x]) (gate_do st x s) \<and>
    gate_records (gate_do st x s) + gate_due (gate_do st x s) \<le> gate_records s + gate_due s + (if is_arm x then 1 else 0)"
proof -
  obtain now k where x: "x = (now, k)" by fastforce
  have more: "gate_armed st (steps @ [x]) t" if "gate_armed st steps t" for t using that by (auto simp: gate_armed_def)
  have rel: "gate_armed st (steps @ [x]) (release_lid_playback_gate now g why c s) \<and>
      gate_records (release_lid_playback_gate now g why c s) + gate_due (release_lid_playback_gate now g why c s)
        \<le> gate_records s + gate_due s" if "la_gate s = Some g" for g why c
    using more [OF armed_release [OF assms that]] release_gate(1) [OF that refl] by blast
  show ?thesis
  proof (cases k)
    case (Arm i task)
    then show ?thesis
      using more [OF assms]
      by (auto simp: x arm_lid_playback_gate_def gate_armed_def gate_records_def gate_due_def split: option.split)
  next
    case (Poll i)
    then show ?thesis
      using more [OF assms] rel by (cases "la_gate s") (auto simp: x lid_playback_gate_holds_def)
  next
    case Record_Held
    then show ?thesis using more [OF assms] rel by (cases "la_gate s") (auto simp: x)
  next
    case Open_Gate
    then show ?thesis by (simp add: x gate_armed_def gate_records_def gate_due_def)
  next
    case (Task_Ends task)
    then show ?thesis using more [OF assms] by (simp add: x gate_armed_def gate_records_def gate_due_def)
  next
    case (Elsewhere f)
    then show ?thesis using more [OF assms] by (simp add: x gate_armed_def gate_records_def gate_due_def)
  qed
qed

lemma gate_run_counts:
  assumes "la_gate s = None"
  shows "gate_armed st steps (gate_run st steps s) \<and>
    gate_records (gate_run st steps s) + gate_due (gate_run st steps s) \<le> gate_records s + length (filter is_arm steps)"
proof (induction steps rule: rev_induct)
  case Nil
  then show ?case using assms by (simp add: gate_run_def gate_armed_def gate_due_def)
next
  case (snoc x steps)
  then show ?case
    using gate_step_counts [of st steps "gate_run st steps s" x] by (auto simp: gate_run_def split: if_splits)
qed

text \<open>
  C16: in every run of a call, a packet waits at the language gate only if its sequence
  was armed less than the maximal hold ago, for a decision that has not ended, and not while the call
  ends, hangs up or transfers; a packet without a sequence, or of the system's, never waits. Every
  arming writes at most one telemetry record.
\<close>

theorem gate_bounded:
  assumes "la_gate s0 = None" and "s = gate_run st steps s0"
  shows "(fst (lid_playback_gate_holds now sequence s) \<longrightarrow>
      (\<exists>i t task. sequence = Some i \<and> i \<noteq> -1 \<and> (t, Arm (Some i) task) \<in> set steps \<and> now < t + st_max_hold st \<and>
         task \<notin> set (la_done s) \<and> \<not> la_ended s \<and> \<not> should_ignore_transcriber_input s)) \<and>
    gate_records s \<le> gate_records s0 + length (filter is_arm steps)"
proof -
  have armed: "gate_armed st steps s" and count: "gate_records s \<le> gate_records s0 + length (filter is_arm steps)"
    using gate_run_counts [OF assms(1), of st steps] assms(2) by auto
  have "\<exists>i t task. sequence = Some i \<and> i \<noteq> -1 \<and> (t, Arm (Some i) task) \<in> set steps \<and> now < t + st_max_hold st \<and>
         task \<notin> set (la_done s) \<and> \<not> la_ended s \<and> \<not> should_ignore_transcriber_input s"
    if holds: "fst (lid_playback_gate_holds now sequence s)"
  proof -
    obtain g where s: "la_gate s = Some g"
      using holds by (cases "la_gate s") (auto simp: lid_playback_gate_holds_def)
    have "sequence = Some (pg_sequence g)" "sequence \<noteq> Some (-1)" "\<not> la_ended s" "\<not> should_ignore_transcriber_input s"
      "pg_task g \<notin> set (la_done s)" "now < pg_deadline g"
      using holds by (auto simp: lid_playback_gate_holds_def s split: if_splits)
    with s have g: "la_gate s = Some g" "sequence = Some (pg_sequence g)" "\<not> la_ended s" "\<not> should_ignore_transcriber_input s"
      "pg_task g \<notin> set (la_done s)" "now < pg_deadline g" "pg_sequence g \<noteq> -1" by auto
    then obtain t where "(t, Arm (Some (pg_sequence g)) (pg_task g)) \<in> set steps" "pg_deadline g = t + st_max_hold st"
      using armed by (auto simp: gate_armed_def)
    then show ?thesis using g by auto
  qed
  then show ?thesis using count by blast
qed

section \<open>Concrete calls\<close>

definition default_settings :: switch_settings where
  "default_settings =
     \<lparr>st_min_confidence = 7/10, st_corroborated = 55/100, st_explicit = 7/10, st_detector_prob = 8/10, st_min_segment = 7/10,
      st_max_hold = 4, st_settle_ms = 300, st_audio_gap_s = 2/10, st_explicit_only = False, st_speculates = False\<rparr>"

definition hindi_segment :: lid_segment where
  "hindi_segment = \<lparr>ls_lang = Some ''hi-IN'', ls_prob = None, ls_text = ''namaste'', ls_audio_s = 1, ls_ts = 0\<rparr>"

definition english_call :: lid_session where
  "english_call =
     \<lparr>la_call = idle_call, la_language = ''en'', la_gate = None, la_switcher = True, la_done = [],
      la_buffer = accumulate 0 0 ''namaste'' (Some ''hi-IN'') 1 None empty_buffer,
      la_events = [], la_transcriber = Some ([''en'', ''hi''], ''en''), la_synthesizer = Some ([''en'', ''hi''], ''en''),
      la_prompts = [], la_system_prompt = ''Be brief.'', la_hangup = False, la_ended = False, la_end_call = False,
      la_transfer = False, la_function_call = False, la_function_task = False, la_user_spoke = False, la_switches = []\<rparr>"

text \<open>A judge whose confidence is not a number.\<close>

definition nan_world :: switch_world where
  "nan_world =
     \<lparr>sw_now = 1, sw_task = 1,
      sw_judge = (\<lambda>q. Some (PDict [(''target_language'', PStr ''hi''), (''target_confidence'', PStr ''nan'')])),
      sw_clear_ok = True, sw_turn_text = [], sw_speculation = None, sw_handoff = (\<lambda>l. []), sw_wording = (\<lambda>l. l),
      sw_settle = (\<lambda>s. s), sw_deciding = (\<lambda>s. s), sw_cleaning = (\<lambda>s. s), sw_gap = (\<lambda>s. s), sw_reconnects = (\<lambda>l. True)\<rparr>"

lemma nan_steady: "steady nan_world" "quiet nan_world"
  by (simp_all add: steady_def quiet_def nan_world_def)

lemma nan_run: "\<exists>fu s'. run_language_switch default_settings nan_world [] None None english_call = (Inr (Switched ''hi'' fu), s')"
proof -
  have "(case fst (run_language_switch default_settings nan_world [] None None english_call) of
      Inr (Switched t fu) \<Rightarrow> t | _ \<Rightarrow> []) = ''hi''" by code_simp
  then show ?thesis
    by (cases "run_language_switch default_settings nan_world [] None None english_call")
      (auto split: sum.splits switch_result.splits)
qed




theorem gate_bounded_witness:
  "let s = gate_run default_settings [(0, Arm (Some 3) 7), (1, Poll (Some 3))] english_call
   in fst (lid_playback_gate_holds 2 (Some 3) s) \<and> \<not> fst (lid_playback_gate_holds 5 (Some 3) s) \<and> gate_records s \<le> 1"
proof -
  have none: "la_gate english_call = None" by (simp add: english_call_def)
  have "gate_records english_call = 0" by (simp add: gate_records_def english_call_def)
  moreover have "fst (lid_playback_gate_holds 2 (Some 3) (gate_run default_settings [(0, Arm (Some 3) 7), (1, Poll (Some 3))] english_call))"
    by code_simp
  ultimately show ?thesis
    using gate_bounded [OF none refl, of 5 "Some 3" default_settings "[(0, Arm (Some 3) 7), (1, Poll (Some 3))]"]
    by (auto simp: default_settings_def)
qed

end
