(* ===== verification/Call_Ending.thy ===== *)
theory Call_Ending
  imports Output_Loop Templates
begin

text \<open>
  How a call ends (\<open>modules/voice/session/lifecycle/hangup.py\<close>, with the tests of the watchdog in
  \<open>agent_manager/task_manager.py\<close>, the goodbye of \<open>s2s_runner.py\<close>, and the callers of both: the
  \<open>end_call\<close> tool of \<open>turn/function_calls.py\<close>, the hangup check of \<open>turn/generation.py\<close>, the voicemail
  check and the component errors).

  The state \<open>ending\<close> puts the flags of \<open>CallLifecycle\<close> beside the call state of theory
  \<open>Output_Loop\<close>. A coroutine that is waiting is a field of the state that says where it waits:
  \<open>process_call_hangup\<close> (\<open>en_hangup\<close>), \<open>process_end_of_conversation\<close> (\<open>en_teardown\<close>); the flags
  \<open>_hangup_processing\<close> and \<open>_end_of_conversation_in_progress\<close> admit each of them once. A packet for the
  synthesizer is its text and category, its identifiers are left out. The awaits of a teardown after
  \<open>conversation_ended\<close> is set are not separate steps, nor are backchannel clips and logging.
\<close>

section \<open>State\<close>

datatype hangup_reason =
    LLM_PROMPTED_HANGUP
  | VOICEMAIL_DETECTED
  | WEB_CALL_MAX_DURATION_REACHED
  | TELEPHONY_CALL_MAX_DURATION_REACHED
  | INACTIVITY_TIMEOUT
  | TRANSCRIBER_ERROR
  | TRANSCRIBER_CONNECTION_ERROR
  | SYNTHESIZER_ERROR
  | LLM_ERROR
  | END_CALL_TOOL
  | S2S_ERROR

text \<open>Where \<open>wait_for_current_message\<close> waits: for the flush since a time, or for marks since its \<open>entry_time\<close>.\<close>

datatype drain_stage = Flushing rat | Draining rat

datatype teardown_stage = Not_Begun | Draining_Playout drain_stage | Awaiting_Goodbye | Torn_Down

text \<open>
  What a call is configured with, and two readings of the outside by time: whether the carrier takes
  a clear message and the text of each turn for the barge-in cleanup.
\<close>

record ending_config =
  ec_web :: bool
  ec_turn_based :: bool
  ec_s2s :: bool
  ec_has_output :: bool
  ec_has_transcriber :: bool
  ec_mark_timeout :: rat
  ec_hang_after :: rat
  ec_online_after :: rat
  ec_online_message :: "message_config option"
  ec_start :: rat
  ec_task_config :: pyval
  ec_clear_ok :: "rat \<Rightarrow> bool"
  ec_turn_text :: "rat \<Rightarrow> (int \<times> string) list"

record ending =
  en_call :: call_state
  en_triggered :: bool
  en_triggered_at :: "rat option"
  en_decision_at :: "rat option"
  en_processing :: bool
  en_message_queued :: bool
  en_ended :: bool
  en_in_progress :: bool
  en_end_call :: bool
  en_by_assistant :: bool
  en_detail :: "hangup_reason option"
  en_goodbye :: "message_config option"
  en_language :: "string option"
  en_voicemail :: bool
  en_voicemail_checking :: bool
  en_transfer :: bool
  en_check_online :: bool
  en_repeat_after :: "rat option"
  en_human_word :: rat
  en_tool_running :: bool
  en_s2s_tasks :: nat
  en_s2s_timers :: "rat list"
  en_s2s_armed :: bool
  en_instructions :: "string list"
  en_sent :: bool
  en_closed :: bool
  en_chat_ended :: nat
  en_stops :: nat
  en_toggles :: nat
  en_synthesized :: "(string \<times> string) list"
  en_hangup :: "(string \<times> drain_stage) option"
  en_teardown :: teardown_stage
  en_web_timeout :: bool
  en_stamp_due :: bool
  en_watching :: bool
  en_injecting :: bool

definition STALL_HANGUP_FLOOR_S :: rat where "STALL_HANGUP_FLOOR_S = 20"

definition S2S_GOODBYE_TIMEOUT_S :: rat where "S2S_GOODBYE_TIMEOUT_S = 10"

definition FLUSH_TIMEOUT_S :: rat where "FLUSH_TIMEOUT_S = 3"

definition call_history :: "(conversation \<Rightarrow> conversation) \<Rightarrow> ending \<Rightarrow> ending" where
  "call_history f s =
     s\<lparr>en_call := (en_call s)\<lparr>cl_staging := (cl_staging (en_call s))
         \<lparr>sg_history := f (sg_history (cl_staging (en_call s)))\<rparr>\<rparr>\<rparr>"

definition call_hangup_message :: "ending \<Rightarrow> string" where
  "call_hangup_message s = select_message_by_language (en_goodbye s) (en_language s)"

definition goodbye_text :: "ending \<Rightarrow> string" where
  "goodbye_text s = (if en_voicemail s then [] else call_hangup_message s)"

definition enter_hangup_state :: "rat \<Rightarrow> ending \<Rightarrow> ending" where
  "enter_hangup_state now s =
     s\<lparr>en_triggered := True,
       en_decision_at := (case en_decision_at s of None \<Rightarrow> Some now | Some t \<Rightarrow> Some t),
       en_call := (en_call s)\<lparr>cl_im := on_user_speech_ended now False 0 None (cl_im (en_call s))\<rparr>\<rparr>"

section \<open>Waiting for the playout\<close>

definition drain_marks :: "ending_config \<Rightarrow> rat \<Rightarrow> rat \<Rightarrow> ending \<Rightarrow> drain_stage option" where
  "drain_marks cfg now entry s =
     (if drain_wait now entry (ec_mark_timeout cfg) (en_ended s) (cl_ledger (en_call s)) = None
      then None else Some (Draining entry))"

text \<open>\<open>wait_for_current_message\<close> from where it waits: \<open>None\<close> when it returns.\<close>

definition resume_drain :: "ending_config \<Rightarrow> rat \<Rightarrow> drain_stage \<Rightarrow> ending \<Rightarrow> drain_stage option" where
  "resume_drain cfg now d s =
     (case d of
        Flushing since \<Rightarrow>
          (if cl_turn_audio_flushed (en_call s) \<or> since + FLUSH_TIMEOUT_S \<le> now
           then drain_marks cfg now now s else Some (Flushing since))
      | Draining entry \<Rightarrow> drain_marks cfg now entry s)"

section \<open>The teardown\<close>

text \<open>\<open>self.history.append\<close>: the list itself, past the duplicate check of \<open>append_assistant\<close>.\<close>

definition append_goodbye_row :: "string \<Rightarrow> conversation \<Rightarrow> conversation" where
  "append_goodbye_row text c =
     c\<lparr>messages := messages c @ [(new_message ASSISTANT (Some text))\<lparr>msg_category := Some ''agent_hangup''\<rparr>]\<rparr>"

definition close_call :: "ending_config \<Rightarrow> ending \<Rightarrow> ending" where
  "close_call cfg s =
     (let s1 = (if en_message_queued s \<and> \<not> en_web_timeout s
                then call_history (append_goodbye_row (call_hangup_message s)) s else s);
          s2 = s1\<lparr>en_ended := True, en_by_assistant := True,
                  en_call := (en_call s1)\<lparr>cl_llm_running := False\<rparr>\<rparr>;
          s3 = (if ec_turn_based cfg \<and> ec_has_output cfg
                then s2\<lparr>en_chat_ended := en_chat_ended s2 + 1\<rparr> else s2);
          s4 = (if ec_has_output cfg then s3\<lparr>en_closed := True\<rparr> else s3);
          s5 = s4\<lparr>en_stops := en_stops s4 + 1\<rparr>;
          s6 = (if ec_has_transcriber cfg \<and> \<not> ec_turn_based cfg
                then s5\<lparr>en_toggles := en_toggles s5 + 1\<rparr> else s5);
          s7 = s6\<lparr>en_voicemail_checking := False, en_teardown := Torn_Down\<rparr>
      in if en_stamp_due s7
         then s7\<lparr>en_detail := Some WEB_CALL_MAX_DURATION_REACHED, en_stamp_due := False\<rparr> else s7)"

text \<open>Without an output handler the poll raises, is logged, and the loop is left.\<close>

definition poll_goodbye :: "ending_config \<Rightarrow> ending \<Rightarrow> ending" where
  "poll_goodbye cfg s =
     (if en_triggered s \<and> en_message_queued s \<and> ec_has_output cfg \<and> \<not> en_sent s
      then s\<lparr>en_teardown := Awaiting_Goodbye\<rparr> else close_call cfg s)"

definition resume_teardown :: "ending_config \<Rightarrow> rat \<Rightarrow> ending \<Rightarrow> ending" where
  "resume_teardown cfg now s =
     (case en_teardown s of
        Draining_Playout d \<Rightarrow>
          (case resume_drain cfg now d s of
             Some d' \<Rightarrow> s\<lparr>en_teardown := Draining_Playout d'\<rparr>
           | None \<Rightarrow> poll_goodbye cfg s)
      | Awaiting_Goodbye \<Rightarrow> poll_goodbye cfg s
      | _ \<Rightarrow> s)"

definition process_end_of_conversation :: "ending_config \<Rightarrow> bool \<Rightarrow> rat \<Rightarrow> ending \<Rightarrow> ending" where
  "process_end_of_conversation cfg web_call_timeout now s =
     (if en_in_progress s \<or> en_ended s then s
      else resume_teardown cfg now
             (s\<lparr>en_in_progress := True, en_web_timeout := web_call_timeout,
                en_teardown := Draining_Playout (Flushing now)\<rparr>))"

text \<open>
  \<open>drain_hangup_goodbye\<close>, when its own wait for the playout has returned: the terminal trim of the
  history, which \<open>run()\<close> follows by setting \<open>conversation_ended\<close>.
\<close>

definition drain_hangup_goodbye :: "ending_config \<Rightarrow> rat \<Rightarrow> ending \<Rightarrow> ending" where
  "drain_hangup_goodbye cfg now s =
     (let c = en_call s; l = cl_ledger c; i = cl_input c;
          c1 = (if ledger_live l \<noteq> [] \<or> in_response_heard i \<noteq> []
                then (let y = sync_history (map (\<lambda>(k, r). (k, ledger_heap l ! r)) (ledger_live l)) now True
                              \<lparr>ss_history = sg_history (cl_staging c), ss_ledger = l, ss_input = i,
                               ss_turn_text = ec_turn_text cfg now, ss_turn_row = None, ss_hint = cl_hint c\<rparr>
                      in c\<lparr>cl_ledger := ss_ledger y, cl_input := ss_input y, cl_hint := ss_hint y,
                           cl_staging := (cl_staging c)
                             \<lparr>sg_history := ss_history y,
                              sg_turn_rows := (case ss_turn_row y of
                                 Some (Some t, k) \<Rightarrow> AList.update t k (sg_turn_rows (cl_staging c))
                               | _ \<Rightarrow> sg_turn_rows (cl_staging c))\<rparr>\<rparr>)
                else c)
      in s\<lparr>en_call := c1\<lparr>cl_input := reset_response_heard_by_user (cl_input c1)\<rparr>\<rparr>)"

section \<open>The hangup\<close>

text \<open>\<open>process_call_hangup\<close> after its wait: clean up and hand the goodbye to the synthesizer.\<close>

definition speak_goodbye :: "ending_config \<Rightarrow> rat \<Rightarrow> string \<Rightarrow> ending \<Rightarrow> ending" where
  "speak_goodbye cfg now text s =
     (let c = cleanup_downstream_tasks now (ec_clear_ok cfg now \<and> \<not> en_closed s) (ec_turn_text cfg now) (en_call s);
          said = synthesize_admits (en_ended s) False (-1) c
      in s\<lparr>en_call := synthesize_flags (en_ended s) False (-1) c,
           en_voicemail_checking := False, en_closed := (en_closed s \<or> \<not> ec_clear_ok cfg now),
           en_synthesized := en_synthesized s @ (if said then [(text, ''agent_hangup'')] else []),
           en_triggered_at := Some now, en_hangup := None\<rparr>)"

definition resume_hangup :: "ending_config \<Rightarrow> rat \<Rightarrow> ending \<Rightarrow> ending" where
  "resume_hangup cfg now s =
     (case en_hangup s of
        None \<Rightarrow> s
      | Some (text, d) \<Rightarrow>
          (case resume_drain cfg now d s of
             Some d' \<Rightarrow> s\<lparr>en_hangup := Some (text, d')\<rparr>
           | None \<Rightarrow> speak_goodbye cfg now text s))"

definition process_call_hangup :: "ending_config \<Rightarrow> rat \<Rightarrow> ending \<Rightarrow> ending" where
  "process_call_hangup cfg now s =
     (let s0 = s\<lparr>en_decision_at := (case en_decision_at s of None \<Rightarrow> Some now | Some t \<Rightarrow> Some t)\<rparr>
      in if en_processing s0 \<or> en_ended s0 then s0
         else let s1 = s0\<lparr>en_processing := True, en_triggered := True\<rparr>
              in if ec_s2s cfg \<or> py_strip (goodbye_text s1) = []
                 then process_end_of_conversation cfg False now
                        (s1\<lparr>en_message_queued := False, en_triggered_at := Some now\<rparr>)
                 else resume_hangup cfg now
                        (s1\<lparr>en_message_queued := True, en_hangup := Some (goodbye_text s1, Flushing now)\<rparr>))"

definition hangup_after_goodbye :: "ending_config \<Rightarrow> hangup_reason \<Rightarrow> rat \<Rightarrow> ending \<Rightarrow> ending" where
  "hangup_after_goodbye cfg reason now s =
     (let s1 = s\<lparr>en_detail := Some reason\<rparr>
      in if ec_s2s cfg \<and> py_strip (goodbye_text s1) \<noteq> []
         then s1\<lparr>en_s2s_armed := True, en_instructions := en_instructions s1 @ [goodbye_text s1],
                 en_s2s_tasks := en_s2s_tasks s1 + 1,
                 en_s2s_timers := en_s2s_timers s1 @ [now + S2S_GOODBYE_TIMEOUT_S]\<rparr>
         else process_call_hangup cfg now s1)"

text \<open>A timer of \<open>_s2s_hangup_if_goodbye_never_comes\<close> that is due, and its task done.\<close>

definition s2s_hangup_if_goodbye_never_comes :: "ending_config \<Rightarrow> rat \<Rightarrow> ending \<Rightarrow> ending" where
  "s2s_hangup_if_goodbye_never_comes cfg now s =
     (case en_s2s_timers s of
        [] \<Rightarrow> s
      | due # rest \<Rightarrow>
          (if now < due then s
           else let s1 = s\<lparr>en_s2s_timers := rest, en_s2s_tasks := en_s2s_tasks s - 1\<rparr>
                in if en_s2s_armed s1 \<and> \<not> en_ended s1
                   then process_call_hangup cfg now (s1\<lparr>en_s2s_armed := False\<rparr>) else s1))"

text \<open>The end of \<open>_s2s_finish_turn\<close>.\<close>

definition s2s_turn_done :: "ending_config \<Rightarrow> rat \<Rightarrow> ending \<Rightarrow> ending" where
  "s2s_turn_done cfg now s =
     (if en_s2s_armed s
      then process_call_hangup cfg now
             (s\<lparr>en_s2s_armed := False,
                en_detail := (case en_detail s of None \<Rightarrow> Some END_CALL_TOOL | Some r \<Rightarrow> Some r)\<rparr>)
      else s)"

text \<open>An \<open>end_call\<close> whose result the model has been told, in \<open>_s2s_execute_tool\<close>.\<close>

definition s2s_end_call :: "rat \<Rightarrow> ending \<Rightarrow> ending" where
  "s2s_end_call now s =
     s\<lparr>en_s2s_armed := True, en_s2s_tasks := en_s2s_tasks s + 1,
       en_s2s_timers := en_s2s_timers s @ [now + S2S_GOODBYE_TIMEOUT_S]\<rparr>"

section \<open>Who asks for the end\<close>

text \<open>
  The \<open>end_call\<close> branch of \<open>execute_function_call\<close>: before the goodbye is generated, after it, and
  when its playout has drained.
\<close>

definition END_CALL_RESULT :: string where
  "END_CALL_RESULT =
     ''{'' @ [CHR 34] @ ''status'' @ [CHR 34] @ '': '' @ [CHR 34] @ ''success'' @ [CHR 34] @ '', '' @
     [CHR 34] @ ''message'' @ [CHR 34] @ '': '' @ [CHR 34] @
     ''Call is ending now. Say a brief goodbye to the user.'' @ [CHR 34] @ ''}''"

definition end_call_invoked :: "int option \<Rightarrow> tool_call list \<Rightarrow> string \<Rightarrow> ending \<Rightarrow> ending" where
  "end_call_invoked turn calls call_id s =
     call_history (\<lambda>c. append_tool_result call_id END_CALL_RESULT (attach_tool_calls_to_turn turn calls c))
       (s\<lparr>en_check_online := False, en_end_call := True\<rparr>)"

definition end_call_drained :: "ending_config \<Rightarrow> rat \<Rightarrow> ending \<Rightarrow> ending" where
  "end_call_drained cfg now s =
     process_call_hangup cfg now (s\<lparr>en_detail := Some END_CALL_TOOL, en_goodbye := None\<rparr>)"

text \<open>The end of \<open>do_llm_generation\<close>, when the check answered yes.\<close>

definition llm_hangup :: "ending_config \<Rightarrow> rat \<Rightarrow> ending \<Rightarrow> ending" where
  "llm_hangup cfg now s =
     (if en_triggered s \<or> en_ended s then s
      else process_call_hangup cfg now (s\<lparr>en_detail := Some LLM_PROMPTED_HANGUP\<rparr>))"

definition voicemail_found :: "ending_config \<Rightarrow> rat \<Rightarrow> ending \<Rightarrow> ending" where
  "voicemail_found cfg now s =
     process_call_hangup cfg now (s\<lparr>en_voicemail := True, en_detail := Some VOICEMAIL_DETECTED\<rparr>)"

definition end_call_on_component_error :: "ending_config \<Rightarrow> hangup_reason \<Rightarrow> rat \<Rightarrow> ending \<Rightarrow> ending" where
  "end_call_on_component_error cfg reason now s =
     (if \<not> en_ended s \<and> \<not> en_in_progress s
      then process_end_of_conversation cfg False now (s\<lparr>en_detail := Some reason\<rparr>) else s)"

definition agent_hangup_observer :: "ending_config \<Rightarrow> bool \<Rightarrow> rat \<Rightarrow> ending \<Rightarrow> ending" where
  "agent_hangup_observer cfg is_agent_hangup now s =
     (if is_agent_hangup then process_end_of_conversation cfg False now (s\<lparr>en_sent := True\<rparr>) else s)"

section \<open>The watchdog\<close>

definition max_call_duration_s :: "pyval \<Rightarrow> pyval option" where
  "max_call_duration_s task_config =
     (case task_config of
        PDict d \<Rightarrow>
          (case dict_get d ''task_config'' of
             PDict inner \<Rightarrow>
               (case dict_get inner ''call_terminate'' of
                  PInt i \<Rightarrow> if i \<le> 0 then None else Some (PFloat (of_int i))
                | PFloat r \<Rightarrow> if r \<le> 0 then None else Some (PFloat r)
                | PInf negative \<Rightarrow> if negative then None else Some (PInf False)
                | PNan \<Rightarrow> Some PNan
                | _ \<Rightarrow> None)
           | _ \<Rightarrow> None)
      | _ \<Rightarrow> None)"

definition cap_reached :: "ending_config \<Rightarrow> rat \<Rightarrow> bool" where
  "cap_reached cfg now =
     (case max_call_duration_s (ec_task_config cfg) of
        Some (PFloat r) \<Rightarrow> r \<le> now - ec_start cfg
      | _ \<Rightarrow> False)"

definition compute_last_ai_audio_timestamp :: "rat \<Rightarrow> ending \<Rightarrow> rat" where
  "compute_last_ai_audio_timestamp now s =
     max (cl_last_transmitted (en_call s)) (min now (get_audio_playing_until (cl_ledger (en_call s))))"

text \<open>Silence longer than \<open>x\<close> on each side; a caller who never spoke has been silent for ever.\<close>

definition ai_silent :: "rat \<Rightarrow> rat \<Rightarrow> ending \<Rightarrow> bool" where
  "ai_silent now x s = (x < now - compute_last_ai_audio_timestamp now s)"

definition user_silent :: "rat \<Rightarrow> rat \<Rightarrow> ending \<Rightarrow> bool" where
  "user_silent now x s = (en_human_word s \<le> 0 \<or> x < now - en_human_word s)"

definition pending_generation :: "ending \<Rightarrow> bool" where
  "pending_generation s = (cl_llm_running (en_call s) \<or> en_tool_running s \<or> 0 < en_s2s_tasks s)"

definition should_stall_hangup :: "ending_config \<Rightarrow> rat \<Rightarrow> ending \<Rightarrow> bool" where
  "should_stall_hangup cfg now s =
     (if ec_hang_after cfg \<le> 0 then False
      else let stall = max (ec_hang_after cfg) STALL_HANGUP_FLOOR_S
           in \<not> in_playing (cl_input (en_call s)) \<and> \<not> pending_generation s \<and>
              ai_silent now stall s \<and> user_silent now stall s)"

definition pipeline_busy :: "ending \<Rightarrow> bool" where
  "pipeline_busy s =
     (in_playing (cl_input (en_call s)) \<or> cl_response_in_pipeline (en_call s) \<or> cl_awaiting_first_audio (en_call s))"

text \<open>\<open>_inject_and_run_llm\<close>, up to its wait for the generation it starts.\<close>

definition inject_and_run_llm :: "string \<Rightarrow> ending \<Rightarrow> ending" where
  "inject_and_run_llm text s =
     (let s1 = call_history (append_user text None) s; c = en_call s1
      in s1\<lparr>en_call := c\<lparr>cl_im := snd (get_next_sequence_id (cl_im c)), cl_response_in_pipeline := True,
                         cl_llm_running := True\<rparr>,
            en_injecting := True\<rparr>)"

definition silence_note :: "rat \<Rightarrow> string" where
  "silence_note x = ''[silence] User was silent for '' @ py_str (PFloat x) @ '' seconds''"

text \<open>\<open>handle_interruption\<close> of the browser's output handler: nothing once it is closed, and closed when sending fails.\<close>

definition output_interruption :: "ending_config \<Rightarrow> rat \<Rightarrow> ending \<Rightarrow> ending" where
  "output_interruption cfg now s =
     (if en_closed s then s
      else if ec_clear_ok cfg now
      then s\<lparr>en_call := (en_call s)\<lparr>cl_ledger := clear_data (cl_ledger (en_call s))\<rparr>\<rparr>
      else s\<lparr>en_closed := True\<rparr>)"

definition ask_if_online :: "ending_config \<Rightarrow> rat \<Rightarrow> ending \<Rightarrow> ending" where
  "ask_if_online cfg now s =
     (let s1 = s\<lparr>en_call := (en_call s)\<lparr>cl_asked_if_still_there := True\<rparr>\<rparr>;
          text = select_message_by_language (ec_online_message cfg) (en_language s1)
      in if \<not> en_check_online s1 then output_interruption cfg now s1
         else if ec_s2s cfg
         then call_history (append_assistant (Some text) None None None None True)
                (s1\<lparr>en_instructions := en_instructions s1 @ [text]\<rparr>)
         else let c = en_call s1;
                  c1 = c\<lparr>cl_input := reset_response_heard_by_user (cl_input c)\<rparr>;
                  said = synthesize_admits (en_ended s1) False (-1) c1;
                  s2 = s1\<lparr>en_call := synthesize_flags (en_ended s1) False (-1) c1,
                          en_synthesized := en_synthesized s1 @
                            (if said then [(text, ''is_user_online_message'')] else [])\<rparr>;
                  s3 = call_history
                         (append_assistant (Some text) None None None (Some ''is_user_online_message'') True) s2;
                  c3 = en_call s3
              in output_interruption cfg now
                   (s3\<lparr>en_call := c3\<lparr>cl_input := update_is_audio_being_played now False (cl_input c3)\<rparr>\<rparr>))"

datatype pass = Keeps_Watching | Leaves

definition silence_pass :: "ending_config \<Rightarrow> rat \<Rightarrow> ending \<Rightarrow> pass \<times> ending" where
  "silence_pass cfg now s =
     (if should_stall_hangup cfg now s then (Leaves, hangup_after_goodbye cfg INACTIVITY_TIMEOUT now s)
      else if pipeline_busy s then (Keeps_Watching, s)
      else let repeated = (case en_repeat_after s of
                             None \<Rightarrow> False
                           | Some x \<Rightarrow> x \<noteq> 0 \<and> ai_silent now x s \<and> user_silent now x s \<and> \<not> pending_generation s)
      in if repeated then (Keeps_Watching, inject_and_run_llm (silence_note (the (en_repeat_after s))) s)
      else if 0 < ec_hang_after cfg \<and> ai_silent now (ec_hang_after cfg) s \<and> user_silent now (ec_hang_after cfg) s
      then (Leaves, hangup_after_goodbye cfg INACTIVITY_TIMEOUT now s)
      else if ai_silent now (ec_online_after cfg) s \<and> \<not> cl_asked_if_still_there (en_call s) \<and>
              user_silent now (ec_online_after cfg) s \<and> \<not> pending_generation s
      then (Keeps_Watching, ask_if_online cfg now s)
      else (Keeps_Watching, s))"

text \<open>One pass of \<open>check_for_completion\<close>.\<close>

definition check_for_completion :: "ending_config \<Rightarrow> rat \<Rightarrow> ending \<Rightarrow> pass \<times> ending" where
  "check_for_completion cfg now s =
     (if ec_web cfg \<and> cap_reached cfg now
      then (Leaves, if en_in_progress s \<or> en_ended s
                    then s\<lparr>en_detail := Some WEB_CALL_MAX_DURATION_REACHED\<rparr>
                    else process_end_of_conversation cfg True now (s\<lparr>en_stamp_due := True\<rparr>))
      else if \<not> ec_web cfg \<and> cap_reached cfg now
      then (Leaves, hangup_after_goodbye cfg TELEPHONY_CALL_MAX_DURATION_REACHED now s)
      else if cl_last_transmitted (en_call s) = 0 then (Keeps_Watching, s)
      else if en_triggered s then
        (if en_ended s then (Leaves, s)
         else case en_triggered_at s of
                None \<Rightarrow> (Keeps_Watching, s)
              | Some t \<Rightarrow>
                  (if t \<noteq> 0 \<and> ec_mark_timeout cfg < now - t
                   then (Leaves, process_end_of_conversation cfg False now
                                   (if ec_has_output cfg then s\<lparr>en_sent := True\<rparr> else s))
                   else (Keeps_Watching, s)))
      else silence_pass cfg now s)"

definition watchdog_tick :: "ending_config \<Rightarrow> rat \<Rightarrow> ending \<Rightarrow> ending" where
  "watchdog_tick cfg now s =
     (if \<not> en_watching s \<or> en_injecting s then s
      else case check_for_completion cfg now s of
             (Keeps_Watching, s') \<Rightarrow> s'
           | (Leaves, s') \<Rightarrow> s'\<lparr>en_watching := False\<rparr>)"

section \<open>Runs\<close>

text \<open>
  What can happen to a call, at a time. \<open>Engine\<close> is any work of the other tasks on the call state;
  \<open>Finished\<close> is \<open>run()\<close> coming to its end because its inputs did.
\<close>

datatype ending_event =
    Tick
  | Injected_Done
  | Hangup_Resumes
  | Teardown_Resumes
  | Goodbye_Played bool
  | Conversation_End
  | Llm_Says_Hangup
  | Voicemail_Found
  | End_Call_Invoked "int option" "tool_call list" string
  | End_Call_Spoken
  | End_Call_Drained
  | Component_Failed hangup_reason
  | S2s_Turn_Done
  | S2s_Timer
  | S2s_End_Call
  | Engine call_state rat bool
  | Finished

fun ending_step :: "ending_config \<Rightarrow> rat \<times> ending_event \<Rightarrow> ending \<Rightarrow> ending" where
  "ending_step cfg (now, Tick) s = watchdog_tick cfg now s"
| "ending_step cfg (now, Injected_Done) s = s\<lparr>en_injecting := False\<rparr>"
| "ending_step cfg (now, Hangup_Resumes) s = resume_hangup cfg now s"
| "ending_step cfg (now, Teardown_Resumes) s = resume_teardown cfg now s"
| "ending_step cfg (now, Goodbye_Played b) s = agent_hangup_observer cfg b now s"
| "ending_step cfg (now, Conversation_End) s = process_end_of_conversation cfg False now s"
| "ending_step cfg (now, Llm_Says_Hangup) s = llm_hangup cfg now s"
| "ending_step cfg (now, Voicemail_Found) s = voicemail_found cfg now s"
| "ending_step cfg (now, End_Call_Invoked turn calls i) s = end_call_invoked turn calls i s"
| "ending_step cfg (now, End_Call_Spoken) s = enter_hangup_state now s"
| "ending_step cfg (now, End_Call_Drained) s = end_call_drained cfg now s"
| "ending_step cfg (now, Component_Failed r) s = end_call_on_component_error cfg r now s"
| "ending_step cfg (now, S2s_Turn_Done) s = s2s_turn_done cfg now s"
| "ending_step cfg (now, S2s_Timer) s = s2s_hangup_if_goodbye_never_comes cfg now s"
| "ending_step cfg (now, S2s_End_Call) s = s2s_end_call now s"
| "ending_step cfg (now, Engine c word tool) s = s\<lparr>en_call := c, en_human_word := word, en_tool_running := tool\<rparr>"
| "ending_step cfg (now, Finished) s = (drain_hangup_goodbye cfg now s)\<lparr>en_ended := True\<rparr>"

definition ending_run :: "ending_config \<Rightarrow> (rat \<times> ending_event) list \<Rightarrow> ending \<Rightarrow> ending" where
  "ending_run cfg evs s = foldl (\<lambda>s e. ending_step cfg e s) s evs"

text \<open>A session as it is composed; an s2s session keeps its typed-chat loop among the tool tasks.\<close>

definition ending_init ::
  "call_state \<Rightarrow> message_config option \<Rightarrow> string option \<Rightarrow> bool \<Rightarrow> bool \<Rightarrow> ending" where
  "ending_init c goodbye language check_online s2s =
     \<lparr>en_call = c, en_triggered = False, en_triggered_at = None, en_decision_at = None, en_processing = False,
      en_message_queued = False, en_ended = False, en_in_progress = False, en_end_call = False,
      en_by_assistant = False, en_detail = None, en_goodbye = goodbye, en_language = language,
      en_voicemail = False, en_voicemail_checking = False, en_transfer = False, en_check_online = check_online,
      en_repeat_after = None, en_human_word = 0, en_tool_running = False,
      en_s2s_tasks = (if s2s then 1 else 0), en_s2s_timers = [], en_s2s_armed = False, en_instructions = [],
      en_sent = False, en_closed = False, en_chat_ended = 0, en_stops = 0, en_toggles = 0,
      en_synthesized = [], en_hangup = None, en_teardown = Not_Begun, en_web_timeout = False,
      en_stamp_due = False, en_watching = True, en_injecting = False\<rparr>"

end
