(* ===== verification/Call_Ending_Runs.thy ===== *)
theory Call_Ending_Runs
  imports Call_Ending
begin

text \<open>
  What holds of the end of a call in every run of theory \<open>Call_Ending\<close>: the call is torn down once, and
  not before a goodbye that was queued has been heard or is overdue; a goodbye the watchdog waits for ends
  in bounded time. Where the watchdog itself asks for the hangup it stops watching, and nothing bounds the wait.
\<close>

section \<open>Frames\<close>

lemma call_history_frame [simp]:
  "en_triggered (call_history f s) = en_triggered s"
  "en_triggered_at (call_history f s) = en_triggered_at s"
  "en_processing (call_history f s) = en_processing s"
  "en_message_queued (call_history f s) = en_message_queued s"
  "en_ended (call_history f s) = en_ended s"
  "en_in_progress (call_history f s) = en_in_progress s"
  "en_by_assistant (call_history f s) = en_by_assistant s"
  "en_sent (call_history f s) = en_sent s"
  "en_closed (call_history f s) = en_closed s"
  "en_stops (call_history f s) = en_stops s"
  "en_toggles (call_history f s) = en_toggles s"
  "en_synthesized (call_history f s) = en_synthesized s"
  "en_hangup (call_history f s) = en_hangup s"
  "en_teardown (call_history f s) = en_teardown s"
  "en_web_timeout (call_history f s) = en_web_timeout s"
  "en_watching (call_history f s) = en_watching s"
  "en_injecting (call_history f s) = en_injecting s"
  "en_s2s_tasks (call_history f s) = en_s2s_tasks s"
  by (simp_all add: call_history_def)

text \<open>What a teardown does to the flags, wherever it has got to.\<close>

lemma close_call_fields [simp]:
  "en_triggered (close_call cfg s) = en_triggered s"
  "en_triggered_at (close_call cfg s) = en_triggered_at s"
  "en_processing (close_call cfg s) = en_processing s"
  "en_message_queued (close_call cfg s) = en_message_queued s"
  "en_ended (close_call cfg s) = True"
  "en_in_progress (close_call cfg s) = en_in_progress s"
  "en_by_assistant (close_call cfg s) = True"
  "en_sent (close_call cfg s) = en_sent s"
  "en_closed (close_call cfg s) = (ec_has_output cfg \<or> en_closed s)"
  "en_stops (close_call cfg s) = en_stops s + 1"
  "en_toggles (close_call cfg s) = (if ec_has_transcriber cfg \<and> \<not> ec_turn_based cfg then en_toggles s + 1 else en_toggles s)"
  "en_synthesized (close_call cfg s) = en_synthesized s"
  "en_hangup (close_call cfg s) = en_hangup s"
  "en_teardown (close_call cfg s) = Torn_Down"
  "en_watching (close_call cfg s) = en_watching s"
  "en_injecting (close_call cfg s) = en_injecting s"
  "en_s2s_tasks (close_call cfg s) = en_s2s_tasks s"
  by (simp_all add: close_call_def Let_def)

definition goodbyes :: "ending \<Rightarrow> nat" where
  "goodbyes s = length (filter (\<lambda>(t, c). c = ''agent_hangup'') (en_synthesized s))"

section \<open>The flags agree\<close>

text \<open>
  Each coroutine runs once: the stages agree with the flags, the sockets are stopped by the one teardown, the
  one goodbye follows from the one hangup, and a teardown is over only when nothing is left to be heard.
\<close>

definition flags_agree :: "ending_config \<Rightarrow> ending \<Rightarrow> bool" where
  "flags_agree cfg s \<longleftrightarrow>
     (en_teardown s \<noteq> Not_Begun \<longrightarrow> en_in_progress s) \<and>
     (en_in_progress s \<longrightarrow> en_teardown s \<noteq> Not_Begun) \<and>
     (en_by_assistant s \<longleftrightarrow> en_teardown s = Torn_Down) \<and>
     (en_teardown s = Torn_Down \<longrightarrow> en_ended s) \<and>
     en_stops s = (if en_teardown s = Torn_Down then 1 else 0) \<and>
     en_toggles s \<le> en_stops s \<and>
     (en_processing s \<longrightarrow> en_triggered s) \<and>
     (en_triggered_at s \<noteq> None \<or> en_hangup s \<noteq> None \<or> en_message_queued s \<longrightarrow> en_processing s) \<and>
     (en_hangup s \<noteq> None \<longrightarrow> en_triggered_at s = None \<and> en_message_queued s) \<and>
     goodbyes s \<le> (if en_triggered_at s = None then 0 else 1) \<and>
     (en_teardown s = Torn_Down \<and> en_message_queued s \<and> ec_has_output cfg \<longrightarrow> en_sent s)"

lemma agree_call [simp]:
  "flags_agree cfg (s\<lparr>en_call := c\<rparr>) = flags_agree cfg s"
  "flags_agree cfg (s\<lparr>en_detail := r\<rparr>) = flags_agree cfg s"
  "flags_agree cfg (s\<lparr>en_goodbye := g\<rparr>) = flags_agree cfg s"
  "flags_agree cfg (s\<lparr>en_voicemail := b\<rparr>) = flags_agree cfg s"
  "flags_agree cfg (s\<lparr>en_decision_at := d\<rparr>) = flags_agree cfg s"
  "flags_agree cfg (s\<lparr>en_s2s_armed := b\<rparr>) = flags_agree cfg s"
  "flags_agree cfg (s\<lparr>en_s2s_tasks := n\<rparr>) = flags_agree cfg s"
  "flags_agree cfg (s\<lparr>en_s2s_timers := ts\<rparr>) = flags_agree cfg s"
  "flags_agree cfg (s\<lparr>en_instructions := xs\<rparr>) = flags_agree cfg s"
  "flags_agree cfg (s\<lparr>en_injecting := b\<rparr>) = flags_agree cfg s"
  "flags_agree cfg (s\<lparr>en_watching := b\<rparr>) = flags_agree cfg s"
  "flags_agree cfg (s\<lparr>en_stamp_due := b\<rparr>) = flags_agree cfg s"
  "flags_agree cfg (s\<lparr>en_check_online := b\<rparr>) = flags_agree cfg s"
  "flags_agree cfg (s\<lparr>en_end_call := b\<rparr>) = flags_agree cfg s"
  "flags_agree cfg (s\<lparr>en_human_word := w\<rparr>) = flags_agree cfg s"
  "flags_agree cfg (s\<lparr>en_tool_running := b\<rparr>) = flags_agree cfg s"
  "flags_agree cfg (call_history f s) = flags_agree cfg s"
  "flags_agree cfg (s\<lparr>en_closed := b\<rparr>) = flags_agree cfg s"
  by (simp_all add: flags_agree_def goodbyes_def)

lemma agree_sent: "flags_agree cfg s \<Longrightarrow> flags_agree cfg (s\<lparr>en_sent := True\<rparr>)"
  by (simp add: flags_agree_def goodbyes_def)

lemma agree_triggered: "flags_agree cfg s \<Longrightarrow> flags_agree cfg (s\<lparr>en_triggered := True\<rparr>)"
  by (simp add: flags_agree_def goodbyes_def)

lemma agree_ended: "flags_agree cfg s \<Longrightarrow> flags_agree cfg (s\<lparr>en_ended := True\<rparr>)"
  by (simp add: flags_agree_def goodbyes_def)

lemma agree_poll:
  assumes "flags_agree cfg s" and "en_in_progress s" and "en_teardown s \<noteq> Torn_Down"
  shows "flags_agree cfg (poll_goodbye cfg s)"
  using assms by (auto simp: poll_goodbye_def flags_agree_def goodbyes_def)

lemma agree_resume_teardown:
  assumes "flags_agree cfg s"
  shows "flags_agree cfg (resume_teardown cfg now s)"
proof (cases "en_teardown s")
  case (Draining_Playout d)
  have "flags_agree cfg (s\<lparr>en_teardown := Draining_Playout d'\<rparr>)" for d'
    using assms Draining_Playout by (auto simp: flags_agree_def goodbyes_def)
  moreover have "en_in_progress s" using assms Draining_Playout by (simp add: flags_agree_def)
  then have "flags_agree cfg (poll_goodbye cfg s)"
    using agree_poll [OF assms] Draining_Playout by simp
  ultimately show ?thesis using Draining_Playout by (simp add: resume_teardown_def split: option.split)
next
  case Awaiting_Goodbye
  moreover have "en_in_progress s" using assms Awaiting_Goodbye by (simp add: flags_agree_def)
  ultimately show ?thesis using agree_poll [OF assms] by (simp add: resume_teardown_def)
qed (use assms in \<open>simp_all add: resume_teardown_def\<close>)

lemma agree_end:
  assumes "flags_agree cfg s"
  shows "flags_agree cfg (process_end_of_conversation cfg w now s)"
proof (cases "en_in_progress s \<or> en_ended s")
  case False
  then have "flags_agree cfg (s\<lparr>en_in_progress := True, en_web_timeout := w, en_teardown := Draining_Playout (Flushing now)\<rparr>)"
    using assms by (auto simp: flags_agree_def goodbyes_def)
  with False show ?thesis by (simp add: process_end_of_conversation_def agree_resume_teardown)
qed (use assms in \<open>simp add: process_end_of_conversation_def\<close>)

lemma agree_resume_hangup:
  assumes "flags_agree cfg s"
  shows "flags_agree cfg (resume_hangup cfg now s)"
proof (cases "en_hangup s")
  case (Some x)
  obtain said d where x: "x = (said, d)" by force
  have "flags_agree cfg (s\<lparr>en_hangup := Some (said, d')\<rparr>)" for d'
    using assms Some by (auto simp: flags_agree_def goodbyes_def)
  moreover have "flags_agree cfg (speak_goodbye cfg now said s)"
    using assms Some by (auto simp: flags_agree_def goodbyes_def speak_goodbye_def Let_def)
  ultimately show ?thesis using Some x by (simp add: resume_hangup_def split: option.split)
qed (use assms in \<open>simp add: resume_hangup_def\<close>)

lemma agree_hangup:
  assumes "flags_agree cfg s"
  shows "flags_agree cfg (process_call_hangup cfg now s)"
proof (cases "en_processing s \<or> en_ended s")
  case False
  then have "flags_agree cfg (s\<lparr>en_decision_at := d, en_processing := True, en_triggered := True,
        en_message_queued := False, en_triggered_at := Some now\<rparr>)"
      and "flags_agree cfg (s\<lparr>en_decision_at := d, en_processing := True, en_triggered := True,
        en_message_queued := True, en_hangup := Some h\<rparr>)" for d h
    using assms by (auto simp: flags_agree_def goodbyes_def)
  with False show ?thesis
    by (simp add: process_call_hangup_def Let_def agree_end agree_resume_hangup)
qed (use assms in \<open>simp add: process_call_hangup_def Let_def\<close>)

lemma agree_after_goodbye:
  "flags_agree cfg s \<Longrightarrow> flags_agree cfg (hangup_after_goodbye cfg r now s)"
  by (simp add: hangup_after_goodbye_def Let_def agree_hangup)

lemma agree_output_interruption: "flags_agree cfg (output_interruption cfg now s) = flags_agree cfg s"
  by (simp add: output_interruption_def)

lemma agree_said:
  "c \<noteq> ''agent_hangup'' \<Longrightarrow>
   flags_agree cfg (s\<lparr>en_call := k, en_synthesized := en_synthesized s @ [(t, c)]\<rparr>) = flags_agree cfg s"
  by (simp add: flags_agree_def goodbyes_def)

lemma agree_ask: "flags_agree cfg (ask_if_online cfg now s) = flags_agree cfg s"
  by (simp add: ask_if_online_def Let_def agree_output_interruption agree_said)

lemma agree_silence: "flags_agree cfg s \<Longrightarrow> flags_agree cfg (snd (silence_pass cfg now s))"
  by (simp add: silence_pass_def Let_def agree_after_goodbye agree_ask inject_and_run_llm_def)

lemma agree_check: "flags_agree cfg s \<Longrightarrow> flags_agree cfg (snd (check_for_completion cfg now s))"
  by (simp add: check_for_completion_def agree_end agree_after_goodbye agree_silence agree_sent split: option.split)

lemma agree_tick: "flags_agree cfg s \<Longrightarrow> flags_agree cfg (watchdog_tick cfg now s)"
  using agree_check [of cfg s now] by (auto simp: watchdog_tick_def split: prod.split pass.split)

lemma agree_drain: "flags_agree cfg (drain_hangup_goodbye cfg now s) = flags_agree cfg s"
  by (simp add: drain_hangup_goodbye_def Let_def)

lemma agree_step: "flags_agree cfg s \<Longrightarrow> flags_agree cfg (ending_step cfg (now, e) s)"
  by (cases e)
     (simp_all add: agree_tick agree_resume_hangup agree_resume_teardown agree_end agree_hangup agree_ended
        agree_drain agree_sent agree_triggered agent_hangup_observer_def llm_hangup_def voicemail_found_def
        end_call_invoked_def enter_hangup_state_def end_call_drained_def end_call_on_component_error_def
        s2s_turn_done_def s2s_hangup_if_goodbye_never_comes_def s2s_end_call_def Let_def split: list.split)

lemma ending_run_simps [simp]:
  "ending_run cfg [] s = s"
  "ending_run cfg (e # evs) s = ending_run cfg evs (ending_step cfg e s)"
  "ending_run cfg (evs @ evs') s = ending_run cfg evs' (ending_run cfg evs s)"
  by (simp_all add: ending_run_def)

text \<open>What every step keeps, every run keeps.\<close>

lemma run_induct [consumes 1, case_names step]:
  assumes "P s" and "\<And>now e s. (now, e) \<in> set evs \<Longrightarrow> P s \<Longrightarrow> P (ending_step cfg (now, e) s)"
  shows "P (ending_run cfg evs s)"
  using assms by (induction evs arbitrary: s) auto

lemma agree_run: "flags_agree cfg s \<Longrightarrow> flags_agree cfg (ending_run cfg evs s)"
  by (rule run_induct) (auto intro: agree_step)

lemma agree_init: "flags_agree cfg (ending_init c g l online s2s)"
  by (simp add: flags_agree_def goodbyes_def ending_init_def)

section \<open>What each operation leaves alone\<close>

lemma poll_frame [simp]:
  "en_sent (poll_goodbye cfg s) = en_sent s"
  "en_triggered_at (poll_goodbye cfg s) = en_triggered_at s"
  "en_triggered (poll_goodbye cfg s) = en_triggered s"
  "en_processing (poll_goodbye cfg s) = en_processing s"
  "en_message_queued (poll_goodbye cfg s) = en_message_queued s"
  "en_watching (poll_goodbye cfg s) = en_watching s"
  by (simp_all add: poll_goodbye_def)

lemma teardown_frame [simp]:
  "en_sent (resume_teardown cfg now s) = en_sent s"
  "en_triggered_at (resume_teardown cfg now s) = en_triggered_at s"
  "en_triggered (resume_teardown cfg now s) = en_triggered s"
  "en_processing (resume_teardown cfg now s) = en_processing s"
  "en_message_queued (resume_teardown cfg now s) = en_message_queued s"
  "en_watching (resume_teardown cfg now s) = en_watching s"
  by (simp_all add: resume_teardown_def split: teardown_stage.split option.split)

lemma end_frame [simp]:
  "en_sent (process_end_of_conversation cfg w now s) = en_sent s"
  "en_triggered_at (process_end_of_conversation cfg w now s) = en_triggered_at s"
  "en_triggered (process_end_of_conversation cfg w now s) = en_triggered s"
  "en_processing (process_end_of_conversation cfg w now s) = en_processing s"
  "en_message_queued (process_end_of_conversation cfg w now s) = en_message_queued s"
  "en_watching (process_end_of_conversation cfg w now s) = en_watching s"
  by (simp_all add: process_end_of_conversation_def)

lemma resume_hangup_frame [simp]:
  "en_sent (resume_hangup cfg now s) = en_sent s"
  "en_triggered (resume_hangup cfg now s) = en_triggered s"
  "en_processing (resume_hangup cfg now s) = en_processing s"
  "en_message_queued (resume_hangup cfg now s) = en_message_queued s"
  "en_watching (resume_hangup cfg now s) = en_watching s"
  "en_ended (resume_hangup cfg now s) = en_ended s"
  "en_teardown (resume_hangup cfg now s) = en_teardown s"
  by (simp_all add: resume_hangup_def speak_goodbye_def Let_def split: option.split)

lemma hangup_frame [simp]:
  "en_sent (process_call_hangup cfg now s) = en_sent s"
  "en_watching (process_call_hangup cfg now s) = en_watching s"
  by (simp_all add: process_call_hangup_def Let_def)

text \<open>A hangup under way is not begun again.\<close>

lemma hangup_again:
  "en_processing s \<Longrightarrow>
   process_call_hangup cfg now s = s\<lparr>en_decision_at := (case en_decision_at s of None \<Rightarrow> Some now | Some t \<Rightarrow> Some t)\<rparr>"
  by (simp add: process_call_hangup_def Let_def)

lemma after_goodbye_frame [simp]:
  "en_sent (hangup_after_goodbye cfg r now s) = en_sent s"
  "en_watching (hangup_after_goodbye cfg r now s) = en_watching s"
  by (simp_all add: hangup_after_goodbye_def Let_def)

lemma output_interruption_frame [simp]:
  "en_sent (output_interruption cfg now s) = en_sent s"
  "en_triggered_at (output_interruption cfg now s) = en_triggered_at s"
  "en_processing (output_interruption cfg now s) = en_processing s"
  by (simp_all add: output_interruption_def)

lemma ask_frame [simp]:
  "en_sent (ask_if_online cfg now s) = en_sent s"
  "en_triggered_at (ask_if_online cfg now s) = en_triggered_at s"
  by (simp_all add: ask_if_online_def Let_def)

lemma inject_frame [simp]:
  "en_sent (inject_and_run_llm x s) = en_sent s"
  "en_triggered_at (inject_and_run_llm x s) = en_triggered_at s"
  by (simp_all add: inject_and_run_llm_def Let_def)

lemma drain_frame [simp]:
  "en_sent (drain_hangup_goodbye cfg now s) = en_sent s"
  "en_triggered_at (drain_hangup_goodbye cfg now s) = en_triggered_at s"
  "en_message_queued (drain_hangup_goodbye cfg now s) = en_message_queued s"
  by (simp_all add: drain_hangup_goodbye_def Let_def)

section \<open>The goodbye is heard, or overdue\<close>

text \<open>The time of the hangup is written once.\<close>

lemma triggered_at_hangup:
  "flags_agree cfg s \<Longrightarrow> en_triggered_at s = Some t \<Longrightarrow> en_triggered_at (process_call_hangup cfg now s) = Some t"
  by (simp add: hangup_again flags_agree_def)

lemma triggered_at_after_goodbye:
  "flags_agree cfg s \<Longrightarrow> en_triggered_at s = Some t \<Longrightarrow> en_triggered_at (hangup_after_goodbye cfg r now s) = Some t"
  using triggered_at_hangup [of cfg "s\<lparr>en_detail := Some r\<rparr>" t now] by (simp add: hangup_after_goodbye_def Let_def)

lemma triggered_at_tick:
  "flags_agree cfg s \<Longrightarrow> en_triggered_at s = Some t \<Longrightarrow> en_triggered_at (watchdog_tick cfg now s) = Some t"
  by (auto simp: watchdog_tick_def check_for_completion_def silence_pass_def Let_def triggered_at_after_goodbye
      split: prod.split pass.split if_splits)

lemma triggered_at_step:
  assumes "flags_agree cfg s" and "en_triggered_at s = Some t"
  shows "en_triggered_at (ending_step cfg (now, e) s) = Some t"
proof -
  have "en_hangup s = None" using assms by (cases "en_hangup s") (simp_all add: flags_agree_def)
  then show ?thesis using assms
    by (cases e)
       (simp_all add: triggered_at_tick triggered_at_hangup resume_hangup_def agent_hangup_observer_def
          llm_hangup_def voicemail_found_def end_call_invoked_def enter_hangup_state_def end_call_drained_def
          end_call_on_component_error_def s2s_turn_done_def s2s_hangup_if_goodbye_never_comes_def s2s_end_call_def
          Let_def split: list.split)
qed

lemma sent_tick:
  assumes "en_sent (watchdog_tick cfg now s)"
  shows "en_sent s \<or> (\<exists>t. en_triggered_at s = Some t \<and> ec_mark_timeout cfg < now - t)"
  using assms
  by (auto simp: watchdog_tick_def check_for_completion_def silence_pass_def Let_def
      split: prod.splits pass.splits if_splits option.splits)

lemma sent_step:
  "en_sent (ending_step cfg (now, e) s) \<Longrightarrow>
   en_sent s \<or> e = Goodbye_Played True \<or> e = Tick \<and> (\<exists>t. en_triggered_at s = Some t \<and> ec_mark_timeout cfg < now - t)"
  by (cases e)
     (auto simp: agent_hangup_observer_def llm_hangup_def voicemail_found_def end_call_invoked_def
        enter_hangup_state_def end_call_drained_def end_call_on_component_error_def s2s_turn_done_def
        s2s_hangup_if_goodbye_never_comes_def s2s_end_call_def Let_def dest: sent_tick split: list.splits if_splits)

definition accounted :: "ending_config \<Rightarrow> (rat \<times> ending_event) list \<Rightarrow> ending \<Rightarrow> bool" where
  "accounted cfg evs s \<longleftrightarrow>
     flags_agree cfg s \<and>
     (en_sent s \<longrightarrow>
        (\<exists>t. (t, Goodbye_Played True) \<in> set evs) \<or>
        (\<exists>t t0. (t, Tick) \<in> set evs \<and> en_triggered_at s = Some t0 \<and> ec_mark_timeout cfg < t - t0))"

lemma accounted_step:
  assumes "(now, e) \<in> set evs" and "accounted cfg evs s"
  shows "accounted cfg evs (ending_step cfg (now, e) s)"
  using assms agree_step [of cfg s now e] sent_step [of cfg now e s] triggered_at_step [of cfg s _ now e]
  unfolding accounted_def by blast

text \<open>
  C9: A call is torn down once: its input is stopped once, its transcriber at most once and at most
  one goodbye is given to the synthesizer. When a goodbye was queued, that happens only after the
  carrier acknowledged it or the watchdog, on a tick later than the configured grace after the hangup, gave it up.
\<close>

theorem goodbye_not_cut:
  assumes "s = ending_run cfg evs (ending_init c g l online s2s)" and "en_by_assistant s"
  shows "en_stops s = 1 \<and> en_toggles s \<le> 1 \<and> goodbyes s \<le> 1 \<and> en_ended s \<and>
    (en_message_queued s \<and> ec_has_output cfg \<longrightarrow>
       (\<exists>t. (t, Goodbye_Played True) \<in> set evs) \<or>
       (\<exists>t t0. (t, Tick) \<in> set evs \<and> en_triggered_at s = Some t0 \<and> ec_mark_timeout cfg < t - t0))"
proof -
  have "accounted cfg evs (ending_init c g l online s2s)"
    using agree_init by (simp add: accounted_def) (simp add: ending_init_def)
  then have "accounted cfg evs s"
    unfolding assms(1) by (rule run_induct) (rule accounted_step)
  then have a: "flags_agree cfg s" and sent: "en_sent s \<longrightarrow>
      (\<exists>t. (t, Goodbye_Played True) \<in> set evs) \<or>
      (\<exists>t t0. (t, Tick) \<in> set evs \<and> en_triggered_at s = Some t0 \<and> ec_mark_timeout cfg < t - t0)"
    by (simp_all add: accounted_def)
  from a assms(2) have "en_teardown s = Torn_Down" "en_stops s = 1" "en_toggles s \<le> 1" "en_ended s"
    "goodbyes s \<le> 1" "en_message_queued s \<and> ec_has_output cfg \<longrightarrow> en_sent s"
    by (auto simp: flags_agree_def split: if_splits)
  with sent show ?thesis by blast
qed

section \<open>The watchdog ends an overdue goodbye\<close>

text \<open>The playout the marks of the ledger still announce, and the time a teardown began to wait.\<close>

definition playout_left :: "ending \<Rightarrow> rat" where
  "playout_left s =
     (let l = cl_ledger (en_call s); ms = map (\<lambda>(k, r). ledger_heap l ! r) (ledger_live l)
      in sum_list (map (\<lambda>m. or_zero (mk_duration m)) (filter (\<lambda>m. \<not> is_pre_mark m \<and> or_zero (mk_sent_ts m) \<noteq> 0) ms)))"

definition begun_by :: "rat \<Rightarrow> ending \<Rightarrow> bool" where
  "begun_by T s =
     (case en_teardown s of
        Draining_Playout (Flushing t) \<Rightarrow> t \<le> T
      | Draining_Playout (Draining t) \<Rightarrow> t \<le> T
      | _ \<Rightarrow> True)"

lemma drain_marks_bounded:
  "entry + playout_left s + ec_mark_timeout cfg \<le> now \<Longrightarrow> drain_marks cfg now entry s = None"
  by (simp add: drain_marks_def drain_wait_def playout_left_def Let_def)

lemma drain_marks_cases: "drain_marks cfg now entry s = Some d \<Longrightarrow> d = Draining entry"
  by (simp add: drain_marks_def split: if_splits)

lemma begun_teardown:
  assumes "begun_by T s" and "now \<le> T"
  shows "begun_by T (resume_teardown cfg now s)"
proof -
  have "begun_by T (poll_goodbye cfg s)" by (simp add: begun_by_def poll_goodbye_def)
  moreover have "begun_by T (s\<lparr>en_teardown := Draining_Playout d'\<rparr>)"
    if "en_teardown s = Draining_Playout d" "resume_drain cfg now d s = Some d'" for d d'
    using that assms
    by (auto simp: begun_by_def resume_drain_def split: drain_stage.splits if_splits dest!: drain_marks_cases)
  ultimately show ?thesis using assms
    by (auto simp: resume_teardown_def split: teardown_stage.split option.split)
qed


lemma begun_end:
  assumes "begun_by T s" and "now \<le> T"
  shows "begun_by T (process_end_of_conversation cfg w now s)"
proof -
  have "begun_by T (s\<lparr>en_in_progress := True, en_web_timeout := w, en_teardown := Draining_Playout (Flushing now)\<rparr>)"
    using assms(2) by (simp add: begun_by_def)
  with assms show ?thesis by (simp add: process_end_of_conversation_def begun_teardown)
qed

lemma begun_frame [simp]:
  "begun_by T (s\<lparr>en_call := c\<rparr>) = begun_by T s"
  "begun_by T (s\<lparr>en_detail := r\<rparr>) = begun_by T s"
  "begun_by T (s\<lparr>en_goodbye := g\<rparr>) = begun_by T s"
  "begun_by T (s\<lparr>en_voicemail := b\<rparr>) = begun_by T s"
  "begun_by T (s\<lparr>en_decision_at := d\<rparr>) = begun_by T s"
  "begun_by T (s\<lparr>en_s2s_armed := b\<rparr>) = begun_by T s"
  "begun_by T (s\<lparr>en_s2s_tasks := n\<rparr>) = begun_by T s"
  "begun_by T (s\<lparr>en_s2s_timers := ts\<rparr>) = begun_by T s"
  "begun_by T (s\<lparr>en_instructions := xs\<rparr>) = begun_by T s"
  "begun_by T (s\<lparr>en_injecting := b\<rparr>) = begun_by T s"
  "begun_by T (s\<lparr>en_watching := b\<rparr>) = begun_by T s"
  "begun_by T (s\<lparr>en_stamp_due := b\<rparr>) = begun_by T s"
  "begun_by T (s\<lparr>en_check_online := b\<rparr>) = begun_by T s"
  "begun_by T (s\<lparr>en_end_call := b\<rparr>) = begun_by T s"
  "begun_by T (s\<lparr>en_human_word := w\<rparr>) = begun_by T s"
  "begun_by T (s\<lparr>en_tool_running := b\<rparr>) = begun_by T s"
  "begun_by T (s\<lparr>en_sent := b\<rparr>) = begun_by T s"
  "begun_by T (s\<lparr>en_ended := b\<rparr>) = begun_by T s"
  "begun_by T (s\<lparr>en_triggered := b\<rparr>) = begun_by T s"
  "begun_by T (s\<lparr>en_triggered_at := t\<rparr>) = begun_by T s"
  "begun_by T (s\<lparr>en_message_queued := b\<rparr>) = begun_by T s"
  "begun_by T (s\<lparr>en_processing := b\<rparr>) = begun_by T s"
  "begun_by T (s\<lparr>en_hangup := h\<rparr>) = begun_by T s"
  "begun_by T (s\<lparr>en_synthesized := ys\<rparr>) = begun_by T s"
  "begun_by T (call_history f s) = begun_by T s"
  "begun_by T (s\<lparr>en_closed := b\<rparr>) = begun_by T s"
  by (simp_all add: begun_by_def)

lemma begun_resume_hangup [simp]: "begun_by T (resume_hangup cfg now s) = begun_by T s"
  by (simp add: begun_by_def)

lemma begun_hangup:
  "begun_by T s \<Longrightarrow> now \<le> T \<Longrightarrow> begun_by T (process_call_hangup cfg now s)"
  by (simp add: process_call_hangup_def Let_def begun_end)

lemma begun_after_goodbye:
  "begun_by T s \<Longrightarrow> now \<le> T \<Longrightarrow> begun_by T (hangup_after_goodbye cfg r now s)"
  by (simp add: hangup_after_goodbye_def Let_def begun_hangup)

lemma begun_idle [simp]:
  "begun_by T (output_interruption cfg now s) = begun_by T s"
  "begun_by T (ask_if_online cfg now s) = begun_by T s"
  "begun_by T (inject_and_run_llm x s) = begun_by T s"
  "begun_by T (drain_hangup_goodbye cfg now s) = begun_by T s"
  by (simp_all add: output_interruption_def ask_if_online_def inject_and_run_llm_def drain_hangup_goodbye_def
      Let_def)

lemma begun_check:
  "begun_by T s \<Longrightarrow> now \<le> T \<Longrightarrow> begun_by T (snd (check_for_completion cfg now s))"
  by (simp add: check_for_completion_def silence_pass_def Let_def begun_end begun_after_goodbye split: option.split)

lemma begun_tick:
  "begun_by T s \<Longrightarrow> now \<le> T \<Longrightarrow> begun_by T (watchdog_tick cfg now s)"
  using begun_check [of T s now cfg] by (auto simp: watchdog_tick_def split: prod.split pass.split)

lemma begun_step:
  "begun_by T s \<Longrightarrow> now \<le> T \<Longrightarrow> begun_by T (ending_step cfg (now, e) s)"
  by (cases e)
     (simp_all add: agent_hangup_observer_def llm_hangup_def voicemail_found_def end_call_invoked_def
        enter_hangup_state_def end_call_drained_def end_call_on_component_error_def s2s_turn_done_def
        s2s_hangup_if_goodbye_never_comes_def s2s_end_call_def Let_def begun_tick begun_teardown begun_end
        begun_hangup split: list.split)

lemma begun_run:
  assumes "\<And>t e. (t, e) \<in> set evs \<Longrightarrow> t \<le> T"
  shows "begun_by T (ending_run cfg evs (ending_init c g l online s2s))"
proof -
  have "begun_by T (ending_init c g l online s2s)" by (simp add: begun_by_def ending_init_def)
  then show ?thesis by (rule run_induct) (use assms begun_step in blast)
qed

lemma playout_frame [simp]:
  "playout_left (s\<lparr>en_sent := b\<rparr>) = playout_left s"
  "playout_left (s\<lparr>en_watching := b\<rparr>) = playout_left s"
  "playout_left (close_call cfg s) = playout_left s"
  "playout_left (poll_goodbye cfg s) = playout_left s"
  "playout_left (resume_teardown cfg now s) = playout_left s"
  "playout_left (process_end_of_conversation cfg w now s) = playout_left s"
proof -
  show close [simp]: "playout_left (close_call cfg s) = playout_left s" for s
    by (simp add: playout_left_def close_call_def call_history_def Let_def)
  show poll [simp]: "playout_left (poll_goodbye cfg s) = playout_left s" for s
    by (simp add: poll_goodbye_def) (simp add: playout_left_def)
  show resume: "playout_left (resume_teardown cfg now s) = playout_left s" for s
    by (simp add: resume_teardown_def split: teardown_stage.split option.split) (simp add: playout_left_def)
  show "playout_left (process_end_of_conversation cfg w now s) = playout_left s"
    by (simp add: process_end_of_conversation_def resume) (simp add: playout_left_def)
qed (simp_all add: playout_left_def)

lemma end_in_progress: "\<not> en_ended s \<Longrightarrow> en_in_progress (process_end_of_conversation cfg w now s)"
  by (simp add: process_end_of_conversation_def resume_teardown_def poll_goodbye_def split: option.split)

text \<open>A teardown that waits for nothing more is over after the flush and the announced playout.\<close>

lemma settled_poll:
  "en_sent s \<or> \<not> ec_has_output cfg \<Longrightarrow> poll_goodbye cfg s = close_call cfg s"
  by (auto simp: poll_goodbye_def)

lemma teardown_settles:
  assumes "en_sent s \<or> \<not> ec_has_output cfg" and "en_in_progress s \<Longrightarrow> en_teardown s \<noteq> Not_Begun" and "en_in_progress s"
    and "begun_by now s" and "now + FLUSH_TIMEOUT_S \<le> t1" and "t1 + playout_left s + ec_mark_timeout cfg \<le> t2"
  shows "en_teardown (resume_teardown cfg t2 (resume_teardown cfg t1 s)) = Torn_Down"
proof -
  have closed: "en_teardown (resume_teardown cfg t s') = Torn_Down" if "en_teardown s' = Torn_Down" for t s'
    using that by (simp add: resume_teardown_def)
  have over: "en_teardown (resume_teardown cfg t2 (s\<lparr>en_teardown := Draining_Playout (Draining e)\<rparr>)) = Torn_Down"
    if "e \<le> t1" for e
  proof -
    let ?s = "s\<lparr>en_teardown := Draining_Playout (Draining e)\<rparr>"
    have "drain_marks cfg t2 e ?s = None"
      by (rule drain_marks_bounded) (use that assms(6) in \<open>simp add: playout_left_def\<close>)
    then show ?thesis using assms(1) by (simp add: resume_teardown_def resume_drain_def settled_poll)
  qed
  show ?thesis
  proof (cases "en_teardown s")
    case (Draining_Playout d)
    show ?thesis
    proof (cases "resume_drain cfg t1 d s")
      case (Some d')
      have "\<exists>e\<le>t1. d' = Draining e"
        using Some Draining_Playout assms(4,5)
        by (cases d) (auto simp: resume_drain_def begun_by_def FLUSH_TIMEOUT_S_def split: if_splits dest!: drain_marks_cases)
      then show ?thesis using over Some Draining_Playout by (auto simp: resume_teardown_def [of cfg t1])
    qed (use closed Draining_Playout assms(1) in \<open>simp add: resume_teardown_def [of cfg t1] settled_poll\<close>)
  qed (use closed assms(1-3) in \<open>simp_all add: resume_teardown_def [of cfg t1] settled_poll\<close>)
qed

text \<open>
  C10: As long as the watchdog watches, a hangup ends the call although the carrier never
  acknowledges the goodbye: a tick later than the grace after the hangup forces it, and the teardown, resumed after
  the flush timeout and again after the playout the marks announce and the grace, is then over.
\<close>

theorem overdue_goodbye_ends:
  assumes "s = ending_run cfg evs (ending_init c g l online s2s)" and "\<And>t e. (t, e) \<in> set evs \<Longrightarrow> t \<le> now"
    and "en_watching s" and "\<not> en_injecting s" and "\<not> en_ended s" and "en_triggered s"
    and "en_triggered_at s = Some t0" and "t0 \<noteq> 0" and "ec_mark_timeout cfg < now - t0"
    and "\<not> cap_reached cfg now" and "cl_last_transmitted (en_call s) \<noteq> 0"
    and "now + FLUSH_TIMEOUT_S \<le> t1" and "t1 + playout_left s + ec_mark_timeout cfg \<le> t2"
  shows "let s' = ending_run cfg [(now, Tick), (t1, Teardown_Resumes), (t2, Teardown_Resumes)] s
         in en_ended s' \<and> en_by_assistant s' \<and> en_stops s' = 1"
proof -
  let ?w = "if ec_has_output cfg then s\<lparr>en_sent := True\<rparr> else s"
  let ?p = "process_end_of_conversation cfg False now ?w"
  have a: "flags_agree cfg s" unfolding assms(1) by (rule agree_run) (rule agree_init)
  have tick: "watchdog_tick cfg now s = ?p\<lparr>en_watching := False\<rparr>"
    using assms(3-11) by (simp add: watchdog_tick_def check_for_completion_def)
  have p: "flags_agree cfg (?p\<lparr>en_watching := False\<rparr>)" using agree_end a agree_sent by auto
  have "begun_by now s" unfolding assms(1) by (rule begun_run) (rule assms(2))
  then have b: "begun_by now (?p\<lparr>en_watching := False\<rparr>)" using begun_end [of now ?w now] by auto
  have q: "en_in_progress ?p" using assms(5) by (intro end_in_progress) auto
  have "en_teardown (resume_teardown cfg t2 (resume_teardown cfg t1 (?p\<lparr>en_watching := False\<rparr>))) = Torn_Down"
    using p q b assms(12,13) by (intro teardown_settles) (auto simp: flags_agree_def)
  moreover have "flags_agree cfg (resume_teardown cfg t2 (resume_teardown cfg t1 (?p\<lparr>en_watching := False\<rparr>)))"
    using p by (intro agree_resume_teardown)
  ultimately show ?thesis by (simp add: tick flags_agree_def Let_def)
qed

section \<open>A goodbye nobody waits for\<close>

text \<open>A queued goodbye, neither heard nor given up.\<close>

definition goodbye_pending :: "ending_config \<Rightarrow> ending \<Rightarrow> bool" where
  "goodbye_pending cfg s \<longleftrightarrow>
     ec_has_output cfg \<and> en_processing s \<and> en_triggered s \<and> en_message_queued s \<and> \<not> en_sent s \<and>
     \<not> en_ended s \<and> en_teardown s \<noteq> Torn_Down"

lemma pending_frame [simp]:
  "goodbye_pending cfg (s\<lparr>en_call := c\<rparr>) = goodbye_pending cfg s"
  "goodbye_pending cfg (s\<lparr>en_detail := r\<rparr>) = goodbye_pending cfg s"
  "goodbye_pending cfg (s\<lparr>en_goodbye := g\<rparr>) = goodbye_pending cfg s"
  "goodbye_pending cfg (s\<lparr>en_voicemail := b\<rparr>) = goodbye_pending cfg s"
  "goodbye_pending cfg (s\<lparr>en_decision_at := d\<rparr>) = goodbye_pending cfg s"
  "goodbye_pending cfg (s\<lparr>en_s2s_armed := b\<rparr>) = goodbye_pending cfg s"
  "goodbye_pending cfg (s\<lparr>en_s2s_tasks := n\<rparr>) = goodbye_pending cfg s"
  "goodbye_pending cfg (s\<lparr>en_s2s_timers := ts\<rparr>) = goodbye_pending cfg s"
  "goodbye_pending cfg (s\<lparr>en_instructions := xs\<rparr>) = goodbye_pending cfg s"
  "goodbye_pending cfg (s\<lparr>en_injecting := b\<rparr>) = goodbye_pending cfg s"
  "goodbye_pending cfg (s\<lparr>en_stamp_due := b\<rparr>) = goodbye_pending cfg s"
  "goodbye_pending cfg (s\<lparr>en_check_online := b\<rparr>) = goodbye_pending cfg s"
  "goodbye_pending cfg (s\<lparr>en_end_call := b\<rparr>) = goodbye_pending cfg s"
  "goodbye_pending cfg (s\<lparr>en_human_word := w\<rparr>) = goodbye_pending cfg s"
  "goodbye_pending cfg (s\<lparr>en_tool_running := b\<rparr>) = goodbye_pending cfg s"
  "goodbye_pending cfg (s\<lparr>en_watching := b\<rparr>) = goodbye_pending cfg s"
  "goodbye_pending cfg (call_history f s) = goodbye_pending cfg s"
  "goodbye_pending cfg (resume_hangup cfg now s) = goodbye_pending cfg s"
  "goodbye_pending cfg (drain_hangup_goodbye cfg now s) = goodbye_pending cfg s"
  "goodbye_pending cfg (s\<lparr>en_closed := b\<rparr>) = goodbye_pending cfg s"
  by (simp_all add: goodbye_pending_def drain_hangup_goodbye_def Let_def)

lemma pending_teardown:
  assumes "goodbye_pending cfg s"
  shows "goodbye_pending cfg (resume_teardown cfg now s)"
proof -
  have "goodbye_pending cfg (poll_goodbye cfg s)" using assms by (simp add: goodbye_pending_def poll_goodbye_def)
  moreover have "goodbye_pending cfg (s\<lparr>en_teardown := Draining_Playout d\<rparr>)" for d using assms by (simp add: goodbye_pending_def)
  ultimately show ?thesis using assms by (simp add: resume_teardown_def split: teardown_stage.split option.split)
qed

lemma pending_end:
  assumes "goodbye_pending cfg s"
  shows "goodbye_pending cfg (process_end_of_conversation cfg w now s)"
proof -
  have "goodbye_pending cfg (s\<lparr>en_in_progress := True, en_web_timeout := w, en_teardown := Draining_Playout (Flushing now)\<rparr>)"
    using assms by (simp add: goodbye_pending_def)
  with assms show ?thesis by (simp add: process_end_of_conversation_def pending_teardown)
qed

lemma pending_hangup: "goodbye_pending cfg s \<Longrightarrow> goodbye_pending cfg (process_call_hangup cfg now s)"
  by (subst hangup_again) (simp_all add: goodbye_pending_def)

lemma drain_watching [simp]: "en_watching (drain_hangup_goodbye cfg now s) = en_watching s"
  by (simp add: drain_hangup_goodbye_def Let_def)

lemma abandoned_step:
  assumes "goodbye_pending cfg s \<and> \<not> en_watching s" and "e \<noteq> Goodbye_Played True" and "e \<noteq> Finished"
  shows "goodbye_pending cfg (ending_step cfg (now, e) s) \<and> \<not> en_watching (ending_step cfg (now, e) s)"
proof -
  have "watchdog_tick cfg now s = s" using assms(1) by (simp add: watchdog_tick_def)
  moreover have "goodbye_pending cfg (enter_hangup_state now s)"
    using assms(1) by (simp add: enter_hangup_state_def goodbye_pending_def)
  moreover have "llm_hangup cfg now s = s" using assms(1) by (simp add: llm_hangup_def goodbye_pending_def)
  ultimately show ?thesis using assms
    by (cases e)
       (simp_all add: pending_teardown pending_end pending_hangup agent_hangup_observer_def voicemail_found_def
          end_call_invoked_def end_call_drained_def end_call_on_component_error_def s2s_turn_done_def
          s2s_hangup_if_goodbye_never_comes_def s2s_end_call_def enter_hangup_state_def Let_def split: list.split)
qed

lemma abandoned_run:
  assumes "goodbye_pending cfg s" and "\<not> en_watching s"
    and "\<And>t. (t, Goodbye_Played True) \<notin> set evs" and "\<And>t. (t, Finished) \<notin> set evs"
  shows "\<not> en_ended (ending_run cfg evs s)"
proof -
  have "goodbye_pending cfg s \<and> \<not> en_watching s" using assms(1,2) by blast
  then have "goodbye_pending cfg (ending_run cfg evs s) \<and> \<not> en_watching (ending_run cfg evs s)"
    by (rule run_induct [where P = "\<lambda>s. goodbye_pending cfg s \<and> \<not> en_watching s"])
       (rule abandoned_step, assumption, (use assms(3,4) in blast)+)
  then show ?thesis by (simp add: goodbye_pending_def)
qed

text \<open>The tick that leaves a goodbye behind: its own hangup, or the cap reached while one is pending.\<close>

lemma silence_leaves:
  "silence_pass cfg now s = (Leaves, s') \<Longrightarrow> s' = hangup_after_goodbye cfg INACTIVITY_TIMEOUT now s"
  by (auto simp: silence_pass_def Let_def split: if_splits)

lemma hangup_begins:
  assumes "\<not> ec_s2s cfg" and "ec_has_output cfg" and "\<not> en_processing s" and "\<not> en_ended s" and "\<not> en_sent s"
    and "en_teardown s \<noteq> Torn_Down" and "py_strip (goodbye_text s) \<noteq> []"
  shows "goodbye_pending cfg (process_call_hangup cfg now s)"
proof -
  have h: "goodbye_text (s\<lparr>en_decision_at := d, en_processing := True, en_triggered := True\<rparr>) = goodbye_text s" for d
    by (simp add: goodbye_text_def call_hangup_message_def)
  have "goodbye_pending cfg (s\<lparr>en_decision_at := d, en_processing := True, en_triggered := True,
      en_message_queued := True, en_hangup := x\<rparr>)" for d x
    using assms(2-6) by (simp add: goodbye_pending_def)
  then show ?thesis using assms(1,3,4,7) by (simp add: process_call_hangup_def Let_def h)
qed

lemma after_goodbye_pending:
  assumes "\<not> ec_s2s cfg" and "ec_has_output cfg" and "\<not> en_processing s" and "\<not> en_ended s" and "\<not> en_sent s"
    and "en_teardown s \<noteq> Torn_Down" and "py_strip (goodbye_text s) \<noteq> []"
  shows "goodbye_pending cfg (hangup_after_goodbye cfg r now s)"
proof -
  have h: "goodbye_text (s\<lparr>en_detail := Some r\<rparr>) = goodbye_text s" by (simp add: goodbye_text_def call_hangup_message_def)
  show ?thesis using assms hangup_begins [of cfg "s\<lparr>en_detail := Some r\<rparr>" now]
    by (simp add: hangup_after_goodbye_def h)
qed

text \<open>
  C11: Where the watchdog itself hangs up (inactivity, or the duration cap of a telephone
  call), or the cap is reached while a goodbye is pending, it stops watching, and the grace it grants every other
  goodbye bounds nothing: unless the carrier acknowledges the goodbye or the inputs of the call end by themselves,
  the call is never ended, whatever else happens and however long it takes.
\<close>

theorem unwatched_goodbye_hangs:
  assumes "s = ending_run cfg evs (ending_init c g l online s2s)" and "ec_has_output cfg" and "\<not> ec_s2s cfg"
    and "en_watching s" and "\<not> en_injecting s" and "\<not> en_ended s" and "\<not> en_sent s"
    and "check_for_completion cfg now s = (Leaves, s')"
    and "\<not> en_triggered s \<and> \<not> (ec_web cfg \<and> cap_reached cfg now) \<and> py_strip (goodbye_text s) \<noteq> [] \<or>
         en_message_queued s \<and> cap_reached cfg now"
    and "\<And>t. (t, Goodbye_Played True) \<notin> set evs'" and "\<And>t. (t, Finished) \<notin> set evs'"
  shows "\<not> en_ended (ending_run cfg ((now, Tick) # evs') s)"
proof -
  have a: "flags_agree cfg s" unfolding assms(1) by (rule agree_run) (rule agree_init)
  then have t: "en_teardown s \<noteq> Torn_Down" "en_processing s \<Longrightarrow> en_triggered s"
    "en_message_queued s \<Longrightarrow> en_processing s"
    using assms(6) by (auto simp: flags_agree_def)
  have "goodbye_pending cfg s'"
  proof (cases "en_triggered s")
    case False
    then have "s' = hangup_after_goodbye cfg INACTIVITY_TIMEOUT now s \<or>
        s' = hangup_after_goodbye cfg TELEPHONY_CALL_MAX_DURATION_REACHED now s"
      using assms(8,9) t by (auto simp: check_for_completion_def split: if_splits dest: silence_leaves)
    moreover have "\<not> en_processing s" "py_strip (goodbye_text s) \<noteq> []" using False t assms(9) by auto
    ultimately show ?thesis using after_goodbye_pending [OF assms(3,2) _ assms(6,7) t(1)] by auto
  next
    case True
    then have w: "goodbye_pending cfg s" and q: "cap_reached cfg now"
      using assms(2,6,7,9) t by (auto simp: goodbye_pending_def)
    from w have "goodbye_pending cfg (hangup_after_goodbye cfg r now s)" for r
      using pending_hangup [of cfg "s\<lparr>en_detail := Some r\<rparr>" now] assms(3) by (simp add: hangup_after_goodbye_def)
    then show ?thesis using assms(8) q w pending_end [of cfg "s\<lparr>en_stamp_due := True\<rparr>" True now]
      by (auto simp: check_for_completion_def split: if_splits)
  qed
  then show ?thesis using abandoned_run [of cfg "watchdog_tick cfg now s" evs'] assms(4,5,8,10,11)
    by (simp add: watchdog_tick_def)
qed

section \<open>Speech to speech\<close>

text \<open>
  An s2s session tracks the loop of its typed chat among the tool tasks, so a tool seems to run for as long as the
  call does: the watchdog never asks whether the caller is still there and never repeats after a silence.
\<close>

definition s2s_tracked :: "ending \<Rightarrow> bool" where
  "s2s_tracked s \<longleftrightarrow> Suc (length (en_s2s_timers s)) \<le> en_s2s_tasks s"

lemma tracked_end [simp]:
  "s2s_tracked (close_call cfg s) = s2s_tracked s"
  "s2s_tracked (resume_teardown cfg now s) = s2s_tracked s"
  "s2s_tracked (process_end_of_conversation cfg w now s) = s2s_tracked s"
  "s2s_tracked (resume_hangup cfg now s) = s2s_tracked s"
  "s2s_tracked (process_call_hangup cfg now s) = s2s_tracked s"
  "s2s_tracked (call_history f s) = s2s_tracked s"
  "s2s_tracked (drain_hangup_goodbye cfg now s) = s2s_tracked s"
  "s2s_tracked (output_interruption cfg now s) = s2s_tracked s"
proof -
  show history [simp]: "s2s_tracked (call_history f s) = s2s_tracked s" for s f
    by (simp add: s2s_tracked_def call_history_def)
  show close [simp]: "s2s_tracked (close_call cfg s) = s2s_tracked s" for s
    by (simp add: s2s_tracked_def close_call_def call_history_def Let_def)
  show teardown [simp]: "s2s_tracked (resume_teardown cfg now s) = s2s_tracked s" for s
    by (simp add: resume_teardown_def poll_goodbye_def split: teardown_stage.split option.split)
       (simp add: s2s_tracked_def)
  show ended [simp]: "s2s_tracked (process_end_of_conversation cfg w now s) = s2s_tracked s" for s w
    by (simp add: process_end_of_conversation_def) (simp add: s2s_tracked_def)
  show resumed [simp]: "s2s_tracked (resume_hangup cfg now s) = s2s_tracked s" for s
    by (simp add: resume_hangup_def speak_goodbye_def Let_def split: option.split) (simp add: s2s_tracked_def)
  show "s2s_tracked (process_call_hangup cfg now s) = s2s_tracked s"
    by (simp add: process_call_hangup_def Let_def) (simp add: s2s_tracked_def)
qed (simp_all add: s2s_tracked_def drain_hangup_goodbye_def output_interruption_def Let_def)

lemma tracked_fields [simp]:
  "s2s_tracked (s\<lparr>en_call := c\<rparr>) = s2s_tracked s"
  "s2s_tracked (s\<lparr>en_detail := r\<rparr>) = s2s_tracked s"
  "s2s_tracked (s\<lparr>en_sent := b\<rparr>) = s2s_tracked s"
  "s2s_tracked (s\<lparr>en_ended := b\<rparr>) = s2s_tracked s"
  "s2s_tracked (s\<lparr>en_triggered := b\<rparr>) = s2s_tracked s"
  "s2s_tracked (s\<lparr>en_decision_at := t\<rparr>) = s2s_tracked s"
  "s2s_tracked (s\<lparr>en_goodbye := g\<rparr>) = s2s_tracked s"
  "s2s_tracked (s\<lparr>en_voicemail := b\<rparr>) = s2s_tracked s"
  "s2s_tracked (s\<lparr>en_stamp_due := b\<rparr>) = s2s_tracked s"
  "s2s_tracked (s\<lparr>en_injecting := b\<rparr>) = s2s_tracked s"
  "s2s_tracked (s\<lparr>en_watching := b\<rparr>) = s2s_tracked s"
  "s2s_tracked (s\<lparr>en_instructions := is\<rparr>) = s2s_tracked s"
  "s2s_tracked (s\<lparr>en_synthesized := ss\<rparr>) = s2s_tracked s"
  "s2s_tracked (s\<lparr>en_s2s_armed := b\<rparr>) = s2s_tracked s"
  "s2s_tracked (s\<lparr>en_check_online := b\<rparr>) = s2s_tracked s"
  "s2s_tracked (s\<lparr>en_end_call := b\<rparr>) = s2s_tracked s"
  "s2s_tracked (s\<lparr>en_human_word := w\<rparr>) = s2s_tracked s"
  "s2s_tracked (s\<lparr>en_tool_running := b\<rparr>) = s2s_tracked s"
  "s2s_tracked (s\<lparr>en_s2s_tasks := en_s2s_tasks s + 1, en_s2s_timers := en_s2s_timers s @ [d]\<rparr>) = s2s_tracked s"
  "s2s_tracked (s\<lparr>en_closed := b\<rparr>) = s2s_tracked s"
  by (simp_all add: s2s_tracked_def)

lemma tracked_after_goodbye: "s2s_tracked s \<Longrightarrow> s2s_tracked (hangup_after_goodbye cfg r now s)"
  by (simp add: hangup_after_goodbye_def Let_def) (simp add: s2s_tracked_def)

lemma tracked_check: "s2s_tracked s \<Longrightarrow> s2s_tracked (snd (check_for_completion cfg now s))"
  by (simp add: check_for_completion_def silence_pass_def ask_if_online_def inject_and_run_llm_def Let_def
      tracked_after_goodbye split: option.split)

lemma tracked_tick: "s2s_tracked s \<Longrightarrow> s2s_tracked (watchdog_tick cfg now s)"
  using tracked_check [of s cfg now] by (auto simp: watchdog_tick_def split: prod.split pass.split)

lemma tracked_timer: "s2s_tracked s \<Longrightarrow> s2s_tracked (s2s_hangup_if_goodbye_never_comes cfg now s)"
proof (cases "en_s2s_timers s")
  case (Cons due rest)
  assume "s2s_tracked s"
  with Cons have "s2s_tracked (s\<lparr>en_s2s_timers := rest, en_s2s_tasks := en_s2s_tasks s - 1\<rparr>)"
    by (simp add: s2s_tracked_def)
  with Cons \<open>s2s_tracked s\<close> show ?thesis by (simp add: s2s_hangup_if_goodbye_never_comes_def Let_def)
qed (simp add: s2s_hangup_if_goodbye_never_comes_def)

lemma tracked_step: "s2s_tracked s \<Longrightarrow> s2s_tracked (ending_step cfg (now, e) s)"
  by (cases e)
     (simp_all add: tracked_tick tracked_timer agent_hangup_observer_def llm_hangup_def voicemail_found_def
        end_call_invoked_def enter_hangup_state_def end_call_drained_def end_call_on_component_error_def
        s2s_turn_done_def, simp add: s2s_end_call_def s2s_tracked_def)

text \<open>What a tick can do to the call when a tool seems to run.\<close>

definition unprompted :: "ending \<Rightarrow> bool \<times> bool \<times> (string \<times> string) list" where
  "unprompted s = (cl_asked_if_still_there (en_call s), en_injecting s, en_synthesized s)"

lemma unprompted_end [simp]:
  "unprompted (process_end_of_conversation cfg w now s) = unprompted s"
proof -
  have "unprompted (close_call cfg s) = unprompted s" for s
    by (simp add: unprompted_def close_call_def call_history_def Let_def)
  then have "unprompted (resume_teardown cfg now s) = unprompted s" for s
    by (simp add: resume_teardown_def poll_goodbye_def split: teardown_stage.split option.split)
       (simp add: unprompted_def)
  then show ?thesis by (simp add: process_end_of_conversation_def) (simp add: unprompted_def)
qed

lemma unprompted_after_goodbye:
  "ec_s2s cfg \<Longrightarrow> unprompted (hangup_after_goodbye cfg r now s) = unprompted s"
  by (simp add: hangup_after_goodbye_def process_call_hangup_def Let_def) (simp add: unprompted_def)

text \<open>
  On a speech-to-speech call the watchdog never asks whether the caller is still there and
  never repeats after a silence, although it has a branch for each: the loop of the typed chat is among the tool
  tasks from the start, and a tool that runs suppresses both.
\<close>

theorem s2s_never_asks:
  assumes "s = ending_run cfg evs (ending_init c g l online True)" and "ec_s2s cfg"
  shows "unprompted (watchdog_tick cfg now s) = unprompted s"
proof -
  have "s2s_tracked (ending_init c g l online True)" by (simp add: s2s_tracked_def ending_init_def)
  then have "s2s_tracked s" unfolding assms(1) by (rule run_induct) (rule tracked_step)
  then have "pending_generation s" by (simp add: s2s_tracked_def pending_generation_def)
  then have "unprompted (snd (check_for_completion cfg now s)) = unprompted s"
    using assms(2)
    by (simp add: check_for_completion_def silence_pass_def should_stall_hangup_def Let_def unprompted_after_goodbye
        split: option.split) (simp add: unprompted_def)
  moreover have "unprompted (s'\<lparr>en_watching := False\<rparr>) = unprompted s'" for s' by (simp add: unprompted_def)
  ultimately show ?thesis by (auto simp: watchdog_tick_def split: prod.split pass.split)
qed

section \<open>Silence\<close>

text \<open>
  C12: The watchdog hangs up for inactivity only on a real silence: longer than the configured
  limit on both sides, and, when it hangs up although the pipeline seems busy, with no audio playing, no generation
  pending and a silence of more than twenty seconds.
\<close>

theorem silence_justified:
  assumes "check_for_completion cfg now s = (Leaves, s')" and "\<not> cap_reached cfg now" and "\<not> en_triggered s"
  shows "0 < ec_hang_after cfg \<and> ai_silent now (ec_hang_after cfg) s \<and> user_silent now (ec_hang_after cfg) s \<and>
    (pipeline_busy s \<longrightarrow> \<not> in_playing (cl_input (en_call s)) \<and> \<not> pending_generation s \<and>
       ai_silent now STALL_HANGUP_FLOOR_S s \<and> user_silent now STALL_HANGUP_FLOOR_S s) \<and>
    s' = hangup_after_goodbye cfg INACTIVITY_TIMEOUT now s"
proof -
  have longer: "ai_silent now x s \<Longrightarrow> y \<le> x \<Longrightarrow> ai_silent now y s"
    "user_silent now x s \<Longrightarrow> y \<le> x \<Longrightarrow> user_silent now y s" for x y
    by (auto simp: ai_silent_def user_silent_def)
  have "silence_pass cfg now s = (Leaves, s')"
    using assms by (simp add: check_for_completion_def split: if_splits)
  then show ?thesis
    using longer [of "max (ec_hang_after cfg) STALL_HANGUP_FLOOR_S" "ec_hang_after cfg"]
      longer [of "max (ec_hang_after cfg) STALL_HANGUP_FLOOR_S" STALL_HANGUP_FLOOR_S]
    by (auto simp: silence_pass_def should_stall_hangup_def Let_def split: if_splits)
qed

section \<open>Sample calls\<close>

definition telephone_config :: ending_config where
  "telephone_config =
     \<lparr>ec_web = False, ec_turn_based = False, ec_s2s = False, ec_has_output = True, ec_has_transcriber = True,
      ec_mark_timeout = 10, ec_hang_after = 10, ec_online_after = 6, ec_online_message = None, ec_start = 0,
      ec_task_config = PNone, ec_clear_ok = (\<lambda>t. True), ec_turn_text = (\<lambda>t. [])\<rparr>"

definition quiet_call :: ending where
  "quiet_call = ending_init (idle_call\<lparr>cl_last_transmitted := 1, cl_turn_audio_flushed := True\<rparr>)
     (Some (Text_Message ''Bye'')) (Some ''en'') True False"

theorem goodbye_not_cut_witness:
  "let s = ending_run telephone_config [(5, Llm_Says_Hangup), (8, Goodbye_Played True)] quiet_call
   in en_message_queued s \<and> en_stops s = 1 \<and> goodbyes s = 1 \<and> en_ended s"
proof -
  let ?s = "ending_run telephone_config [(5, Llm_Says_Hangup), (8, Goodbye_Played True)] quiet_call"
  have "en_by_assistant ?s" "en_message_queued ?s" "goodbyes ?s = 1" by code_simp+
  then show ?thesis
    using goodbye_not_cut [OF refl, of telephone_config "[(5, Llm_Says_Hangup), (8, Goodbye_Played True)]"
        "idle_call\<lparr>cl_last_transmitted := 1, cl_turn_audio_flushed := True\<rparr>" "Some (Text_Message ''Bye'')"
        "Some ''en''" True False]
    unfolding quiet_call_def Let_def by blast
qed

definition pending_call :: ending where
  "pending_call = ending_run telephone_config [(5, Llm_Says_Hangup)] quiet_call"

lemma pending_call_flags:
  "en_watching pending_call" "\<not> en_injecting pending_call" "\<not> en_ended pending_call" "en_triggered pending_call"
  "en_triggered_at pending_call = Some 5" "cl_last_transmitted (en_call pending_call) \<noteq> 0"
  "playout_left pending_call = 0" "\<not> cap_reached telephone_config 16"
  by code_simp+

theorem overdue_goodbye_ends_witness:
  "\<not> en_ended (ending_run telephone_config [(14, Tick), (19, Teardown_Resumes), (29, Teardown_Resumes)] pending_call) \<and>
   en_ended (ending_run telephone_config [(16, Tick), (19, Teardown_Resumes), (29, Teardown_Resumes)] pending_call)"
proof
  show "\<not> en_ended (ending_run telephone_config [(14, Tick), (19, Teardown_Resumes), (29, Teardown_Resumes)] pending_call)"
    by code_simp
  have "ec_mark_timeout telephone_config = 10" by (simp add: telephone_config_def)
  then show "en_ended (ending_run telephone_config [(16, Tick), (19, Teardown_Resumes), (29, Teardown_Resumes)] pending_call)"
    using overdue_goodbye_ends [of pending_call telephone_config "[(5, Llm_Says_Hangup)]"
        "idle_call\<lparr>cl_last_transmitted := 1, cl_turn_audio_flushed := True\<rparr>" "Some (Text_Message ''Bye'')"
        "Some ''en''" True False 16 5 19 29] pending_call_flags
    by (simp add: pending_call_def [unfolded quiet_call_def] FLUSH_TIMEOUT_S_def Let_def del: ending_run_simps)
qed

theorem unwatched_goodbye_hangs_witness:
  "goodbyes (ending_run telephone_config [(20, Tick)] quiet_call) = 1 \<and>
   \<not> en_ended (ending_run telephone_config [(20, Tick), (40, Tick), (900, Conversation_End), (910, Teardown_Resumes), (9000, Teardown_Resumes)] quiet_call)"
proof
  show "goodbyes (ending_run telephone_config [(20, Tick)] quiet_call) = 1" by code_simp
  have "fst (check_for_completion telephone_config 20 quiet_call) = Leaves" by code_simp
  then obtain s' where leaves: "check_for_completion telephone_config 20 quiet_call = (Leaves, s')"
    by (metis prod.collapse)
  have flags: "\<not> cap_reached telephone_config 20" "py_strip (goodbye_text quiet_call) \<noteq> []" by code_simp+
  have init: "quiet_call = ending_run telephone_config [] (ending_init (idle_call\<lparr>cl_last_transmitted := 1,
      cl_turn_audio_flushed := True\<rparr>) (Some (Text_Message ''Bye'')) (Some ''en'') True False)"
    by (simp add: quiet_call_def)
  show "\<not> en_ended (ending_run telephone_config [(20, Tick), (40, Tick), (900, Conversation_End), (910, Teardown_Resumes), (9000, Teardown_Resumes)] quiet_call)"
    by (rule unwatched_goodbye_hangs [OF init _ _ _ _ _ _ leaves])
       (use flags in \<open>auto simp: quiet_call_def ending_init_def telephone_config_def split: if_splits\<close>)
qed

theorem silence_justified_witness:
  "ai_silent 20 10 quiet_call \<and> user_silent 20 10 quiet_call"
proof -
  have "fst (check_for_completion telephone_config 20 quiet_call) = Leaves" "\<not> cap_reached telephone_config 20"
    "\<not> en_triggered quiet_call" by code_simp+
  then show ?thesis
    using silence_justified [of telephone_config 20 quiet_call "snd (check_for_completion telephone_config 20 quiet_call)"]
    by (simp add: prod_eq_iff telephone_config_def)
qed

definition model_config :: ending_config where
  "model_config = telephone_config\<lparr>ec_s2s := True\<rparr>"

theorem s2s_never_asks_witness:
  "unprompted (watchdog_tick model_config 8 (ending_init (idle_call\<lparr>cl_last_transmitted := 1\<rparr>) None None True True)) = (False, False, []) \<and>
   unprompted (watchdog_tick telephone_config 8 quiet_call) = (True, False, [([], ''is_user_online_message'')])"
proof
  show "unprompted (watchdog_tick telephone_config 8 quiet_call) = (True, False, [([], ''is_user_online_message'')])"
    by code_simp
  have "ec_s2s model_config" by (simp add: model_config_def)
  then show "unprompted (watchdog_tick model_config 8 (ending_init (idle_call\<lparr>cl_last_transmitted := 1\<rparr>) None None True True)) = (False, False, [])"
    using s2s_never_asks [of _ model_config "[]"]
    by (simp add: unprompted_def) (simp add: ending_init_def idle_call_def)
qed

end
