(* ===== verification/Spec2Isabelle.thy ===== *)
theory Spec2Isabelle
  imports Prelude History Interruption Marks Playback History_Sync Output_Loop Repository
    Expression Templates Graph Graph_Validation Routing Graph_Runs
    Reachability Automation Deployment Graph_Versions Executions Workflows Campaigns Typed_Rows Auth_Store Login_Limiter Passwords
    Auth Auth_Admin Auth_Runs Auth_Properties
    Vault Tool_Vault Integrations Mcp_Client Tool_Registry Tool_Auth Tool_Executor Tool_Calls Tool_Governance
    Language_Detector Language_Switch Language_Runs Call_Ending Call_Ending_Runs
begin

text \<open>
  A verification development for a voice-agent platform: the Python package under
  \<open>src/voiceai\<close>. A deployed \<^emph>\<open>agent\<close> answers telephone and web calls; within a
  call a loop of tasks listens, generates and plays; behind it a store keeps tenants' graphs,
  executions, credentials and accounts.

  \<^bold>\<open>The parts, and the theories that model them.\<close>

  \<^item> \<^emph>\<open>The call.\<close> \<open>History\<close> (\<open>helpers/conversation_history.py\<close>) is the
    message list shown to the language model. \<open>Interruption\<close>
    (\<open>voice/session/interruption.py\<close>) keeps the turn-taking state: which response sequences may
    still be sent. \<open>Marks\<close> (\<open>helpers/mark_event_meta_data.py\<close>) is the ledger of audio
    marks, with its dictionaries in an explicit heap since the ledger and its history share them;
    \<open>Playback\<close> (\<open>voice/io/input/default.py\<close>) credits acknowledged marks as heard text.
    \<open>History_Sync\<close> (\<open>turn/history_sync.py\<close>) stages and commits a response and trims the
    history to what was heard; \<open>Output_Loop\<close> (\<open>turn/output_loop.py\<close>) decides for each
    packet to send, to wait or to drop it, and cleans up after a barge-in. It joins the four states in
    the record \<open>call_state\<close>.
  \<^item> \<^emph>\<open>Its end.\<close> \<open>Call_Ending\<close> (\<open>session/lifecycle/hangup.py\<close>) has the hangup with
    its goodbye, the teardown and the watchdog, with all that asks for an end, as coroutines that resume
    in any order over the call state; \<open>Call_Ending_Runs\<close> what holds in every run.
  \<^item> \<^emph>\<open>Its language.\<close> \<open>Language_Detector\<close> (\<open>lid/base.py\<close>,
    \<open>session/language/lid_gate.py\<close>) has the detector's turn buffer, the readers of its evidence and
    the gate that holds a turn's audio; \<open>Language_Switch\<close>
    (\<open>session/language/switcher.py\<close>, \<open>handoff.py\<close>) the decision and the flip, over a session
    that contains the call state and uses its cleanup; \<open>Language_Runs\<close> what both guarantee.
  \<^item> \<^emph>\<open>The brain.\<close> \<open>Expression\<close> (\<open>helpers/expression_evaluator.py\<close>) and
    \<open>Templates\<close> (\<open>helpers/utils.py\<close>) evaluate conditions and prompts.
    \<open>Graph\<close> and \<open>Routing\<close> (\<open>agents/brains/graph\<close>) are the graph agent: its state, its
    traversal, the decision of the next node and a turn (\<open>generate\<close>); \<open>Graph_Validation\<close>
    (\<open>agents/models/brains.py\<close>) validates its configuration; \<open>Graph_Runs\<close> is about runs.
  \<^item> \<^emph>\<open>The builder.\<close> \<open>Reachability\<close> and \<open>Automation\<close>
    (\<open>automation/engine.py\<close>) validate, try out and deploy a canvas; \<open>Deployment\<close> reads the
    deployed body as the runtime does and relates the two; \<open>Graph_Versions\<close>
    (\<open>automation/service.py\<close>) stores graphs and their snapshots.
  \<^item> \<^emph>\<open>Storage.\<close> \<open>Repository\<close> (\<open>database/repository.py\<close>,
    \<open>scoped.py\<close>) is the document store with its tenant view; \<open>Typed_Rows\<close> the same backend
    over typed rows, which the accounts and the tools use.
  \<^item> \<^emph>\<open>Calls in bulk.\<close> \<open>Executions\<close> (\<open>modules/executions\<close>) records calls;
    \<open>Workflows\<close> and \<open>Campaigns\<close> (\<open>platform\<close>) drive contacts, batches and campaigns.
  \<^item> \<^emph>\<open>Accounts.\<close> \<open>Auth_Store\<close>, \<open>Login_Limiter\<close>, \<open>Passwords\<close>,
    \<open>Auth\<close> and \<open>Auth_Admin\<close> (\<open>modules/auth\<close>) are the rows and the denylist, the
    throttles, the hashes, the service and the administration; \<open>Auth_Runs\<close> makes the requests a
    system and \<open>Auth_Properties\<close> states what holds in it.
  \<^item> \<^emph>\<open>Tools.\<close> \<open>Vault\<close> (\<open>modules/tools/vault.py\<close>) seals secrets;
    \<open>Tool_Vault\<close> has the rows and who may see them; \<open>Integrations\<close>
    (\<open>integration_service.py\<close>) connects, resolves and suspends credentials; \<open>Tool_Registry\<close>
    (\<open>service.py\<close>, \<open>dcr_service.py\<close>) keeps and synchronises tools; \<open>Mcp_Client\<close>
    (\<open>adapters/mcp/client.py\<close>) speaks to a tool server; \<open>Tool_Auth\<close>
    (\<open>auth_resolver.py\<close>, \<open>common/security.py\<close>) checks arguments, redacts and signs;
    \<open>Tool_Executor\<close> (\<open>executor.py\<close>) executes one call. \<open>Tool_Calls\<close> states what a
    call sends and files, \<open>Tool_Governance\<close> what the vault keeps over every sequence of requests.

  \<^bold>\<open>How code is read.\<close> An object is a record, an operation a function on it that returns the
  new state; an exception or an error answer is the left value of a sum; an enum a datatype. JSON-like
  values are \<open>pyval\<close>, dictionaries association lists in insertion order (\<open>Prelude\<close>, with
  Python's string methods on the characters 0 to 255). A float is an exact rational, or an infinity
  or NaN where the code can meet one; clocks are arguments, and all readings within one operation see the same
  value unless the operation takes several. What is not in the repository (language models, HTTP and
  MCP servers, the JWT library, the cipher, hashes, random sources, Redis, JSON parsing, address resolution) is an
  argument of the definitions that use it. Where an operation waits, other tasks may run: what they do
  is a function of the state (\<open>Language_Switch\<close>, \<open>Campaigns\<close>), or the operations between the
  waits are separate steps of a run (\<open>Output_Loop\<close>, \<open>Call_Ending\<close>, \<open>Auth_Runs\<close>).

  \<^bold>\<open>Interfaces.\<close> The locale \<open>repository\<close> states what a document store promises. It is
  interpreted on the in-memory backend (\<open>mem\<close>); \<open>tenant_view\<close> builds the tenant's view over any
  repository and is itself one (\<open>sublocale\<close>), interpreted as \<open>scoped\<close>. \<open>raw_repository\<close> and
  \<open>raw_view\<close> add the raw queries of the graph store, \<open>version_store\<close> the laws its service needs
  (interpretation \<open>tenant_graphs\<close>), \<open>execution_store\<close> those of the call records
  (interpretation \<open>memory\<close>). Properties about stores follow from these interpretations.

  \<^bold>\<open>What is shown.\<close>

  \<^item> \<^emph>\<open>Call.\<close> The history handed to the model keeps the provider's tool-call contract through
    repair, trimming and synchronisation; after a barge-in no older audio is sent; the history changes
    only by committing what was sent; a stale speaking flag cannot hold audio; a call is torn down once, after its
    goodbye was heard or given up, and a goodbye that is watched ends in bounded time; a language switch rests
    on the evidence its gates demand, holds audio for a bounded time, leaves one record per decision and one
    note in the prompt.
  \<^item> \<^emph>\<open>Brain and builder.\<close> The node history is a walk of the configured graph; a chain of
    silent routers ends; on a validated configuration a turn reaches a node that speaks; the validator's
    search accepts exactly the acyclic router graphs; a canvas the builder accepts is loaded as the
    same graph unless its routers form a cycle.
  \<^item> \<^emph>\<open>Stores.\<close> A tenant's view touches its own rows only; restoring a version is reversible; a
    driven call ends once; workflow runs are bounded; a stopped batch stays stopped.
  \<^item> \<^emph>\<open>Accounts.\<close> Revocation reaches every later state, refresh tokens are used once, an
    organization keeps an owner, roles are traced to their origin, the throttle and the denylist are exact.
  \<^item> \<^emph>\<open>Tools.\<close> Nothing is sent before every guard has passed, every request is signed with
    what the tool's pointer resolves to, each call files one redacted row; redaction hides what it
    should; an envelope opens only as it was sealed; one credential per natural key; a policy suspends
    exactly the rows it names; a synchronisation spares foreign rows.

  Some theorems state a defect: what the code does where its documentation promises something else
  (a suspended credential is still opened by the executor, a streamed tool listing is read as
  empty, a confidence that is not a number passes the confidence gate, a goodbye after the watchdog's own hangup is
  waited for without bound, a deployed canvas can hold a cycle of routers).

  \<^bold>\<open>Bounds and fuel.\<close> Loops are structural recursions or functions with a measure: the
  three-colour search counts white nodes, a router chain the routers not yet visited, the dry run and the workflow
  run their step limits (20 and 50 steps in the code). Fuel appears in the page walk of
  \<open>Repository\<close> (one unit per page; one more than the number of rows is shown to be enough), in the printing of
  floats (\<open>decimals\<close> 340 and \<open>exponent10\<close> 400, beyond the range of a double), in the output loop (one
  unit per reading of the clock), and in the listing of an MCP server, where the fifty pages are the code's own bound. Lookups that
  the code bounds by a hundred rows are bounded in the model too.

  \<^bold>\<open>Not modelled.\<close> Speech recognition, synthesis, telephony and model clients and the
  speech-to-speech relays are protocols of external services over asyncio; the legacy task manager, the
  session composition, the turn pipeline, container and configuration wire the modelled parts
  together; controllers and schemas decode requests; the report of a call is a dictionary assembled
  from the ledgers; the remaining modules (numbers, wallet, knowledge, voices, catalog,
  privacy, webhooks, chat, health, OAuth, seed data, tooling) are proxies, collections over the
  modelled repository or one-off scripts. MongoDB's backend is one driver call per operation. In
  modelled parts, logging, telemetry that nothing reads, and sleeping are left out.
\<close>

end
